(* ===== verification/Prelude.thy ===== *)
theory Prelude
  imports Main "HOL-Library.Word" "HOL-Library.List_Lexorder" "HOL-Library.Char_ord"
    "HOL-Library.Signed_Division" "HOL-Library.Multiset"
begin

unbundle bit_operations_syntax

section \<open>Shared types, automation and lemmas\<close>

text \<open>
  The vocabulary every component of the gateway shares. A Go \<open>string\<close> and a Go \<open>[]byte\<close> are
  both finite sequences of bytes, so both are HOL's \<^typ>\<open>string\<close>, a list of 8-bit characters;
  the order that \<^theory_text>\<open>HOL-Library.List_Lexorder\<close> and \<^theory_text>\<open>HOL-Library.Char_ord\<close> give
  them is Go's bytewise \<open><\<close> on strings. A Go \<open>int64\<close> (and \<open>int\<close>, on the 64-bit hosts the
  gateway is built for) is a \<^typ>\<open>64 word\<close> read with \<^const>\<open>sint\<close>: \<open>+\<close> and \<open>*\<close> wrap, and the
  comparisons are the signed ones. Where the code distinguishes a nil slice from an empty one the
  model has an optional list, \<^const>\<open>None\<close> for nil. Errors are the left side of a sum.

  The bounded identifier patterns of the sources (\<open>regexp.MustCompile\<close> of a character class
  followed by a bounded repetition of a second class, anchored at both ends) are instances of
  \<open>bounded_pattern\<close>, and the UUID pattern, written out in seven packages, is \<open>uuidPattern\<close>.
\<close>

type_synonym bytes = string
type_synonym int64 = "64 word"
type_synonym 'a slice = "'a list option"

named_theorems pattern_defs \<open>definitions of the anchored identifier patterns\<close>
named_theorems wf_intros \<open>introduction rules for well-formedness predicates\<close>

subsection \<open>Results\<close>

abbreviation bind_result :: "'e + 'a \<Rightarrow> ('a \<Rightarrow> 'e + 'b) \<Rightarrow> 'e + 'b" where
  "bind_result r k \<equiv> (case r of Inl e \<Rightarrow> Inl e | Inr x \<Rightarrow> k x)"

lemma case_sum_Inr_iff [simp]:
  "(case r of Inl e \<Rightarrow> Inl e | Inr x \<Rightarrow> k x) = Inr y \<longleftrightarrow> (\<exists>x. r = Inr x \<and> k x = Inr y)"
  by (cases r) auto

lemma not_Inl_iff: "(\<forall>e. r \<noteq> Inl e) \<longleftrightarrow> (\<exists>x. r = Inr x)"
  by (cases r) auto

subsection \<open>Slices that may be nil\<close>

definition slice_list :: "'a slice \<Rightarrow> 'a list" where
  "slice_list s = (case s of None \<Rightarrow> [] | Some xs \<Rightarrow> xs)"

lemma slice_list_simps [simp]:
  "slice_list None = []" "slice_list (Some xs) = xs"
  by (simp_all add: slice_list_def)

subsection \<open>Lists\<close>

lemma append_stop_unique:
  assumes "list_all P s" and "list_all P t" and "\<not> P c" and "s @ c # u = t @ c # v"
  shows "s = t \<and> u = v"
  using assms
proof (induction s arbitrary: t)
  case Nil
  then show ?case by (cases t) auto
next
  case (Cons a s)
  then show ?case by (cases t) auto
qed

lemma find_append:
  "find P (xs @ ys) = (case find P xs of None \<Rightarrow> find P ys | Some x \<Rightarrow> Some x)"
  by (induction xs) auto

subsection \<open>Character classes\<close>

definition is_lower :: "char \<Rightarrow> bool" where
  "is_lower c \<longleftrightarrow> CHR ''a'' \<le> c \<and> c \<le> CHR ''z''"

definition is_upper :: "char \<Rightarrow> bool" where
  "is_upper c \<longleftrightarrow> CHR ''A'' \<le> c \<and> c \<le> CHR ''Z''"

definition is_digit :: "char \<Rightarrow> bool" where
  "is_digit c \<longleftrightarrow> CHR ''0'' \<le> c \<and> c \<le> CHR ''9''"

definition is_alnum :: "char \<Rightarrow> bool" where
  "is_alnum c \<longleftrightarrow> is_lower c \<or> is_upper c \<or> is_digit c"

definition is_lower_hex :: "char \<Rightarrow> bool" where
  "is_lower_hex c \<longleftrightarrow> is_digit c \<or> (CHR ''a'' \<le> c \<and> c \<le> CHR ''f'')"

lemmas char_class_defs = is_lower_def is_upper_def is_digit_def is_alnum_def is_lower_hex_def

subsection \<open>Anchored identifier patterns\<close>

text \<open>\<open>^[first][rest]{0,n}$\<close>: Go's \<open>$\<close> without the \<open>m\<close> flag matches at the end of the text only.\<close>

definition bounded_pattern :: "(char \<Rightarrow> bool) \<Rightarrow> (char \<Rightarrow> bool) \<Rightarrow> nat \<Rightarrow> string \<Rightarrow> bool" where
  "bounded_pattern first rest n s =
     (case s of [] \<Rightarrow> False | c # cs \<Rightarrow> first c \<and> length cs \<le> n \<and> list_all rest cs)"

lemma bounded_pattern_simps [simp]:
  "\<not> bounded_pattern first rest n []"
  "bounded_pattern first rest n (c # cs) \<longleftrightarrow> first c \<and> length cs \<le> n \<and> list_all rest cs"
  by (simp_all add: bounded_pattern_def)

lemma bounded_pattern_nonempty [dest]: "bounded_pattern first rest n s \<Longrightarrow> s \<noteq> []"
  by auto

lemma bounded_pattern_length: "bounded_pattern first rest n s \<Longrightarrow> length s \<le> Suc n"
  by (cases s) auto

lemma bounded_pattern_mono:
  assumes "bounded_pattern f r n s"
    and "\<And>c. f c \<Longrightarrow> f' c" and "\<And>c. r c \<Longrightarrow> r' c" and "n \<le> n'"
  shows "bounded_pattern f' r' n' s"
  using assms by (cases s) (auto simp: list_all_iff)

lemma bounded_pattern_all:
  assumes "bounded_pattern f r n s" and "\<And>c. f c \<Longrightarrow> P c" and "\<And>c. r c \<Longrightarrow> P c"
  shows "list_all P s"
  using assms by (cases s) (auto simp: list_all_iff)

text \<open>\<open>^[0-9a-f]{n1}-[0-9a-f]{n2}-...$\<close>: hexadecimal groups of fixed lengths joined by dashes.\<close>

fun hex_groups :: "nat list \<Rightarrow> string \<Rightarrow> bool" where
  "hex_groups [] s \<longleftrightarrow> s = []"
| "hex_groups [n] s \<longleftrightarrow> length s = n \<and> list_all is_lower_hex s"
| "hex_groups (n # m # ns) s \<longleftrightarrow>
     n \<le> length s \<and> list_all is_lower_hex (take n s) \<and>
     (case drop n s of c # r \<Rightarrow> c = CHR ''-'' \<and> hex_groups (m # ns) r | [] \<Rightarrow> False)"

definition uuidPattern :: "string \<Rightarrow> bool" where
  "uuidPattern s = hex_groups [8, 4, 4, 4, 12] s"

lemma hex_groups_chars:
  "hex_groups ns s \<Longrightarrow> list_all (\<lambda>c. is_lower_hex c \<or> c = CHR ''-'') s"
proof (induction ns s rule: hex_groups.induct)
  case (3 n m ns s)
  then obtain c r where r: "drop n s = c # r"
    by (auto split: list.splits)
  have "s = take n s @ c # r"
    by (metis append_take_drop_id r)
  moreover have "list_all (\<lambda>c. is_lower_hex c \<or> c = CHR ''-'') (take n s @ c # r)"
    using 3 r by (auto simp: list_all_iff)
  ultimately show ?case by metis
qed (auto simp: list_all_iff)

lemma hex_groups_append:
  assumes "length g = n" and "list_all is_lower_hex g" and "hex_groups (m # ns) r"
  shows "hex_groups (n # m # ns) (g @ CHR ''-'' # r)"
  using assms by simp

lemma uuidPattern_chars: "uuidPattern s \<Longrightarrow> list_all (\<lambda>c. is_lower_hex c \<or> c = CHR ''-'') s"
  unfolding uuidPattern_def by (rule hex_groups_chars)

lemma hex_groups_length:
  "hex_groups ns s \<Longrightarrow> length s = sum_list ns + (length ns - 1)"
proof (induction ns s rule: hex_groups.induct)
  case (3 n m ns s)
  from 3(2) obtain c r where r: "drop n s = c # r" and h: "c = CHR ''-''" "hex_groups (m # ns) r"
    and n: "n \<le> length s"
    by (auto split: list.splits)
  from 3(1) [OF r h(2)] have "length r = sum_list (m # ns) + (length (m # ns) - 1)" .
  moreover have "length s = n + length (drop n s)" using n by simp
  ultimately show ?case using r by simp
qed auto

lemma uuidPattern_length: "uuidPattern s \<Longrightarrow> length s = 36"
  unfolding uuidPattern_def by (drule hex_groups_length) simp

subsection \<open>The duplicate check of the validation loops\<close>

text \<open>
  Several validators walk a slice with a \<open>seen\<close> set and stop at the first element that fails a
  test or was seen before. \<open>distinct_scan\<close> is that loop; it decides distinctness.
\<close>

fun distinct_scan :: "('a \<Rightarrow> bool) \<Rightarrow> 'a set \<Rightarrow> 'a list \<Rightarrow> bool" where
  "distinct_scan ok seen [] = True"
| "distinct_scan ok seen (x # xs) =
     (if \<not> ok x then False else if x \<in> seen then False else distinct_scan ok (insert x seen) xs)"

lemma distinct_scan_iff:
  "distinct_scan ok seen xs \<longleftrightarrow> list_all ok xs \<and> distinct xs \<and> set xs \<inter> seen = {}"
  by (induction xs arbitrary: seen) auto

text \<open>The same loop with the additional demand that every element exceeds the previous one.\<close>

fun ascending_scan :: "('a::linorder \<Rightarrow> bool) \<Rightarrow> 'a set \<Rightarrow> 'a option \<Rightarrow> 'a list \<Rightarrow> bool" where
  "ascending_scan ok seen previous [] = True"
| "ascending_scan ok seen previous (x # xs) =
     (if \<not> ok x then False
      else if x \<in> seen then False
      else if (case previous of None \<Rightarrow> False | Some p \<Rightarrow> x \<le> p) then False
      else ascending_scan ok (insert x seen) (Some x) xs)"

lemma ascending_scan_Some:
  "(\<And>y. y \<in> seen \<Longrightarrow> y \<le> p) \<Longrightarrow>
   ascending_scan ok seen (Some p) xs \<longleftrightarrow> list_all ok xs \<and> sorted_wrt (<) (p # xs)"
proof (induction xs arbitrary: seen p)
  case (Cons x xs)
  show ?case
  proof (cases "p < x")
    case True
    then have "y \<le> x" if "y \<in> insert x seen" for y using that Cons.prems by fastforce
    then have IH: "ascending_scan ok (insert x seen) (Some x) xs \<longleftrightarrow> list_all ok xs \<and> sorted_wrt (<) (x # xs)"
      by (rule Cons.IH)
    have "x \<notin> seen" using True Cons.prems by fastforce
    then have "ascending_scan ok seen (Some p) (x # xs) \<longleftrightarrow> ok x \<and> list_all ok xs \<and> sorted_wrt (<) (x # xs)"
      using True IH by auto
    also have "sorted_wrt (<) (x # xs) \<longleftrightarrow> sorted_wrt (<) (p # x # xs)"
      using True by (auto intro: less_trans)
    finally show ?thesis by simp
  next
    case False
    then show ?thesis by auto
  qed
qed simp

lemma ascending_scan_iff:
  "ascending_scan ok {} None xs \<longleftrightarrow> list_all ok xs \<and> sorted_wrt (<) xs"
proof (cases xs)
  case (Cons y ys)
  then show ?thesis using ascending_scan_Some [of "{y}" y ok ys] by auto
qed simp

subsection \<open>Sorting\<close>

text \<open>
  \<open>sort.Strings\<close> and \<open>sort.SliceStable\<close> by a string key are \<^const>\<open>sort\<close> and \<^const>\<open>sort_key\<close>.
\<close>

lemma sort_strict [simp, intro]: "distinct xs \<Longrightarrow> sorted_wrt (<) (sort xs)"
  by (simp add: strict_sorted_iff)

lemma sort_of_sorted: "sorted_wrt (<) xs \<Longrightarrow> sort xs = xs"
  by (simp add: strict_sorted_iff sorted_sort_id)

lemma sort_eq_of_set:
  assumes "distinct xs" and "distinct ys" and "set xs = set ys"
  shows "sort xs = sort ys"
  by (rule sorted_distinct_set_unique) (use assms in auto)

lemma sort_key_eq_of_set:
  assumes "distinct (map f xs)" and "distinct (map f ys)" and "set xs = set ys"
  shows "sort_key f xs = sort_key f ys"
proof -
  have m: "mset xs = mset ys"
    using assms by (metis distinct_map set_eq_iff_mset_eq_distinct [of xs ys])
  show ?thesis
  proof (rule properties_for_sort_key)
    show "mset (sort_key f ys) = mset xs" using m by simp
    show "filter (\<lambda>x. f k = f x) (sort_key f ys) = filter (\<lambda>x. f k = f x) xs" if "k \<in> set (sort_key f ys)" for k
    proof -
      have inj: "inj_on f (set xs)" using assms(1) by (simp add: distinct_map)
      have one: "filter (\<lambda>x. f k = f x) zs = [k]" if "distinct zs" "k \<in> set zs" "inj_on f (set zs)" for zs
        using that by (induction zs) (auto simp: filter_empty_conv inj_on_def)
      have "filter (\<lambda>x. f k = f x) (sort_key f ys) = [k]"
        using that assms inj by (intro one) (auto simp: distinct_map)
      moreover have "filter (\<lambda>x. f k = f x) xs = [k]"
        using that assms inj by (intro one) (auto simp: distinct_map)
      ultimately show ?thesis by simp
    qed
    show "sorted (map f (sort_key f ys))" by simp
  qed
qed

subsection \<open>Signed 64-bit arithmetic\<close>

text \<open>
  \<open>max_int64\<close> and \<open>min_int64\<close> are the bounds of the range; Go's \<open>/\<close> on \<open>int64\<close> truncates
  towards zero and wraps at \<open>min_int64 / -1\<close>, which \<open>quot64\<close> does by wrapping the result.
\<close>

definition quot64 :: "int64 \<Rightarrow> int64 \<Rightarrow> int64" where
  "quot64 a b = word_of_int (sint a sdiv sint b)"

abbreviation int64_range :: "int set" where
  "int64_range \<equiv> {- (2 ^ 63)..<2 ^ 63}"

lemma sint_in_range [simp, intro]: "sint (a :: int64) \<in> int64_range"
  using sint_greater_eq [of a] sint_less [of a] by simp

lemma sint_ge_min: "- 9223372036854775808 \<le> sint (a :: int64)"
  using sint_greater_eq [of a] by simp

lemma sint_le_max: "sint (a :: int64) \<le> 9223372036854775807"
  using sint_less [of a] by simp

lemma sint_word_of_int:
  "x \<in> int64_range \<Longrightarrow> sint (word_of_int x :: int64) = x"
  by (simp add: signed_of_int signed_take_bit_int_eq_self)

lemma sint_add_in_range:
  "sint a + sint b \<in> int64_range \<Longrightarrow> sint (a + b :: int64) = sint a + sint b"
  by (simp add: sint_word_ariths signed_take_bit_int_eq_self)

lemma sint_mult_in_range:
  "sint a * sint b \<in> int64_range \<Longrightarrow> sint (a * b :: int64) = sint a * sint b"
  by (simp add: sint_word_ariths signed_take_bit_int_eq_self)

lemma sint_sub_in_range:
  "sint a - sint b \<in> int64_range \<Longrightarrow> sint (a - b :: int64) = sint a - sint b"
  by (simp add: sint_word_ariths signed_take_bit_int_eq_self)

lemma int64_eq_iff: "(a :: int64) = b \<longleftrightarrow> sint a = sint b"
  by (simp add: word_eq_iff_signed)

lemma sint_add_overflow:
  assumes "9223372036854775807 < sint a + sint b"
  shows "sint (a + b :: int64) < 0"
proof -
  have "a + b = word_of_int (sint a + sint b)"
    by (simp only: wi_hom_add [symmetric] scast_eq [symmetric] scast_id)
  also have "\<dots> = word_of_int (sint a + sint b - 18446744073709551616)"
    by (rule word_of_int_eq_iff [THEN iffD2]) (simp add: take_bit_eq_mod)
  finally have wrapped: "a + b = word_of_int (sint a + sint b - 18446744073709551616)" .
  have "sint (a + b) = sint a + sint b - 18446744073709551616"
    unfolding wrapped by (rule sint_word_of_int) (use assms sint_le_max [of a] sint_le_max [of b] in simp)
  then show ?thesis using sint_le_max [of a] sint_le_max [of b] by simp
qed

lemma unat_nat_sint: "0 \<le> sint (x :: int64) \<Longrightarrow> unat x = nat (sint x)"
  using sint_le_max [of x] by (simp add: unat_eq_nat_uint uint_sint take_bit_int_eq_self)

lemma sint_of_nat: "n < 2 ^ 63 \<Longrightarrow> sint (of_nat n :: int64) = int n"
  using sint_word_of_int [of "int n"] by simp

lemmas int64_less = word_sless_alt [where 'a = 64]
lemmas int64_le = word_sle_eq [where 'a = 64]

subsection \<open>Decimal digits\<close>

text \<open>\<open>strconv.AppendInt\<close> in base ten, the form in which the code prints its integers.\<close>

definition digit_char :: "nat \<Rightarrow> char" where
  "digit_char d = char_of (48 + d)"

fun nat_digits :: "nat \<Rightarrow> string" where
  "nat_digits n = (if n < 10 then [digit_char n] else nat_digits (n div 10) @ [digit_char (n mod 10)])"

declare nat_digits.simps [simp del]

definition int_digits :: "int \<Rightarrow> string" where
  "int_digits i = (if i < 0 then CHR ''-'' # nat_digits (nat (- i)) else nat_digits (nat i))"

definition digits_value :: "string \<Rightarrow> nat" where
  "digits_value s = foldl (\<lambda>acc c. 10 * acc + (of_char c - 48)) 0 s"

lemma of_char_digit_char: "d < 10 \<Longrightarrow> of_char (digit_char d) = 48 + d"
  by (simp add: digit_char_def)

lemma is_digit_digit_char: "d < 10 \<Longrightarrow> is_digit (digit_char d)"
  by (simp add: is_digit_def less_eq_char_def of_char_digit_char)

lemma nat_digits_digits: "list_all is_digit (nat_digits n)"
proof (induction n rule: nat_digits.induct)
  case (1 n)
  then show ?case
    by (subst nat_digits.simps) (auto simp: is_digit_digit_char list_all_append)
qed

lemma nat_digits_nonempty [simp]: "nat_digits n \<noteq> []"
  by (subst nat_digits.simps) simp

lemma digits_value_nat_digits [simp]: "digits_value (nat_digits n) = n"
proof (induction n rule: nat_digits.induct)
  case (1 n)
  show ?case
  proof (cases "n < 10")
    case True
    then show ?thesis
      by (subst nat_digits.simps) (simp add: digits_value_def of_char_digit_char)
  next
    case False
    with 1 have "digits_value (nat_digits (n div 10)) = n div 10" by simp
    then show ?thesis using False
      by (subst nat_digits.simps) (simp add: digits_value_def of_char_digit_char)
  qed
qed

lemma nat_digits_inject [simp]: "nat_digits m = nat_digits n \<longleftrightarrow> m = n"
  by (metis digits_value_nat_digits)

lemma nat_digits_head: "\<exists>c cs. nat_digits n = c # cs \<and> is_digit c"
  using nat_digits_digits [of n] by (cases "nat_digits n") auto

lemma not_is_digit_minus [simp]: "\<not> is_digit (CHR ''-'')"
  by (simp add: is_digit_def)

lemma int_digits_inject [simp]: "int_digits i = int_digits j \<longleftrightarrow> i = j"
proof -
  have "CHR ''-'' # s \<noteq> nat_digits n" for s n
    using nat_digits_head [of n] by (metis list.inject not_is_digit_minus)
  then show ?thesis
    by (auto simp: int_digits_def dest: sym split: if_splits)
qed

end
