(* ===== verification/Encoding.thy ===== *)
theory Encoding
  imports Prelude
begin

section \<open>Hexadecimal and base64 text encodings\<close>

text \<open>
  The parts of Go's \<open>encoding/hex\<close> and \<open>encoding/base64\<close> the gateway uses: \<open>hex.EncodeToString\<close>,
  \<open>hex.DecodeString\<close>, and \<open>base64.RawURLEncoding\<close> (URL alphabet, no padding). Both decoders accept
  more texts than the encoders produce (upper-case hexadecimal digits; line breaks and non-zero
  trailing bits in base64), which is why the code re-encodes what it decoded and compares. The
  locale \<open>text_codec\<close> states the contract of such a pair and derives what the re-encoding check
  gives; it is interpreted on both codecs.
\<close>

subsection \<open>The contract of an encoder and its lenient decoder\<close>

locale text_codec =
  fixes enc :: "bytes \<Rightarrow> string"
    and dec :: "string \<Rightarrow> bytes option"
  assumes dec_enc: "dec (enc b) = Some b"
begin

lemma enc_inject: "enc a = enc b \<longleftrightarrow> a = b"
  by (metis dec_enc option.inject)

text \<open>The check \<open>err != nil || Encode(raw) != text\<close> accepts exactly the encoder's outputs.\<close>

lemma strict_accepts_iff:
  "(\<exists>b. dec s = Some b \<and> enc b = s) \<longleftrightarrow> s \<in> range enc"
  by (auto simp: dec_enc)

lemma strict_decode_unique:
  "dec s = Some b \<Longrightarrow> enc b = s \<Longrightarrow> dec s = Some b' \<Longrightarrow> enc b' = s' \<Longrightarrow> s = s'"
  by auto

end

subsection \<open>Hexadecimal\<close>

definition hex_digit :: "nat \<Rightarrow> char" where
  "hex_digit n = (if n < 10 then char_of (48 + n) else char_of (87 + n))"

fun hex_encode :: "bytes \<Rightarrow> string" where
  "hex_encode [] = []"
| "hex_encode (b # bs) = hex_digit (of_char b div 16) # hex_digit (of_char b mod 16) # hex_encode bs"

definition fromHexChar :: "char \<Rightarrow> nat option" where
  "fromHexChar c =
     (if is_digit c then Some (of_char c - 48)
      else if CHR ''a'' \<le> c \<and> c \<le> CHR ''f'' then Some (of_char c - 97 + 10)
      else if CHR ''A'' \<le> c \<and> c \<le> CHR ''F'' then Some (of_char c - 65 + 10)
      else None)"

fun hex_decode :: "string \<Rightarrow> bytes option" where
  "hex_decode [] = Some []"
| "hex_decode [c] = None"
| "hex_decode (a # b # s) =
     (case (fromHexChar a, fromHexChar b) of
        (Some x, Some y) \<Rightarrow> map_option (Cons (char_of (16 * x + y))) (hex_decode s)
      | _ \<Rightarrow> None)"

lemma fromHexChar_hex_digit: "n < 16 \<Longrightarrow> fromHexChar (hex_digit n) = Some n"
  by (auto simp: fromHexChar_def hex_digit_def is_digit_def less_eq_char_def)

lemma is_lower_hex_hex_digit: "n < 16 \<Longrightarrow> is_lower_hex (hex_digit n)"
  by (auto simp: hex_digit_def is_lower_hex_def is_digit_def less_eq_char_def)

lemma of_char_less_256 [simp]: "of_char c < (256 :: nat)"
  by (metis atLeastLessThan_iff range_eqI range_nat_of_char)

lemma of_char_div_16 [simp]: "of_char c div 16 < (16 :: nat)"
  using of_char_less_256 [of c] by linarith

lemma char_of_nibbles [simp]: "char_of (16 * (of_char c div 16) + of_char c mod 16 :: nat) = c"
  by (metis char_of_char mult_div_mod_eq)

lemma hex_decode_encode [simp]: "hex_decode (hex_encode bs) = Some bs"
  by (induction bs) (simp_all add: fromHexChar_hex_digit)

lemma length_hex_encode [simp]: "length (hex_encode bs) = 2 * length bs"
  by (induction bs) simp_all

lemma hex_encode_lower: "list_all is_lower_hex (hex_encode bs)"
  by (induction bs) (simp_all add: is_lower_hex_hex_digit)

lemma hex_encode_append: "hex_encode (xs @ ys) = hex_encode xs @ hex_encode ys"
  by (induction xs) simp_all

interpretation hex: text_codec hex_encode hex_decode
  by unfold_locales simp

lemma hex_digit_fromHexChar: "is_lower_hex c \<Longrightarrow> \<exists>n < 16. fromHexChar c = Some n \<and> hex_digit n = c"
proof -
  assume "is_lower_hex c"
  then have "of_char c \<in> {48..57} \<union> {97..102 :: nat}"
    by (auto simp: is_lower_hex_def is_digit_def less_eq_char_def)
  then obtain k :: nat where k: "c = char_of k" "k \<in> {48..57} \<union> {97..102}"
    by (metis char_of_char)
  show ?thesis
  proof (cases "k \<le> 57")
    case True
    with k show ?thesis
      by (intro exI [of _ "k - 48"]) (auto simp: fromHexChar_def hex_digit_def is_digit_def less_eq_char_def)
  next
    case False
    with k show ?thesis
      by (intro exI [of _ "k - 87"]) (auto simp: fromHexChar_def hex_digit_def is_digit_def less_eq_char_def)
  qed
qed

text \<open>Every even-length lower-case hexadecimal text is the encoding of its decoding.\<close>

lemma lower_hex_is_encoding:
  "list_all is_lower_hex s \<Longrightarrow> even (length s) \<Longrightarrow> \<exists>b. hex_decode s = Some b \<and> hex_encode b = s"
proof (induction s rule: hex_decode.induct)
  case (3 a b s)
  obtain x where x: "x < 16" "fromHexChar a = Some x" "hex_digit x = a"
    using "3.prems" hex_digit_fromHexChar [of a] by auto
  obtain y where y: "y < 16" "fromHexChar b = Some y" "hex_digit y = b"
    using "3.prems" hex_digit_fromHexChar [of b] by auto
  have "even (length s)" "list_all is_lower_hex s" using "3.prems" by auto
  with "3.IH" x y obtain t where t: "hex_decode s = Some t" "hex_encode t = s" by auto
  have "(16 * x + y) mod 256 = 16 * x + y" using x y by simp
  with x y t show ?case by simp
qed auto

lemma hex_strict_iff:
  "(\<exists>b. hex_decode s = Some b \<and> hex_encode b = s) \<longleftrightarrow> list_all is_lower_hex s \<and> even (length s)"
  using lower_hex_is_encoding [of s] hex_encode_lower by fastforce

subsection \<open>Base64 with the URL alphabet and no padding\<close>

definition b64_char :: "nat \<Rightarrow> char" where
  "b64_char n =
     (if n < 26 then char_of (65 + n) else if n < 52 then char_of (71 + n)
      else if n < 62 then char_of (n - 4) else if n = 62 then CHR ''-'' else CHR ''_'')"

definition b64_index :: "char \<Rightarrow> nat option" where
  "b64_index c =
     (if is_upper c then Some (of_char c - 65) else if is_lower c then Some (of_char c - 71)
      else if is_digit c then Some (of_char c + 4) else if c = CHR ''-'' then Some 62
      else if c = CHR ''_'' then Some 63 else None)"

fun b64_encode :: "bytes \<Rightarrow> string" where
  "b64_encode [] = []"
| "b64_encode [a] = [b64_char (of_char a div 4), b64_char (of_char a mod 4 * 16)]"
| "b64_encode [a, b] =
     [b64_char (of_char a div 4), b64_char (of_char a mod 4 * 16 + of_char b div 16),
      b64_char (of_char b mod 16 * 4)]"
| "b64_encode (a # b # c # r) =
     b64_char (of_char a div 4) # b64_char (of_char a mod 4 * 16 + of_char b div 16) #
     b64_char (of_char b mod 16 * 4 + of_char c div 64) # b64_char (of_char c mod 64) # b64_encode r"

fun b64_quanta :: "string \<Rightarrow> bytes option" where
  "b64_quanta [] = Some []"
| "b64_quanta [x] = None"
| "b64_quanta [x, y] =
     (case (b64_index x, b64_index y) of
        (Some p, Some q) \<Rightarrow> Some [char_of (p * 4 + q div 16)] | _ \<Rightarrow> None)"
| "b64_quanta [x, y, z] =
     (case (b64_index x, b64_index y, b64_index z) of
        (Some p, Some q, Some r) \<Rightarrow>
          Some [char_of (p * 4 + q div 16), char_of (q mod 16 * 16 + r div 4)] | _ \<Rightarrow> None)"
| "b64_quanta (x # y # z # w # s) =
     (case (b64_index x, b64_index y, b64_index z, b64_index w) of
        (Some p, Some q, Some r, Some t) \<Rightarrow>
          map_option (\<lambda>rest. char_of (p * 4 + q div 16) # char_of (q mod 16 * 16 + r div 4) #
            char_of (r mod 4 * 64 + t) # rest) (b64_quanta s)
      | _ \<Rightarrow> None)"

text \<open>The decoder skips carriage returns and line feeds wherever they stand.\<close>

definition b64_decode :: "string \<Rightarrow> bytes option" where
  "b64_decode s = b64_quanta (filter (\<lambda>c. c \<noteq> CHR 0x0A \<and> c \<noteq> CHR 0x0D) s)"

lemma b64_index_char: "n < 64 \<Longrightarrow> b64_index (b64_char n) = Some n"
  by (auto simp: b64_index_def b64_char_def char_class_defs less_eq_char_def)

lemma b64_char_not_newline: "n < 64 \<Longrightarrow> b64_char n \<noteq> CHR 0x0A \<and> b64_char n \<noteq> CHR 0x0D"
  using b64_index_char [of n] by (auto simp: b64_index_def char_class_defs)

lemma b64_char_not_dot: "n < 64 \<Longrightarrow> b64_char n \<noteq> CHR ''.''"
  using b64_index_char [of n] by (auto simp: b64_index_def char_class_defs)

lemma of_char_div_4 [simp]: "of_char c div 4 < (64 :: nat)"
  using of_char_less_256 [of c] by linarith

lemma b64_group_bounds [simp]:
  "of_char a mod 4 * 16 + of_char b div 16 < (64 :: nat)"
  "of_char a mod 4 * 16 < (64 :: nat)"
  "of_char b mod 16 * 4 + of_char c div 64 < (64 :: nat)"
  "of_char b mod 16 * 4 < (64 :: nat)"
  using of_char_less_256 [of b] of_char_less_256 [of c] by linarith+

lemma of_char_high_bits [simp]:
  "of_char c div 16 div 16 = (0 :: nat)"
  "of_char c div 64 div 4 = (0 :: nat)"
  "of_char c div 64 mod 4 = (of_char c div 64 :: nat)"
  "of_char c div 16 mod 16 = (of_char c div 16 :: nat)"
  using of_char_less_256 [of c] by (simp_all add: div_mult2_eq [symmetric] less_mult_imp_div_less)

lemma b64_quanta_encode: "b64_quanta (b64_encode bs) = Some bs"
  by (induction bs rule: b64_encode.induct) (simp_all add: b64_index_char)

lemma b64_encode_chars:
  "list_all (\<lambda>c. c \<noteq> CHR 0x0A \<and> c \<noteq> CHR 0x0D \<and> c \<noteq> CHR ''.'') (b64_encode bs)"
  by (induction bs rule: b64_encode.induct) (simp_all add: b64_char_not_newline b64_char_not_dot)

lemma b64_decode_encode [simp]: "b64_decode (b64_encode bs) = Some bs"
proof -
  have "filter (\<lambda>c. c \<noteq> CHR 0x0A \<and> c \<noteq> CHR 0x0D) (b64_encode bs) = b64_encode bs"
    using b64_encode_chars [of bs] by (simp add: list_all_iff filter_id_conv)
  then show ?thesis by (simp add: b64_decode_def b64_quanta_encode)
qed

interpretation b64: text_codec b64_encode b64_decode
  by unfold_locales simp

end
