(* ===== verification/Json.thy ===== *)
theory Json
  imports Encoding
begin

section \<open>The JSON encoder\<close>

text \<open>
  \<open>json.Marshal\<close> on the shapes the gateway marshals: objects with the struct's fields in order,
  arrays, strings, 64-bit integers, booleans and null, in compact form. String contents are
  escaped as \<open>encoding/json\<close> does it, HTML escaping on: the short escapes, \<open>\u00XX\<close> for the other
  control characters and for the three HTML characters, \<open>\ufffd\<close> for a byte that starts no valid
  UTF-8 sequence, and the two line separators escaped. \<open>utf8_size\<close> is the acceptance table of
  \<open>unicode/utf8\<close>.

  The main lemma is that the encoding of a value all of whose strings are plain (printable ASCII
  without quotes, backslashes and the HTML characters) determines the value, in the strong form
  that it can be cut off from any text that follows it with a delimiter.
\<close>

subsection \<open>UTF-8\<close>

definition utf8_cont :: "char \<Rightarrow> bool" where
  "utf8_cont c \<longleftrightarrow> (128 :: nat) \<le> of_char c \<and> (of_char c :: nat) \<le> 191"

text \<open>Size of the valid sequence at the head of a non-empty text, 0 when there is none.\<close>

definition utf8_size :: "bytes \<Rightarrow> nat" where
  "utf8_size s =
     (case s of
        [] \<Rightarrow> 0
      | a # r \<Rightarrow>
          (let n = of_char a :: nat in
           if n < 128 then 1
           else if 194 \<le> n \<and> n \<le> 223 then
             (case r of b # _ \<Rightarrow> if utf8_cont b then 2 else 0 | _ \<Rightarrow> 0)
           else if 224 \<le> n \<and> n \<le> 239 then
             (case r of b # c # _ \<Rightarrow>
                if utf8_cont b \<and> utf8_cont c \<and> (n = 224 \<longrightarrow> (160 :: nat) \<le> of_char b) \<and>
                   (n = 237 \<longrightarrow> of_char b \<le> (159 :: nat)) then 3 else 0
              | _ \<Rightarrow> 0)
           else if 240 \<le> n \<and> n \<le> 244 then
             (case r of b # c # d # _ \<Rightarrow>
                if utf8_cont b \<and> utf8_cont c \<and> utf8_cont d \<and> (n = 240 \<longrightarrow> (144 :: nat) \<le> of_char b) \<and>
                   (n = 244 \<longrightarrow> of_char b \<le> (143 :: nat)) then 4 else 0
              | _ \<Rightarrow> 0)
           else 0))"

fun utf8_valid :: "bytes \<Rightarrow> bool" where
  "utf8_valid [] = True"
| "utf8_valid (c # cs) =
     (let n = utf8_size (c # cs) in if n = 0 then False else utf8_valid (drop (n - 1) cs))"

subsection \<open>Strings\<close>

definition json_plain_char :: "char \<Rightarrow> bool" where
  "json_plain_char c \<longleftrightarrow>
     (32 :: nat) \<le> of_char c \<and> (of_char c :: nat) < 128 \<and>
     c \<noteq> CHR 0x22 \<and> c \<noteq> CHR 0x5C \<and> c \<noteq> CHR ''<'' \<and> c \<noteq> CHR ''>'' \<and> c \<noteq> CHR ''&''"

definition json_ascii :: "char \<Rightarrow> string" where
  "json_ascii c =
     (if json_plain_char c then [c]
      else if c = CHR 0x5C \<or> c = CHR 0x22 then [CHR 0x5C, c]
      else if c = CHR 0x08 then [CHR 0x5C, CHR ''b'']
      else if c = CHR 0x0C then [CHR 0x5C, CHR ''f'']
      else if c = CHR 0x0A then [CHR 0x5C, CHR ''n'']
      else if c = CHR 0x0D then [CHR 0x5C, CHR ''r'']
      else if c = CHR 0x09 then [CHR 0x5C, CHR ''t'']
      else CHR 0x5C # ''u00'' @ [hex_digit (of_char c div 16), hex_digit (of_char c mod 16)])"

fun json_escape :: "bytes \<Rightarrow> string" where
  "json_escape [] = []"
| "json_escape (c # cs) =
     (if (of_char c :: nat) < 128 then json_ascii c @ json_escape cs
      else let n = utf8_size (c # cs) in
        if n = 0 then CHR 0x5C # ''ufffd'' @ json_escape cs
        else if take 3 (c # cs) = [CHR 0xE2, CHR 0x80, CHR 0xA8] then CHR 0x5C # ''u2028'' @ json_escape (drop (n - 1) cs)
        else if take 3 (c # cs) = [CHR 0xE2, CHR 0x80, CHR 0xA9] then CHR 0x5C # ''u2029'' @ json_escape (drop (n - 1) cs)
        else take n (c # cs) @ json_escape (drop (n - 1) cs))"

definition json_string :: "bytes \<Rightarrow> string" where
  "json_string s = CHR 0x22 # json_escape s @ [CHR 0x22]"

abbreviation json_plain :: "bytes \<Rightarrow> bool" where
  "json_plain s \<equiv> list_all json_plain_char s"

lemmas json_plain_char_literal [simp] =
  json_plain_char_def [of "Char b0 b1 b2 b3 b4 b5 b6 b7" for b0 b1 b2 b3 b4 b5 b6 b7]

lemma json_escape_plain: "json_plain s \<Longrightarrow> json_escape s = s"
  by (induction s) (auto simp: json_plain_char_def json_ascii_def)

lemma json_string_plain: "json_plain s \<Longrightarrow> json_string s = CHR 0x22 # s @ [CHR 0x22]"
  by (simp add: json_string_def json_escape_plain)

text \<open>Characters of the identifier classes are plain.\<close>

lemma json_plain_char_classes [simp]:
  "is_digit c \<Longrightarrow> json_plain_char c"
  "is_lower c \<Longrightarrow> json_plain_char c"
  "is_upper c \<Longrightarrow> json_plain_char c"
  "is_alnum c \<Longrightarrow> json_plain_char c"
  "is_lower_hex c \<Longrightarrow> json_plain_char c"
  by (auto simp: json_plain_char_def char_class_defs less_eq_char_def)

lemma uuidPattern_plain: "uuidPattern s \<Longrightarrow> json_plain s"
  by (drule uuidPattern_chars) (auto simp: list_all_iff)

lemma bounded_pattern_plain:
  assumes "bounded_pattern f r n s" and "\<And>c. f c \<Longrightarrow> json_plain_char c" and "\<And>c. r c \<Longrightarrow> json_plain_char c"
  shows "json_plain s"
  using assms by (rule bounded_pattern_all)

lemma hex_encode_plain: "json_plain (hex_encode b)"
  using hex_encode_lower [of b] by (auto simp: list_all_iff)

subsection \<open>Values\<close>

datatype json =
    JNull
  | JBool bool
  | JInt int
  | JString bytes
  | JArray "json list"
  | JObject "(string \<times> json) list"

fun commas :: "string list \<Rightarrow> string" where
  "commas [] = []"
| "commas [x] = x"
| "commas (x # y # r) = x @ CHR '','' # commas (y # r)"

fun marshal :: "json \<Rightarrow> string" where
  "marshal JNull = ''null''"
| "marshal (JBool b) = (if b then ''true'' else ''false'')"
| "marshal (JInt i) = int_digits i"
| "marshal (JString s) = json_string s"
| "marshal (JArray xs) = CHR ''['' # commas (map marshal xs) @ '']''"
| "marshal (JObject fs) =
     CHR ''{'' # commas (map (\<lambda>f. json_string (fst f) @ CHR '':'' # marshal (snd f)) fs) @ ''}''"

fun all_plain :: "json \<Rightarrow> bool" where
  "all_plain (JString s) = json_plain s"
| "all_plain (JArray xs) = list_all all_plain xs"
| "all_plain (JObject fs) = list_all (\<lambda>f. json_plain (fst f) \<and> all_plain (snd f)) fs"
| "all_plain _ = True"

subsection \<open>Unambiguity\<close>

definition delimited :: "string \<Rightarrow> bool" where
  "delimited r = (case r of [] \<Rightarrow> True | c # _ \<Rightarrow> c \<in> {CHR '','', CHR '']'', CHR ''}''})"

lemma delimited_simps [simp]:
  "delimited []" "delimited (CHR '','' # r)" "delimited (CHR '']'' # r)" "delimited (CHR ''}'' # r)"
  by (simp_all add: delimited_def)

lemma digits_delimited_unique:
  assumes "list_all is_digit s" and "list_all is_digit t" and "delimited u" and "delimited v"
    and "s @ u = t @ v"
  shows "s = t \<and> u = v"
proof -
  have stop: "takeWhile is_digit (x @ r) = x" if "list_all is_digit x" "delimited r" for x r
    using that by (cases r) (auto simp: takeWhile_append1 takeWhile_append2 list_all_iff delimited_def is_digit_def)
  have "s = t" using stop assms by metis
  with assms(5) show ?thesis by simp
qed

lemma int_digits_cases:
  obtains (neg) n where "int_digits i = CHR ''-'' # nat_digits n" and "i = - int n" and "0 < n"
  | (nonneg) n where "int_digits i = nat_digits n" and "i = int n"
proof (cases "i < 0")
  case True
  then show ?thesis by (intro neg [of "nat (- i)"]) (auto simp: int_digits_def)
next
  case False
  then show ?thesis by (intro nonneg [of "nat i"]) (auto simp: int_digits_def)
qed

lemma minus_not_nat_digits [simp]: "CHR ''-'' # s \<noteq> nat_digits n @ u" "nat_digits n @ u \<noteq> CHR ''-'' # s"
  using nat_digits_head [of n] by (metis append_Cons list.inject not_is_digit_minus)+

lemma int_digits_unique:
  assumes "delimited u" and "delimited v" and "int_digits i @ u = int_digits j @ v"
  shows "i = j \<and> u = v"
proof -
  have nats: "m = n \<and> u = v" if "nat_digits m @ u = nat_digits n @ v" for m n
    using digits_delimited_unique [OF nat_digits_digits nat_digits_digits assms(1,2) that] by simp
  show ?thesis
  proof (cases i rule: int_digits_cases)
    case i: (neg m)
    show ?thesis
    proof (cases j rule: int_digits_cases)
      case (neg n)
      then show ?thesis using i assms(3) nats [of m n] by simp
    next
      case (nonneg n)
      then show ?thesis using i assms(3) by simp
    qed
  next
    case i: (nonneg m)
    show ?thesis
    proof (cases j rule: int_digits_cases)
      case (neg n)
      then show ?thesis using i assms(3) by simp
    next
      case (nonneg n)
      then show ?thesis using i assms(3) nats [of m n] by simp
    qed
  qed
qed

lemma int_digits_head: "\<exists>c cs. int_digits i = c # cs \<and> (is_digit c \<or> c = CHR ''-'')"
  using nat_digits_head by (rule_tac i = i in int_digits_cases) (fastforce+)

lemma json_string_unique:
  assumes "json_plain s" and "json_plain t" and "json_string s @ u = json_string t @ v"
  shows "s = t \<and> u = v"
proof -
  have "s @ CHR 0x22 # u = t @ CHR 0x22 # v"
    using assms by (simp add: json_string_plain)
  then show ?thesis
    using assms by (intro append_stop_unique [where P = json_plain_char and c = "CHR 0x22"])
      (auto simp: json_plain_char_def)
qed

text \<open>
  A comma-separated list is unambiguous when its items are: each item can be cut off from a
  delimited rest, is not empty and does not start with the closing bracket.
\<close>

lemma commas_unique:
  assumes items: "\<And>x y r s. x \<in> set xs \<Longrightarrow> Q y \<Longrightarrow> delimited r \<Longrightarrow> delimited s \<Longrightarrow> f x @ r = f y @ s \<Longrightarrow> x = y \<and> r = s"
    and heads: "\<And>x. \<exists>a w. f x = a # w \<and> a \<noteq> c"
    and closing: "c \<noteq> CHR '',''" "delimited (c # [])"
    and ys: "list_all Q ys"
    and eq: "commas (map f xs) @ c # u = commas (map f ys) @ c # v"
  shows "xs = ys \<and> u = v"
  using items ys eq
proof (induction xs arbitrary: ys)
  case Nil
  have "ys = []"
  proof (rule ccontr)
    assume "ys \<noteq> []"
    then obtain y r where y: "ys = y # r" by (cases ys) auto
    obtain a w where "f y = a # w" "a \<noteq> c" using heads by blast
    then show False using Nil.prems(3) y by (cases r) simp_all
  qed
  then show ?case using Nil.prems(3) by simp
next
  case (Cons x xs)
  have del: "delimited (c # w)" for w using closing(2) by (simp add: delimited_def)
  obtain y r where ys: "ys = y # r"
  proof (cases ys)
    case Nil
    obtain a w where "f x = a # w" "a \<noteq> c" using heads by blast
    then show ?thesis using Cons.prems(3) Nil by (cases xs) simp_all
  qed simp
  define rest where "rest zs t = (if zs = [] then c # t else CHR '','' # commas (map f zs) @ c # t)" for zs t
  have unfold: "commas (map f (z # zs)) @ c # t = f z @ rest zs t" for z zs t
    by (cases zs) (simp_all add: rest_def)
  have rdel: "delimited (rest zs t)" for zs t
    by (simp add: rest_def del)
  have "f x @ rest xs u = f y @ rest r v"
    using Cons.prems(3) ys by (simp only: unfold)
  moreover have "Q y" using Cons.prems(2) ys by simp
  ultimately have xy: "x = y \<and> rest xs u = rest r v"
    by (intro Cons.prems(1) rdel) simp_all
  have "xs = r \<and> u = v"
  proof (cases "xs = []")
    case True
    then show ?thesis using xy closing(1) by (cases "r = []") (simp_all add: rest_def)
  next
    case False
    then have r: "r \<noteq> []" using xy closing(1) by (cases "r = []") (simp_all add: rest_def)
    show ?thesis
    proof (rule Cons.IH)
      show "commas (map f xs) @ c # u = commas (map f r) @ c # v"
        using xy False r by (simp add: rest_def)
      show "list_all Q r" using Cons.prems(2) ys by simp
      show "z = y \<and> p = q"
        if "z \<in> set xs" "Q y" "delimited p" "delimited q" "f z @ p = f y @ q" for z y p q
        using that by (intro Cons.prems(1)) simp_all
    qed
  qed
  then show ?case using xy ys by simp
qed

lemma marshal_head:
  "\<exists>a w. marshal j = a # w \<and> a \<noteq> CHR '']'' \<and> a \<noteq> CHR ''}''"
proof (cases j)
  case (JInt i)
  obtain a w where "int_digits i = a # w" "is_digit a \<or> a = CHR ''-''"
    using int_digits_head by blast
  then show ?thesis using JInt by (auto simp: is_digit_def)
qed (auto simp: json_string_def)

lemma json_string_head: "\<exists>a w. json_string k @ z = a # w \<and> a \<noteq> CHR ''}''"
  by (simp add: json_string_def)

text \<open>The first character of an encoding tells which constructor it encodes.\<close>

fun json_kind :: "json \<Rightarrow> nat" where
  "json_kind JNull = 0"
| "json_kind (JBool b) = (if b then 1 else 2)"
| "json_kind (JInt i) = 3"
| "json_kind (JString s) = 4"
| "json_kind (JArray xs) = 5"
| "json_kind (JObject fs) = 6"

definition kind_of_head :: "char \<Rightarrow> nat" where
  "kind_of_head c =
     (if c = CHR ''n'' then 0 else if c = CHR ''t'' then 1 else if c = CHR ''f'' then 2
      else if c = CHR 0x22 then 4 else if c = CHR ''['' then 5 else if c = CHR ''{'' then 6 else 3)"

lemma kind_of_head_marshal: "kind_of_head (hd (marshal j @ r)) = json_kind j"
proof (cases j)
  case (JInt i)
  obtain a w where "int_digits i = a # w" "is_digit a \<or> a = CHR ''-''"
    using int_digits_head by blast
  then show ?thesis using JInt by (auto simp: is_digit_def kind_of_head_def)
qed (auto simp: json_string_def kind_of_head_def)

lemma marshal_same_kind: "marshal j @ r = marshal k @ s \<Longrightarrow> json_kind j = json_kind k"
  by (metis kind_of_head_marshal)

lemma marshal_unique:
  assumes "all_plain j" and "all_plain k" and "delimited r" and "delimited s"
    and "marshal j @ r = marshal k @ s"
  shows "j = k \<and> r = s"
  using assms
proof (induction j arbitrary: k r s)
  case JNull
  then show ?case using marshal_same_kind [OF JNull(5)] by (cases k) (auto split: if_splits)
next
  case (JBool b)
  then show ?case using marshal_same_kind [OF JBool(5)] by (cases k) (auto split: if_splits)
next
  case (JInt i)
  then obtain i' where k: "k = JInt i'" using marshal_same_kind [OF JInt(5)] by (cases k) (auto split: if_splits)
  then show ?case using JInt int_digits_unique [of r s i i'] by simp
next
  case (JString t)
  then obtain t' where k: "k = JString t'" using marshal_same_kind [OF JString(5)] by (cases k) (auto split: if_splits)
  then show ?case using JString json_string_unique [of t t' r s] by simp
next
  case (JArray xs)
  then obtain ys where k: "k = JArray ys" using marshal_same_kind [OF JArray(6)] by (cases k) (auto split: if_splits)
  have "xs = ys \<and> r = s"
  proof (rule commas_unique [where f = marshal and c = "CHR '']''" and Q = all_plain])
    fix x y u v
    assume "x \<in> set xs" "all_plain y" "delimited u" "delimited v" "marshal x @ u = marshal y @ v"
    moreover have "all_plain x" using JArray.prems(1) \<open>x \<in> set xs\<close> by (simp add: list_all_iff)
    ultimately show "x = y \<and> u = v" using JArray.IH by blast
  qed (use JArray.prems k marshal_head in \<open>fastforce+\<close>)
  with k show ?case by simp
next
  case (JObject fs)
  then obtain gs where k: "k = JObject gs" using marshal_same_kind [OF JObject(6)] by (cases k) (auto split: if_splits)
  have "fs = gs \<and> r = s"
  proof (rule commas_unique [where f = "\<lambda>f. json_string (fst f) @ CHR '':'' # marshal (snd f)" and c = "CHR ''}''"
        and Q = "\<lambda>f. json_plain (fst f) \<and> all_plain (snd f)"])
    fix x y u v
    assume x: "x \<in> set fs" and y: "json_plain (fst y) \<and> all_plain (snd y)" and del: "delimited u" "delimited v"
      and eq: "(json_string (fst x) @ CHR '':'' # marshal (snd x)) @ u = (json_string (fst y) @ CHR '':'' # marshal (snd y)) @ v"
    have xp: "json_plain (fst x)" "all_plain (snd x)" using JObject.prems(1) x by (auto simp: list_all_iff)
    have "fst x = fst y \<and> CHR '':'' # marshal (snd x) @ u = CHR '':'' # marshal (snd y) @ v"
      using y eq by (intro json_string_unique xp) simp_all
    moreover from this have "snd x = snd y \<and> u = v"
      using xp y del by (intro JObject.IH [OF x]) (simp_all add: snds.simps)
    ultimately show "x = y \<and> u = v" by (simp add: prod_eq_iff)
  qed (use JObject.prems k json_string_head in \<open>auto\<close>)
  with k show ?case by simp
qed

lemma marshal_inject: "all_plain j \<Longrightarrow> all_plain k \<Longrightarrow> marshal j = marshal k \<longleftrightarrow> j = k"
  using marshal_unique [of j k "[]" "[]"] by auto

end
