(* ===== verification/Digest.thy ===== *)
theory Digest
  imports Encoding
begin

section \<open>Fixed-size digests\<close>

text \<open>
  \<open>type Digest [sha256.Size]byte\<close> of \<open>internal/audit/chain.go\<close>, and the \<open>[32]byte\<close> values of the
  other packages: byte sequences of length exactly 32, with the conversions the code uses
  (\<open>digest[:]\<close>, \<open>String\<close>, \<open>digestFromBytes\<close> of the repository, \<open>digestFromHex\<close> of the export and of
  the API). SHA-256, HMAC-SHA-256 and Ed25519 themselves are parameters of the definitions that use
  them: functions from byte sequences to digests or signatures about which nothing is assumed
  unless a statement says so.
\<close>

typedef digest = "{b :: bytes. length b = 32}"
  morphisms digest_bytes Abs_digest
  by (rule exI [of _ "replicate 32 (CHR 0x00)"]) simp

setup_lifting type_definition_digest

lift_definition zero_digest :: digest is "replicate 32 (CHR 0x00)"
  by simp

instantiation digest :: equal
begin

definition equal_digest :: "digest \<Rightarrow> digest \<Rightarrow> bool" where
  "equal_digest a b \<longleftrightarrow> digest_bytes a = digest_bytes b"

instance
  by standard (simp add: equal_digest_def digest_bytes_inject)

end

lemma length_digest_bytes [simp]: "length (digest_bytes d) = 32"
  using digest_bytes [of d] by simp

text \<open>\<open>digestFromBytes\<close>: a digest when the length is right.\<close>

lift_definition digestFromBytes :: "bytes \<Rightarrow> digest option" is
  "\<lambda>b. if length b = 32 then Some b else None"
  by simp

lemma digestFromBytes_eq:
  "digestFromBytes b = (if length b = 32 then Some (Abs_digest b) else None)"
  by (transfer, simp add: digestFromBytes_def Abs_digest_inverse)

lemma digestFromBytes_digest_bytes [simp]: "digestFromBytes (digest_bytes d) = Some d"
  by (simp add: digestFromBytes_eq digest_bytes_inverse)

lemma digestFromBytes_Some_iff: "digestFromBytes b = Some d \<longleftrightarrow> digest_bytes d = b"
  by (auto simp: digestFromBytes_eq Abs_digest_inverse digest_bytes_inverse)

lemma digestFromBytes_None_iff: "digestFromBytes b = None \<longleftrightarrow> length b \<noteq> 32"
  by (simp add: digestFromBytes_eq)

subsection \<open>Text form\<close>

definition digest_String :: "digest \<Rightarrow> string" where
  "digest_String d = hex_encode (digest_bytes d)"

lemma digest_String_inject [simp]: "digest_String a = digest_String b \<longleftrightarrow> a = b"
  by (simp add: digest_String_def hex.enc_inject digest_bytes_inject)

lemma length_digest_String [simp]: "length (digest_String d) = 64"
  by (simp add: digest_String_def)

lemma digest_String_lower: "list_all is_lower_hex (digest_String d)"
  by (simp add: digest_String_def hex_encode_lower)

text \<open>\<open>digestFromHex\<close> of \<open>internal/audit/export.go\<close>: only the canonical text is accepted.\<close>

definition digestFromHex :: "string \<Rightarrow> digest option" where
  "digestFromHex encoded =
     (if length encoded \<noteq> 64 then None
      else case hex_decode encoded of
          None \<Rightarrow> None
        | Some raw \<Rightarrow> if hex_encode raw \<noteq> encoded then None else digestFromBytes raw)"

lemma digestFromHex_String [simp]: "digestFromHex (digest_String d) = Some d"
  by (simp add: digestFromHex_def) (simp add: digest_String_def)

lemma digestFromHex_Some_iff: "digestFromHex s = Some d \<longleftrightarrow> s = digest_String d"
proof
  assume "digestFromHex s = Some d"
  then show "s = digest_String d"
    by (auto simp: digestFromHex_def digest_String_def digestFromBytes_Some_iff split: if_splits option.splits)
qed simp

text \<open>
  \<open>digestFromHex\<close> of \<open>internal/api/server.go\<close> is the lenient one: any text \<open>hex.DecodeString\<close> turns
  into 32 bytes.
\<close>

definition api_digestFromHex :: "string \<Rightarrow> digest option" where
  "api_digestFromHex s =
     (case hex_decode s of None \<Rightarrow> None | Some raw \<Rightarrow> digestFromBytes raw)"

lemma api_digestFromHex_String [simp]: "api_digestFromHex (digest_String d) = Some d"
  by (simp add: api_digestFromHex_def digest_String_def)

text \<open>Hexadecimal digests are the text codec restricted to 32 bytes.\<close>

lemma digestFromHex_refines_lenient: "digestFromHex s = Some d \<Longrightarrow> api_digestFromHex s = Some d"
  by (simp add: digestFromHex_Some_iff)

end
