(* ===== verification/Policy.thy ===== *)
theory Policy
  imports Json Digest
begin

section \<open>The default-deny authorization policy\<close>

text \<open>
  \<open>internal/policy\<close>: the policy document (\<open>types.go\<close>), the decision record (\<open>decision.go\<close>) and the
  engine (\<open>engine.go\<close>). The engine is built once from a document that is checked and normalized,
  and then answers requests. The lemmas relate every decision to the rules of the document the
  customer wrote, characterize the documents that are accepted, and show that the normalized form
  and its digest do not depend on the order in which rules and selectors were written.
\<close>

subsection \<open>Types (types.go, decision.go)\<close>

type_synonym Effect = string

definition EffectAllow :: Effect where "EffectAllow = ''allow''"
definition EffectDeny :: Effect where "EffectDeny = ''deny''"

definition ReasonPolicyAllowed :: string where "ReasonPolicyAllowed = ''policy_allowed''"
definition ReasonNoMatchingAllow :: string where "ReasonNoMatchingAllow = ''no_matching_allow''"
definition ReasonExplicitDeny :: string where "ReasonExplicitDeny = ''explicit_deny''"

lemma effects_distinct [simp]: "EffectAllow \<noteq> EffectDeny" "EffectDeny \<noteq> EffectAllow"
  by (simp_all add: EffectAllow_def EffectDeny_def)

datatype policy_error = ErrInvalidDocument

definition versionPattern :: "string \<Rightarrow> bool" where [pattern_defs]:
  "versionPattern = bounded_pattern is_alnum (\<lambda>c. is_alnum c \<or> c \<in> set ''._:-'') 63"

definition ruleIDPattern :: "string \<Rightarrow> bool" where [pattern_defs]:
  "ruleIDPattern = bounded_pattern is_alnum (\<lambda>c. is_alnum c \<or> c \<in> set ''._:-'') 63"

definition principalPattern :: "string \<Rightarrow> bool" where [pattern_defs]:
  "principalPattern = uuidPattern"

definition groupPattern :: "string \<Rightarrow> bool" where [pattern_defs]:
  "groupPattern = bounded_pattern is_alnum (\<lambda>c. is_alnum c \<or> c \<in> set ''._:/-'') 127"

definition endpointPattern :: "string \<Rightarrow> bool" where [pattern_defs]:
  "endpointPattern = bounded_pattern is_lower (\<lambda>c. is_lower c \<or> is_digit c \<or> c \<in> set ''_.'') 63"

definition modelPattern :: "string \<Rightarrow> bool" where [pattern_defs]:
  "modelPattern = bounded_pattern is_alnum (\<lambda>c. is_alnum c \<or> c \<in> set ''._:-'') 127"

definition maxRules :: nat where "maxRules = 256"
definition maxSelectorsPerRule :: nat where "maxSelectorsPerRule = 64"

record Rule =
  rule_ID :: string
  rule_Effect :: Effect
  rule_Principals :: "string slice"
  rule_Groups :: "string slice"
  rule_Endpoints :: "string slice"
  rule_Models :: "string slice"

record Document =
  doc_Version :: string
  doc_Rules :: "Rule list"

record Request =
  req_PrincipalID :: string
  req_Groups :: "string slice"
  req_Endpoint :: string
  req_Model :: string

record DecisionContext =
  ctx_PrincipalID :: string
  ctx_Groups :: "string list"
  ctx_Endpoint :: string
  ctx_Model :: string
  ctx_MatchedRuleIDs :: "string list"

record PolicyDecision =
  dec_Effect :: Effect
  dec_ReasonCodes :: "string list"
  dec_PolicyVersion :: string
  dec_PolicyDigest :: string
  dec_Context :: DecisionContext

record Engine =
  eng_version :: string
  eng_digest :: string
  eng_rules :: "Rule list"

subsection \<open>Normalization (engine.go)\<close>

definition normalizeSelector ::
  "string slice \<Rightarrow> (string \<Rightarrow> bool) \<Rightarrow> nat \<Rightarrow> policy_error + string list" where
  "normalizeSelector values pat limit =
     (case values of
        None \<Rightarrow> Inr []
      | Some vs \<Rightarrow>
          if limit < length vs then Inl ErrInvalidDocument
          else if \<not> distinct_scan pat {} vs then Inl ErrInvalidDocument
          else Inr (sort vs))"

definition normalizeRule :: "Rule \<Rightarrow> policy_error + Rule" where
  "normalizeRule rule =
     (if \<not> ruleIDPattern (rule_ID rule) then Inl ErrInvalidDocument
      else if rule_Effect rule \<noteq> EffectAllow \<and> rule_Effect rule \<noteq> EffectDeny then Inl ErrInvalidDocument
      else bind_result (normalizeSelector (rule_Principals rule) principalPattern maxSelectorsPerRule) (\<lambda>principals.
        bind_result (normalizeSelector (rule_Groups rule) groupPattern maxSelectorsPerRule) (\<lambda>groups.
          if principals = [] \<and> groups = [] then Inl ErrInvalidDocument
          else case normalizeSelector (rule_Endpoints rule) endpointPattern maxSelectorsPerRule of
              Inl _ \<Rightarrow> Inl ErrInvalidDocument
            | Inr endpoints \<Rightarrow>
                if endpoints = [] then Inl ErrInvalidDocument
                else case normalizeSelector (rule_Models rule) modelPattern maxSelectorsPerRule of
                    Inl _ \<Rightarrow> Inl ErrInvalidDocument
                  | Inr models \<Rightarrow>
                      if models = [] then Inl ErrInvalidDocument
                      else Inr \<lparr>rule_ID = rule_ID rule, rule_Effect = rule_Effect rule,
                                rule_Principals = Some principals, rule_Groups = Some groups,
                                rule_Endpoints = Some endpoints, rule_Models = Some models\<rparr>)))"

text \<open>The loop of \<open>normalizeDocument\<close> over the rules, with its set of identifiers seen so far.\<close>

fun normalizeRules :: "string set \<Rightarrow> Rule list \<Rightarrow> policy_error + Rule list" where
  "normalizeRules seenIDs [] = Inr []"
| "normalizeRules seenIDs (rule # rules) =
     (case normalizeRule rule of
        Inl e \<Rightarrow> Inl e
      | Inr clean \<Rightarrow>
          if rule_ID clean \<in> seenIDs then Inl ErrInvalidDocument
          else case normalizeRules (insert (rule_ID clean) seenIDs) rules of
              Inl e \<Rightarrow> Inl e
            | Inr rest \<Rightarrow> Inr (clean # rest))"

definition normalizeDocument :: "Document \<Rightarrow> policy_error + Document" where
  "normalizeDocument document =
     (if \<not> versionPattern (doc_Version document) \<or> length (doc_Rules document) = 0 \<or>
         maxRules < length (doc_Rules document)
      then Inl ErrInvalidDocument
      else case normalizeRules {} (doc_Rules document) of
          Inl e \<Rightarrow> Inl e
        | Inr rules \<Rightarrow> Inr \<lparr>doc_Version = doc_Version document, doc_Rules = sort_key rule_ID rules\<rparr>)"

text \<open>The JSON form of a document; \<open>omitempty\<close> drops the two identity selectors when empty.\<close>

definition json_strings :: "string slice \<Rightarrow> json" where
  "json_strings s = (case s of None \<Rightarrow> JNull | Some xs \<Rightarrow> JArray (map JString xs))"

definition omitempty :: "string \<Rightarrow> string slice \<Rightarrow> (string \<times> json) list" where
  "omitempty k s = (if slice_list s = [] then [] else [(k, json_strings s)])"

definition rule_json :: "Rule \<Rightarrow> json" where
  "rule_json r = JObject (
     [(''id'', JString (rule_ID r)), (''effect'', JString (rule_Effect r))] @
     omitempty ''principals'' (rule_Principals r) @
     omitempty ''groups'' (rule_Groups r) @
     [(''endpoints'', json_strings (rule_Endpoints r)), (''models'', json_strings (rule_Models r))])"

definition document_json :: "Document \<Rightarrow> json" where
  "document_json d = JObject [(''version'', JString (doc_Version d)),
     (''rules'', JArray (map rule_json (doc_Rules d)))]"

definition digestDocument :: "(bytes \<Rightarrow> digest) \<Rightarrow> Document \<Rightarrow> string" where
  "digestDocument sha256 document = digest_String (sha256 (marshal (document_json document)))"

definition NewEngine :: "(bytes \<Rightarrow> digest) \<Rightarrow> Document \<Rightarrow> policy_error + Engine" where
  "NewEngine sha256 document =
     (case normalizeDocument document of
        Inl e \<Rightarrow> Inl e
      | Inr normalized \<Rightarrow>
          Inr \<lparr>eng_version = doc_Version normalized, eng_digest = digestDocument sha256 normalized,
               eng_rules = doc_Rules normalized\<rparr>)"

definition engine_Version :: "Engine option \<Rightarrow> string" where
  "engine_Version engine = (case engine of None \<Rightarrow> [] | Some e \<Rightarrow> eng_version e)"

definition engine_Digest :: "Engine option \<Rightarrow> string" where
  "engine_Digest engine = (case engine of None \<Rightarrow> [] | Some e \<Rightarrow> eng_digest e)"

subsection \<open>Evaluation (engine.go)\<close>

fun contains :: "string list \<Rightarrow> string \<Rightarrow> bool" where
  "contains [] want = False"
| "contains (v # vs) want = (if v = want then True else contains vs want)"

definition intersects :: "string list \<Rightarrow> string list \<Rightarrow> bool" where
  "intersects left right =
     (if length left = 0 \<or> length right = 0 then False
      else list_ex (\<lambda>x. x \<in> set left) right)"

definition ruleMatches :: "Rule \<Rightarrow> Request \<Rightarrow> bool" where
  "ruleMatches rule request =
     (if \<not> contains (slice_list (rule_Endpoints rule)) (req_Endpoint request) \<or>
         \<not> contains (slice_list (rule_Models rule)) (req_Model request)
      then False
      else let
        principals = slice_list (rule_Principals rule);
        groups = slice_list (rule_Groups rule);
        principalOK = (length principals = 0 \<or> contains principals (req_PrincipalID request));
        groupOK = (length groups = 0 \<or> intersects groups (slice_list (req_Groups request)))
      in if length principals = 0 \<and> length groups = 0 then False
         else if 0 < length principals \<and> 0 < length groups then principalOK \<and> groupOK
         else if 0 < length principals then principalOK
         else groupOK)"

definition validRequestGroups :: "string slice \<Rightarrow> bool" where
  "validRequestGroups groups =
     (case groups of
        None \<Rightarrow> False
      | Some gs \<Rightarrow>
          if maxSelectorsPerRule < length gs then False
          else ascending_scan groupPattern {} None gs)"

definition cloneStrings :: "string slice \<Rightarrow> string list" where
  "cloneStrings values = slice_list values"

definition denyDecision :: "string \<Rightarrow> string \<Rightarrow> DecisionContext \<Rightarrow> string \<Rightarrow> PolicyDecision" where
  "denyDecision version dig context reason =
     \<lparr>dec_Effect = EffectDeny, dec_ReasonCodes = [reason], dec_PolicyVersion = version,
      dec_PolicyDigest = dig, dec_Context = context\<rparr>"

text \<open>The loop over the rules: (matchedAllow, matchedDeny, matchedIDs in rule order).\<close>

fun matchRules :: "Request \<Rightarrow> Rule list \<Rightarrow> bool \<times> bool \<times> string list \<Rightarrow> bool \<times> bool \<times> string list" where
  "matchRules request [] acc = acc"
| "matchRules request (rule # rules) (matchedAllow, matchedDeny, matchedIDs) =
     (if \<not> ruleMatches rule request then matchRules request rules (matchedAllow, matchedDeny, matchedIDs)
      else matchRules request rules
        (matchedAllow \<or> rule_Effect rule = EffectAllow, matchedDeny \<or> rule_Effect rule = EffectDeny,
         matchedIDs @ [rule_ID rule]))"

definition Evaluate :: "Engine option \<Rightarrow> Request \<Rightarrow> PolicyDecision" where
  "Evaluate engine request =
     (let context = \<lparr>ctx_PrincipalID = req_PrincipalID request, ctx_Groups = cloneStrings (req_Groups request),
                     ctx_Endpoint = req_Endpoint request, ctx_Model = req_Model request,
                     ctx_MatchedRuleIDs = []\<rparr>
      in case engine of
           None \<Rightarrow> denyDecision [] [] context ReasonNoMatchingAllow
         | Some e \<Rightarrow>
             if \<not> principalPattern (req_PrincipalID request) \<or> \<not> endpointPattern (req_Endpoint request) \<or>
                \<not> modelPattern (req_Model request) \<or> \<not> validRequestGroups (req_Groups request)
             then denyDecision (eng_version e) (eng_digest e) context ReasonNoMatchingAllow
             else case matchRules request (eng_rules e) (False, False, []) of
                 (matchedAllow, matchedDeny, matchedIDs) \<Rightarrow>
                   (let context' = context\<lparr>ctx_MatchedRuleIDs := sort matchedIDs\<rparr>
                    in if matchedDeny then denyDecision (eng_version e) (eng_digest e) context' ReasonExplicitDeny
                       else if matchedAllow then
                         \<lparr>dec_Effect = EffectAllow, dec_ReasonCodes = [ReasonPolicyAllowed],
                          dec_PolicyVersion = eng_version e, dec_PolicyDigest = eng_digest e,
                          dec_Context = context'\<rparr>
                       else denyDecision (eng_version e) (eng_digest e) context' ReasonNoMatchingAllow))"

subsection \<open>What the documentation promises\<close>

text \<open>
  The abstract policy: a rule applies to a request when the endpoint and the model are listed, the
  rule names some identity, and every identity selector it has is satisfied
  (\<open>docs/policy-reference.md\<close>).
\<close>

definition rule_applies :: "Rule \<Rightarrow> Request \<Rightarrow> bool" where
  "rule_applies r q \<longleftrightarrow>
     req_Endpoint q \<in> set (slice_list (rule_Endpoints r)) \<and>
     req_Model q \<in> set (slice_list (rule_Models r)) \<and>
     (slice_list (rule_Principals r) \<noteq> [] \<or> slice_list (rule_Groups r) \<noteq> []) \<and>
     (slice_list (rule_Principals r) \<noteq> [] \<longrightarrow> req_PrincipalID q \<in> set (slice_list (rule_Principals r))) \<and>
     (slice_list (rule_Groups r) \<noteq> [] \<longrightarrow>
        set (slice_list (rule_Groups r)) \<inter> set (slice_list (req_Groups q)) \<noteq> {})"

definition request_ok :: "Request \<Rightarrow> bool" where
  "request_ok q \<longleftrightarrow>
     principalPattern (req_PrincipalID q) \<and> endpointPattern (req_Endpoint q) \<and> modelPattern (req_Model q) \<and>
     (\<exists>gs. req_Groups q = Some gs \<and> length gs \<le> maxSelectorsPerRule \<and> list_all groupPattern gs \<and>
        sorted_wrt (<) gs)"

definition applies_with :: "Effect \<Rightarrow> Rule list \<Rightarrow> Request \<Rightarrow> bool" where
  "applies_with eff rules q \<longleftrightarrow> (\<exists>r \<in> set rules. rule_Effect r = eff \<and> rule_applies r q)"

definition permits :: "Rule list \<Rightarrow> Request \<Rightarrow> bool" where
  "permits rules q \<longleftrightarrow>
     request_ok q \<and> applies_with EffectAllow rules q \<and> \<not> applies_with EffectDeny rules q"

subsection \<open>The loops compute the abstract notions\<close>

lemma contains_iff [simp]: "contains vs w \<longleftrightarrow> w \<in> set vs"
  by (induction vs) auto

lemma intersects_iff [simp]: "intersects l r \<longleftrightarrow> set l \<inter> set r \<noteq> {}"
  by (auto simp: intersects_def list_ex_iff)

lemma ruleMatches_iff: "ruleMatches rule q \<longleftrightarrow> rule_applies rule q"
  by (auto simp: ruleMatches_def rule_applies_def Let_def)

lemma validRequestGroups_iff:
  "validRequestGroups g \<longleftrightarrow>
     (\<exists>gs. g = Some gs \<and> length gs \<le> maxSelectorsPerRule \<and> list_all groupPattern gs \<and> sorted_wrt (<) gs)"
  by (auto simp: validRequestGroups_def ascending_scan_iff split: option.splits)

lemma matchRules_eq:
  "matchRules q rules (a, d, ids) =
     (a \<or> applies_with EffectAllow rules q, d \<or> applies_with EffectDeny rules q,
      ids @ map rule_ID (filter (\<lambda>r. rule_applies r q) rules))"
  by (induction rules arbitrary: a d ids) (auto simp: ruleMatches_iff applies_with_def)

lemma request_guard_iff:
  "\<not> principalPattern (req_PrincipalID q) \<or> \<not> endpointPattern (req_Endpoint q) \<or>
   \<not> modelPattern (req_Model q) \<or> \<not> validRequestGroups (req_Groups q) \<longleftrightarrow> \<not> request_ok q"
  unfolding request_ok_def validRequestGroups_iff by blast

lemma Evaluate_Some:
  "Evaluate (Some e) q =
     (let context = \<lparr>ctx_PrincipalID = req_PrincipalID q, ctx_Groups = slice_list (req_Groups q),
                     ctx_Endpoint = req_Endpoint q, ctx_Model = req_Model q,
                     ctx_MatchedRuleIDs = (if request_ok q then sort (map rule_ID (filter (\<lambda>r. rule_applies r q) (eng_rules e))) else [])\<rparr>
      in if permits (eng_rules e) q
         then \<lparr>dec_Effect = EffectAllow, dec_ReasonCodes = [ReasonPolicyAllowed],
               dec_PolicyVersion = eng_version e, dec_PolicyDigest = eng_digest e, dec_Context = context\<rparr>
         else denyDecision (eng_version e) (eng_digest e) context
           (if request_ok q \<and> applies_with EffectDeny (eng_rules e) q then ReasonExplicitDeny else ReasonNoMatchingAllow))"
  unfolding Evaluate_def request_guard_iff matchRules_eq permits_def cloneStrings_def
  by (cases "request_ok q") (simp_all add: Let_def)

subsection \<open>Normalization preserves meaning\<close>

definition selector_ok :: "(string \<Rightarrow> bool) \<Rightarrow> string slice \<Rightarrow> bool" where
  "selector_ok pat s \<longleftrightarrow>
     length (slice_list s) \<le> maxSelectorsPerRule \<and> list_all pat (slice_list s) \<and> distinct (slice_list s)"

definition rule_ok :: "Rule \<Rightarrow> bool" where
  "rule_ok r \<longleftrightarrow>
     ruleIDPattern (rule_ID r) \<and> rule_Effect r \<in> {EffectAllow, EffectDeny} \<and>
     selector_ok principalPattern (rule_Principals r) \<and> selector_ok groupPattern (rule_Groups r) \<and>
     (slice_list (rule_Principals r) \<noteq> [] \<or> slice_list (rule_Groups r) \<noteq> []) \<and>
     selector_ok endpointPattern (rule_Endpoints r) \<and> slice_list (rule_Endpoints r) \<noteq> [] \<and>
     selector_ok modelPattern (rule_Models r) \<and> slice_list (rule_Models r) \<noteq> []"

definition document_ok :: "Document \<Rightarrow> bool" where
  "document_ok d \<longleftrightarrow>
     versionPattern (doc_Version d) \<and> doc_Rules d \<noteq> [] \<and> length (doc_Rules d) \<le> maxRules \<and>
     list_all rule_ok (doc_Rules d) \<and> distinct (map rule_ID (doc_Rules d))"

definition normal_rule :: "Rule \<Rightarrow> Rule" where
  "normal_rule r = r\<lparr>rule_Principals := Some (sort (slice_list (rule_Principals r))),
     rule_Groups := Some (sort (slice_list (rule_Groups r))),
     rule_Endpoints := Some (sort (slice_list (rule_Endpoints r))),
     rule_Models := Some (sort (slice_list (rule_Models r)))\<rparr>"

definition canonical_document :: "Document \<Rightarrow> Document" where
  "canonical_document d = \<lparr>doc_Version = doc_Version d, doc_Rules = sort_key rule_ID (map normal_rule (doc_Rules d))\<rparr>"

lemma canonical_document_simps [simp]:
  "doc_Version (canonical_document d) = doc_Version d"
  "doc_Rules (canonical_document d) = sort_key rule_ID (map normal_rule (doc_Rules d))"
  by (simp_all add: canonical_document_def)

lemma sort_eq_Nil_iff [simp]: "sort xs = [] \<longleftrightarrow> xs = []"
  by (metis length_0_conv length_sort)

lemma normalizeSelector_eq:
  "normalizeSelector s pat maxSelectorsPerRule =
     (if selector_ok pat s then Inr (sort (slice_list s)) else Inl ErrInvalidDocument)"
  by (auto simp: normalizeSelector_def selector_ok_def distinct_scan_iff split: option.splits)

lemma normalizeRule_eq:
  "normalizeRule r = (if rule_ok r then Inr (normal_rule r) else Inl ErrInvalidDocument)"
  by (simp add: normalizeRule_def rule_ok_def normal_rule_def normalizeSelector_eq)

lemma normal_rule_ID [simp]: "rule_ID (normal_rule r) = rule_ID r"
  by (simp add: normal_rule_def)

lemma normal_rule_Effect [simp]: "rule_Effect (normal_rule r) = rule_Effect r"
  by (simp add: normal_rule_def)

lemma normal_rule_applies [simp]: "rule_applies (normal_rule r) q \<longleftrightarrow> rule_applies r q"
  by (simp add: normal_rule_def rule_applies_def)

lemma normalizeRules_eq:
  "normalizeRules seen rs =
     (if list_all rule_ok rs \<and> distinct (map rule_ID rs) \<and> rule_ID ` set rs \<inter> seen = {}
      then Inr (map normal_rule rs) else Inl ErrInvalidDocument)"
  by (induction rs arbitrary: seen) (auto simp: normalizeRule_eq)

lemma normalizeDocument_eq:
  "normalizeDocument d =
     (if document_ok d
      then Inr (canonical_document d) else Inl ErrInvalidDocument)"
  by (auto simp: normalizeDocument_def document_ok_def normalizeRules_eq canonical_document_def)

lemma applies_with_normal [simp]:
  "applies_with eff (sort_key rule_ID (map normal_rule rs)) q \<longleftrightarrow> applies_with eff rs q"
  by (simp add: applies_with_def)

lemma permits_normal [simp]:
  "permits (sort_key rule_ID (map normal_rule rs)) q \<longleftrightarrow> permits rs q"
  by (simp add: permits_def)

lemma NewEngine_eq:
  "NewEngine sha256 d =
     (if document_ok d
      then Inr \<lparr>eng_version = doc_Version d, eng_digest = digestDocument sha256 (canonical_document d),
                eng_rules = doc_Rules (canonical_document d)\<rparr>
      else Inl ErrInvalidDocument)"
  by (simp add: NewEngine_def normalizeDocument_eq)

subsection \<open>The JSON form determines a normalized document\<close>

lemma pattern_plain:
  "versionPattern s \<Longrightarrow> json_plain s" "ruleIDPattern s \<Longrightarrow> json_plain s" "principalPattern s \<Longrightarrow> json_plain s"
  "groupPattern s \<Longrightarrow> json_plain s" "endpointPattern s \<Longrightarrow> json_plain s" "modelPattern s \<Longrightarrow> json_plain s"
  by (auto simp: pattern_defs intro: uuidPattern_plain elim!: bounded_pattern_plain)

lemma effect_plain: "eff \<in> {EffectAllow, EffectDeny} \<Longrightarrow> json_plain eff"
  by (auto simp: EffectAllow_def EffectDeny_def)

lemma all_plain_json_strings:
  "list_all json_plain (slice_list s) \<Longrightarrow> all_plain (json_strings s)"
  by (auto simp: json_strings_def list_all_iff split: option.splits)

lemma selector_plain:
  "selector_ok pat s \<Longrightarrow> (\<And>x. pat x \<Longrightarrow> json_plain x) \<Longrightarrow> all_plain (json_strings (Some (sort (slice_list s))))"
  by (intro all_plain_json_strings) (auto simp: selector_ok_def list_all_iff)

lemma all_plain_rule_json:
  assumes "rule_ok r"
  shows "all_plain (rule_json (normal_rule r))"
proof -
  note ok = assms [unfolded rule_ok_def]
  have "all_plain (json_strings (Some (sort (slice_list (rule_Principals r)))))"
    "all_plain (json_strings (Some (sort (slice_list (rule_Groups r)))))"
    "all_plain (json_strings (Some (sort (slice_list (rule_Endpoints r)))))"
    "all_plain (json_strings (Some (sort (slice_list (rule_Models r)))))"
    using ok selector_plain pattern_plain by blast+
  moreover have "json_plain (rule_ID r)" "json_plain (rule_Effect r)"
    using ok pattern_plain effect_plain by blast+
  ultimately show ?thesis
    by (simp add: rule_json_def normal_rule_def omitempty_def)
qed

lemma all_plain_document_json:
  assumes "document_ok d"
  shows "all_plain (document_json (canonical_document d))"
  using assms all_plain_rule_json pattern_plain(1)
  by (auto simp: document_json_def document_ok_def list_all_iff [of all_plain] list_all_iff [of rule_ok])

lemma json_strings_inject: "json_strings (Some xs) = json_strings (Some ys) \<longleftrightarrow> xs = ys"
  by (auto simp: json_strings_def inj_map_eq_map inj_def)

lemma rule_json_inject:
  assumes "rule_json (normal_rule r) = rule_json (normal_rule r')"
  shows "normal_rule r = normal_rule r'"
  using assms
  by (auto simp: rule_json_def normal_rule_def omitempty_def json_strings_inject split: if_splits)

subsection \<open>Properties\<close>

definition sample_principal :: string where
  "sample_principal = ''00000000-0000-4000-8000-000000000001''"

definition sample_document :: Document where
  "sample_document = \<lparr>doc_Version = ''2026-07-26.1'', doc_Rules =
     [\<lparr>rule_ID = ''b-allow'', rule_Effect = EffectAllow, rule_Principals = Some [sample_principal], rule_Groups = None,
       rule_Endpoints = Some [''models.list'', ''chat.completions''], rule_Models = Some [''local-legal'']\<rparr>,
      \<lparr>rule_ID = ''a-deny'', rule_Effect = EffectDeny, rule_Principals = None, rule_Groups = Some [''contractors''],
       rule_Endpoints = Some [''chat.completions''], rule_Models = Some [''local-legal'']\<rparr>]\<rparr>"

definition sample_request :: Request where
  "sample_request = \<lparr>req_PrincipalID = sample_principal, req_Groups = Some [], req_Endpoint = ''chat.completions'',
     req_Model = ''local-legal''\<rparr>"

lemmas sample_policy_defs = sample_document_def sample_principal_def sample_request_def EffectAllow_def EffectDeny_def

lemma document_ok_sample: "document_ok sample_document"
  by (simp add: document_ok_def rule_ok_def selector_ok_def pattern_defs uuidPattern_def char_class_defs
      maxRules_def maxSelectorsPerRule_def sample_policy_defs)

lemma permits_sample: "permits (doc_Rules sample_document) sample_request"
  by (simp add: permits_def request_ok_def applies_with_def rule_applies_def pattern_defs uuidPattern_def char_class_defs
      maxSelectorsPerRule_def sample_policy_defs)

text \<open>
  C1. An engine built from a document decides every request by the rules the document lists, as the
  policy reference states: allow exactly when the request is well formed, some allow rule applies and
  no deny rule applies; the single reason code tells which of the three cases held; and the matched
  rule identifiers of the context are the identifiers of the rules that apply.
\<close>

theorem policy_decision_by_document:
  assumes "NewEngine sha256 d = Inr e"
  shows "dec_Effect (Evaluate (Some e) q) = (if permits (doc_Rules d) q then EffectAllow else EffectDeny)
    \<and> dec_ReasonCodes (Evaluate (Some e) q) =
        [if permits (doc_Rules d) q then ReasonPolicyAllowed
         else if request_ok q \<and> applies_with EffectDeny (doc_Rules d) q then ReasonExplicitDeny
         else ReasonNoMatchingAllow]
    \<and> (request_ok q \<longrightarrow> set (ctx_MatchedRuleIDs (dec_Context (Evaluate (Some e) q))) =
         rule_ID ` {r \<in> set (doc_Rules d). rule_applies r q})"
proof -
  have rules: "eng_rules e = sort_key rule_ID (map normal_rule (doc_Rules d))"
    using assms by (auto simp: NewEngine_eq Let_def split: if_splits)
  have ids: "rule_ID ` {r \<in> set (eng_rules e). rule_applies r q} = rule_ID ` {r \<in> set (doc_Rules d). rule_applies r q}"
    unfolding rules by (force simp: image_iff)
  show ?thesis
    unfolding Evaluate_Some using ids by (simp add: Let_def rules denyDecision_def)
qed

lemma NewEngine_sample: "\<exists>e. NewEngine sha256 sample_document = Inr e"
  by (simp add: NewEngine_eq document_ok_sample)

theorem policy_decision_by_document_witness:
  "\<exists>e. NewEngine (\<lambda>_. zero_digest) sample_document = Inr e \<and>
       dec_Effect (Evaluate (Some e) sample_request) = EffectAllow"
proof -
  obtain e where e: "NewEngine (\<lambda>_. zero_digest) sample_document = Inr e"
    using NewEngine_sample by blast
  show ?thesis using policy_decision_by_document [OF e, of sample_request] e permits_sample by auto
qed

text \<open>
  C10. \<open>NewEngine\<close> accepts exactly the well-formed documents: a version identifier, between 1 and 256
  rules with distinct identifiers, and in every rule a known effect, at least one identity selector, at
  least one endpoint and model, and selectors of at most 64 distinct values that match their patterns.
  Every other document gives \<open>ErrInvalidDocument\<close>.
\<close>

theorem newEngine_accepts_iff:
  "(\<exists>e. NewEngine sha256 d = Inr e) = document_ok d \<and>
   (NewEngine sha256 d = Inl ErrInvalidDocument) = (\<not> document_ok d)"
  by (simp add: NewEngine_eq)

definition selector_perm :: "string slice \<Rightarrow> string slice \<Rightarrow> bool" where
  "selector_perm s t \<longleftrightarrow> mset (slice_list s) = mset (slice_list t)"

definition rule_reordered :: "Rule \<Rightarrow> Rule \<Rightarrow> bool" where
  "rule_reordered r s \<longleftrightarrow> rule_ID r = rule_ID s \<and> rule_Effect r = rule_Effect s \<and>
     selector_perm (rule_Principals r) (rule_Principals s) \<and> selector_perm (rule_Groups r) (rule_Groups s) \<and>
     selector_perm (rule_Endpoints r) (rule_Endpoints s) \<and> selector_perm (rule_Models r) (rule_Models s)"

lemma selector_perm_facts:
  assumes "selector_perm s t"
  shows "selector_ok pat s = selector_ok pat t" and "sort (slice_list s) = sort (slice_list t)"
    and "slice_list s = [] \<longleftrightarrow> slice_list t = []"
proof -
  have m: "mset (slice_list s) = mset (slice_list t)" using assms by (simp add: selector_perm_def)
  then have st: "set (slice_list s) = set (slice_list t)" and len: "length (slice_list s) = length (slice_list t)"
    and di: "distinct (slice_list s) = distinct (slice_list t)"
    by (auto dest: mset_eq_setD mset_eq_length mset_eq_imp_distinct_iff)
  show "selector_ok pat s = selector_ok pat t" by (simp add: selector_ok_def list_all_iff st len di)
  show "slice_list s = [] \<longleftrightarrow> slice_list t = []" using len by auto
  show "sort (slice_list s) = sort (slice_list t)"
    using m by (metis properties_for_sort mset_sort sorted_sort)
qed

lemma rule_reordered_facts:
  assumes "rule_reordered r s"
  shows "rule_ok r = rule_ok s" and "normal_rule r = normal_rule s" and "rule_ID r = rule_ID s"
  using assms by (auto simp: rule_reordered_def rule_ok_def normal_rule_def selector_perm_facts)

lemma list_reordered_facts:
  "list_all2 rule_reordered rs ss \<Longrightarrow>
     list_all rule_ok rs = list_all rule_ok ss \<and> map normal_rule rs = map normal_rule ss \<and> map rule_ID rs = map rule_ID ss"
  by (induction rule: list_all2_induct) (auto simp: rule_reordered_facts)

lemma canonical_document_reordered:
  assumes "list_all2 rule_reordered (doc_Rules d) rs" and "mset rs = mset (doc_Rules d')"
    and "doc_Version d = doc_Version d'"
  shows "document_ok d = document_ok d'" and "document_ok d \<Longrightarrow> canonical_document d = canonical_document d'"
proof -
  note l = list_reordered_facts [OF assms(1)]
  have len: "length (doc_Rules d) = length (doc_Rules d')"
    using assms by (metis list_all2_lengthD mset_eq_length)
  have st: "set rs = set (doc_Rules d')" using assms(2) by (rule mset_eq_setD)
  have ids: "distinct (map rule_ID (doc_Rules d)) = distinct (map rule_ID (doc_Rules d'))"
    using l assms(2) by (metis mset_map mset_eq_imp_distinct_iff)
  show ok: "document_ok d = document_ok d'"
    using l len st ids assms(3) by (auto simp: document_ok_def list_all_iff)
  have "sort_key rule_ID (map normal_rule (doc_Rules d)) = sort_key rule_ID (map normal_rule (doc_Rules d'))" if "document_ok d"
  proof (rule sort_key_eq_of_set)
    show "distinct (map rule_ID (map normal_rule (doc_Rules d)))" "distinct (map rule_ID (map normal_rule (doc_Rules d')))"
      using that ids by (simp_all add: document_ok_def comp_def)
    have "set (map normal_rule (doc_Rules d)) = set (map normal_rule rs)" using l by simp
    then show "set (map normal_rule (doc_Rules d)) = set (map normal_rule (doc_Rules d'))"
      using st by simp
  qed
  then show "document_ok d \<Longrightarrow> canonical_document d = canonical_document d'"
    using assms(3) by (simp add: canonical_document_def)
qed

lemma rule_reordered_refl: "list_all2 rule_reordered rs rs"
  by (simp add: list_all2_conv_all_nth rule_reordered_def selector_perm_def)

text \<open>
  The order in which a customer writes the rules, and the order of the values inside each selector,
  changes neither the engine nor its digest: two documents with the same version whose rules are the same
  up to reordering give the same result of \<open>NewEngine\<close>, an error included.
\<close>

theorem newEngine_order_irrelevant:
  assumes "list_all2 rule_reordered (doc_Rules d) rs" and "mset rs = mset (doc_Rules d')"
    and "doc_Version d = doc_Version d'"
  shows "NewEngine sha256 d = NewEngine sha256 d'"
  using canonical_document_reordered [OF assms] assms(3) unfolding NewEngine_eq by auto

theorem newEngine_order_irrelevant_witness:
  "NewEngine (\<lambda>_. zero_digest) sample_document =
   NewEngine (\<lambda>_. zero_digest) (sample_document\<lparr>doc_Rules := rev (doc_Rules sample_document)\<rparr>)"
  by (rule newEngine_order_irrelevant [where rs = "doc_Rules sample_document"])
    (simp_all add: rule_reordered_refl)

definition policy_payload :: "Document \<Rightarrow> bytes" where
  "policy_payload d = marshal (document_json (canonical_document d))"

text \<open>
  C11. The policy digest binds the policy: if two engines carry the same digest and SHA-256 does not
  collide on the two canonical encodings, the engines are equal, so they decide every request alike.
\<close>

theorem policy_digest_binding:
  assumes "NewEngine sha256 d = Inr e" and "NewEngine sha256 d' = Inr e'"
    and "eng_digest e = eng_digest e'" and "inj_on sha256 {policy_payload d, policy_payload d'}"
  shows "e = e'"
proof -
  have ok: "document_ok d" "document_ok d'"
    and e: "eng_version e = doc_Version d" "eng_digest e = digestDocument sha256 (canonical_document d)"
      "eng_rules e = doc_Rules (canonical_document d)"
    and e': "eng_version e' = doc_Version d'" "eng_digest e' = digestDocument sha256 (canonical_document d')"
      "eng_rules e' = doc_Rules (canonical_document d')"
    using assms(1,2) by (auto simp: NewEngine_eq split: if_splits)
  have "sha256 (policy_payload d) = sha256 (policy_payload d')"
    using assms(3) e e' by (simp add: digestDocument_def policy_payload_def)
  then have "policy_payload d = policy_payload d'" by (rule inj_onD [OF assms(4)]) simp_all
  then have "document_json (canonical_document d) = document_json (canonical_document d')"
    using ok all_plain_document_json by (simp add: policy_payload_def marshal_inject)
  then have v: "doc_Version d = doc_Version d'"
    and r: "map rule_json (doc_Rules (canonical_document d)) = map rule_json (doc_Rules (canonical_document d'))"
    by (simp_all add: document_json_def)
  have "doc_Rules (canonical_document d) = doc_Rules (canonical_document d')"
  proof (rule map_inj_on [OF r])
    show "inj_on rule_json (set (doc_Rules (canonical_document d)) \<union> set (doc_Rules (canonical_document d')))"
      by (auto simp: inj_on_def dest: rule_json_inject)
  qed
  then show ?thesis using e e' assms(3) v by (cases e; cases e') simp
qed

theorem policy_digest_binding_witness:
  "\<exists>e e'. NewEngine (\<lambda>_. zero_digest) sample_document = Inr e \<and>
     NewEngine (\<lambda>_. zero_digest) (sample_document\<lparr>doc_Rules := rev (doc_Rules sample_document)\<rparr>) = Inr e' \<and>
     eng_digest e = eng_digest e' \<and> e = e'"
proof -
  let ?d' = "sample_document\<lparr>doc_Rules := rev (doc_Rules sample_document)\<rparr>"
  have c: "document_ok ?d'" "canonical_document sample_document = canonical_document ?d'"
    using canonical_document_reordered [OF rule_reordered_refl, of sample_document ?d'] document_ok_sample by simp_all
  obtain e e' where e: "NewEngine (\<lambda>_. zero_digest) sample_document = Inr e"
    and e': "NewEngine (\<lambda>_. zero_digest) ?d' = Inr e'"
    using document_ok_sample c(1) unfolding NewEngine_eq by simp
  have "eng_digest e = eng_digest e'"
    using e e' by (auto simp: NewEngine_eq digestDocument_def split: if_splits)
  moreover have "policy_payload sample_document = policy_payload ?d'"
    unfolding policy_payload_def c(2) by (rule refl)
  ultimately have "e = e'" by (intro policy_digest_binding [OF e e']) (simp_all only: inj_on_def, blast)
  then show ?thesis using e e' by blast
qed

end
