(* ===== verification/Price.thy ===== *)
theory Price
  imports Prelude
begin

section \<open>Integer pricing with overflow checks\<close>

text \<open>
  \<open>internal/budget/price.go\<close>: the checked 64-bit addition and multiplication, the ceiling division
  built from them, and the two cost functions. All values are \<^typ>\<open>int64\<close> words; every theorem reads
  them with \<^const>\<open>sint\<close> and compares with unbounded integer arithmetic, so a wrap-around that slipped
  through a check would show.
\<close>

datatype budget_error =
    ErrInvalidPrice
  | ErrBudgetDenied
  | ErrBudgetUnavailable
  | ErrBudgetNotFound
  | ErrInvalidReservation

record ModelPrice =
  InputMicrosPerMillion :: int64
  OutputMicrosPerMillion :: int64
  MaxOutputTokens :: int64

definition addInt64 :: "int64 \<Rightarrow> int64 \<Rightarrow> int64 \<times> bool" where
  "addInt64 a b =
     (if 0 <s b \<and> 9223372036854775807 - b <s a then (0, False)
      else if b <s 0 \<and> a <s - 9223372036854775808 - b then (0, False)
      else (a + b, True))"

definition mulInt64 :: "int64 \<Rightarrow> int64 \<Rightarrow> int64 \<times> bool" where
  "mulInt64 a b =
     (if a = 0 \<or> b = 0 then (0, True)
      else let result = a * b in
        if quot64 result a \<noteq> b then (0, False) else (result, True))"

definition mulDivCeil :: "int64 \<Rightarrow> int64 \<Rightarrow> int64 \<Rightarrow> budget_error + int64" where
  "mulDivCeil tokens microsPerMillion million =
     (if tokens <s 0 \<or> microsPerMillion \<le>s 0 \<or> million \<le>s 0 then Inl ErrInvalidPrice
      else if tokens = 0 then Inr 0
      else case mulInt64 tokens microsPerMillion of (product, ok) \<Rightarrow>
        if \<not> ok then Inl ErrInvalidPrice
        else case addInt64 product (million - 1) of (numerator, ok) \<Rightarrow>
          if \<not> ok then Inl ErrInvalidPrice else Inr (quot64 numerator million))"

definition costMicros :: "int64 \<Rightarrow> int64 \<Rightarrow> int64 \<Rightarrow> int64 \<Rightarrow> budget_error + int64" where
  "costMicros inputRate outputRate inputTokens outputTokens =
     bind_result (mulDivCeil inputTokens inputRate 1000000) (\<lambda>inputCost.
       bind_result (if 0 <s outputTokens then mulDivCeil outputTokens outputRate 1000000 else Inr 0) (\<lambda>outputCost.
         case addInt64 inputCost outputCost of (cost, ok) \<Rightarrow>
           if \<not> ok \<or> cost \<le>s 0 then Inl ErrInvalidPrice else Inr cost))"

definition EstimateMaxCostMicros :: "ModelPrice \<Rightarrow> int64 \<Rightarrow> budget_error + int64" where
  "EstimateMaxCostMicros price inputTokens =
     (if InputMicrosPerMillion price \<le>s 0 \<or> OutputMicrosPerMillion price \<le>s 0 \<or>
         MaxOutputTokens price \<le>s 0 \<or> inputTokens \<le>s 0
      then Inl ErrInvalidPrice
      else costMicros (InputMicrosPerMillion price) (OutputMicrosPerMillion price) inputTokens (MaxOutputTokens price))"

definition ActualCostMicros :: "ModelPrice \<Rightarrow> int64 \<Rightarrow> int64 \<Rightarrow> budget_error + int64" where
  "ActualCostMicros price promptTokens completionTokens =
     (if InputMicrosPerMillion price \<le>s 0 \<or> OutputMicrosPerMillion price \<le>s 0 \<or>
         promptTokens \<le>s 0 \<or> completionTokens <s 0
      then Inl ErrInvalidPrice
      else costMicros (InputMicrosPerMillion price) (OutputMicrosPerMillion price) promptTokens completionTokens)"

subsection \<open>Checked arithmetic\<close>

lemmas int64_order = word_sless_alt word_sle_eq

lemma sint_max_sub: "0 < sint b \<Longrightarrow> sint (9223372036854775807 - b :: int64) = 9223372036854775807 - sint b"
  using sint_le_max [of b] by (subst sint_sub_in_range) auto

lemma sint_min_sub: "sint b < 0 \<Longrightarrow> sint (- 9223372036854775808 - b :: int64) = - 9223372036854775808 - sint b"
  using sint_ge_min [of b] by (subst sint_sub_in_range) auto

lemma addInt64_eq:
  "addInt64 a b = (if sint a + sint b \<in> int64_range then (a + b, True) else (0, False))"
proof -
  have "0 <s b \<and> 9223372036854775807 - b <s a \<longleftrightarrow> 9223372036854775807 < sint a + sint b \<and> 0 < sint b"
    by (cases "0 < sint b") (auto simp: int64_order sint_max_sub)
  moreover have "b <s 0 \<and> a <s - 9223372036854775808 - b \<longleftrightarrow> sint a + sint b < - 9223372036854775808 \<and> sint b < 0"
    by (cases "sint b < 0") (auto simp: int64_order sint_min_sub)
  ultimately show ?thesis
    using sint_le_max [of a] sint_ge_min [of a] unfolding addInt64_def by auto
qed

text \<open>
  The division test of \<open>mulInt64\<close> detects every overflow but one: \<open>-1 * min\<close> wraps to \<open>min\<close>, and
  \<open>min / -1\<close> wraps to \<open>min\<close> again. The callers multiply positive numbers only.
\<close>

lemma sint_mult_cong: "\<exists>k. sint (a * b :: int64) = sint a * sint b + k * 2 ^ 64"
proof -
  have "take_bit 64 (sint (a * b)) = take_bit 64 (sint a * sint b)"
    by (simp add: sint_word_ariths take_bit_signed_take_bit)
  then have "sint (a * b) mod 2 ^ 64 = (sint a * sint b) mod 2 ^ 64"
    by (simp only: take_bit_eq_mod)
  then obtain k where "sint (a * b) - sint a * sint b = 2 ^ 64 * k"
    by (metis dvdE mod_eq_dvd_iff)
  then show ?thesis by (intro exI [of _ k]) (simp add: algebra_simps)
qed

lemma quot64_in_range:
  assumes "\<not> (sint a = - 9223372036854775808 \<and> sint b = - 1)"
  shows "sint (quot64 a b) = sint a sdiv sint b"
proof -
  have "sint a sdiv sint b \<in> {- \<bar>sint a\<bar>..\<bar>sint a\<bar>}" by (rule sdiv_int_range)
  moreover have "sint a sdiv sint b \<noteq> 9223372036854775808"
  proof
    assume q: "sint a sdiv sint b = 9223372036854775808"
    with calculation have a: "sint a = - 9223372036854775808"
      using sint_ge_min [of a] sint_le_max [of a] by (simp add: abs_if split: if_splits)
    with q have "sint b = - 1" using int_sdiv_negated_is_minus1 [of "sint a" "sint b"] by simp
    with a assms show False by simp
  qed
  ultimately have "sint a sdiv sint b \<in> int64_range"
    using sint_ge_min [of a] sint_le_max [of a] by (auto simp: abs_if split: if_splits)
  then show ?thesis by (simp add: quot64_def sint_word_of_int)
qed

lemma quot64_mult_eq_iff:
  assumes "a \<noteq> 0" and "\<not> (a = - 1 \<and> b = - 9223372036854775808)"
  shows "quot64 (a * b) a = b \<longleftrightarrow> sint a * sint b \<in> int64_range"
proof -
  have a0: "sint a \<noteq> 0" using assms(1) by (simp add: int64_eq_iff)
  show ?thesis
  proof (cases "sint (a * b) = - 9223372036854775808 \<and> sint a = - 1")
    case True
    then have a: "a = - 1" by (simp add: int64_eq_iff)
    with True have "sint (- b) = - 9223372036854775808" by simp
    then have "- b = - 9223372036854775808" by (simp add: int64_eq_iff)
    then have "b = - 9223372036854775808" by (simp add: minus_equation_iff)
    with a assms(2) show ?thesis by simp
  next
    case False
    then have q: "sint (quot64 (a * b) a) = sint (a * b) sdiv sint a" by (rule quot64_in_range)
    show ?thesis
    proof
      assume "quot64 (a * b) a = b"
      with q have d: "sint (a * b) sdiv sint a = sint b" by simp
      obtain k where k: "sint (a * b) = sint a * sint b + k * 2 ^ 64" using sint_mult_cong by blast
      have "sint (a * b) smod sint a = k * 2 ^ 64"
        using sdiv_mult_smod_eq [of "sint (a * b)" "sint a"] d k by (simp add: algebra_simps)
      moreover have "\<bar>sint (a * b) smod sint a\<bar> < \<bar>sint a\<bar>"
        using smod_int_range [OF a0, of "sint (a * b)"] by auto
      moreover have "\<bar>sint a\<bar> \<le> 2 ^ 63" using sint_ge_min [of a] sint_le_max [of a] by simp
      ultimately have "k = 0" by (cases "k = 0") (auto simp: abs_mult)
      with k have "sint a * sint b = sint (a * b)" by simp
      then show "sint a * sint b \<in> int64_range" by (simp only: sint_in_range)
    next
      assume "sint a * sint b \<in> int64_range"
      then have "sint (a * b) = sint a * sint b" by (rule sint_mult_in_range)
      with q a0 have "sint (quot64 (a * b) a) = sint b"
        using sdiv_mult_smod_eq [of "sint a * sint b" "sint a"] by (simp add: signed_divide_int_def signed_modulo_int_def abs_mult sgn_mult)
      then show "quot64 (a * b) a = b" by (simp add: int64_eq_iff)
    qed
  qed
qed

lemma mulInt64_eq:
  assumes "\<not> (a = - 1 \<and> b = - 9223372036854775808)"
  shows "mulInt64 a b = (if sint a * sint b \<in> int64_range then (a * b, True) else (0, False))"
proof (cases "a = 0 \<or> b = 0")
  case True
  then show ?thesis by (auto simp: mulInt64_def)
next
  case False
  then show ?thesis using quot64_mult_eq_iff [of a b] assms by (auto simp: mulInt64_def Let_def)
qed

subsection \<open>Ceiling division and cost\<close>

definition ceil_div :: "int \<Rightarrow> int \<Rightarrow> int" where
  "ceil_div n m = (n + m - 1) div m"

lemma ceil_div_bounds:
  assumes "0 < m" shows "n \<le> ceil_div n m * m" and "ceil_div n m * m < n + m"
proof -
  have "(n + m - 1) div m * m + (n + m - 1) mod m = n + m - 1" by simp
  moreover have "0 \<le> (n + m - 1) mod m" "(n + m - 1) mod m < m" using assms by simp_all
  ultimately show "n \<le> ceil_div n m * m" "ceil_div n m * m < n + m" unfolding ceil_div_def by linarith+
qed

lemma ceil_div_mono: "0 < m \<Longrightarrow> n \<le> n' \<Longrightarrow> ceil_div n m \<le> ceil_div n' m"
  by (simp add: ceil_div_def zdiv_mono1)

lemma mulDivCeil_eq:
  assumes "0 \<le> sint t" and "0 < sint r" and "0 < sint m"
  shows "mulDivCeil t r m =
    (if sint t = 0 \<or> sint t * sint r + (sint m - 1) < 2 ^ 63 then Inr (word_of_int (ceil_div (sint t * sint r) (sint m)))
     else Inl ErrInvalidPrice)"
proof (cases "t = 0")
  case True
  then show ?thesis using assms by (simp add: mulDivCeil_def int64_order ceil_div_def)
next
  case False
  then have t: "0 < sint t" using assms(1) by (simp add: int64_eq_iff order.order_iff_strict)
  have guard: "\<not> (t <s 0 \<or> r \<le>s 0 \<or> m \<le>s 0)" using assms by (simp add: int64_order)
  have pos: "0 < sint t * sint r" using t assms(2) by simp
  have mul: "mulInt64 t r = (if sint t * sint r < 2 ^ 63 then (t * r, True) else (0, False))"
    using pos t by (subst mulInt64_eq) auto
  have m1: "sint (m - 1) = sint m - 1"
    using assms(3) sint_le_max [of m] by (subst sint_sub_in_range) auto
  show ?thesis
  proof (cases "sint t * sint r < 2 ^ 63")
    case True
    then have p: "sint (t * r) = sint t * sint r" using pos by (intro sint_mult_in_range) auto
    have add: "addInt64 (t * r) (m - 1) =
      (if sint t * sint r + (sint m - 1) < 2 ^ 63 then (t * r + (m - 1), True) else (0, False))"
      using pos assms(3) by (auto simp: addInt64_eq p m1)
    have num: "sint (t * r + (m - 1)) = sint t * sint r + (sint m - 1)" if "sint t * sint r + (sint m - 1) < 2 ^ 63"
      using that pos assms(3) by (subst sint_add_in_range) (auto simp: p m1)
    show ?thesis
      using guard False t assms(3) pos True num
      by (simp add: mulDivCeil_def mul add quot64_def ceil_div_def signed_divide_int_def add_diff_eq)
  next
    case False
    then show ?thesis using guard \<open>t \<noteq> 0\<close> t assms(3) by (simp add: mulDivCeil_def mul)
  qed
qed

lemma mulDivCeil_sint:
  assumes "0 \<le> sint t" and "0 < sint r" and "0 < sint m" and "mulDivCeil t r m = Inr c"
  shows "sint c = ceil_div (sint t * sint r) (sint m)" and "0 \<le> sint c"
proof -
  have "0 \<le> sint t * sint r" using assms by simp
  then have nn: "0 \<le> ceil_div (sint t * sint r) (sint m)"
    using assms(3) by (simp add: ceil_div_def pos_imp_zdiv_nonneg_iff)
  have c: "c = word_of_int (ceil_div (sint t * sint r) (sint m))"
    and lt: "sint t = 0 \<or> sint t * sint r + (sint m - 1) < 2 ^ 63"
    using assms mulDivCeil_eq [of t r m] by (auto split: if_splits)
  have "ceil_div (sint t * sint r) (sint m) < 2 ^ 63"
  proof (cases "sint t = 0")
    case True
    then show ?thesis using assms(3) by (simp add: ceil_div_def)
  next
    case False
    have "ceil_div (sint t * sint r) (sint m) * 1 \<le> ceil_div (sint t * sint r) (sint m) * sint m"
      using nn assms(3) by (intro mult_left_mono) auto
    also have "\<dots> < sint t * sint r + sint m" by (rule ceil_div_bounds [OF assms(3)])
    finally show ?thesis using False lt by simp
  qed
  then show "sint c = ceil_div (sint t * sint r) (sint m)"
    using nn by (simp add: c sint_word_of_int)
  with nn show "0 \<le> sint c" by simp
qed

text \<open>What a request costs, in unbounded arithmetic: each leg rounded up to whole micro-units.\<close>

definition exact_cost :: "int64 \<Rightarrow> int64 \<Rightarrow> int64 \<Rightarrow> int64 \<Rightarrow> int" where
  "exact_cost inputRate outputRate inputTokens outputTokens =
     ceil_div (sint inputTokens * sint inputRate) 1000000 + ceil_div (sint outputTokens * sint outputRate) 1000000"

text \<open>The products the checks admit: each leg and the sum of both stay inside 64 bits.\<close>

definition cost_fits :: "int64 \<Rightarrow> int64 \<Rightarrow> int64 \<Rightarrow> int64 \<Rightarrow> bool" where
  "cost_fits inputRate outputRate inputTokens outputTokens \<longleftrightarrow>
     sint inputTokens * sint inputRate + 999999 < 2 ^ 63 \<and>
     (0 < sint outputTokens \<longrightarrow> sint outputTokens * sint outputRate + 999999 < 2 ^ 63)"

lemma leg_below:
  assumes "0 < t" and "0 < r" and "t * r + 999999 < 2 ^ 63"
  shows "0 < ceil_div (t * r) 1000000" and "ceil_div (t * r) 1000000 < 2 ^ 62"
proof -
  have "0 < t * r" using assms by simp
  moreover have "t * r \<le> ceil_div (t * r) 1000000 * 1000000" "ceil_div (t * r) 1000000 * 1000000 < t * r + 1000000"
    by (rule ceil_div_bounds; simp)+
  moreover have "t * r + 999999 < 9223372036854775808" using assms(3) by simp
  ultimately have "0 < ceil_div (t * r) 1000000 \<and> ceil_div (t * r) 1000000 < 4611686018427387904"
    by linarith
  then show "0 < ceil_div (t * r) 1000000" "ceil_div (t * r) 1000000 < 2 ^ 62"
    by simp_all
qed

lemma sint_million [simp]: "sint (1000000 :: int64) = 1000000"
  by simp

lemma mulDivCeil_leg:
  assumes "0 < sint t" and "0 < sint r"
  shows "mulDivCeil t r 1000000 =
    (if sint t * sint r + 999999 < 2 ^ 63 then Inr (word_of_int (ceil_div (sint t * sint r) 1000000)) else Inl ErrInvalidPrice)"
  using assms by (subst mulDivCeil_eq) auto

lemma cost_legs_add:
  assumes "0 < x" and "x < 2 ^ 62" and "0 \<le> y" and "y < 2 ^ 62"
  shows "addInt64 (word_of_int x) (word_of_int y) = (word_of_int (x + y), True)"
    and "\<not> (word_of_int (x + y) :: int64) \<le>s 0"
proof -
  have "sint (word_of_int x :: int64) = x" "sint (word_of_int y :: int64) = y" "sint (word_of_int (x + y) :: int64) = x + y"
    using assms by (intro sint_word_of_int; simp)+
  then show "addInt64 (word_of_int x) (word_of_int y) = (word_of_int (x + y), True)"
    and "\<not> (word_of_int (x + y) :: int64) \<le>s 0"
    using assms by (simp_all add: addInt64_eq int64_order)
qed

lemma costMicros_eq:
  assumes "0 < sint ir" and "0 < sint orate" and "0 < sint it" and "0 \<le> sint ot"
  shows "costMicros ir orate it ot =
    (if cost_fits ir orate it ot then Inr (word_of_int (exact_cost ir orate it ot)) else Inl ErrInvalidPrice)"
proof (cases "sint it * sint ir + 999999 < 2 ^ 63")
  case True
  note x = leg_below [OF assms(3,1) True]
  show ?thesis
  proof (cases "0 < sint ot")
    case ot: True
    show ?thesis
    proof (cases "sint ot * sint orate + 999999 < 2 ^ 63")
      case fits: True
      note y = leg_below [OF ot assms(2) fits]
      have f: "cost_fits ir orate it ot" using True fits by (simp add: cost_fits_def)
      show ?thesis
        using True fits ot f cost_legs_add [OF x less_imp_le [OF y(1)] y(2)]
        by (simp add: costMicros_def mulDivCeil_leg [OF assms(3,1)] mulDivCeil_leg [OF ot assms(2)] int64_order exact_cost_def
            del: of_int_add)
    next
      case False
      then have "\<not> cost_fits ir orate it ot" using ot by (simp add: cost_fits_def)
      then show ?thesis using True False ot
        by (simp add: costMicros_def mulDivCeil_leg [OF assms(3,1)] mulDivCeil_leg [OF ot assms(2)] int64_order)
    qed
  next
    case False
    then have ot: "sint ot = 0" using assms(4) by simp
    then have f: "cost_fits ir orate it ot" using True by (simp add: cost_fits_def)
    show ?thesis
      using True ot f cost_legs_add [OF x, of 0]
      by (simp add: costMicros_def mulDivCeil_leg [OF assms(3,1)] int64_order exact_cost_def ceil_div_def)
  qed
next
  case False
  then have "\<not> cost_fits ir orate it ot" by (simp add: cost_fits_def)
  then show ?thesis using False by (simp add: costMicros_def mulDivCeil_leg [OF assms(3,1)])
qed

lemma exact_cost_range:
  assumes "0 < sint ir" and "0 < sint orate" and "0 < sint it" and "0 \<le> sint ot" and "cost_fits ir orate it ot"
  shows "0 < exact_cost ir orate it ot" and "exact_cost ir orate it ot < 2 ^ 63"
proof -
  have x: "0 < ceil_div (sint it * sint ir) 1000000" "ceil_div (sint it * sint ir) 1000000 < 2 ^ 62"
    using assms by (intro leg_below; simp add: cost_fits_def)+
  have y: "0 \<le> ceil_div (sint ot * sint orate) 1000000 \<and> ceil_div (sint ot * sint orate) 1000000 < 2 ^ 62"
  proof (cases "sint ot = 0")
    case False
    then have "0 < sint ot" using assms(4) by simp
    then show ?thesis using assms leg_below [of "sint ot" "sint orate"] by (simp add: cost_fits_def)
  qed (simp add: ceil_div_def)
  from x y show "0 < exact_cost ir orate it ot" "exact_cost ir orate it ot < 2 ^ 63"
    unfolding exact_cost_def by auto
qed

lemma costMicros_Inr_iff:
  assumes "0 < sint ir" and "0 < sint orate" and "0 < sint it" and "0 \<le> sint ot"
  shows "costMicros ir orate it ot = Inr c \<longleftrightarrow> cost_fits ir orate it ot \<and> sint c = exact_cost ir orate it ot"
proof (cases "cost_fits ir orate it ot")
  case True
  then have "sint (word_of_int (exact_cost ir orate it ot) :: int64) = exact_cost ir orate it ot"
    using exact_cost_range [OF assms True] by (intro sint_word_of_int) auto
  then show ?thesis using True by (auto simp: costMicros_eq [OF assms] int64_eq_iff)
qed (simp add: costMicros_eq [OF assms])

lemma exact_cost_mono:
  assumes "0 < sint ir" and "0 < sint orate" and "sint p \<le> sint it" and "sint k \<le> sint ot"
  shows "exact_cost ir orate p k \<le> exact_cost ir orate it ot"
  using assms unfolding exact_cost_def
  by (intro add_mono ceil_div_mono mult_right_mono) auto

lemma cost_fits_mono:
  assumes "0 < sint ir" and "0 < sint orate" and "sint p \<le> sint it" and "sint k \<le> sint ot" and "cost_fits ir orate it ot"
  shows "cost_fits ir orate p k"
proof -
  have "sint p * sint ir \<le> sint it * sint ir" "sint k * sint orate \<le> sint ot * sint orate"
    using assms by (auto intro!: mult_right_mono)
  then show ?thesis using assms unfolding cost_fits_def by linarith
qed

subsection \<open>The two cost functions\<close>

text \<open>A price the configuration accepts.\<close>

definition price_positive :: "ModelPrice \<Rightarrow> bool" where
  "price_positive price \<longleftrightarrow>
     0 < sint (InputMicrosPerMillion price) \<and> 0 < sint (OutputMicrosPerMillion price) \<and> 0 < sint (MaxOutputTokens price)"

text \<open>
  C12. The reservation estimate. \<open>EstimateMaxCostMicros\<close> succeeds exactly when the three prices and
  the input token bound are positive and no intermediate value leaves the 64-bit range, and then the
  amount is the exact one: both legs at the highest possible token count, each rounded up to a whole
  micro-unit, added in unbounded arithmetic. In every other case the error is \<open>ErrInvalidPrice\<close>.
\<close>

theorem EstimateMaxCostMicros_exact:
  "EstimateMaxCostMicros price n =
     (let ir = InputMicrosPerMillion price; orate = OutputMicrosPerMillion price; most = MaxOutputTokens price in
      if 0 < sint ir \<and> 0 < sint orate \<and> 0 < sint most \<and> 0 < sint n \<and> cost_fits ir orate n most
      then Inr (word_of_int (exact_cost ir orate n most)) else Inl ErrInvalidPrice)"
  by (auto simp: EstimateMaxCostMicros_def int64_order Let_def costMicros_eq)

text \<open>
  C13. Settlement never exceeds the reservation. Whenever the estimate for at most \<open>n\<close> input tokens
  succeeds with \<open>reserved\<close>, the actual cost of every usage with at most \<open>n\<close> prompt tokens and at
  most \<open>MaxOutputTokens\<close> completion tokens is computable, positive and at most \<open>reserved\<close>.
\<close>

theorem ActualCostMicros_within_estimate:
  assumes "EstimateMaxCostMicros price n = Inr reserved"
    and "0 <s prompt" and "prompt \<le>s n" and "0 \<le>s completion" and "completion \<le>s MaxOutputTokens price"
  shows "\<exists>actual. ActualCostMicros price prompt completion = Inr actual \<and> 0 <s actual \<and> actual \<le>s reserved"
proof -
  define ir orate most where "ir = InputMicrosPerMillion price" and "orate = OutputMicrosPerMillion price"
    and "most = MaxOutputTokens price"
  note dims = ir_def [symmetric] orate_def [symmetric] most_def [symmetric]
  have pos: "0 < sint ir" "0 < sint orate" "0 < sint most" "0 < sint n"
    and c: "costMicros ir orate n most = Inr reserved"
    using assms(1) by (auto simp: EstimateMaxCostMicros_def int64_order dims split: if_splits)
  have use: "0 < sint prompt" "sint prompt \<le> sint n" "0 \<le> sint completion" "sint completion \<le> sint most"
    using assms by (auto simp: int64_order dims)
  from c have est: "cost_fits ir orate n most" "sint reserved = exact_cost ir orate n most"
    using pos by (auto simp: costMicros_Inr_iff)
  have f: "cost_fits ir orate prompt completion"
    by (rule cost_fits_mono [OF pos(1,2) use(2,4) est(1)])
  define actual where "actual = (word_of_int (exact_cost ir orate prompt completion) :: int64)"
  have run: "costMicros ir orate prompt completion = Inr actual"
    using f by (simp add: costMicros_eq [OF pos(1,2) use(1,3)] actual_def)
  then have "sint actual = exact_cost ir orate prompt completion"
    using costMicros_Inr_iff [OF pos(1,2) use(1,3)] by simp
  then have "0 < sint actual" "sint actual \<le> sint reserved"
    using exact_cost_range [OF pos(1,2) use(1,3) f] exact_cost_mono [OF pos(1,2) use(2,4)] est(2) by auto
  moreover have "ActualCostMicros price prompt completion = Inr actual"
    using run pos use by (simp add: ActualCostMicros_def int64_order dims)
  ultimately show ?thesis by (auto simp: int64_order)
qed

definition sample_price :: ModelPrice where
  "sample_price = \<lparr>InputMicrosPerMillion = 2500000, OutputMicrosPerMillion = 10000000, MaxOutputTokens = 1024\<rparr>"

theorem ActualCostMicros_within_estimate_witness:
  "EstimateMaxCostMicros sample_price 101 = Inr 10493 \<and>
   (\<exists>actual. ActualCostMicros sample_price 7 0 = Inr actual \<and> 0 <s actual \<and> actual \<le>s 10493)"
proof -
  have e: "EstimateMaxCostMicros sample_price 101 = Inr 10493" by code_simp
  moreover have "(0 :: int64) <s 7" "(7 :: int64) \<le>s 101" "(0 :: int64) \<le>s 0" "0 \<le>s MaxOutputTokens sample_price"
    by code_simp+
  ultimately show ?thesis using ActualCostMicros_within_estimate [OF e, of 7 0] by simp
qed

text \<open>
  Where the overflow test of \<open>mulInt64\<close> is exact and where it is not. Multiplication is flagged
  as overflowing exactly when the product leaves the 64-bit range, for all operands but one pair:
  \<open>mulInt64 (-1) min\<close> reports success with the wrapped product \<open>min\<close>.
\<close>

theorem mulInt64_overflow_check:
  "mulInt64 a b =
     (if a = - 1 \<and> b = - 9223372036854775808 then (- 9223372036854775808, True)
      else if sint a * sint b \<in> int64_range then (a * b, True) else (0, False))"
proof (cases "a = - 1 \<and> b = - 9223372036854775808")
  case True
  have "mulInt64 (- 1) (- 9223372036854775808) = (- 9223372036854775808, True)" by code_simp
  with True show ?thesis by simp
next
  case False
  then show ?thesis using mulInt64_eq [of a b] by simp
qed

end
