(* ===== verification/Calendar.thy ===== *)
theory Calendar
  imports Prelude
begin

section \<open>Civil time\<close>

text \<open>
  The proleptic Gregorian calendar of Go's \<open>time\<close> package and of PostgreSQL's \<open>date_trunc\<close>. A day is
  counted from 1 January of year 1, day 0; years before that have non-positive numbers. \<open>year_of_day\<close>
  peels off cycles of 400, 100, 4 and 1 years. The second half states what a budget period is: the
  locale \<open>period_grid\<close> is a strictly increasing sequence of boundaries that covers the time line, the
  locale \<open>period\<close> is what \<open>date_trunc(unit, t)\<close> and \<open>date_trunc(unit, t) + interval '1 unit'\<close> promise,
  and the former gives the latter. Both are interpreted on the UTC day and the UTC month.
\<close>

subsection \<open>Years and months\<close>

definition days_before_year :: "int \<Rightarrow> int" where
  "days_before_year y = 365 * (y - 1) + (y - 1) div 4 - (y - 1) div 100 + (y - 1) div 400"

definition is_leap :: "int \<Rightarrow> bool" where
  "is_leap y \<longleftrightarrow> y mod 4 = 0 \<and> (y mod 100 \<noteq> 0 \<or> y mod 400 = 0)"

definition year_of_day :: "int \<Rightarrow> int" where
  "year_of_day d =
     (let n400 = d div 146097; d1 = d mod 146097;
          n100 = min 3 (d1 div 36524); d2 = d1 - 36524 * n100;
          n4 = d2 div 1461; d3 = d2 mod 1461;
          n1 = min 3 (d3 div 365)
      in 400 * n400 + 100 * n100 + 4 * n4 + n1 + 1)"

definition days_before_month :: "int \<Rightarrow> nat \<Rightarrow> int" where
  "days_before_month y m =
     [0, 31, 59, 90, 120, 151, 181, 212, 243, 273, 304, 334, 365] ! (m - 1) + (if is_leap y \<and> 2 < m then 1 else 0)"

definition month_of_yday :: "int \<Rightarrow> int \<Rightarrow> nat" where
  "month_of_yday y yday = length (filter (\<lambda>m. days_before_month y m \<le> yday) [1..<13])"

definition civil_of_day :: "int \<Rightarrow> int \<times> nat \<times> int" where
  "civil_of_day d =
     (let y = year_of_day d; yday = d - days_before_year y; m = month_of_yday y yday
      in (y, m, yday - days_before_month y m + 1))"

definition day_of_civil :: "int \<times> nat \<times> int \<Rightarrow> int" where
  "day_of_civil ymd = (case ymd of (y, m, dd) \<Rightarrow> days_before_year y + days_before_month y m + dd - 1)"

lemma day_of_civil_of_day [simp]: "day_of_civil (civil_of_day d) = d"
  by (simp add: day_of_civil_def civil_of_day_def Let_def)

lemma civil_of_day_inject: "civil_of_day d = civil_of_day e \<Longrightarrow> d = e"
  by (metis day_of_civil_of_day)

subsection \<open>The year contains its day\<close>

lemma days_before_year_split:
  assumes "0 \<le> c" and "c < 4" and "0 \<le> k" and "k < 25" and "0 \<le> j" and "j < 4"
  shows "days_before_year (400 * n + 100 * c + 4 * k + j + 1) = 146097 * n + 36524 * c + 1461 * k + 365 * j"
proof -
  have "(400 * n + 100 * c + 4 * k + j) div 4 = 100 * n + 25 * c + k"
    and "(400 * n + 100 * c + 4 * k + j) div 100 = 4 * n + c"
    and "(400 * n + 100 * c + 4 * k + j) div 400 = n"
    using assms by (auto intro!: int_div_pos_eq [where r = j] int_div_pos_eq [where r = "4 * k + j"]
        int_div_pos_eq [where r = "100 * c + 4 * k + j"])
  then show ?thesis by (simp add: days_before_year_def)
qed

lemma div_step:
  fixes y m :: int
  assumes "1 < m"
  shows "y div m = (y - 1) div m + (if y mod m = 0 then 1 else 0)"
proof (cases "y mod m = 0")
  case True
  then have "y - 1 = m * (y div m - 1) + (m - 1)"
    using mult_div_mod_eq [of m y] by (simp add: algebra_simps)
  then have "(y - 1) div m = y div m - 1" using assms by (intro int_div_pos_eq [where r = "m - 1"]) simp_all
  then show ?thesis using True by simp
next
  case False
  have "0 \<le> y mod m" "y mod m < m" using assms by simp_all
  then have "0 \<le> y mod m - 1" "y mod m - 1 < m" using False by auto
  moreover have "y - 1 = m * (y div m) + (y mod m - 1)"
    using mult_div_mod_eq [of m y] by simp
  ultimately have "(y - 1) div m = y div m" by (intro int_div_pos_eq)
  then show ?thesis using False by simp
qed

lemma days_in_year: "days_before_year (y + 1) = days_before_year y + (if is_leap y then 366 else 365)"
proof -
  have i: "y mod 400 = 0 \<longrightarrow> y mod 100 = 0" "y mod 100 = 0 \<longrightarrow> y mod 4 = 0"
    using dvd_trans [of 100 400 y] dvd_trans [of 4 100 y] by (simp_all add: mod_eq_0_iff_dvd)
  define p4 p100 p400 where "p4 = (y - 1) div 4" and "p100 = (y - 1) div 100" and "p400 = (y - 1) div 400"
  define b4 b100 b400 where "b4 \<longleftrightarrow> y mod 4 = 0" and "b100 \<longleftrightarrow> y mod 100 = 0" and "b400 \<longleftrightarrow> y mod 400 = 0"
  have "y div 4 = p4 + (if b4 then 1 else 0)" "y div 100 = p100 + (if b100 then 1 else 0)"
    "y div 400 = p400 + (if b400 then 1 else 0)"
    unfolding p4_def p100_def p400_def b4_def b100_def b400_def by (rule div_step; simp)+
  then have "days_before_year (y + 1) = 365 * y + (p4 + (if b4 then 1 else 0)) - (p100 + (if b100 then 1 else 0)) + (p400 + (if b400 then 1 else 0))"
    unfolding days_before_year_def by (simp only: add_diff_cancel_right')
  moreover have "days_before_year y = 365 * (y - 1) + p4 - p100 + p400"
    unfolding days_before_year_def p4_def p100_def p400_def ..
  moreover have "is_leap y \<longleftrightarrow> b4 \<and> (\<not> b100 \<or> b400)" "b400 \<longrightarrow> b100" "b100 \<longrightarrow> b4"
    using i unfolding is_leap_def b4_def b100_def b400_def by simp_all
  ultimately show ?thesis by (cases b4; cases b100; cases b400) simp_all
qed

lemma year_of_day_split:
  obtains n c k j where "year_of_day d = 400 * n + 100 * c + 4 * k + j + 1"
    and "0 \<le> c" and "c < 4" and "0 \<le> k" and "k < 25" and "0 \<le> j" and "j < 4"
    and "146097 * n + 36524 * c + 1461 * k + 365 * j \<le> d"
    and "d < 146097 * n + 36524 * c + 1461 * k + 365 * j + (if j < 3 then 365 else if k < 24 \<or> c = 3 then 366 else 365)"
proof -
  define n where "n = d div 146097"
  define d1 where "d1 = d mod 146097"
  define c where "c = min 3 (d1 div 36524)"
  define d2 where "d2 = d1 - 36524 * c"
  define k where "k = d2 div 1461"
  define d3 where "d3 = d2 mod 1461"
  define j where "j = min 3 (d3 div 365)"
  have d: "d = 146097 * n + d1" "0 \<le> d1" "d1 < 146097" by (simp_all add: n_def d1_def)
  have c: "0 \<le> c" "c < 4" "0 \<le> d2" "d2 < (if c = 3 then 36525 else 36524)"
    using d unfolding c_def d2_def min_def by (auto split: if_splits; linarith)+
  have k: "d2 = 1461 * k + d3" "0 \<le> d3" "d3 < 1461" by (simp_all add: k_def d3_def)
  have k': "0 \<le> k" "k < 25" using c k by (auto split: if_splits)
  have j: "0 \<le> j" "j < 4" "365 * j \<le> d3" "d3 < 365 * j + (if j < 3 then 365 else 366)"
    using k unfolding j_def min_def by (auto split: if_splits)
  have "year_of_day d = 400 * n + 100 * c + 4 * k + j + 1"
    by (simp add: year_of_day_def Let_def n_def d1_def c_def d2_def k_def d3_def j_def)
  moreover have "146097 * n + 36524 * c + 1461 * k + 365 * j \<le> d"
    using d k j d2_def by linarith
  moreover have "d < 146097 * n + 36524 * c + 1461 * k + 365 * j + (if j < 3 then 365 else if k < 24 \<or> c = 3 then 366 else 365)"
    using d(1) c k k' j d2_def by (auto split: if_splits)
  ultimately show thesis using that c k' j by blast
qed

lemma year_of_day_bounds:
  "days_before_year (year_of_day d) \<le> d" "d < days_before_year (year_of_day d + 1)"
proof -
  obtain n c k j where y: "year_of_day d = 400 * n + 100 * c + 4 * k + j + 1"
    and r: "0 \<le> c" "c < 4" "0 \<le> k" "k < 25" "0 \<le> j" "j < 4"
    and lo: "146097 * n + 36524 * c + 1461 * k + 365 * j \<le> d"
    and hi: "d < 146097 * n + 36524 * c + 1461 * k + 365 * j + (if j < 3 then 365 else if k < 24 \<or> c = 3 then 366 else 365)"
    by (rule year_of_day_split)
  have b: "days_before_year (year_of_day d) = 146097 * n + 36524 * c + 1461 * k + 365 * j"
    unfolding y by (rule days_before_year_split [OF r])
  then show "days_before_year (year_of_day d) \<le> d" using lo by simp
  have "is_leap (year_of_day d)" if "\<not> j < 3" "k < 24 \<or> c = 3"
  proof -
    have j: "j = 3" using that r by simp
    have "year_of_day d = 4 * (100 * n + 25 * c + k + 1)" unfolding y using j by simp
    then have "year_of_day d mod 4 = 0" by simp
    moreover have "year_of_day d mod 100 \<noteq> 0" if "k < 24" 
    proof -
      have "(400 * n + 100 * c + 4 * k + j + 1) mod 100 = 4 * k + 4"
        using j that r by (intro int_mod_pos_eq [where q = "4 * n + c"]) auto
      then show ?thesis unfolding y using r by simp
    qed
    moreover have "year_of_day d mod 400 = 0" if "k = 24" "c = 3"
    proof -
      have "year_of_day d = 400 * (n + 1)" unfolding y using j that by simp
      then show ?thesis by simp
    qed
    moreover have "k < 24 \<or> k = 24" using r by auto
    ultimately show ?thesis using \<open>k < 24 \<or> c = 3\<close> by (auto simp: is_leap_def)
  qed
  then show "d < days_before_year (year_of_day d + 1)"
    using hi b by (auto simp: days_in_year split: if_splits)
qed

lemma days_before_year_mono: "y \<le> z \<Longrightarrow> days_before_year y \<le> days_before_year z"
  by (induction z rule: int_ge_induct) (auto simp: days_in_year)

subsection \<open>The month contains its day\<close>

lemma upto_twelve: "[1..<13] = [1, 2, 3, 4, 5, 6, 7, 8, 9, 10, 11, 12 :: nat]"
  by code_simp

lemma days_before_month_simps [simp]:
  "days_before_month y (Suc 0) = 0" "days_before_month y 1 = 0" "days_before_month y 2 = 31"
  "days_before_month y 3 = 59 + (if is_leap y then 1 else 0)" "days_before_month y 4 = 90 + (if is_leap y then 1 else 0)"
  "days_before_month y 5 = 120 + (if is_leap y then 1 else 0)" "days_before_month y 6 = 151 + (if is_leap y then 1 else 0)"
  "days_before_month y 7 = 181 + (if is_leap y then 1 else 0)" "days_before_month y 8 = 212 + (if is_leap y then 1 else 0)"
  "days_before_month y 9 = 243 + (if is_leap y then 1 else 0)" "days_before_month y 10 = 273 + (if is_leap y then 1 else 0)"
  "days_before_month y 11 = 304 + (if is_leap y then 1 else 0)" "days_before_month y 12 = 334 + (if is_leap y then 1 else 0)"
  "days_before_month y 13 = 365 + (if is_leap y then 1 else 0)"
  by (simp_all add: days_before_month_def)

lemma days_before_month_step: "1 \<le> m \<Longrightarrow> m \<le> 12 \<Longrightarrow> days_before_month y m < days_before_month y (Suc m)"
proof -
  assume "1 \<le> m" "m \<le> 12"
  then have "m \<in> {1..12}" by simp
  also have "{1..12} = set [1..<13]" by auto
  finally have "m = 1 \<or> m = 2 \<or> m = 3 \<or> m = 4 \<or> m = 5 \<or> m = 6 \<or> m = 7 \<or> m = 8 \<or> m = 9 \<or> m = 10 \<or> m = 11 \<or> m = 12"
    unfolding upto_twelve by simp
  then show ?thesis by (elim disjE) (simp_all add: days_before_month_def)
qed

lemma filter_prefix_length:
  assumes "\<And>m. a \<le> m \<Longrightarrow> m < b \<Longrightarrow> f m < (f (Suc m) :: int)" and "f a \<le> x" and "a < b"
  defines "k \<equiv> length (filter (\<lambda>m. f m \<le> x) [a..<b])"
  shows "1 \<le> k \<and> k \<le> b - a \<and> f (a + k - 1) \<le> x \<and> (x < f b \<longrightarrow> x < f (a + k))"
  using assms(1,3) unfolding k_def
proof (induction b)
  case (Suc b)
  show ?case
  proof (cases "a < b")
    case True
    define k where "k = length (filter (\<lambda>m. f m \<le> x) [a..<b])"
    have IH: "1 \<le> k \<and> k \<le> b - a \<and> f (a + k - 1) \<le> x \<and> (x < f b \<longrightarrow> x < f (a + k))"
      using Suc.IH Suc.prems(1) True unfolding k_def by simp
    show ?thesis
    proof (cases "f b \<le> x")
      case below: True
      have mono: "f m \<le> f n" if "a \<le> m" "m \<le> n" "n \<le> b" for m n
        using that(2,3)
      proof (induction n rule: dec_induct)
        case (step n)
        then show ?case using Suc.prems(1) [of n] that(1) by auto
      qed simp
      have "filter (\<lambda>m. f m \<le> x) [a..<b] = [a..<b]"
      proof (rule filter_True, rule ballI)
        fix m assume "m \<in> set [a..<b]"
        then have "f m \<le> f b" by (intro mono) auto
        with below show "f m \<le> x" by simp
      qed
      then have "k = b - a" by (simp add: k_def)
      then show ?thesis using below True by (simp add: k_def [symmetric])
    next
      case False
      moreover have "k \<le> Suc b - a" using IH True by linarith
      ultimately show ?thesis using IH True by (simp add: k_def [symmetric])
    qed
  next
    case False
    then have "b = a" using Suc.prems by simp
    then show ?thesis using assms(2) by simp
  qed
qed simp

lemma month_of_yday_bounds:
  assumes "0 \<le> yday" and "yday < (if is_leap y then 366 else 365)"
  shows "1 \<le> month_of_yday y yday" and "month_of_yday y yday \<le> 12"
    and "days_before_month y (month_of_yday y yday) \<le> yday"
    and "yday < days_before_month y (Suc (month_of_yday y yday))"
proof -
  have "\<And>m. 1 \<le> m \<Longrightarrow> m < 13 \<Longrightarrow> days_before_month y m < days_before_month y (Suc m)"
    by (rule days_before_month_step) auto
  from filter_prefix_length [of 1 13 "days_before_month y" yday, OF this] assms(1)
  show "1 \<le> month_of_yday y yday" "month_of_yday y yday \<le> 12"
    "days_before_month y (month_of_yday y yday) \<le> yday"
    "yday < days_before_month y (Suc (month_of_yday y yday))"
    using assms(2) by (auto simp: month_of_yday_def split: if_splits)
qed

lemma civil_of_day_ranges:
  assumes "civil_of_day d = (y, m, dd)"
  shows "y = year_of_day d" and "1 \<le> m" and "m \<le> 12" and "1 \<le> dd" and "dd \<le> 31"
    and "days_before_year y + days_before_month y m \<le> d" and "d < days_before_year y + days_before_month y (Suc m)"
proof -
  define yd where "yd = d - days_before_year (year_of_day d)"
  from assms show y: "y = year_of_day d" by (simp add: civil_of_day_def Let_def)
  have "0 \<le> yd" "yd < (if is_leap y then 366 else 365)"
    using year_of_day_bounds [of d] y by (auto simp: yd_def days_in_year split: if_splits)
  note b = month_of_yday_bounds [OF this]
  have m: "m = month_of_yday y yd" and dd: "dd = yd - days_before_month y m + 1"
    using assms y by (auto simp: civil_of_day_def Let_def yd_def)
  show "1 \<le> m" "m \<le> 12" using b m by auto
  show "1 \<le> dd" using b(3) dd m by simp
  have "days_before_month y (Suc m) - days_before_month y m \<le> 31"
  proof -
    have "m \<in> set [1..<13]" using b m by auto
    then have "m = 1 \<or> m = 2 \<or> m = 3 \<or> m = 4 \<or> m = 5 \<or> m = 6 \<or> m = 7 \<or> m = 8 \<or> m = 9 \<or> m = 10 \<or> m = 11 \<or> m = 12"
      unfolding upto_twelve by simp
    then show ?thesis by (elim disjE) (simp_all add: days_before_month_def)
  qed
  then show "dd \<le> 31" using b(4) dd m by simp
  show "days_before_year y + days_before_month y m \<le> d" "d < days_before_year y + days_before_month y (Suc m)"
    using b m y by (auto simp: yd_def)
qed

subsection \<open>Periods\<close>

text \<open>
  \<open>start t\<close> is the beginning of the period that contains \<open>t\<close> and \<open>finish s\<close> the end of the period
  that begins at \<open>s\<close>: a period contains the instant it was computed from, and an instant after the
  end of one period belongs to a period that begins no earlier than that end.
\<close>

locale period =
  fixes start :: "int \<Rightarrow> int" and finish :: "int \<Rightarrow> int"
  assumes start_le: "start t \<le> t"
    and before_finish: "t < finish (start t)"
    and later_start: "finish (start s) \<le> t \<Longrightarrow> finish (start s) \<le> start t"
begin

lemma start_before_finish: "start t < finish (start t)"
  using start_le [of t] before_finish [of t] by simp

lemma later_finish: "finish (start s) \<le> t \<Longrightarrow> finish (start s) < finish (start t)"
  using later_start start_before_finish [of t] by fastforce

end

locale period_grid =
  fixes origin :: "int \<Rightarrow> int" and index :: "int \<Rightarrow> int"
  assumes grid_step: "origin k < origin (k + 1)"
    and index_lower: "origin (index t) \<le> t"
    and index_upper: "t < origin (index t + 1)"
begin

lemma origin_mono: "j \<le> k \<Longrightarrow> origin j \<le> origin k"
  by (induction k rule: int_ge_induct) (auto intro: order_trans less_imp_le [OF grid_step])

lemma origin_le_iff: "origin k \<le> t \<longleftrightarrow> k \<le> index t"
  using origin_mono [of "index t + 1" k] origin_mono [of k "index t"] index_lower [of t] index_upper [of t]
  by fastforce

lemma index_origin [simp]: "index (origin k) = k"
  using origin_le_iff [of k "origin k"] index_lower [of "origin k"] origin_mono [of "k + 1" "index (origin k)"]
    grid_step [of k] by fastforce

end

sublocale period_grid \<subseteq> period "\<lambda>t. origin (index t)" "\<lambda>s. origin (index s + 1)"
  by unfold_locales (auto simp: index_lower index_upper origin_le_iff intro!: origin_mono)

subsection \<open>The UTC day and the UTC month, in microseconds\<close>

definition micros_per_day :: int where "micros_per_day = 86400000000"

definition day_origin :: "int \<Rightarrow> int" where "day_origin k = k * micros_per_day"
definition day_index :: "int \<Rightarrow> int" where "day_index t = t div micros_per_day"

definition month_first_day :: "int \<Rightarrow> int" where
  "month_first_day k = days_before_year (k div 12) + days_before_month (k div 12) (Suc (nat (k mod 12)))"

definition month_number :: "int \<Rightarrow> int" where
  "month_number d = (case civil_of_day d of (y, m, dd) \<Rightarrow> 12 * y + int m - 1)"

definition month_origin :: "int \<Rightarrow> int" where "month_origin k = day_origin (month_first_day k)"
definition month_index :: "int \<Rightarrow> int" where "month_index t = month_number (day_index t)"

lemma day_grid:
  "day_origin k < day_origin (k + 1)" "day_origin (day_index t) \<le> t" "t < day_origin (day_index t + 1)"
proof -
  have "t = day_index t * micros_per_day + t mod micros_per_day" "0 \<le> t mod micros_per_day" "t mod micros_per_day < micros_per_day"
    by (simp_all add: day_index_def micros_per_day_def)
  then show "day_origin (day_index t) \<le> t" "t < day_origin (day_index t + 1)"
    by (auto simp: day_origin_def distrib_right)
qed (simp add: day_origin_def micros_per_day_def)

interpretation utc_day: period_grid day_origin day_index
  by unfold_locales (rule day_grid)+

lemma month_first_day_of:
  assumes "1 \<le> m" and "m \<le> 12"
  shows "month_first_day (12 * y + int m - 1) = days_before_year y + days_before_month y m"
    and "month_first_day (12 * y + int m) = days_before_year y + days_before_month y (Suc m)"
proof -
  have "12 * y + int m - 1 = 12 * y + (int m - 1)" by simp
  then have "(12 * y + int m - 1) div 12 = y" "(12 * y + int m - 1) mod 12 = int m - 1"
    using assms by (auto intro: int_div_pos_eq int_mod_pos_eq)
  then show "month_first_day (12 * y + int m - 1) = days_before_year y + days_before_month y m"
    using assms by (simp add: month_first_day_def nat_diff_distrib)
  show "month_first_day (12 * y + int m) = days_before_year y + days_before_month y (Suc m)"
  proof (cases "m = 12")
    case True
    then have "12 * y + int m = 12 * (y + 1)" by simp
    then show ?thesis using True by (simp add: month_first_day_def days_in_year)
  next
    case False
    then have "(12 * y + int m) div 12 = y" "(12 * y + int m) mod 12 = int m"
      using assms by (auto intro: int_div_pos_eq int_mod_pos_eq)
    then show ?thesis by (simp add: month_first_day_def)
  qed
qed

lemma month_first_day_step: "month_first_day k < month_first_day (k + 1)"
proof -
  define y m where "y = k div 12" and "m = Suc (nat (k mod 12))"
  have m: "1 \<le> m" "m \<le> 12" by (simp_all add: m_def Suc_le_eq nat_less_iff)
  have k: "k = 12 * y + int m - 1" by (simp add: y_def m_def)
  then have "k + 1 = 12 * y + int m" by simp
  then show ?thesis
    using month_first_day_of [OF m, of y] days_before_month_step [OF m, of y] k by simp
qed

lemma month_number_bounds: "month_first_day (month_number d) \<le> d" "d < month_first_day (month_number d + 1)"
proof -
  obtain y m dd where c: "civil_of_day d = (y, m, dd)" by (cases "civil_of_day d")
  note r = civil_of_day_ranges [OF c]
  show "month_first_day (month_number d) \<le> d" "d < month_first_day (month_number d + 1)"
    using r(6,7) month_first_day_of [OF r(2,3), of y] by (simp_all add: month_number_def c)
qed

lemma month_grid:
  "month_origin k < month_origin (k + 1)" "month_origin (month_index t) \<le> t" "t < month_origin (month_index t + 1)"
proof -
  show "month_origin k < month_origin (k + 1)"
    using month_first_day_step [of k] by (simp add: month_origin_def day_origin_def micros_per_day_def)
  show "month_origin (month_index t) \<le> t"
    unfolding month_origin_def month_index_def
    by (simp add: utc_day.origin_le_iff month_number_bounds)
  show "t < month_origin (month_index t + 1)"
    unfolding month_origin_def month_index_def
    using month_number_bounds(2) [of "day_index t"] utc_day.origin_le_iff [of "month_first_day (month_number (day_index t) + 1)" t]
    by linarith
qed

interpretation utc_month: period_grid month_origin month_index
  by unfold_locales (rule month_grid)+

end
