(* ===== verification/BudgetStore.thy ===== *)
theory BudgetStore
  imports Json Price Calendar
begin

section \<open>The budget tables and their stored procedures\<close>

text \<open>
  \<open>migrations/000003_budgets.up.sql\<close> and \<open>migrations/000012_budget_reservation.up.sql\<close>: the tables
  \<open>budget_accounts\<close> and \<open>spend_reservations\<close> with their constraints, and the functions that are the
  only way the gateway's role may change them. Each function runs as one transaction under row locks,
  so each is one state transformer; an exception leaves the store as it was. Amounts are integers
  that an \<open>UPDATE\<close> keeps inside the \<open>BIGINT\<close> range or refuses; timestamps are microseconds. What
  PostgreSQL itself supplies is a parameter: the statement time, the identifier drawn by
  \<open>gen_random_uuid\<close>, the rows that a concurrent transaction holds locked, and the functions
  \<open>date_trunc(unit, t)\<close> and \<open>+ interval '1 unit'\<close>, which follow the session time zone.
\<close>

subsection \<open>Rows\<close>

record budget_account =
  daily_limit_micros :: int
  monthly_limit_micros :: int
  daily_period_start :: int
  daily_period_end :: int
  monthly_period_start :: int
  monthly_period_end :: int
  daily_committed_micros :: int
  daily_reserved_micros :: int
  monthly_committed_micros :: int
  monthly_reserved_micros :: int
  updated_at :: int

record spend_reservation =
  reservation_id :: string
  run_id :: string
  principal_id :: string
  model_name :: string
  reserved_max_micros :: int
  settled_actual_micros :: "int option"
  state :: string
  created_at :: int
  expires_at :: int
  settled_at :: "int option"

text \<open>The principals' status column decides who may reserve.\<close>

record budget_store =
  principal_status :: "string \<rightharpoonup> string"
  budget_accounts :: "string \<rightharpoonup> budget_account"
  spend_reservations :: "spend_reservation list"

text \<open>\<open>date_trunc\<close> and the interval addition, for days and months.\<close>

record sql_calendar =
  trunc_day :: "int \<Rightarrow> int"
  plus_day :: "int \<Rightarrow> int"
  trunc_month :: "int \<Rightarrow> int"
  plus_month :: "int \<Rightarrow> int"

datatype sql_error =
    Raised string
  | Constraint_violation
  | Bigint_out_of_range

abbreviation budget_denied :: sql_error where "budget_denied \<equiv> Raised ''budget denied''"
abbreviation invalid_reservation :: sql_error where "invalid_reservation \<equiv> Raised ''invalid budget reservation''"
abbreviation reservation_not_found :: sql_error where "reservation_not_found \<equiv> Raised ''budget reservation not found''"

subsection \<open>Constraints\<close>

definition account_check :: "budget_account \<Rightarrow> bool" where
  "account_check a \<longleftrightarrow>
     0 < daily_limit_micros a \<and> 0 < monthly_limit_micros a \<and>
     0 \<le> daily_committed_micros a \<and> 0 \<le> daily_reserved_micros a \<and>
     0 \<le> monthly_committed_micros a \<and> 0 \<le> monthly_reserved_micros a \<and>
     daily_period_start a < daily_period_end a \<and> monthly_period_start a < monthly_period_end a \<and>
     daily_committed_micros a + daily_reserved_micros a \<le> daily_limit_micros a \<and>
     monthly_committed_micros a + monthly_reserved_micros a \<le> monthly_limit_micros a"

definition reservation_check :: "spend_reservation \<Rightarrow> bool" where
  "reservation_check r \<longleftrightarrow>
     \<not> list_all (\<lambda>c. c = CHR '' '') (model_name r) \<and> 0 < reserved_max_micros r \<and>
     (case settled_actual_micros r of None \<Rightarrow> True | Some a \<Rightarrow> 0 \<le> a) \<and>
     state r \<in> {''reserved'', ''settled'', ''released'', ''expired''} \<and>
     created_at r < expires_at r \<and> (state r = ''reserved'' \<longrightarrow> settled_at r = None)"

definition in_bigint :: "int \<Rightarrow> bool" where
  "in_bigint i \<longleftrightarrow> - 9223372036854775808 \<le> i \<and> i \<le> 9223372036854775807"

definition account_in_bigint :: "budget_account \<Rightarrow> bool" where
  "account_in_bigint a \<longleftrightarrow>
     in_bigint (daily_committed_micros a) \<and> in_bigint (daily_reserved_micros a) \<and>
     in_bigint (monthly_committed_micros a) \<and> in_bigint (monthly_reserved_micros a) \<and>
     in_bigint (daily_committed_micros a + daily_reserved_micros a) \<and>
     in_bigint (monthly_committed_micros a + monthly_reserved_micros a)"

text \<open>\<open>UPDATE budget_accounts\<close> and \<open>UPDATE spend_reservations\<close> by primary key, constraints checked.\<close>

definition update_account :: "string \<Rightarrow> budget_account \<Rightarrow> budget_store \<Rightarrow> sql_error + budget_store" where
  "update_account p a st =
     (if \<not> account_in_bigint a then Inl Bigint_out_of_range
      else if \<not> account_check a then Inl Constraint_violation
      else Inr (st\<lparr>budget_accounts := (budget_accounts st)(p \<mapsto> a)\<rparr>))"

definition update_rows :: "string \<Rightarrow> (spend_reservation \<Rightarrow> spend_reservation) \<Rightarrow> spend_reservation list \<Rightarrow> spend_reservation list" where
  "update_rows i f rows = map (\<lambda>r. if reservation_id r = i then f r else r) rows"

definition update_reservation ::
  "string \<Rightarrow> (spend_reservation \<Rightarrow> spend_reservation) \<Rightarrow> budget_store \<Rightarrow> sql_error + budget_store" where
  "update_reservation i f st =
     (let rows = update_rows i f (spend_reservations st) in
      if list_all reservation_check rows then Inr (st\<lparr>spend_reservations := rows\<rparr>) else Inl Constraint_violation)"

definition insert_reservation :: "spend_reservation \<Rightarrow> budget_store \<Rightarrow> sql_error + budget_store" where
  "insert_reservation r st =
     (if list_ex (\<lambda>r'. reservation_id r' = reservation_id r \<or> run_id r' = run_id r) (spend_reservations st) \<or>
         \<not> reservation_check r
      then Inl Constraint_violation
      else Inr (st\<lparr>spend_reservations := spend_reservations st @ [r]\<rparr>))"

definition find_reservation :: "string \<Rightarrow> budget_store \<Rightarrow> spend_reservation option" where
  "find_reservation i st = find (\<lambda>r. reservation_id r = i) (spend_reservations st)"

subsection \<open>The procedures\<close>

definition budget_roll_periods :: "sql_calendar \<Rightarrow> budget_account \<Rightarrow> int \<Rightarrow> budget_account" where
  "budget_roll_periods cal p_account p_now =
     (let account = (if daily_period_end p_account \<le> p_now then
            p_account\<lparr>daily_period_start := trunc_day cal p_now,
                      daily_period_end := plus_day cal (trunc_day cal p_now),
                      daily_committed_micros := 0\<rparr>
          else p_account)
      in if monthly_period_end account \<le> p_now then
           account\<lparr>monthly_period_start := trunc_month cal p_now,
                   monthly_period_end := plus_month cal (trunc_month cal p_now),
                   monthly_committed_micros := 0\<rparr>
         else account)"

text \<open>\<open>committed + reserved + amount > limit\<close> in \<open>BIGINT\<close> arithmetic: the sum may be out of range.\<close>

definition exceeds :: "int \<Rightarrow> int \<Rightarrow> int \<Rightarrow> int \<Rightarrow> sql_error + bool" where
  "exceeds committed reserved amount limit =
     (if \<not> in_bigint (committed + reserved) \<or> \<not> in_bigint (committed + reserved + amount) then Inl Bigint_out_of_range
      else Inr (limit < committed + reserved + amount))"

definition over_budget :: "budget_account \<Rightarrow> int \<Rightarrow> sql_error + bool" where
  "over_budget account amount =
     bind_result (exceeds (daily_committed_micros account) (daily_reserved_micros account) amount (daily_limit_micros account)) (\<lambda>daily.
       if daily then Inr True
       else exceeds (monthly_committed_micros account) (monthly_reserved_micros account) amount (monthly_limit_micros account))"

text \<open>\<open>char_length\<close> counts code points: the bytes that do not continue one.\<close>

definition char_length :: "string \<Rightarrow> nat" where
  "char_length s = length (filter (\<lambda>c. \<not> utf8_cont c) s)"

definition reserve_arguments_ok :: "string \<Rightarrow> int \<Rightarrow> int \<Rightarrow> bool" where
  "reserve_arguments_ok p_model_name p_reserved_max_micros p_ttl_seconds \<longleftrightarrow>
     \<not> list_all (\<lambda>c. c = CHR '' '') p_model_name \<and> char_length p_model_name \<le> 128 \<and>
     0 < p_reserved_max_micros \<and> 0 < p_ttl_seconds \<and> p_ttl_seconds \<le> 86400"

definition reserve_budget ::
  "sql_calendar \<Rightarrow> int \<Rightarrow> string \<Rightarrow> string \<Rightarrow> string \<Rightarrow> string \<Rightarrow> int \<Rightarrow> int \<Rightarrow> budget_store \<Rightarrow> sql_error + string \<times> budget_store" where
  "reserve_budget cal now_utc created_id p_principal_id p_run_id p_model_name p_reserved_max_micros p_ttl_seconds st =
     (if \<not> reserve_arguments_ok p_model_name p_reserved_max_micros p_ttl_seconds then Inl invalid_reservation
      else if principal_status st p_principal_id \<noteq> Some ''active'' then Inl budget_denied
      else case budget_accounts st p_principal_id of
          None \<Rightarrow> Inl budget_denied
        | Some stored \<Rightarrow>
            let account = budget_roll_periods cal stored now_utc in
            bind_result (over_budget account p_reserved_max_micros) (\<lambda>over.
              if over then Inl budget_denied
              else bind_result (insert_reservation
                  \<lparr>reservation_id = created_id, run_id = p_run_id, principal_id = p_principal_id,
                   model_name = p_model_name, reserved_max_micros = p_reserved_max_micros,
                   settled_actual_micros = None, state = ''reserved'', created_at = now_utc,
                   expires_at = now_utc + p_ttl_seconds * 1000000, settled_at = None\<rparr> st) (\<lambda>st1.
                bind_result (update_account p_principal_id
                    (account\<lparr>daily_reserved_micros := daily_reserved_micros account + p_reserved_max_micros,
                             monthly_reserved_micros := monthly_reserved_micros account + p_reserved_max_micros,
                             updated_at := now_utc\<rparr>) st1) (\<lambda>st2.
                  Inr (created_id, st2)))))"

definition settle_budget ::
  "sql_calendar \<Rightarrow> int \<Rightarrow> string \<Rightarrow> int option \<Rightarrow> budget_store \<Rightarrow> sql_error + int \<times> budget_store" where
  "settle_budget cal now_utc p_reservation_id p_actual_micros st =
     (if (case p_actual_micros of None \<Rightarrow> False | Some a \<Rightarrow> a < 0) then Inl invalid_reservation
      else case find_reservation p_reservation_id st of
          None \<Rightarrow> Inl reservation_not_found
        | Some reservation \<Rightarrow>
            if state reservation \<noteq> ''reserved'' then Inl invalid_reservation
            else case budget_accounts st (principal_id reservation) of
                None \<Rightarrow> Inl budget_denied
              | Some stored \<Rightarrow>
                  let account = budget_roll_periods cal stored now_utc;
                      held = reserved_max_micros reservation;
                      coalesced = (case p_actual_micros of None \<Rightarrow> held | Some a \<Rightarrow> a);
                      actual = (if held < coalesced then held else coalesced)
                  in if daily_reserved_micros account < held \<or> monthly_reserved_micros account < held
                     then Inl invalid_reservation
                     else bind_result (update_reservation p_reservation_id
                         (\<lambda>r. r\<lparr>state := ''settled'', settled_actual_micros := Some actual, settled_at := Some now_utc\<rparr>) st) (\<lambda>st1.
                       bind_result (update_account (principal_id reservation)
                           (account\<lparr>daily_reserved_micros := daily_reserved_micros account - held,
                                    monthly_reserved_micros := monthly_reserved_micros account - held,
                                    daily_committed_micros := daily_committed_micros account + actual,
                                    monthly_committed_micros := monthly_committed_micros account + actual,
                                    updated_at := now_utc\<rparr>) st1) (\<lambda>st2.
                         Inr (actual, st2))))"

text \<open>One iteration of the loop of \<open>expire_budget_reservations\<close>, on the row the query returned.\<close>

definition expire_one :: "sql_calendar \<Rightarrow> int \<Rightarrow> spend_reservation \<Rightarrow> budget_store \<Rightarrow> sql_error + budget_store" where
  "expire_one cal now_utc reservation st =
     bind_result
       (case budget_accounts st (principal_id reservation) of
          None \<Rightarrow> Inr st
        | Some stored \<Rightarrow>
            let account = budget_roll_periods cal stored now_utc;
                held = reserved_max_micros reservation;
                daily = (if held \<le> daily_reserved_micros account then daily_reserved_micros account - held else 0);
                monthly = (if held \<le> monthly_reserved_micros account then monthly_reserved_micros account - held else 0)
            in update_account (principal_id reservation)
                 (account\<lparr>daily_reserved_micros := daily, monthly_reserved_micros := monthly, updated_at := now_utc\<rparr>) st)
       (update_reservation (reservation_id reservation) (\<lambda>r. r\<lparr>state := ''expired'', settled_at := Some now_utc\<rparr>))"

fun expire_loop :: "sql_calendar \<Rightarrow> int \<Rightarrow> spend_reservation list \<Rightarrow> int \<Rightarrow> budget_store \<Rightarrow> sql_error + int \<times> budget_store" where
  "expire_loop cal now_utc [] expired_count st = Inr (expired_count, st)"
| "expire_loop cal now_utc (r # rs) expired_count st =
     bind_result (expire_one cal now_utc r st) (\<lambda>st'. expire_loop cal now_utc rs (expired_count + 1) st')"

definition expire_budget_reservations ::
  "sql_calendar \<Rightarrow> int \<Rightarrow> (string \<Rightarrow> bool) \<Rightarrow> budget_store \<Rightarrow> sql_error + int \<times> budget_store" where
  "expire_budget_reservations cal now_utc locked st =
     expire_loop cal now_utc
       (filter (\<lambda>r. state r = ''reserved'' \<and> expires_at r \<le> now_utc \<and> \<not> locked (reservation_id r)) (spend_reservations st)) 0 st"

definition admin_set_budget :: "sql_calendar \<Rightarrow> int \<Rightarrow> string \<Rightarrow> int64 \<Rightarrow> int64 \<Rightarrow> budget_store \<Rightarrow> sql_error + budget_store" where
  "admin_set_budget cal now_utc p daily monthly st =
     (if sint daily \<le> 0 \<or> sint monthly \<le> 0 then Inl (Raised ''budget limits must be positive'')
      else if sint monthly < sint daily then Inl (Raised ''daily limit must not exceed monthly limit'')
      else if principal_status st p = None then Inl Constraint_violation
      else update_account p
        (case budget_accounts st p of
           None \<Rightarrow>
             \<lparr>daily_limit_micros = sint daily, monthly_limit_micros = sint monthly,
              daily_period_start = trunc_day cal now_utc, daily_period_end = plus_day cal (trunc_day cal now_utc),
              monthly_period_start = trunc_month cal now_utc, monthly_period_end = plus_month cal (trunc_month cal now_utc),
              daily_committed_micros = 0, daily_reserved_micros = 0,
              monthly_committed_micros = 0, monthly_reserved_micros = 0, updated_at = now_utc\<rparr>
         | Some account \<Rightarrow>
             account\<lparr>daily_limit_micros := sint daily, monthly_limit_micros := sint monthly, updated_at := now_utc\<rparr>) st)"

end
