(* ===== verification/BudgetLedger.thy ===== *)
theory BudgetLedger
  imports BudgetStore
begin

section \<open>The ledger invariant\<close>

text \<open>
  What the two tables mean together. For one principal and one budget window (the day or the month)
  the reserved column is the sum of the principal's open holds, the committed column is the sum of
  what was settled since the window began, and together they stay within the limit. The window
  lemmas are proved once, in the locale \<open>period\<close> of the calendar, and used for both windows; the
  procedures of the store keep the invariant.
\<close>

subsection \<open>Sums over the reservations\<close>

definition hold_of :: "string \<Rightarrow> spend_reservation \<Rightarrow> int" where
  "hold_of p r = (if principal_id r = p \<and> state r = ''reserved'' then reserved_max_micros r else 0)"

definition settle_time :: "spend_reservation \<Rightarrow> int" where
  "settle_time r = (case settled_at r of None \<Rightarrow> 0 | Some t \<Rightarrow> t)"

definition spent_of :: "string \<Rightarrow> int \<Rightarrow> spend_reservation \<Rightarrow> int" where
  "spent_of p t r =
     (if principal_id r = p \<and> state r = ''settled'' \<and> t \<le> settle_time r
      then (case settled_actual_micros r of None \<Rightarrow> 0 | Some a \<Rightarrow> a) else 0)"

definition held :: "string \<Rightarrow> spend_reservation list \<Rightarrow> int" where
  "held p rows = sum_list (map (hold_of p) rows)"

definition spent :: "string \<Rightarrow> int \<Rightarrow> spend_reservation list \<Rightarrow> int" where
  "spent p t rows = sum_list (map (spent_of p t) rows)"

lemma held_append [simp]: "held p (rows @ [r]) = held p rows + hold_of p r"
  by (simp add: held_def)

lemma spent_append [simp]: "spent p t (rows @ [r]) = spent p t rows + spent_of p t r"
  by (simp add: spent_def)

lemma update_rows_other:
  "i \<notin> reservation_id ` set rows \<Longrightarrow> update_rows i f rows = rows"
  unfolding update_rows_def by (rule map_idI) auto

lemma sum_update_rows:
  fixes g :: "spend_reservation \<Rightarrow> int"
  assumes "distinct (map reservation_id rows)" and "r \<in> set rows" and "reservation_id r = i"
  shows "sum_list (map g (update_rows i f rows)) = sum_list (map g rows) - g r + g (f r)"
  using assms
proof (induction rows)
  case (Cons x rows)
  show ?case
  proof (cases "x = r")
    case True
    then have "i \<notin> reservation_id ` set rows" using Cons.prems by auto
    then show ?thesis using True Cons.prems update_rows_other [of i rows f] by (simp add: update_rows_def)
  next
    case False
    then have "reservation_id x \<noteq> i" using Cons.prems by (auto simp: image_iff)
    then show ?thesis using False Cons by (simp add: update_rows_def)
  qed
qed simp

lemmas held_update = sum_update_rows [of _ _ _ "hold_of p" for p, folded held_def]
lemmas spent_update = sum_update_rows [of _ _ _ "spent_of p t" for p t, folded spent_def]

lemma update_rows_ids:
  "(\<And>r. reservation_id (f r) = reservation_id r) \<Longrightarrow>
   map reservation_id (update_rows i f rows) = map reservation_id rows"
  by (simp add: update_rows_def comp_def if_distrib cong: if_cong)

lemma in_update_rowsE:
  assumes "r' \<in> set (update_rows i f rows)"
  obtains r where "r \<in> set rows" and "reservation_id r = i" and "r' = f r"
  | "r' \<in> set rows" and "reservation_id r' \<noteq> i"
  using assms by (auto simp: update_rows_def split: if_splits)

lemma same_row:
  "distinct (map reservation_id rows) \<Longrightarrow> r \<in> set rows \<Longrightarrow> r' \<in> set rows \<Longrightarrow> reservation_id r = reservation_id r' \<Longrightarrow> r = r'"
  by (meson distinct_map inj_onD)

subsection \<open>One window\<close>

definition window_ok ::
  "(int \<Rightarrow> int) \<Rightarrow> (int \<Rightarrow> int) \<Rightarrow> int \<Rightarrow> spend_reservation list \<Rightarrow> string \<Rightarrow> int \<Rightarrow> int \<Rightarrow> int \<Rightarrow> int \<Rightarrow> int \<Rightarrow> bool" where
  "window_ok start finish now rows p limit s e committed reserved \<longleftrightarrow>
     0 < limit \<and> in_bigint limit \<and> 0 \<le> committed \<and> 0 \<le> reserved \<and> committed + reserved \<le> limit \<and>
     (\<exists>u. u \<le> now \<and> s = start u \<and> e = finish (start u)) \<and>
     reserved = held p rows \<and> committed = spent p s rows \<and>
     (\<forall>r\<in>set rows. principal_id r = p \<and> state r = ''settled'' \<longrightarrow> settle_time r < e)"

lemma spent_none:
  "(\<And>r. r \<in> set rows \<Longrightarrow> principal_id r = p \<Longrightarrow> state r = ''settled'' \<Longrightarrow> settle_time r < t) \<Longrightarrow> spent p t rows = 0"
  unfolding spent_def by (induction rows) (fastforce simp: spent_of_def)+

context period
begin

lemma window_roll:
  assumes w: "window_ok start finish now rows p limit s e committed reserved" and t: "now \<le> t"
  shows "window_ok start finish t rows p limit (if e \<le> t then start t else s)
      (if e \<le> t then finish (start t) else e) (if e \<le> t then 0 else committed) reserved"
    and "t < (if e \<le> t then finish (start t) else e)"
    and "(if e \<le> t then start t else s) \<le> t"
    and "(if e \<le> t then start t else s) < (if e \<le> t then finish (start t) else e)"
proof -
  from w obtain u where u: "u \<le> now" "s = start u" "e = finish (start u)" by (auto simp: window_ok_def)
  show "t < (if e \<le> t then finish (start t) else e)" using before_finish by simp
  show "(if e \<le> t then start t else s) \<le> t" using start_le [of t] start_le [of u] u t by simp
  show "(if e \<le> t then start t else s) < (if e \<le> t then finish (start t) else e)"
    using start_before_finish u by simp
  show "window_ok start finish t rows p limit (if e \<le> t then start t else s)
      (if e \<le> t then finish (start t) else e) (if e \<le> t then 0 else committed) reserved"
  proof (cases "e \<le> t")
    case True
    then have e: "e \<le> start t" "e < finish (start t)" using later_start later_finish u by auto
    have past: "settle_time r < e" if "r \<in> set rows" "principal_id r = p" "state r = ''settled''" for r
      using w that by (auto simp: window_ok_def)
    have "spent p (start t) rows = 0"
      by (rule spent_none) (use past e(1) in force)
    moreover have "settle_time r < finish (start t)" if "r \<in> set rows" "principal_id r = p" "state r = ''settled''" for r
      using past [OF that] e(2) by simp
    ultimately show ?thesis using w True by (auto simp: window_ok_def)
  next
    case False
    then show ?thesis using w u t by (auto simp: window_ok_def intro!: exI [of _ u])
  qed
qed

lemma window_reserve:
  assumes "window_ok start finish now rows p limit s e committed reserved"
    and "committed + reserved + reserved_max_micros r \<le> limit" and "0 < reserved_max_micros r"
    and "principal_id r = p" and "state r = ''reserved''"
  shows "window_ok start finish now (rows @ [r]) p limit s e committed (reserved + reserved_max_micros r)"
  using assms by (auto simp: window_ok_def hold_of_def spent_of_def)

lemma window_other_row:
  assumes "window_ok start finish now rows p limit s e committed reserved" and "principal_id r \<noteq> p"
  shows "window_ok start finish now (rows @ [r]) p limit s e committed reserved"
  using assms by (auto simp: window_ok_def hold_of_def spent_of_def)

lemma window_close:
  assumes w: "window_ok start finish now rows p limit s e committed reserved"
    and d: "distinct (map reservation_id rows)" and r: "r \<in> set rows" "reservation_id r = i"
    and p: "principal_id r = p" "state r = ''reserved''"
    and h: "reserved_max_micros r \<le> reserved"
    and f: "state (f r) = ''settled'' \<Longrightarrow> settle_time (f r) < e" "principal_id (f r) = p" "state (f r) \<noteq> ''reserved''"
    and a: "spent_of p s (f r) = actual" "0 \<le> actual" "actual \<le> reserved_max_micros r"
  shows "window_ok start finish now (update_rows i f rows) p limit s e (committed + actual) (reserved - reserved_max_micros r)"
proof -
  have "held p (update_rows i f rows) = held p rows - reserved_max_micros r"
    using held_update [OF d r] p f by (simp add: hold_of_def)
  moreover have "spent p s (update_rows i f rows) = spent p s rows + actual"
    using spent_update [OF d r] p a by (simp add: spent_of_def)
  moreover have "settle_time r' < e"
    if "r' \<in> set (update_rows i f rows)" "principal_id r' = p" "state r' = ''settled''" for r'
    using that(1)
  proof (cases rule: in_update_rowsE)
    case (1 x)
    then have "x = r" using same_row [OF d] r by simp
    then show ?thesis using 1 f(1) that by simp
  next
    case 2
    then show ?thesis using w that by (auto simp: window_ok_def)
  qed
  ultimately show ?thesis using w h a by (simp add: window_ok_def)
qed

lemma window_other_close:
  assumes w: "window_ok start finish now rows p limit s e committed reserved"
    and d: "distinct (map reservation_id rows)" and r: "r \<in> set rows" "reservation_id r = i"
    and p: "principal_id r \<noteq> p" "principal_id (f r) \<noteq> p"
  shows "window_ok start finish now (update_rows i f rows) p limit s e committed reserved"
proof -
  have "held p (update_rows i f rows) = held p rows" "spent p s (update_rows i f rows) = spent p s rows"
    using held_update [OF d r] spent_update [OF d r] p by (simp_all add: hold_of_def spent_of_def)
  moreover have "settle_time r' < e"
    if "r' \<in> set (update_rows i f rows)" "principal_id r' = p" "state r' = ''settled''" for r'
    using that(1)
  proof (cases rule: in_update_rowsE)
    case (1 x)
    then have "x = r" using same_row [OF d] r by simp
    then show ?thesis using 1 p that by simp
  next
    case 2
    then show ?thesis using w that by (auto simp: window_ok_def)
  qed
  ultimately show ?thesis using w by (simp add: window_ok_def)
qed

lemma window_later:
  "window_ok start finish now rows p limit s e committed reserved \<Longrightarrow> now \<le> t \<Longrightarrow>
   window_ok start finish t rows p limit s e committed reserved"
  unfolding window_ok_def by (elim conjE exE) (simp, metis order_trans)

end

subsection \<open>The whole ledger\<close>

text \<open>What PostgreSQL documents of \<open>date_trunc\<close> and interval addition, for both windows.\<close>

definition calendar_ok :: "sql_calendar \<Rightarrow> bool" where
  "calendar_ok cal \<longleftrightarrow> period (trunc_day cal) (plus_day cal) \<and> period (trunc_month cal) (plus_month cal)"

definition account_ok :: "sql_calendar \<Rightarrow> int \<Rightarrow> spend_reservation list \<Rightarrow> string \<Rightarrow> budget_account \<Rightarrow> bool" where
  "account_ok cal now rows p a \<longleftrightarrow>
     window_ok (trunc_day cal) (plus_day cal) now rows p (daily_limit_micros a) (daily_period_start a)
       (daily_period_end a) (daily_committed_micros a) (daily_reserved_micros a) \<and>
     window_ok (trunc_month cal) (plus_month cal) now rows p (monthly_limit_micros a) (monthly_period_start a)
       (monthly_period_end a) (monthly_committed_micros a) (monthly_reserved_micros a)"

definition row_ok :: "budget_store \<Rightarrow> spend_reservation \<Rightarrow> bool" where
  "row_ok st r \<longleftrightarrow>
     reservation_check r \<and> budget_accounts st (principal_id r) \<noteq> None \<and>
     (state r = ''settled'' \<longrightarrow> (\<exists>a. settled_actual_micros r = Some a \<and> a \<le> reserved_max_micros r))"

definition ledger_ok :: "sql_calendar \<Rightarrow> int \<Rightarrow> budget_store \<Rightarrow> bool" where
  "ledger_ok cal now st \<longleftrightarrow>
     distinct (map reservation_id (spend_reservations st)) \<and>
     (\<forall>r\<in>set (spend_reservations st). row_ok st r) \<and>
     (\<forall>p a. budget_accounts st p = Some a \<longrightarrow> account_ok cal now (spend_reservations st) p a)"

lemma hold_of_nonneg: "reservation_check r \<Longrightarrow> 0 \<le> hold_of p r"
  by (simp add: hold_of_def reservation_check_def)

lemma held_ge:
  "(\<And>x. x \<in> set rows \<Longrightarrow> reservation_check x) \<Longrightarrow> r \<in> set rows \<Longrightarrow> principal_id r = p \<Longrightarrow> state r = ''reserved'' \<Longrightarrow>
   reserved_max_micros r \<le> held p rows"
proof (induction rows)
  case (Cons x rows)
  have nn: "0 \<le> held p rows"
    unfolding held_def using Cons.prems(1) by (intro sum_list_nonneg) (auto intro: hold_of_nonneg)
  show ?case
  proof (cases "r = x")
    case True
    then show ?thesis using nn Cons.prems by (simp add: held_def hold_of_def)
  next
    case False
    then have "reserved_max_micros r \<le> held p rows" using Cons by simp
    moreover have "0 \<le> hold_of p x" using Cons.prems(1) by (intro hold_of_nonneg) simp
    ultimately show ?thesis by (simp add: held_def)
  qed
qed simp

lemma account_ok_later: "calendar_ok cal \<Longrightarrow> account_ok cal now rows p a \<Longrightarrow> now \<le> t \<Longrightarrow> account_ok cal t rows p a"
  unfolding account_ok_def calendar_ok_def by (auto intro: period.window_later)

lemma ledger_later: "calendar_ok cal \<Longrightarrow> ledger_ok cal now st \<Longrightarrow> now \<le> t \<Longrightarrow> ledger_ok cal t st"
  unfolding ledger_ok_def using account_ok_later by blast

lemma rolled_account:
  assumes "calendar_ok cal" and "account_ok cal now rows p a" and "now \<le> t"
  defines "b \<equiv> budget_roll_periods cal a t"
  shows "account_ok cal t rows p b"
    and "t < daily_period_end b" and "t < monthly_period_end b"
    and "daily_period_start b \<le> t" and "monthly_period_start b \<le> t"
    and "daily_limit_micros b = daily_limit_micros a" and "monthly_limit_micros b = monthly_limit_micros a"
    and "daily_reserved_micros b = daily_reserved_micros a" and "monthly_reserved_micros b = monthly_reserved_micros a"
proof -
  have d: "period (trunc_day cal) (plus_day cal)" and m: "period (trunc_month cal) (plus_month cal)"
    using assms(1) by (simp_all add: calendar_ok_def)
  note wd = period.window_roll [OF d conjunct1 [OF assms(2) [unfolded account_ok_def]] assms(3)]
  note wm = period.window_roll [OF m conjunct2 [OF assms(2) [unfolded account_ok_def]] assms(3)]
  show "account_ok cal t rows p b" "t < daily_period_end b" "t < monthly_period_end b"
    "daily_period_start b \<le> t" "monthly_period_start b \<le> t"
    using wd wm unfolding b_def account_ok_def budget_roll_periods_def Let_def by (auto split: if_splits)
  show "daily_limit_micros b = daily_limit_micros a" "monthly_limit_micros b = monthly_limit_micros a"
    "daily_reserved_micros b = daily_reserved_micros a" "monthly_reserved_micros b = monthly_reserved_micros a"
    by (simp_all add: b_def budget_roll_periods_def Let_def)
qed

lemma account_ok_check:
  assumes "calendar_ok cal" and "account_ok cal t rows p b"
  shows "account_check b" and "account_in_bigint b"
proof -
  have "period (trunc_day cal) (plus_day cal)" "period (trunc_month cal) (plus_month cal)"
    using assms(1) by (simp_all add: calendar_ok_def)
  then have "daily_period_start b < daily_period_end b" "monthly_period_start b < monthly_period_end b"
    using assms(2) unfolding account_ok_def window_ok_def by (auto simp: period.start_before_finish)
  then show "account_check b" "account_in_bigint b"
    using assms(2) unfolding account_ok_def window_ok_def account_check_def account_in_bigint_def in_bigint_def by auto
qed

subsection \<open>Reserving\<close>

text \<open>The account after a hold of \<open>amount\<close>, as \<open>reserve_budget\<close> writes it back.\<close>

definition with_hold :: "budget_account \<Rightarrow> int \<Rightarrow> int \<Rightarrow> budget_account" where
  "with_hold b amount t =
     b\<lparr>daily_reserved_micros := daily_reserved_micros b + amount,
       monthly_reserved_micros := monthly_reserved_micros b + amount, updated_at := t\<rparr>"

text \<open>Whether a hold fits both windows of an account.\<close>

definition fits :: "budget_account \<Rightarrow> int \<Rightarrow> bool" where
  "fits b amount \<longleftrightarrow>
     daily_committed_micros b + daily_reserved_micros b + amount \<le> daily_limit_micros b \<and>
     monthly_committed_micros b + monthly_reserved_micros b + amount \<le> monthly_limit_micros b"

lemma over_budget_fits:
  assumes "account_ok cal t rows p b" and "0 < amount"
  shows "over_budget b amount = Inr False \<longleftrightarrow> fits b amount"
    and "fits b amount \<Longrightarrow> over_budget b amount = Inr False"
  using assms unfolding over_budget_def exceeds_def fits_def account_ok_def window_ok_def in_bigint_def
  by (auto split: if_splits)

lemma account_ok_hold:
  assumes "calendar_ok cal" and "account_ok cal t rows p b" and "fits b (reserved_max_micros r)"
    and "0 < reserved_max_micros r" and "principal_id r = p" and "state r = ''reserved''"
  shows "account_ok cal t (rows @ [r]) p (with_hold b (reserved_max_micros r) t')"
  using assms period.window_reserve [of "trunc_day cal" "plus_day cal"] period.window_reserve [of "trunc_month cal" "plus_month cal"]
  unfolding account_ok_def with_hold_def fits_def calendar_ok_def by simp

lemma account_ok_other_row:
  assumes "calendar_ok cal" and "account_ok cal t rows p b" and "principal_id r \<noteq> p"
  shows "account_ok cal t (rows @ [r]) p b"
  using assms period.window_other_row [of "trunc_day cal" "plus_day cal"] period.window_other_row [of "trunc_month cal" "plus_month cal"]
  unfolding account_ok_def calendar_ok_def by blast

text \<open>The row \<open>reserve_budget\<close> inserts.\<close>

definition new_row :: "int \<Rightarrow> string \<Rightarrow> string \<Rightarrow> string \<Rightarrow> string \<Rightarrow> int \<Rightarrow> int \<Rightarrow> spend_reservation" where
  "new_row t i p run model amount ttl =
     \<lparr>reservation_id = i, run_id = run, principal_id = p, model_name = model, reserved_max_micros = amount,
      settled_actual_micros = None, state = ''reserved'', created_at = t,
      expires_at = t + ttl * 1000000, settled_at = None\<rparr>"

lemma new_row_check: "reserve_arguments_ok model amount ttl \<Longrightarrow> reservation_check (new_row t i p run model amount ttl)"
  by (simp add: reserve_arguments_ok_def reservation_check_def new_row_def)

definition unused :: "string \<Rightarrow> string \<Rightarrow> budget_store \<Rightarrow> bool" where
  "unused i run st \<longleftrightarrow> (\<forall>r\<in>set (spend_reservations st). reservation_id r \<noteq> i \<and> run_id r \<noteq> run)"

lemma reserve_budget_eq:
  assumes cal: "calendar_ok cal" and inv: "ledger_ok cal now st" and t: "now \<le> t"
  shows "reserve_budget cal t i p run model amount ttl st = Inr res \<longleftrightarrow>
    reserve_arguments_ok model amount ttl \<and> principal_status st p = Some ''active'' \<and>
    (\<exists>a. budget_accounts st p = Some a \<and> fits (budget_roll_periods cal a t) amount \<and> unused i run st \<and>
      res = (i, st\<lparr>spend_reservations := spend_reservations st @ [new_row t i p run model amount ttl],
                   budget_accounts := (budget_accounts st)(p \<mapsto> with_hold (budget_roll_periods cal a t) amount t)\<rparr>))"
    (is "?run = Inr res \<longleftrightarrow> ?args \<and> ?active \<and> ?fit")
proof (cases "?args \<and> ?active")
  case True
  then have amount: "0 < amount" by (simp add: reserve_arguments_ok_def)
  show ?thesis
  proof (cases "budget_accounts st p")
    case (Some a)
    define b where "b = budget_roll_periods cal a t"
    have "account_ok cal now (spend_reservations st) p a" using inv Some by (simp add: ledger_ok_def)
    then have b: "account_ok cal t (spend_reservations st) p b"
      using rolled_account [OF cal _ t] unfolding b_def by blast
    have ins: "insert_reservation (new_row t i p run model amount ttl) st =
      (if unused i run st then Inr (st\<lparr>spend_reservations := spend_reservations st @ [new_row t i p run model amount ttl]\<rparr>)
       else Inl Constraint_violation)"
      using True by (auto simp: insert_reservation_def list_ex_iff unused_def new_row_check) (auto simp: new_row_def)
    have upd: "update_account p (with_hold b amount t) st1 = Inr (st1\<lparr>budget_accounts := (budget_accounts st1)(p \<mapsto> with_hold b amount t)\<rparr>)"
      if "fits b amount" for st1
    proof -
      have "account_ok cal t (spend_reservations st @ [new_row t i p run model amount ttl]) p
          (with_hold b (reserved_max_micros (new_row t i p run model amount ttl)) t)"
        using cal b amount that by (intro account_ok_hold) (simp_all add: new_row_def)
      then have "account_ok cal t (spend_reservations st @ [new_row t i p run model amount ttl]) p (with_hold b amount t)"
        by (simp add: new_row_def)
      from account_ok_check [OF cal this] show ?thesis by (simp add: update_account_def)
    qed
    have run: "?run = bind_result (over_budget b amount) (\<lambda>over. if over then Inl budget_denied
        else bind_result (insert_reservation (new_row t i p run model amount ttl) st) (\<lambda>st1.
          bind_result (update_account p (with_hold b amount t) st1) (\<lambda>st2. Inr (i, st2))))"
      unfolding reserve_budget_def new_row_def with_hold_def b_def Let_def using True Some by simp
    show ?thesis
    proof (cases "fits b amount")
      case fit: True
      then show ?thesis
        using True Some unfolding run by (auto simp: over_budget_fits(2) [OF b amount] ins upd b_def [symmetric])
    next
      case False
      then have "over_budget b amount \<noteq> Inr False" using over_budget_fits(1) [OF b amount] by simp
      then have "?run \<noteq> Inr res" unfolding run by auto
      then show ?thesis using False Some by (simp add: b_def)
    qed
  qed (use True in \<open>simp add: reserve_budget_def\<close>)
qed (auto simp: reserve_budget_def)

lemma reserve_budget_ledger:
  assumes cal: "calendar_ok cal" and inv: "ledger_ok cal now st" and t: "now \<le> t"
    and run: "reserve_budget cal t i p run model amount ttl st = Inr (j, st')"
  shows "ledger_ok cal t st'"
proof -
  define row where "row = new_row t i p run model amount ttl"
  from run obtain a where args: "reserve_arguments_ok model amount ttl" and a: "budget_accounts st p = Some a"
    and fit: "fits (budget_roll_periods cal a t) amount" and new: "unused i run st"
    and st': "st' = st\<lparr>spend_reservations := spend_reservations st @ [row],
        budget_accounts := (budget_accounts st)(p \<mapsto> with_hold (budget_roll_periods cal a t) amount t)\<rparr>"
    unfolding reserve_budget_eq [OF cal inv t] row_def by auto
  have row: "reservation_id row = i" "principal_id row = p" "reserved_max_micros row = amount" "state row = ''reserved''"
    by (simp_all add: row_def new_row_def)
  have "account_ok cal t (spend_reservations st) p (budget_roll_periods cal a t)"
    using inv a by (intro rolled_account [OF cal _ t]) (simp add: ledger_ok_def)
  then have "account_ok cal t (spend_reservations st @ [row]) p (with_hold (budget_roll_periods cal a t) (reserved_max_micros row) t)"
    using cal fit args row by (intro account_ok_hold) (simp_all add: reserve_arguments_ok_def)
  moreover have "account_ok cal t (spend_reservations st @ [row]) q b" if "budget_accounts st q = Some b" "q \<noteq> p" for q b
    using ledger_later [OF cal inv t] that cal row by (intro account_ok_other_row) (auto simp: ledger_ok_def)
  moreover have "row_ok st' row" using new_row_check [OF args] by (simp add: row_ok_def row st' row_def new_row_def)
  moreover have "row_ok st' r" if "r \<in> set (spend_reservations st)" for r
    using inv that by (auto simp: ledger_ok_def row_ok_def st')
  ultimately show ?thesis
    using inv new by (auto simp: ledger_ok_def st' row unused_def)
qed

subsection \<open>Settling and expiring\<close>

text \<open>The account after a hold is released and \<open>actual\<close> of it committed.\<close>

definition without_hold :: "budget_account \<Rightarrow> int \<Rightarrow> int \<Rightarrow> int \<Rightarrow> budget_account" where
  "without_hold b amount actual t =
     b\<lparr>daily_reserved_micros := daily_reserved_micros b - amount,
       monthly_reserved_micros := monthly_reserved_micros b - amount,
       daily_committed_micros := daily_committed_micros b + actual,
       monthly_committed_micros := monthly_committed_micros b + actual, updated_at := t\<rparr>"

text \<open>The two ways an open row is closed.\<close>

definition settled_row :: "int \<Rightarrow> int \<Rightarrow> spend_reservation \<Rightarrow> spend_reservation" where
  "settled_row actual t r = r\<lparr>state := ''settled'', settled_actual_micros := Some actual, settled_at := Some t\<rparr>"

definition expired_row :: "int \<Rightarrow> spend_reservation \<Rightarrow> spend_reservation" where
  "expired_row t r = r\<lparr>state := ''expired'', settled_at := Some t\<rparr>"

lemma closed_row_simps [simp]:
  "reservation_id (settled_row actual t r) = reservation_id r" "principal_id (settled_row actual t r) = principal_id r"
  "state (settled_row actual t r) = ''settled''" "settle_time (settled_row actual t r) = t"
  "reserved_max_micros (settled_row actual t r) = reserved_max_micros r"
  "settled_actual_micros (settled_row actual t r) = Some actual"
  "reservation_id (expired_row t r) = reservation_id r" "principal_id (expired_row t r) = principal_id r"
  "state (expired_row t r) = ''expired''" "reserved_max_micros (expired_row t r) = reserved_max_micros r"
  by (simp_all add: settled_row_def expired_row_def settle_time_def)

lemma closed_row_check:
  "reservation_check r \<Longrightarrow> 0 \<le> actual \<Longrightarrow> reservation_check (settled_row actual t r)"
  "reservation_check r \<Longrightarrow> reservation_check (expired_row t r)"
  by (simp_all add: reservation_check_def settled_row_def expired_row_def)

lemma account_ok_close:
  assumes cal: "calendar_ok cal" and b: "account_ok cal t rows p b"
    and d: "distinct (map reservation_id rows)" and r: "r \<in> set rows" "reservation_id r = i"
    and p: "principal_id r = p" "state r = ''reserved''"
    and h: "reserved_max_micros r \<le> daily_reserved_micros b" "reserved_max_micros r \<le> monthly_reserved_micros b"
    and f: "state (f r) = ''settled'' \<Longrightarrow> settle_time (f r) = t" "principal_id (f r) = p" "state (f r) \<noteq> ''reserved''"
    and now: "t < daily_period_end b" "t < monthly_period_end b"
    and a: "spent_of p (daily_period_start b) (f r) = actual" "spent_of p (monthly_period_start b) (f r) = actual"
      "0 \<le> actual" "actual \<le> reserved_max_micros r"
  shows "account_ok cal t (update_rows i f rows) p (without_hold b (reserved_max_micros r) actual t')"
  using cal b unfolding account_ok_def calendar_ok_def
  by (auto simp: without_hold_def intro!: period.window_close [OF _ _ d r p] h f a simp: f(1) now)

lemma account_ok_other_close:
  assumes cal: "calendar_ok cal" and b: "account_ok cal t rows p b"
    and d: "distinct (map reservation_id rows)" and r: "r \<in> set rows" "reservation_id r = i"
    and p: "principal_id r \<noteq> p" "principal_id (f r) \<noteq> p"
  shows "account_ok cal t (update_rows i f rows) p b"
  using cal b unfolding account_ok_def calendar_ok_def
  by (auto intro!: period.window_other_close [where f = f, OF _ _ d r p])

lemma find_reservation_Some:
  "find_reservation i st = Some r \<Longrightarrow> r \<in> set (spend_reservations st) \<and> reservation_id r = i"
  by (auto simp: find_reservation_def find_Some_iff)

lemma find_reservation_iff:
  assumes "distinct (map reservation_id (spend_reservations st))"
  shows "find_reservation i st = Some r \<longleftrightarrow> r \<in> set (spend_reservations st) \<and> reservation_id r = i"
proof
  assume r: "r \<in> set (spend_reservations st) \<and> reservation_id r = i"
  then obtain x where "find_reservation i st = Some x"
    by (cases "find_reservation i st") (auto simp: find_reservation_def find_None_iff)
  then show "find_reservation i st = Some r"
    using r find_reservation_Some [of i st x] same_row [OF assms, of x r] by simp
qed (rule find_reservation_Some)

text \<open>An open reservation of a sound ledger: its account exists and covers it in both windows.\<close>

lemma open_reservation:
  assumes "ledger_ok cal now st" and "r \<in> set (spend_reservations st)" and "state r = ''reserved''"
  obtains a where "budget_accounts st (principal_id r) = Some a"
    and "account_ok cal now (spend_reservations st) (principal_id r) a"
    and "reserved_max_micros r \<le> daily_reserved_micros a" and "reserved_max_micros r \<le> monthly_reserved_micros a"
proof -
  from assms obtain a where a: "budget_accounts st (principal_id r) = Some a"
    and ok: "account_ok cal now (spend_reservations st) (principal_id r) a"
    by (fastforce simp: ledger_ok_def row_ok_def)
  have "reserved_max_micros r \<le> held (principal_id r) (spend_reservations st)"
    using assms by (intro held_ge) (auto simp: ledger_ok_def row_ok_def)
  then show thesis using ok a by (intro that [of a]) (auto simp: account_ok_def window_ok_def)
qed

text \<open>Closing a row of a sound ledger and writing its account back leaves a sound ledger.\<close>

lemma ledger_close:
  assumes cal: "calendar_ok cal" and inv: "ledger_ok cal t st"
    and r: "r \<in> set (spend_reservations st)" "reservation_id r = i"
    and ids: "\<And>x. reservation_id (f x) = reservation_id x" "principal_id (f r) = principal_id r"
    and row: "reservation_check (f r)" "state (f r) = ''settled'' \<Longrightarrow> \<exists>a. settled_actual_micros (f r) = Some a \<and> a \<le> reserved_max_micros (f r)"
    and acc: "account_ok cal t (update_rows i f (spend_reservations st)) (principal_id r) b"
  shows "ledger_ok cal t (st\<lparr>spend_reservations := update_rows i f (spend_reservations st),
            budget_accounts := (budget_accounts st)(principal_id r \<mapsto> b)\<rparr>)" (is "ledger_ok cal t ?st")
proof -
  have d: "distinct (map reservation_id (spend_reservations st))" using inv by (simp add: ledger_ok_def)
  have "row_ok ?st x" if "x \<in> set (update_rows i f (spend_reservations st))" for x
    using that
  proof (cases rule: in_update_rowsE)
    case (1 y)
    then have "y = r" using same_row [OF d] r by simp
    then show ?thesis using 1 row ids by (simp add: row_ok_def)
  next
    case 2
    then show ?thesis using inv by (auto simp: ledger_ok_def row_ok_def)
  qed
  moreover have "account_ok cal t (update_rows i f (spend_reservations st)) q a"
    if "budget_accounts st q = Some a" "q \<noteq> principal_id r" for q a
    using that inv ids by (intro account_ok_other_close [OF cal _ d r]) (auto simp: ledger_ok_def)
  moreover have "distinct (map reservation_id (update_rows i f (spend_reservations st)))"
    using d update_rows_ids [OF ids(1)] by simp
  ultimately show ?thesis using acc by (simp add: ledger_ok_def)
qed

lemma update_reservation_eq:
  assumes inv: "ledger_ok cal t st" and r: "r \<in> set (spend_reservations st)" "reservation_id r = i"
    and row: "reservation_check (f r)"
  shows "update_reservation i f st = Inr (st\<lparr>spend_reservations := update_rows i f (spend_reservations st)\<rparr>)"
proof -
  have d: "distinct (map reservation_id (spend_reservations st))" using inv by (simp add: ledger_ok_def)
  have "reservation_check x" if "x \<in> set (update_rows i f (spend_reservations st))" for x
    using that
  proof (cases rule: in_update_rowsE)
    case (1 y)
    then have "y = r" using same_row [OF d] r by simp
    then show ?thesis using 1 row by simp
  next
    case 2
    then show ?thesis using inv by (auto simp: ledger_ok_def row_ok_def)
  qed
  then show ?thesis by (auto simp: update_reservation_def list_all_iff)
qed

lemma settle_budget_open:
  assumes cal: "calendar_ok cal" and inv: "ledger_ok cal now st" and t: "now \<le> t"
    and r: "find_reservation i st = Some r" "state r = ''reserved''"
    and arg: "case p_actual of None \<Rightarrow> True | Some a \<Rightarrow> 0 \<le> a"
  defines "actual \<equiv> (case p_actual of None \<Rightarrow> reserved_max_micros r | Some a \<Rightarrow> min a (reserved_max_micros r))"
  obtains a where "budget_accounts st (principal_id r) = Some a"
    and "settle_budget cal t i p_actual st = Inr (actual,
      st\<lparr>spend_reservations := update_rows i (settled_row actual t) (spend_reservations st),
         budget_accounts := (budget_accounts st)(principal_id r \<mapsto> without_hold (budget_roll_periods cal a t) (reserved_max_micros r) actual t)\<rparr>)"
    and "ledger_ok cal t (st\<lparr>spend_reservations := update_rows i (settled_row actual t) (spend_reservations st),
         budget_accounts := (budget_accounts st)(principal_id r \<mapsto> without_hold (budget_roll_periods cal a t) (reserved_max_micros r) actual t)\<rparr>)"
proof -
  have in_rows: "r \<in> set (spend_reservations st)" "reservation_id r = i" using find_reservation_Some [OF r(1)] by auto
  obtain a where a: "budget_accounts st (principal_id r) = Some a"
    "account_ok cal now (spend_reservations st) (principal_id r) a"
    "reserved_max_micros r \<le> daily_reserved_micros a" "reserved_max_micros r \<le> monthly_reserved_micros a"
    by (rule open_reservation [OF inv in_rows(1) r(2)])
  define b where "b = budget_roll_periods cal a t"
  define c where "c = without_hold b (reserved_max_micros r) actual t"
  note b = rolled_account [OF cal a(2) t, folded b_def]
  have inv': "ledger_ok cal t st" by (rule ledger_later [OF cal inv t])
  have chk: "reservation_check r" using inv in_rows by (auto simp: ledger_ok_def row_ok_def)
  have bounds: "0 \<le> actual" "actual \<le> reserved_max_micros r"
    using arg chk by (auto simp: actual_def reservation_check_def split: option.splits)
  have d: "distinct (map reservation_id (spend_reservations st))" using inv by (simp add: ledger_ok_def)
  have acc: "account_ok cal t (update_rows i (settled_row actual t) (spend_reservations st)) (principal_id r) c"
    unfolding c_def using b a(3,4) bounds r(2)
    by (intro account_ok_close [OF cal b(1) d in_rows]) (simp_all add: spent_of_def)
  have upd: "update_account (principal_id r) c st1 = Inr (st1\<lparr>budget_accounts := (budget_accounts st1)(principal_id r \<mapsto> c)\<rparr>)" for st1
    using account_ok_check [OF cal acc] by (simp add: update_account_def)
  have row: "update_reservation i (settled_row actual t) st = Inr (st\<lparr>spend_reservations := update_rows i (settled_row actual t) (spend_reservations st)\<rparr>)"
    by (rule update_reservation_eq [OF inv' in_rows]) (rule closed_row_check(1) [OF chk bounds(1)])
  have act: "(if reserved_max_micros r < (case p_actual of None \<Rightarrow> reserved_max_micros r | Some a \<Rightarrow> a)
      then reserved_max_micros r else (case p_actual of None \<Rightarrow> reserved_max_micros r | Some a \<Rightarrow> a)) = actual"
    by (auto simp: actual_def min_def split: option.splits)
  have "\<not> (case p_actual of None \<Rightarrow> False | Some a \<Rightarrow> a < 0)" using arg by (auto split: option.splits)
  then have "settle_budget cal t i p_actual st =
      bind_result (update_reservation i (settled_row actual t) st) (\<lambda>st1.
        bind_result (update_account (principal_id r) c st1) (\<lambda>st2. Inr (actual, st2)))"
    unfolding settle_budget_def Let_def settled_row_def c_def without_hold_def r(1) option.case a(1) act b_def [symmetric]
    using r a b by simp
  then have run: "settle_budget cal t i p_actual st = Inr (actual,
      st\<lparr>spend_reservations := update_rows i (settled_row actual t) (spend_reservations st),
         budget_accounts := (budget_accounts st)(principal_id r \<mapsto> c)\<rparr>)"
    by (simp add: row upd)
  have led: "ledger_ok cal t (st\<lparr>spend_reservations := update_rows i (settled_row actual t) (spend_reservations st),
         budget_accounts := (budget_accounts st)(principal_id r \<mapsto> c)\<rparr>)"
    using acc bounds closed_row_check(1) [OF chk bounds(1)] by (intro ledger_close [OF cal inv' in_rows]) simp_all
  show thesis by (rule that [OF a(1) run [unfolded c_def b_def] led [unfolded c_def b_def]])
qed

lemma settle_budget_ledger:
  assumes cal: "calendar_ok cal" and inv: "ledger_ok cal now st" and t: "now \<le> t"
    and run: "settle_budget cal t i p_actual st = Inr (x, st')"
  shows "ledger_ok cal t st'"
proof -
  from run have arg: "case p_actual of None \<Rightarrow> True | Some a \<Rightarrow> 0 \<le> a"
    by (cases p_actual) (auto simp: settle_budget_def split: if_splits)
  from run obtain r where r: "find_reservation i st = Some r" "state r = ''reserved''"
    by (auto simp: settle_budget_def split: if_splits option.splits)
  show ?thesis
    by (rule settle_budget_open [OF cal inv t r arg]) (use run in simp)
qed

lemma expire_one_open:
  assumes cal: "calendar_ok cal" and inv: "ledger_ok cal t st"
    and r: "r \<in> set (spend_reservations st)" "state r = ''reserved''"
  obtains st' where "expire_one cal t r st = Inr st'" and "ledger_ok cal t st'"
    and "spend_reservations st' = update_rows (reservation_id r) (expired_row t) (spend_reservations st)"
proof -
  obtain a where a: "budget_accounts st (principal_id r) = Some a"
    "account_ok cal t (spend_reservations st) (principal_id r) a"
    "reserved_max_micros r \<le> daily_reserved_micros a" "reserved_max_micros r \<le> monthly_reserved_micros a"
    by (rule open_reservation [OF inv r])
  define b where "b = budget_roll_periods cal a t"
  define c where "c = without_hold b (reserved_max_micros r) 0 t"
  note b = rolled_account [OF cal a(2) order_refl, folded b_def]
  have chk: "reservation_check r" using inv r by (auto simp: ledger_ok_def row_ok_def)
  have d: "distinct (map reservation_id (spend_reservations st))" using inv by (simp add: ledger_ok_def)
  have acc: "account_ok cal t (update_rows (reservation_id r) (expired_row t) (spend_reservations st)) (principal_id r) c"
    unfolding c_def using b a(3,4) r(2) chk
    by (intro account_ok_close [OF cal b(1) d r(1) refl]) (simp_all add: spent_of_def reservation_check_def)
  define st1 where "st1 = st\<lparr>budget_accounts := (budget_accounts st)(principal_id r \<mapsto> c)\<rparr>"
  have "expire_one cal t r st = bind_result (update_account (principal_id r) c st)
      (update_reservation (reservation_id r) (expired_row t))"
    unfolding expire_one_def Let_def c_def without_hold_def expired_row_def using a b by (simp add: b_def [symmetric])
  also have "\<dots> = update_reservation (reservation_id r) (expired_row t) st1"
    using account_ok_check [OF cal acc] by (simp add: update_account_def st1_def)
  also have "\<dots> = Inr (st1\<lparr>spend_reservations := update_rows (reservation_id r) (expired_row t) (spend_reservations st1)\<rparr>)"
  proof -
    have "list_all reservation_check (update_rows (reservation_id r) (expired_row t) (spend_reservations st))"
      using inv closed_row_check(2)
      by (auto simp: list_all_iff ledger_ok_def row_ok_def elim: in_update_rowsE)
    then show ?thesis by (simp add: update_reservation_def st1_def)
  qed
  finally have run: "expire_one cal t r st = Inr (st\<lparr>spend_reservations := update_rows (reservation_id r) (expired_row t) (spend_reservations st),
      budget_accounts := (budget_accounts st)(principal_id r \<mapsto> c)\<rparr>)" by (simp add: st1_def)
  show thesis
    by (rule that [OF run]) (use acc chk closed_row_check(2) [OF chk] in \<open>auto intro!: ledger_close [OF cal inv r(1) refl]\<close>)
qed

lemma expire_loop_ledger:
  assumes cal: "calendar_ok cal"
  shows "ledger_ok cal t st \<Longrightarrow> set rs \<subseteq> set (spend_reservations st) \<Longrightarrow> distinct (map reservation_id rs) \<Longrightarrow>
    list_all (\<lambda>r. state r = ''reserved'') rs \<Longrightarrow>
    \<exists>st'. expire_loop cal t rs n st = Inr (n + int (length rs), st') \<and> ledger_ok cal t st' \<and>
      spend_reservations st' = map (\<lambda>r. if r \<in> set rs then expired_row t r else r) (spend_reservations st)"
proof (induction rs arbitrary: st n)
  case (Cons r rs)
  have r: "r \<in> set (spend_reservations st)" "state r = ''reserved''" using Cons.prems by auto
  obtain st1 where st1: "expire_one cal t r st = Inr st1" "ledger_ok cal t st1"
    "spend_reservations st1 = update_rows (reservation_id r) (expired_row t) (spend_reservations st)"
    by (rule expire_one_open [OF cal Cons.prems(1) r])
  have d: "distinct (map reservation_id (spend_reservations st))" using Cons.prems(1) by (simp add: ledger_ok_def)
  have other: "reservation_id x \<noteq> reservation_id r" if "x \<in> set rs" for x
    using Cons.prems(3) that by (metis distinct.simps(2) image_eqI list.set_map list.simps(9))
  have "set rs \<subseteq> set (spend_reservations st1)"
    using Cons.prems(2) other by (auto simp: st1(3) update_rows_def image_iff split: if_splits)
  from Cons.IH [OF st1(2) this, of "n + 1"] Cons.prems obtain st2 where
    st2: "expire_loop cal t rs (n + 1) st1 = Inr (n + 1 + int (length rs), st2)" "ledger_ok cal t st2"
    "spend_reservations st2 = map (\<lambda>r. if r \<in> set rs then expired_row t r else r) (spend_reservations st1)"
    by auto
  have "spend_reservations st2 = map (\<lambda>x. if x \<in> set (r # rs) then expired_row t x else x) (spend_reservations st)"
  proof -
    have "(if (if reservation_id x = reservation_id r then expired_row t x else x) \<in> set rs
           then expired_row t (if reservation_id x = reservation_id r then expired_row t x else x)
           else (if reservation_id x = reservation_id r then expired_row t x else x))
        = (if x \<in> set (r # rs) then expired_row t x else x)" if "x \<in> set (spend_reservations st)" for x
    proof (cases "reservation_id x = reservation_id r")
      case True
      then have "x = r" using same_row [OF d that r(1)] by simp
      moreover have "expired_row t r \<notin> set rs" using other by fastforce
      ultimately show ?thesis by simp
    next
      case False
      then show ?thesis by auto
    qed
    then show ?thesis by (simp add: st2(3) st1(3) update_rows_def)
  qed
  then show ?case using st1 st2 by simp
qed simp

definition due :: "int \<Rightarrow> (string \<Rightarrow> bool) \<Rightarrow> spend_reservation \<Rightarrow> bool" where
  "due t locked r \<longleftrightarrow> state r = ''reserved'' \<and> expires_at r \<le> t \<and> \<not> locked (reservation_id r)"

lemma expire_budget_ledger:
  assumes cal: "calendar_ok cal" and inv: "ledger_ok cal now st" and t: "now \<le> t"
  shows "\<exists>st'. expire_budget_reservations cal t locked st = Inr (int (length (filter (due t locked) (spend_reservations st))), st') \<and>
    ledger_ok cal t st' \<and>
    spend_reservations st' = map (\<lambda>r. if due t locked r then expired_row t r else r) (spend_reservations st)"
proof -
  have inv': "ledger_ok cal t st" by (rule ledger_later [OF cal inv t])
  define rs where "rs = filter (due t locked) (spend_reservations st)"
  have "distinct (map reservation_id rs)"
    using inv unfolding rs_def by (simp add: ledger_ok_def distinct_map_filter)
  moreover have "set rs \<subseteq> set (spend_reservations st)" "list_all (\<lambda>r. state r = ''reserved'') rs"
    by (auto simp: rs_def due_def list_all_iff)
  ultimately obtain st' where "expire_loop cal t rs 0 st = Inr (0 + int (length rs), st')" "ledger_ok cal t st'"
    "spend_reservations st' = map (\<lambda>r. if r \<in> set rs then expired_row t r else r) (spend_reservations st)"
    using expire_loop_ledger [OF cal inv', of rs 0] by blast
  moreover have "expire_budget_reservations cal t locked st = expire_loop cal t rs 0 st"
    unfolding expire_budget_reservations_def rs_def due_def ..
  ultimately show ?thesis by (auto simp: rs_def)
qed

subsection \<open>Changing limits\<close>

lemma account_ok_limits:
  fixes d m :: int64
  assumes "account_ok cal t rows p a" and "account_check (a\<lparr>daily_limit_micros := sint d, monthly_limit_micros := sint m, updated_at := u\<rparr>)"
  shows "account_ok cal t rows p (a\<lparr>daily_limit_micros := sint d, monthly_limit_micros := sint m, updated_at := u\<rparr>)"
  using assms sint_ge_min [of d] sint_le_max [of d] sint_ge_min [of m] sint_le_max [of m]
  unfolding account_ok_def window_ok_def account_check_def in_bigint_def by simp

lemma no_rows_without_account:
  assumes "ledger_ok cal now st" and "budget_accounts st p = None"
  shows "held p (spend_reservations st) = 0" and "spent p s (spend_reservations st) = 0"
proof -
  have "principal_id r \<noteq> p" if "r \<in> set (spend_reservations st)" for r
    using assms that by (auto simp: ledger_ok_def row_ok_def)
  then have "map (hold_of p) (spend_reservations st) = map (\<lambda>_. 0) (spend_reservations st)"
    "map (spent_of p s) (spend_reservations st) = map (\<lambda>_. 0) (spend_reservations st)"
    by (auto simp: hold_of_def spent_of_def)
  then show "held p (spend_reservations st) = 0" "spent p s (spend_reservations st) = 0"
    by (simp_all only: held_def spent_def sum_list_0)
qed

lemma admin_set_budget_ledger:
  assumes cal: "calendar_ok cal" and inv: "ledger_ok cal now st" and t: "now \<le> t"
    and run: "admin_set_budget cal t p daily monthly st = Inr st'"
  shows "ledger_ok cal t st'"
proof -
  have inv': "ledger_ok cal t st" by (rule ledger_later [OF cal inv t])
  define b where "b = (case budget_accounts st p of
           None \<Rightarrow>
             \<lparr>daily_limit_micros = sint daily, monthly_limit_micros = sint monthly,
              daily_period_start = trunc_day cal t, daily_period_end = plus_day cal (trunc_day cal t),
              monthly_period_start = trunc_month cal t, monthly_period_end = plus_month cal (trunc_month cal t),
              daily_committed_micros = 0, daily_reserved_micros = 0,
              monthly_committed_micros = 0, monthly_reserved_micros = 0, updated_at = t\<rparr>
         | Some account \<Rightarrow>
             account\<lparr>daily_limit_micros := sint daily, monthly_limit_micros := sint monthly, updated_at := t\<rparr>)"
  have st': "st' = st\<lparr>budget_accounts := (budget_accounts st)(p \<mapsto> b)\<rparr>" and chk: "account_check b"
    using run by (auto simp: admin_set_budget_def update_account_def b_def split: if_splits)
  have "account_ok cal t (spend_reservations st) p b"
  proof (cases "budget_accounts st p")
    case None
    have "principal_id r \<noteq> p" if "r \<in> set (spend_reservations st)" for r
      using inv None that by (auto simp: ledger_ok_def row_ok_def)
    then show ?thesis
      using None chk no_rows_without_account [OF inv None] sint_le_max [of daily] sint_le_max [of monthly]
      by (auto simp: b_def account_ok_def window_ok_def account_check_def in_bigint_def)
  next
    case (Some a)
    then show ?thesis
      using inv' chk account_ok_limits [where d = daily and m = monthly and u = t and a = a] by (simp add: b_def ledger_ok_def)
  qed
  then show ?thesis using inv' by (auto simp: st' ledger_ok_def row_ok_def)
qed

end
