(* ===== verification/BudgetService.thy ===== *)
theory BudgetService
  imports BudgetLedger
begin

section \<open>The budget service\<close>

text \<open>
  \<open>internal/budget/service.go\<close> and \<open>reservation.go\<close>: validation of the requests, the calls of the
  stored procedures and the translation of their errors. The driver between the service and the
  store may lose a request or a reply, so each call carries a \<open>delivery\<close>: after \<open>Lost_after\<close> the
  procedure has run although the caller sees an error. The second half composes the service with
  the store: \<open>budget_reach\<close> is every sequence of service calls, limit changes and status changes, in
  the order of their statement times, and every store it reaches keeps the ledger of
  \<open>BudgetLedger\<close>.
\<close>

subsection \<open>Requests and results\<close>

definition StateReserved :: string where "StateReserved = ''reserved''"
definition StateSettled :: string where "StateSettled = ''settled''"
definition StateReleased :: string where "StateReleased = ''released''"
definition StateExpired :: string where "StateExpired = ''expired''"

record Reservation =
  rsv_ID :: string
  rsv_RunID :: string
  rsv_PrincipalID :: string
  rsv_ModelName :: string
  rsv_ReservedMaxMicros :: int64
  rsv_SettledActualMicros :: "int64 option"
  rsv_State :: string
  rsv_ExpiresAt :: int

record ReserveRequest =
  rr_PrincipalID :: string
  rr_RunID :: string
  rr_ModelName :: string
  rr_ReservedMaxMicros :: int64
  rr_TTL :: int64

record SettleRequest =
  sr_ReservationID :: string
  sr_ActualMicros :: "int64 option"

definition budget_modelPattern :: "string \<Rightarrow> bool" where [pattern_defs]:
  "budget_modelPattern = bounded_pattern is_alnum (\<lambda>c. is_alnum c \<or> c \<in> {CHR ''.'', CHR ''_'', CHR '':'', CHR ''-''}) 127"

subsection \<open>The driver\<close>

datatype db_error = NoRows | Pg sql_error | Transport

datatype delivery = Delivered | Lost_before | Lost_after

definition query :: "delivery \<Rightarrow> ('s \<Rightarrow> sql_error + 'a \<times> 's) \<Rightarrow> 's \<Rightarrow> (db_error + 'a) \<times> 's" where
  "query d procedure st =
     (case d of
        Lost_before \<Rightarrow> (Inl Transport, st)
      | Lost_after \<Rightarrow> (Inl Transport, case procedure st of Inl _ \<Rightarrow> st | Inr (_, st') \<Rightarrow> st')
      | Delivered \<Rightarrow> (case procedure st of Inl e \<Rightarrow> (Inl (Pg e), st) | Inr (x, st') \<Rightarrow> (Inr x, st')))"

definition mapBudgetError :: "db_error \<Rightarrow> budget_error" where
  "mapBudgetError err =
     (case err of
        NoRows \<Rightarrow> ErrBudgetNotFound
      | Pg (Raised message) \<Rightarrow>
          if message = ''budget denied'' then ErrBudgetDenied
          else if message = ''budget reservation not found'' then ErrBudgetNotFound
          else if message = ''invalid budget reservation'' then ErrInvalidReservation
          else ErrBudgetUnavailable
      | _ \<Rightarrow> ErrBudgetUnavailable)"

subsection \<open>Reserve, Settle, ExpireReservations\<close>

text \<open>\<open>pool\<close> is whether the service and its pool are there; \<open>wall\<close> is \<open>time.Now()\<close> in nanoseconds.\<close>

definition ttlSeconds :: "int64 \<Rightarrow> int64" where
  "ttlSeconds TTL = quot64 TTL 1000000000"

definition reserve_request_ok :: "ReserveRequest \<Rightarrow> bool" where
  "reserve_request_ok request \<longleftrightarrow>
     uuidPattern (rr_PrincipalID request) \<and> uuidPattern (rr_RunID request) \<and>
     budget_modelPattern (rr_ModelName request) \<and> \<not> rr_ReservedMaxMicros request \<le>s 0 \<and>
     \<not> (rr_TTL request \<le>s 0 \<or> ttlSeconds (rr_TTL request) \<le>s 0 \<or> 86400 <s ttlSeconds (rr_TTL request))"

definition Reserve ::
  "sql_calendar \<Rightarrow> bool \<Rightarrow> delivery \<Rightarrow> int \<Rightarrow> string \<Rightarrow> int \<Rightarrow> ReserveRequest \<Rightarrow> budget_store \<Rightarrow>
   (budget_error + Reservation) \<times> budget_store" where
  "Reserve cal pool d now_utc created_id wall request st =
     (if \<not> pool then (Inl ErrBudgetUnavailable, st)
      else if \<not> reserve_request_ok request then (Inl ErrInvalidReservation, st)
      else let ttl = ttlSeconds (rr_TTL request) in
        case query d (reserve_budget cal now_utc created_id (rr_PrincipalID request) (rr_RunID request)
               (rr_ModelName request) (sint (rr_ReservedMaxMicros request)) (sint ttl)) st of
          (Inl err, st') \<Rightarrow> (Inl (mapBudgetError err), st')
        | (Inr reservationID, st') \<Rightarrow>
            if \<not> uuidPattern reservationID then (Inl ErrBudgetUnavailable, st')
            else (Inr \<lparr>rsv_ID = reservationID, rsv_RunID = rr_RunID request, rsv_PrincipalID = rr_PrincipalID request,
                       rsv_ModelName = rr_ModelName request, rsv_ReservedMaxMicros = rr_ReservedMaxMicros request,
                       rsv_SettledActualMicros = None, rsv_State = StateReserved,
                       rsv_ExpiresAt = wall + sint (ttl * 1000000000)\<rparr>, st'))"

definition Settle ::
  "sql_calendar \<Rightarrow> bool \<Rightarrow> delivery \<Rightarrow> int \<Rightarrow> SettleRequest \<Rightarrow> budget_store \<Rightarrow> (budget_error + int64) \<times> budget_store" where
  "Settle cal pool d now_utc request st =
     (if \<not> pool then (Inl ErrBudgetUnavailable, st)
      else if \<not> uuidPattern (sr_ReservationID request) then (Inl ErrInvalidReservation, st)
      else if (case sr_ActualMicros request of None \<Rightarrow> False | Some a \<Rightarrow> a <s 0) then (Inl ErrInvalidReservation, st)
      else case query d (settle_budget cal now_utc (sr_ReservationID request) (map_option sint (sr_ActualMicros request))) st of
          (Inl err, st') \<Rightarrow> (Inl (mapBudgetError err), st')
        | (Inr settled, st') \<Rightarrow>
            if (word_of_int settled :: int64) <s 0 then (Inl ErrBudgetUnavailable, st')
            else (Inr (word_of_int settled), st'))"

definition ExpireReservations ::
  "sql_calendar \<Rightarrow> bool \<Rightarrow> delivery \<Rightarrow> int \<Rightarrow> (string \<Rightarrow> bool) \<Rightarrow> budget_store \<Rightarrow> (budget_error + int64) \<times> budget_store" where
  "ExpireReservations cal pool d now_utc locked st =
     (if \<not> pool then (Inl ErrBudgetUnavailable, st)
      else case query d (expire_budget_reservations cal now_utc locked) st of
          (Inl _, st') \<Rightarrow> (Inl ErrBudgetUnavailable, st')
        | (Inr expired, st') \<Rightarrow>
            if (word_of_int expired :: int64) <s 0 then (Inl ErrBudgetUnavailable, st')
            else (Inr (word_of_int expired), st'))"

subsection \<open>Sequences of calls\<close>

datatype budget_event =
    Ev_Reserve bool delivery string int ReserveRequest
  | Ev_Settle bool delivery SettleRequest
  | Ev_Expire bool delivery "string \<Rightarrow> bool"
  | Ev_SetBudget string int64 int64
  | Ev_Status string string

fun budget_apply :: "sql_calendar \<Rightarrow> int \<Rightarrow> budget_event \<Rightarrow> budget_store \<Rightarrow> budget_store" where
  "budget_apply cal t (Ev_Reserve pool d i wall request) st = snd (Reserve cal pool d t i wall request st)"
| "budget_apply cal t (Ev_Settle pool d request) st = snd (Settle cal pool d t request st)"
| "budget_apply cal t (Ev_Expire pool d locked) st = snd (ExpireReservations cal pool d t locked st)"
| "budget_apply cal t (Ev_SetBudget p daily monthly) st =
     (case admin_set_budget cal t p daily monthly st of Inl _ \<Rightarrow> st | Inr st' \<Rightarrow> st')"
| "budget_apply cal t (Ev_Status p s) st = st\<lparr>principal_status := (principal_status st)(p \<mapsto> s)\<rparr>"

definition empty_store :: budget_store where
  "empty_store = \<lparr>principal_status = Map.empty, budget_accounts = Map.empty, spend_reservations = []\<rparr>"

inductive budget_reach :: "sql_calendar \<Rightarrow> int \<Rightarrow> budget_store \<Rightarrow> bool" for cal where
  reach_empty: "budget_reach cal t empty_store"
| reach_step: "budget_reach cal t st \<Longrightarrow> t \<le> t' \<Longrightarrow> budget_reach cal t' (budget_apply cal t' ev st)"

inductive_cases budget_reachE: "budget_reach cal t st"

subsection \<open>Every call keeps the ledger\<close>

text \<open>Whatever the delivery, the store after a call is the old one or the one the procedure returned.\<close>

lemma query_store:
  assumes "\<And>x st'. procedure st = Inr (x, st') \<Longrightarrow> P st'" and "P st"
  shows "P (snd (query d procedure st))"
  using assms by (auto simp: query_def split: delivery.splits sum.splits)

lemma snd_Reserve:
  "snd (Reserve cal pool d t i wall request st) =
    (if pool \<and> reserve_request_ok request then
       snd (query d (reserve_budget cal t i (rr_PrincipalID request) (rr_RunID request) (rr_ModelName request)
         (sint (rr_ReservedMaxMicros request)) (sint (ttlSeconds (rr_TTL request)))) st) else st)"
  by (auto simp: Reserve_def Let_def split: prod.splits sum.splits)

lemma snd_Settle:
  "snd (Settle cal pool d t request st) =
    (if pool \<and> uuidPattern (sr_ReservationID request) \<and> (case sr_ActualMicros request of None \<Rightarrow> True | Some a \<Rightarrow> \<not> a <s 0) then
       snd (query d (settle_budget cal t (sr_ReservationID request) (map_option sint (sr_ActualMicros request))) st) else st)"
  by (cases "sr_ActualMicros request") (auto simp: Settle_def split: prod.splits sum.splits)

lemma snd_Expire:
  "snd (ExpireReservations cal pool d t locked st) =
    (if pool then snd (query d (expire_budget_reservations cal t locked) st) else st)"
  by (auto simp: ExpireReservations_def split: prod.splits sum.splits)

lemma budget_apply_ledger:
  assumes cal: "calendar_ok cal" and inv: "ledger_ok cal now st" and t: "now \<le> t"
  shows "ledger_ok cal t (budget_apply cal t ev st)"
proof -
  have old: "ledger_ok cal t st" by (rule ledger_later [OF cal inv t])
  show ?thesis
  proof (cases ev)
    case (Ev_Reserve pool d i wall request)
    then show ?thesis using old
      by (auto simp: snd_Reserve intro: query_store [where P = "ledger_ok cal t"] reserve_budget_ledger [OF cal inv t])
  next
    case (Ev_Settle pool d request)
    then show ?thesis using old
      by (auto simp: snd_Settle intro: query_store [where P = "ledger_ok cal t"] settle_budget_ledger [OF cal inv t])
  next
    case (Ev_Expire pool d locked)
    have "ledger_ok cal t st'" if "expire_budget_reservations cal t locked st = Inr (n, st')" for n st'
      using expire_budget_ledger [OF cal inv t, of locked] that by auto
    then show ?thesis using old Ev_Expire
      by (auto simp: snd_Expire intro: query_store [where P = "ledger_ok cal t"])
  next
    case (Ev_SetBudget p daily monthly)
    then show ?thesis using old admin_set_budget_ledger [OF cal inv t] by (auto split: sum.splits)
  next
    case (Ev_Status p s)
    then show ?thesis using old by (auto simp: ledger_ok_def row_ok_def)
  qed
qed

lemma reach_ledger:
  assumes "calendar_ok cal" and "budget_reach cal t st"
  shows "ledger_ok cal t st"
  using assms(2)
proof induction
  case (reach_empty t)
  show ?case by (simp add: ledger_ok_def empty_store_def)
next
  case (reach_step t st t' ev)
  then show ?case using budget_apply_ledger [OF assms(1)] by blast
qed

subsection \<open>The calls on a sound ledger\<close>

lemma model_arguments_ok:
  assumes "reserve_request_ok q"
  shows "reserve_arguments_ok (rr_ModelName q) (sint (rr_ReservedMaxMicros q)) (sint (ttlSeconds (rr_TTL q)))"
proof -
  have pat: "budget_modelPattern (rr_ModelName q)" using assms by (simp add: reserve_request_ok_def)
  then have "length (rr_ModelName q) \<le> 128"
    unfolding budget_modelPattern_def using bounded_pattern_length by fastforce
  then have "char_length (rr_ModelName q) \<le> 128"
    unfolding char_length_def using length_filter_le order_trans by blast
  moreover have "\<not> list_all (\<lambda>c. c = CHR '' '') (rr_ModelName q)"
    using pat by (cases "rr_ModelName q") (auto simp: budget_modelPattern_def char_class_defs)
  ultimately show ?thesis
    using assms by (simp add: reserve_arguments_ok_def reserve_request_ok_def int64_order)
qed

lemma Reserve_delivered:
  assumes cal: "calendar_ok cal" and inv: "ledger_ok cal now st" and t: "now \<le> t" and i: "uuidPattern i"
  shows "Reserve cal True Delivered t i wall q st = (Inr r, st') \<longleftrightarrow>
    reserve_request_ok q \<and> principal_status st (rr_PrincipalID q) = Some ''active'' \<and>
    r = \<lparr>rsv_ID = i, rsv_RunID = rr_RunID q, rsv_PrincipalID = rr_PrincipalID q, rsv_ModelName = rr_ModelName q,
         rsv_ReservedMaxMicros = rr_ReservedMaxMicros q, rsv_SettledActualMicros = None, rsv_State = ''reserved'',
         rsv_ExpiresAt = wall + sint (ttlSeconds (rr_TTL q) * 1000000000)\<rparr> \<and>
    (\<exists>a. budget_accounts st (rr_PrincipalID q) = Some a \<and>
      fits (budget_roll_periods cal a t) (sint (rr_ReservedMaxMicros q)) \<and> unused i (rr_RunID q) st \<and>
      st' = st\<lparr>spend_reservations := spend_reservations st @
                  [new_row t i (rr_PrincipalID q) (rr_RunID q) (rr_ModelName q) (sint (rr_ReservedMaxMicros q)) (sint (ttlSeconds (rr_TTL q)))],
               budget_accounts := (budget_accounts st)(rr_PrincipalID q \<mapsto>
                  with_hold (budget_roll_periods cal a t) (sint (rr_ReservedMaxMicros q)) t)\<rparr>)"
proof -
  define run where "run = reserve_budget cal t i (rr_PrincipalID q) (rr_RunID q) (rr_ModelName q)
    (sint (rr_ReservedMaxMicros q)) (sint (ttlSeconds (rr_TTL q))) st"
  have out: "j = i" if "run = Inr (j, s)" for j s
    using that unfolding run_def reserve_budget_eq [OF cal inv t] by auto
  have go: "Reserve cal True Delivered t i wall q st = (Inr r, st') \<longleftrightarrow> reserve_request_ok q \<and> run = Inr (i, st') \<and>
    r = \<lparr>rsv_ID = i, rsv_RunID = rr_RunID q, rsv_PrincipalID = rr_PrincipalID q, rsv_ModelName = rr_ModelName q,
         rsv_ReservedMaxMicros = rr_ReservedMaxMicros q, rsv_SettledActualMicros = None, rsv_State = ''reserved'',
         rsv_ExpiresAt = wall + sint (ttlSeconds (rr_TTL q) * 1000000000)\<rparr>"
    using i out by (auto simp: Reserve_def Let_def query_def StateReserved_def run_def [symmetric] split: sum.splits)
  have sql: "reserve_request_ok q \<and> run = Inr (i, st') \<longleftrightarrow>
    reserve_request_ok q \<and> principal_status st (rr_PrincipalID q) = Some ''active'' \<and>
    (\<exists>a. budget_accounts st (rr_PrincipalID q) = Some a \<and>
      fits (budget_roll_periods cal a t) (sint (rr_ReservedMaxMicros q)) \<and> unused i (rr_RunID q) st \<and>
      st' = st\<lparr>spend_reservations := spend_reservations st @
                  [new_row t i (rr_PrincipalID q) (rr_RunID q) (rr_ModelName q) (sint (rr_ReservedMaxMicros q)) (sint (ttlSeconds (rr_TTL q)))],
               budget_accounts := (budget_accounts st)(rr_PrincipalID q \<mapsto>
                  with_hold (budget_roll_periods cal a t) (sint (rr_ReservedMaxMicros q)) t)\<rparr>)"
    unfolding run_def reserve_budget_eq [OF cal inv t] using model_arguments_ok [of q] by auto
  show ?thesis unfolding go using sql by blast
qed

lemma Settle_delivered:
  assumes cal: "calendar_ok cal" and inv: "ledger_ok cal now st" and t: "now \<le> t" and i: "uuidPattern i"
    and r: "find_reservation i st = Some r" "state r = ''reserved''"
    and arg: "case actual of None \<Rightarrow> True | Some a \<Rightarrow> 0 \<le>s a"
  defines "amount \<equiv> (case actual of None \<Rightarrow> reserved_max_micros r | Some a \<Rightarrow> min (sint a) (reserved_max_micros r))"
  obtains st' x where "Settle cal True Delivered t \<lparr>sr_ReservationID = i, sr_ActualMicros = actual\<rparr> st = (Inr x, st')"
    and "sint x = amount" and "0 \<le> amount" and "amount \<le> reserved_max_micros r" and "ledger_ok cal t st'"
    and "spend_reservations st' = update_rows i (settled_row amount t) (spend_reservations st)"
proof -
  have in_rows: "r \<in> set (spend_reservations st)" using find_reservation_Some [OF r(1)] by simp
  obtain a where a: "account_ok cal now (spend_reservations st) (principal_id r) a"
    "reserved_max_micros r \<le> daily_reserved_micros a"
    by (rule open_reservation [OF inv in_rows r(2)])
  have pos: "0 < reserved_max_micros r" using inv in_rows by (auto simp: ledger_ok_def row_ok_def reservation_check_def)
  then have amount: "0 \<le> amount" "amount \<le> reserved_max_micros r"
    using arg by (auto simp: amount_def int64_order split: option.splits)
  have "reserved_max_micros r < 2 ^ 63" using a by (auto simp: account_ok_def window_ok_def in_bigint_def)
  then have x: "sint (word_of_int amount :: int64) = amount" using amount by (intro sint_word_of_int) auto
  have arg': "case map_option sint actual of None \<Rightarrow> True | Some a \<Rightarrow> 0 \<le> a"
    using arg by (cases actual) (auto simp: int64_order)
  have am: "(case map_option sint actual of None \<Rightarrow> reserved_max_micros r | Some a \<Rightarrow> min a (reserved_max_micros r)) = amount"
    by (simp add: amount_def split: option.splits)
  have guard: "\<not> (case actual of None \<Rightarrow> False | Some a \<Rightarrow> a <s 0)"
    using arg by (cases actual) (auto simp: int64_order)
  show thesis
  proof (rule settle_budget_open [OF cal inv t r arg', unfolded am])
    fix acc
    let ?st = "st\<lparr>spend_reservations := update_rows i (settled_row amount t) (spend_reservations st),
      budget_accounts := (budget_accounts st)(principal_id r \<mapsto> without_hold (budget_roll_periods cal acc t) (reserved_max_micros r) amount t)\<rparr>"
    assume run: "settle_budget cal t i (map_option sint actual) st = Inr (amount, ?st)" and led: "ledger_ok cal t ?st"
    have "Settle cal True Delivered t \<lparr>sr_ReservationID = i, sr_ActualMicros = actual\<rparr> st = (Inr (word_of_int amount), ?st)"
      using i guard run x amount by (simp add: Settle_def query_def int64_order)
    then show thesis by (rule that) (use x amount led in simp_all)
  qed
qed

lemma Settle_closed:
  assumes i: "uuidPattern i" and r: "find_reservation i st = Some r" "state r \<noteq> ''reserved''"
  shows "Settle cal True Delivered t \<lparr>sr_ReservationID = i, sr_ActualMicros = actual\<rparr> st = (Inl ErrInvalidReservation, st)"
  using assms by (cases actual) (auto simp: Settle_def query_def settle_budget_def mapBudgetError_def)

lemma find_update_rows:
  assumes "\<And>r. reservation_id (f r) = reservation_id r"
  shows "find_reservation j (st\<lparr>spend_reservations := update_rows i f rows\<rparr>) =
    map_option (\<lambda>r. if j = i then f r else r) (find (\<lambda>r. reservation_id r = j) rows)"
  using assms by (induction rows) (auto simp: find_reservation_def update_rows_def)

subsection \<open>The UTC calendar\<close>

definition utc_calendar :: sql_calendar where
  "utc_calendar = \<lparr>trunc_day = \<lambda>t. day_origin (day_index t), plus_day = \<lambda>s. day_origin (day_index s + 1),
     trunc_month = \<lambda>t. month_origin (month_index t), plus_month = \<lambda>s. month_origin (month_index s + 1)\<rparr>"

lemma utc_calendar_ok: "calendar_ok utc_calendar"
  using utc_day.period_axioms utc_month.period_axioms by (simp add: calendar_ok_def utc_calendar_def)

subsection \<open>The life of a reservation\<close>

text \<open>What may happen to a reservation \<open>r\<close> in one call at time \<open>t\<close>.\<close>

definition row_moves :: "int \<Rightarrow> spend_reservation \<Rightarrow> spend_reservation \<Rightarrow> bool" where
  "row_moves t r r' \<longleftrightarrow>
     r' = r \<or>
     (state r = ''reserved'' \<and> (\<exists>a. 0 \<le> a \<and> a \<le> reserved_max_micros r \<and> r' = settled_row a t r)) \<or>
     (state r = ''reserved'' \<and> expires_at r \<le> t \<and> r' = expired_row t r)"

definition rows_move :: "int \<Rightarrow> budget_store \<Rightarrow> budget_store \<Rightarrow> bool" where
  "rows_move t st st' \<longleftrightarrow> (\<forall>i r. find_reservation i st = Some r \<longrightarrow> (\<exists>r'. find_reservation i st' = Some r' \<and> row_moves t r r'))"

lemma rows_move_same: "spend_reservations st' = spend_reservations st \<Longrightarrow> rows_move t st st'"
  by (simp add: rows_move_def row_moves_def find_reservation_def)

lemma rows_move_map:
  assumes "spend_reservations st' = map f (spend_reservations st)"
    and "\<And>r. r \<in> set (spend_reservations st) \<Longrightarrow> row_moves t r (f r)"
    and "\<And>r. reservation_id (f r) = reservation_id r"
  shows "rows_move t st st'"
proof -
  have f: "find (\<lambda>r. reservation_id r = i) (map f rows) = map_option f (find (\<lambda>r. reservation_id r = i) rows)" for i rows
    using assms(3) by (induction rows) auto
  show ?thesis
    unfolding rows_move_def
  proof (intro allI impI)
    fix i r assume r: "find_reservation i st = Some r"
    have "find_reservation i st' = Some (f r)"
      using r f [of i "spend_reservations st"] by (simp add: find_reservation_def assms(1))
    moreover have "row_moves t r (f r)" using assms(2) find_reservation_Some [OF r] by blast
    ultimately show "\<exists>r'. find_reservation i st' = Some r' \<and> row_moves t r r'" by blast
  qed
qed

lemma reserve_rows_move:
  assumes "calendar_ok cal" and "ledger_ok cal now st" and "now \<le> t"
    and "reserve_budget cal t i p run model amount ttl st = Inr (j, st')"
  shows "rows_move t st st'"
  using assms(4) unfolding reserve_budget_eq [OF assms(1-3)]
  by (auto simp: rows_move_def row_moves_def find_reservation_def find_append)

lemma settle_rows_move:
  assumes cal: "calendar_ok cal" and inv: "ledger_ok cal now st" and t: "now \<le> t"
    and run: "settle_budget cal t i p_actual st = Inr (x, st')"
  shows "rows_move t st st'"
proof -
  from run have arg: "case p_actual of None \<Rightarrow> True | Some a \<Rightarrow> 0 \<le> a"
    by (cases p_actual) (auto simp: settle_budget_def split: if_splits)
  from run obtain r where r: "find_reservation i st = Some r" "state r = ''reserved''"
    by (auto simp: settle_budget_def split: if_splits option.splits)
  note in_rows = find_reservation_Some [OF r(1)]
  define actual where "actual = (case p_actual of None \<Rightarrow> reserved_max_micros r | Some a \<Rightarrow> min a (reserved_max_micros r))"
  have st': "spend_reservations st' = update_rows i (settled_row actual t) (spend_reservations st)"
    by (rule settle_budget_open [OF cal inv t r arg]) (use run in \<open>simp add: actual_def\<close>)
  have pos: "0 < reserved_max_micros r" using inv in_rows by (auto simp: ledger_ok_def row_ok_def reservation_check_def)
  have "row_moves t y (if reservation_id y = i then settled_row actual t y else y)" if "y \<in> set (spend_reservations st)" for y
  proof (cases "reservation_id y = i")
    case True
    then have "y = r" using inv in_rows that by (auto simp: ledger_ok_def intro: same_row)
    then show ?thesis using r(2) arg pos unfolding row_moves_def
      by (auto simp: actual_def split: option.splits intro!: exI [of _ actual])
  qed (simp add: row_moves_def)
  then show ?thesis using st' unfolding update_rows_def
    by (intro rows_move_map [where f = "\<lambda>y. if reservation_id y = i then settled_row actual t y else y"]) auto
qed

lemma expire_rows_move:
  assumes "calendar_ok cal" and "ledger_ok cal now st" and "now \<le> t"
    and "expire_budget_reservations cal t locked st = Inr (n, st')"
  shows "rows_move t st st'"
  using expire_budget_ledger [OF assms(1-3), of locked] assms(4)
  by (intro rows_move_map [where f = "\<lambda>r. if due t locked r then expired_row t r else r"]) (auto simp: row_moves_def due_def)

lemma budget_apply_rows_move:
  assumes cal: "calendar_ok cal" and inv: "ledger_ok cal now st" and t: "now \<le> t"
  shows "rows_move t st (budget_apply cal t ev st)"
proof -
  have same: "rows_move t st st" by (simp add: rows_move_same)
  show ?thesis
  proof (cases ev)
    case (Ev_Reserve pool d i wall request)
    then show ?thesis using same
      by (auto simp: snd_Reserve intro: query_store [where P = "rows_move t st"] reserve_rows_move [OF cal inv t])
  next
    case (Ev_Settle pool d request)
    then show ?thesis using same
      by (auto simp: snd_Settle intro: query_store [where P = "rows_move t st"] settle_rows_move [OF cal inv t])
  next
    case (Ev_Expire pool d locked)
    then show ?thesis using same
      by (auto simp: snd_Expire intro: query_store [where P = "rows_move t st"] expire_rows_move [OF cal inv t])
  next
    case (Ev_SetBudget p daily monthly)
    then show ?thesis
      by (auto simp: admin_set_budget_def update_account_def intro!: rows_move_same split: sum.splits if_splits)
  qed (simp add: rows_move_same)
qed

subsection \<open>Properties of the budget\<close>

definition sample_owner :: string where "sample_owner = ''11111111-1111-4111-8111-111111111111''"
definition sample_run :: string where "sample_run = ''22222222-2222-4222-8222-222222222222''"
definition sample_hold :: string where "sample_hold = ''33333333-3333-4333-8333-333333333333''"
definition sample_time :: int where "sample_time = 63900000000000000"

definition sample_reserve :: ReserveRequest where
  "sample_reserve = \<lparr>rr_PrincipalID = sample_owner, rr_RunID = sample_run, rr_ModelName = ''m1'',
     rr_ReservedMaxMicros = 400, rr_TTL = 60000000000\<rparr>"

text \<open>An active principal with limits of 1000 a day and 5000 a month.\<close>

definition sample_funded :: budget_store where
  "sample_funded = budget_apply utc_calendar sample_time (Ev_SetBudget sample_owner 1000 5000)
     (budget_apply utc_calendar sample_time (Ev_Status sample_owner ''active'') empty_store)"

definition sample_held :: budget_store where
  "sample_held = budget_apply utc_calendar sample_time (Ev_Reserve True Delivered sample_hold 0 sample_reserve) sample_funded"

lemma sample_reach:
  "budget_reach utc_calendar sample_time sample_funded" "budget_reach utc_calendar sample_time sample_held"
proof -
  note step = reach_step [where t = sample_time and t' = sample_time, OF _ order_refl]
  show f: "budget_reach utc_calendar sample_time sample_funded"
    unfolding sample_funded_def by (intro step reach_empty)
  show "budget_reach utc_calendar sample_time sample_held"
    unfolding sample_held_def by (rule step [OF f])
qed

definition sample_account :: budget_account where
  "sample_account = \<lparr>daily_limit_micros = 1000, monthly_limit_micros = 5000,
     daily_period_start = trunc_day utc_calendar sample_time, daily_period_end = plus_day utc_calendar (trunc_day utc_calendar sample_time),
     monthly_period_start = trunc_month utc_calendar sample_time, monthly_period_end = plus_month utc_calendar (trunc_month utc_calendar sample_time),
     daily_committed_micros = 0, daily_reserved_micros = 0, monthly_committed_micros = 0, monthly_reserved_micros = 0,
     updated_at = sample_time\<rparr>"

definition sample_row :: spend_reservation where
  "sample_row = new_row sample_time sample_hold sample_owner sample_run ''m1'' 400 60"

lemma utc_now:
  "trunc_day utc_calendar t < plus_day utc_calendar (trunc_day utc_calendar t)" "t < plus_day utc_calendar (trunc_day utc_calendar t)"
  "trunc_month utc_calendar t < plus_month utc_calendar (trunc_month utc_calendar t)" "t < plus_month utc_calendar (trunc_month utc_calendar t)"
  using utc_calendar_ok by (auto simp: calendar_ok_def period.before_finish period.start_before_finish)

lemma sample_funded_eq:
  "sample_funded = \<lparr>principal_status = [sample_owner \<mapsto> ''active''], budget_accounts = [sample_owner \<mapsto> sample_account], spend_reservations = []\<rparr>"
  using utc_now [of sample_time]
  by (simp add: sample_funded_def sample_account_def empty_store_def admin_set_budget_def update_account_def
      account_in_bigint_def in_bigint_def account_check_def)

lemma sample_patterns:
  "uuidPattern sample_owner" "uuidPattern sample_run" "uuidPattern sample_hold" "reserve_request_ok sample_reserve"
  "ttlSeconds (rr_TTL sample_reserve) = 60"
  by code_simp+

lemma sample_roll: "budget_roll_periods utc_calendar sample_account sample_time = sample_account"
  using utc_now [of sample_time] by (simp add: budget_roll_periods_def sample_account_def)

lemma sample_held_eq:
  "sample_held = \<lparr>principal_status = [sample_owner \<mapsto> ''active''],
     budget_accounts = [sample_owner \<mapsto> with_hold sample_account 400 sample_time], spend_reservations = [sample_row]\<rparr>"
proof -
  note led = reach_ledger [OF utc_calendar_ok sample_reach(1)]
  obtain r where "Reserve utc_calendar True Delivered sample_time sample_hold 0 sample_reserve sample_funded =
    (Inr r, \<lparr>principal_status = [sample_owner \<mapsto> ''active''],
     budget_accounts = [sample_owner \<mapsto> with_hold sample_account 400 sample_time], spend_reservations = [sample_row]\<rparr>)"
    unfolding Reserve_delivered [OF utc_calendar_ok led order_refl sample_patterns(3)]
    using sample_patterns sample_roll
    by (auto simp: sample_funded_eq sample_reserve_def fits_def unused_def sample_account_def sample_row_def)
  then show ?thesis by (simp add: sample_held_def)
qed

text \<open>
  C2. No budget is overspent. In every store that any sequence of service calls, lost requests and
  replies, expiries, limit changes and principal status changes can reach, and for every account:
  the reserved columns are the sum of the principal's open holds, the committed columns are the sum
  of what was settled since the period began, and holds and settlements of the current day and of
  the current month together stay within the daily and the monthly limit.
\<close>

theorem budget_never_overspent:
  assumes "calendar_ok cal" and "budget_reach cal t st" and "budget_accounts st p = Some a"
  shows "daily_reserved_micros a = held p (spend_reservations st) \<and>
    monthly_reserved_micros a = held p (spend_reservations st) \<and>
    daily_committed_micros a = spent p (daily_period_start a) (spend_reservations st) \<and>
    monthly_committed_micros a = spent p (monthly_period_start a) (spend_reservations st) \<and>
    spent p (daily_period_start a) (spend_reservations st) + held p (spend_reservations st) \<le> daily_limit_micros a \<and>
    spent p (monthly_period_start a) (spend_reservations st) + held p (spend_reservations st) \<le> monthly_limit_micros a"
proof -
  have "account_ok cal t (spend_reservations st) p a"
    using reach_ledger [OF assms(1,2)] assms(3) by (simp add: ledger_ok_def)
  then show ?thesis by (auto simp: account_ok_def window_ok_def)
qed

theorem budget_never_overspent_witness:
  "held sample_owner (spend_reservations sample_held) = 400 \<and>
   spent sample_owner (daily_period_start sample_account) (spend_reservations sample_held) + 400 \<le> 1000"
proof -
  have h: "held sample_owner (spend_reservations sample_held) = 400"
    by (simp add: sample_held_eq held_def hold_of_def sample_row_def new_row_def)
  have "budget_accounts sample_held sample_owner = Some (with_hold sample_account 400 sample_time)"
    by (simp add: sample_held_eq)
  from budget_never_overspent [OF utc_calendar_ok sample_reach(2) this] h
  show ?thesis by (simp add: with_hold_def sample_account_def)
qed

text \<open>
  C7. A reservation is settled at most once and never changes afterwards. Whatever call happens
  next, a reservation of a reachable store is still there, and it is unchanged, or it was open and is
  now settled for an amount between zero and its maximum, or it was open and past its expiry time and
  is now expired.
\<close>

theorem reservation_lifecycle:
  assumes "calendar_ok cal" and "budget_reach cal t st" and "t \<le> t'" and "find_reservation i st = Some r"
  shows "\<exists>r'. find_reservation i (budget_apply cal t' ev st) = Some r' \<and> row_moves t' r r'"
  using budget_apply_rows_move [OF assms(1) reach_ledger [OF assms(1,2)] assms(3), of ev] assms(4)
  by (auto simp: rows_move_def)

theorem reservation_lifecycle_witness:
  "\<exists>r'. find_reservation sample_hold (budget_apply utc_calendar (sample_time + 1)
      (Ev_Settle True Lost_after \<lparr>sr_ReservationID = sample_hold, sr_ActualMicros = Some 7\<rparr>) sample_held) = Some r' \<and>
    row_moves (sample_time + 1) sample_row r'"
proof -
  have r: "find_reservation sample_hold sample_held = Some sample_row"
    by (simp add: sample_held_eq find_reservation_def sample_row_def new_row_def)
  show ?thesis by (rule reservation_lifecycle [OF utc_calendar_ok sample_reach(2) _ r]) simp
qed

text \<open>
  C8. Reserve, branch by branch. When the reply arrives, a reservation is granted exactly when the
  request is well formed, the principal is active and has an account, the amount fits what is left of
  both windows after the periods are rolled to the current time, and neither the reservation
  identifier nor the run was used before; and a granted reservation has the drawn identifier and the
  requested amount.
\<close>

theorem Reserve_granted_iff:
  assumes "calendar_ok cal" and "budget_reach cal t st" and "t \<le> t'" and "uuidPattern i"
  shows "(\<exists>r st'. Reserve cal True Delivered t' i wall q st = (Inr r, st') \<and> rsv_ID r = i \<and>
      rsv_ReservedMaxMicros r = rr_ReservedMaxMicros q) \<longleftrightarrow>
    reserve_request_ok q \<and> principal_status st (rr_PrincipalID q) = Some ''active'' \<and>
    (\<exists>a. budget_accounts st (rr_PrincipalID q) = Some a \<and>
      fits (budget_roll_periods cal a t') (sint (rr_ReservedMaxMicros q)) \<and> unused i (rr_RunID q) st)"
  unfolding Reserve_delivered [OF assms(1) reach_ledger [OF assms(1,2)] assms(3,4)] by auto

theorem Reserve_granted_iff_witness:
  "\<exists>r st'. Reserve utc_calendar True Delivered sample_time sample_hold 0 sample_reserve sample_funded = (Inr r, st') \<and>
     rsv_ID r = sample_hold \<and> rsv_ReservedMaxMicros r = rr_ReservedMaxMicros sample_reserve"
  using Reserve_granted_iff [OF utc_calendar_ok sample_reach(1) order_refl sample_patterns(3), of 0 sample_reserve]
    sample_patterns(4) sample_roll
  by (simp add: sample_funded_eq sample_reserve_def fits_def unused_def sample_account_def)

text \<open>
  C9. An open reservation can always be settled. When the reply arrives, settling an open
  reservation of a reachable store with any non-negative amount, or with none, succeeds; it charges
  the smaller of the amount and the held maximum, or the maximum when no amount is given, the
  reservation is then closed, and settling it again is refused as invalid without effect.
\<close>

theorem Settle_open_succeeds:
  assumes "calendar_ok cal" and "budget_reach cal t st" and "t \<le> t'" and "uuidPattern i"
    and "find_reservation i st = Some r" and "state r = ''reserved''"
    and "case actual of None \<Rightarrow> True | Some a \<Rightarrow> 0 \<le>s a"
  shows "\<exists>x st'. Settle cal True Delivered t' \<lparr>sr_ReservationID = i, sr_ActualMicros = actual\<rparr> st = (Inr x, st') \<and>
    sint x = (case actual of None \<Rightarrow> reserved_max_micros r | Some a \<Rightarrow> min (sint a) (reserved_max_micros r)) \<and>
    find_reservation i st' = Some (settled_row (sint x) t' r) \<and>
    (\<forall>t'' again. Settle cal True Delivered t'' \<lparr>sr_ReservationID = i, sr_ActualMicros = again\<rparr> st' = (Inl ErrInvalidReservation, st'))"
proof -
  obtain st' x where run: "Settle cal True Delivered t' \<lparr>sr_ReservationID = i, sr_ActualMicros = actual\<rparr> st = (Inr x, st')"
    and x: "sint x = (case actual of None \<Rightarrow> reserved_max_micros r | Some a \<Rightarrow> min (sint a) (reserved_max_micros r))"
    and rows: "spend_reservations st' = update_rows i (settled_row (sint x) t') (spend_reservations st)"
    using Settle_delivered [OF assms(1) reach_ledger [OF assms(1,2)] assms(3-7)] by metis
  have "find_reservation i st' = Some (settled_row (sint x) t' r)"
    using find_update_rows [where f = "settled_row (sint x) t'" and i = i and j = i and st = st' and rows = "spend_reservations st"]
      assms(5) rows by (simp add: find_reservation_def)
  then show ?thesis using run x Settle_closed [OF assms(4)] by auto
qed

theorem Settle_open_succeeds_witness:
  "\<exists>x st'. Settle utc_calendar True Delivered sample_time \<lparr>sr_ReservationID = sample_hold, sr_ActualMicros = Some 999\<rparr> sample_held = (Inr x, st') \<and>
    sint x = 400"
proof -
  have r: "find_reservation sample_hold sample_held = Some sample_row" "state sample_row = ''reserved''"
    by (simp_all add: sample_held_eq find_reservation_def sample_row_def new_row_def)
  have a: "case Some (999 :: int64) of None \<Rightarrow> True | Some a \<Rightarrow> 0 \<le>s a" by code_simp
  from Settle_open_succeeds [OF utc_calendar_ok sample_reach(2) order_refl sample_patterns(3) r a]
  show ?thesis by (force simp: sample_row_def new_row_def)
qed

end
