(* ===== verification/GoTime.thy ===== *)
theory GoTime
  imports Calendar
begin

section \<open>Instants and their text form\<close>

text \<open>
  \<open>time.Time\<close> as the code uses it: an instant, in nanoseconds since 1 January of year 1 UTC (the
  zero \<open>Time\<close>), with its location: \<open>time.UTC\<close> itself, or another one with its offset in seconds
  at that instant. \<open>format_rfc3339nano\<close> is
  \<open>t.UTC().Format(time.RFC3339Nano)\<close>: the year zero-padded to four digits, fixed-width fields, the
  fraction of a second without trailing zeros and without the point when it is zero, and \<open>Z\<close>. The
  main lemma is that the text determines the instant.
\<close>

datatype location = UTC | Zone int

record go_time =
  t_nanos :: int
  t_loc :: location

primrec loc_offset :: "location \<Rightarrow> int" where
  "loc_offset UTC = 0"
| "loc_offset (Zone offset) = offset"

definition nanos_per_second :: int where "nanos_per_second = 1000000000"
definition nanos_per_day :: int where "nanos_per_day = 86400000000000"

definition time_IsZero :: "go_time \<Rightarrow> bool" where
  "time_IsZero t \<longleftrightarrow> t_nanos t = 0"

definition time_Year :: "go_time \<Rightarrow> int" where
  "time_Year t = year_of_day ((t_nanos t + loc_offset (t_loc t) * nanos_per_second) div nanos_per_day)"

definition time_Nanosecond :: "go_time \<Rightarrow> int" where
  "time_Nanosecond t = t_nanos t mod nanos_per_second"

definition time_UTC :: "go_time \<Rightarrow> go_time" where
  "time_UTC t = t\<lparr>t_loc := UTC\<rparr>"

text \<open>\<open>t.Location() == time.UTC\<close>.\<close>

definition time_is_UTC :: "go_time \<Rightarrow> bool" where
  "time_is_UTC t \<longleftrightarrow> t_loc t = UTC"

text \<open>\<open>t.Truncate(d)\<close>: rounds down to a multiple of \<open>d\<close> since the zero time.\<close>

definition time_Truncate :: "go_time \<Rightarrow> int \<Rightarrow> go_time" where
  "time_Truncate t d = (if d \<le> 0 then t else t\<lparr>t_nanos := t_nanos t - t_nanos t mod d\<rparr>)"

subsection \<open>Fixed-width decimals\<close>

fun fixed_digits :: "nat \<Rightarrow> nat \<Rightarrow> string" where
  "fixed_digits 0 n = []"
| "fixed_digits (Suc w) n = fixed_digits w (n div 10) @ [digit_char (n mod 10)]"

lemma length_fixed_digits [simp]: "length (fixed_digits w n) = w"
  by (induction w arbitrary: n) auto

lemma fixed_digits_digits: "list_all is_digit (fixed_digits w n)"
  by (induction w arbitrary: n) (auto simp: is_digit_digit_char)

lemma digits_value_snoc: "digits_value (s @ [c]) = 10 * digits_value s + (of_char c - 48)"
  by (simp add: digits_value_def)

lemma digits_value_fixed: "digits_value (fixed_digits w n) = n mod 10 ^ w"
proof (induction w arbitrary: n)
  case 0
  show ?case by (simp add: digits_value_def)
next
  case (Suc w)
  then show ?case by (simp add: digits_value_snoc of_char_digit_char mod_mult2_eq)
qed

lemma fixed_digits_inject: "m < 10 ^ w \<Longrightarrow> n < 10 ^ w \<Longrightarrow> fixed_digits w m = fixed_digits w n \<longleftrightarrow> m = n"
  by (metis digits_value_fixed mod_less)

subsection \<open>RFC 3339 text\<close>

definition year_text :: "int \<Rightarrow> string" where
  "year_text y =
     (let n = nat \<bar>y\<bar>; digits = (if n < 10000 then fixed_digits 4 n else nat_digits n)
      in if y < 0 then CHR ''-'' # digits else digits)"

definition trim_zeros :: "string \<Rightarrow> string" where
  "trim_zeros s = rev (dropWhile (\<lambda>c. c = CHR ''0'') (rev s))"

definition fraction_text :: "int \<Rightarrow> string" where
  "fraction_text nanos = (if nanos = 0 then [] else CHR ''.'' # trim_zeros (fixed_digits 9 (nat nanos)))"

definition format_rfc3339nano :: "go_time \<Rightarrow> string" where
  "format_rfc3339nano t =
     (let nanos = t_nanos t;
          second = (nanos div nanos_per_second) mod 86400
      in case civil_of_day (nanos div nanos_per_day) of (y, m, dd) \<Rightarrow>
        year_text y @ CHR ''-'' # fixed_digits 2 m @ CHR ''-'' # fixed_digits 2 (nat dd) @ CHR ''T'' #
        fixed_digits 2 (nat (second div 3600)) @ CHR '':'' # fixed_digits 2 (nat (second div 60 mod 60)) @ CHR '':'' #
        fixed_digits 2 (nat (second mod 60)) @ fraction_text (nanos mod nanos_per_second) @ ''Z'')"

subsection \<open>The text determines the instant\<close>

definition year_digits :: "int \<Rightarrow> string" where
  "year_digits y = (let n = nat \<bar>y\<bar> in if n < 10000 then fixed_digits 4 n else nat_digits n)"

lemma year_digits_facts: "list_all is_digit (year_digits y)" "digits_value (year_digits y) = nat \<bar>y\<bar>"
  by (auto simp: year_digits_def Let_def fixed_digits_digits nat_digits_digits digits_value_fixed)

lemma year_digits_head: "\<exists>c cs. year_digits y = c # cs \<and> is_digit c"
proof -
  have "year_digits y \<noteq> []" by (auto simp: year_digits_def Let_def dest: arg_cong [where f = length])
  then show ?thesis using year_digits_facts(1) [of y] by (cases "year_digits y") auto
qed

lemma year_text_eq: "year_text z = (if z < 0 then CHR ''-'' # year_digits z else year_digits z)"
  by (simp only: year_text_def year_digits_def Let_def)

lemma year_text_unique:
  assumes "year_text x @ CHR ''-'' # u = year_text y @ CHR ''-'' # v"
  shows "x = y \<and> u = v"
proof -
  have sign: "(x < 0) = (y < 0)"
    using assms year_digits_head [of x] year_digits_head [of y] by (auto simp: year_text_eq split: if_splits)
  then have "year_digits x @ CHR ''-'' # u = year_digits y @ CHR ''-'' # v"
    using assms by (auto simp: year_text_eq split: if_splits)
  then have "year_digits x = year_digits y \<and> u = v"
    by (rule append_stop_unique [OF year_digits_facts(1) year_digits_facts(1) not_is_digit_minus])
  then show ?thesis using sign year_digits_facts(2) [of x] year_digits_facts(2) [of y] by auto
qed

lemma trim_zeros_inject:
  assumes "length s = length t" and "trim_zeros s = trim_zeros t"
  shows "s = t"
proof -
  have pad: "r = trim_zeros r @ replicate (length r - length (trim_zeros r)) (CHR ''0'')" for r
  proof -
    define z where "z = takeWhile (\<lambda>c. c = CHR ''0'') (rev r)"
    have "\<forall>c\<in>set z. c = CHR ''0''" unfolding z_def by (auto dest: set_takeWhileD)
    then have "z = replicate (length z) (CHR ''0'')" by (simp add: replicate_length_same)
    moreover have "rev r = z @ rev (trim_zeros r)" by (simp add: z_def trim_zeros_def)
    then have split: "r = trim_zeros r @ rev z" by (metis rev_append rev_rev_ident)
    moreover have "length r = length (trim_zeros r) + length z"
      using arg_cong [OF split, of length] by simp
    then have "length z = length r - length (trim_zeros r)" by simp
    ultimately have "rev z = replicate (length r - length (trim_zeros r)) (CHR ''0'')" by (metis rev_replicate)
    with split show ?thesis by simp
  qed
  show ?thesis using pad [of s] pad [of t] assms by metis
qed

lemma fraction_text_inject:
  assumes "0 \<le> a" and "a < nanos_per_second" and "0 \<le> b" and "b < nanos_per_second" and "fraction_text a = fraction_text b"
  shows "a = b"
proof (cases "a = 0 \<or> b = 0")
  case True
  then show ?thesis using assms(5) by (auto simp: fraction_text_def split: if_splits)
next
  case False
  then have "trim_zeros (fixed_digits 9 (nat a)) = trim_zeros (fixed_digits 9 (nat b))"
    using assms(5) unfolding fraction_text_def by simp
  then have "fixed_digits 9 (nat a) = fixed_digits 9 (nat b)"
    by (rule trim_zeros_inject [rotated]) simp
  moreover have "nat a < 10 ^ 9" "nat b < 10 ^ 9" using assms(1-4) by (simp_all add: nanos_per_second_def nat_less_iff)
  ultimately have "nat a = nat b" by (simp add: fixed_digits_inject)
  then show ?thesis using assms by simp
qed

lemma day_second_split:
  "n div nanos_per_day = n div nanos_per_second div 86400"
  "n = (n div nanos_per_day * 86400 + n div nanos_per_second mod 86400) * nanos_per_second + n mod nanos_per_second"
proof -
  show day: "n div nanos_per_day = n div nanos_per_second div 86400"
    by (simp add: nanos_per_day_def nanos_per_second_def flip: zdiv_zmult2_eq)
  have "n div nanos_per_second = n div nanos_per_second div 86400 * 86400 + n div nanos_per_second mod 86400" by simp
  then show "n = (n div nanos_per_day * 86400 + n div nanos_per_second mod 86400) * nanos_per_second + n mod nanos_per_second"
    unfolding day by (metis div_mult_mod_eq)
qed

lemma clock_split: "(r :: int) = r div 3600 * 3600 + (r div 60 mod 60) * 60 + r mod 60"
proof -
  have "r div 3600 = r div 60 div 60" by (simp flip: zdiv_zmult2_eq)
  moreover have "r div 60 div 60 * 60 + r div 60 mod 60 = r div 60" "r div 60 * 60 + r mod 60 = r"
    by (rule div_mult_mod_eq)+
  ultimately show ?thesis by linarith
qed

lemma format_rfc3339nano_inject:
  assumes "format_rfc3339nano t = format_rfc3339nano u"
  shows "t_nanos t = t_nanos u"
proof -
  define d s where "d x = t_nanos x div nanos_per_day" and "s x = (t_nanos x div nanos_per_second) mod 86400" for x :: go_time
  obtain y m dd where c: "civil_of_day (d t) = (y, m, dd)" by (cases "civil_of_day (d t)")
  obtain y' m' dd' where c': "civil_of_day (d u) = (y', m', dd')" by (cases "civil_of_day (d u)")
  note r = civil_of_day_ranges [OF c] and r' = civil_of_day_ranges [OF c']
  have sr: "0 \<le> s x" "s x < 86400" for x by (simp_all add: s_def)
  define h mi se where "h x = s x div 3600" and "mi x = s x div 60 mod 60" and "se x = s x mod 60" for x
  have hr: "0 \<le> h x" "h x < 100" "0 \<le> mi x" "mi x < 100" "0 \<le> se x" "se x < 100" for x
  proof -
    have "s x div 3600 < 24" using sr [of x] by linarith
    then show "h x < 100" by (simp add: h_def)
    show "0 \<le> h x" using sr by (simp add: h_def pos_imp_zdiv_nonneg_iff)
    have "s x div 60 mod 60 < 60" "s x mod 60 < 60" by simp_all
    then show "mi x < 100" "se x < 100" unfolding mi_def se_def by linarith+
    show "0 \<le> mi x" "0 \<le> se x" by (simp_all add: mi_def se_def)
  qed
  have form: "format_rfc3339nano x = (case civil_of_day (d x) of (y, m, dd) \<Rightarrow>
      year_text y @ CHR ''-'' # fixed_digits 2 m @ CHR ''-'' # fixed_digits 2 (nat dd) @ CHR ''T'' #
      fixed_digits 2 (nat (h x)) @ CHR '':'' # fixed_digits 2 (nat (mi x)) @ CHR '':'' # fixed_digits 2 (nat (se x)) @
      fraction_text (t_nanos x mod nanos_per_second) @ ''Z'')" for x
    unfolding format_rfc3339nano_def Let_def d_def h_def mi_def se_def s_def ..
  have eq: "year_text y @ CHR ''-'' # fixed_digits 2 m @ CHR ''-'' # fixed_digits 2 (nat dd) @ CHR ''T'' #
      fixed_digits 2 (nat (h t)) @ CHR '':'' # fixed_digits 2 (nat (mi t)) @ CHR '':'' # fixed_digits 2 (nat (se t)) @
      fraction_text (t_nanos t mod nanos_per_second) @ ''Z'' =
    year_text y' @ CHR ''-'' # fixed_digits 2 m' @ CHR ''-'' # fixed_digits 2 (nat dd') @ CHR ''T'' #
      fixed_digits 2 (nat (h u)) @ CHR '':'' # fixed_digits 2 (nat (mi u)) @ CHR '':'' # fixed_digits 2 (nat (se u)) @
      fraction_text (t_nanos u mod nanos_per_second) @ ''Z''"
    using assms unfolding form c c' prod.case .
  from year_text_unique [OF eq] have y: "y = y'"
    and f: "fixed_digits 2 m = fixed_digits 2 m'" "fixed_digits 2 (nat dd) = fixed_digits 2 (nat dd')"
      "fixed_digits 2 (nat (h t)) = fixed_digits 2 (nat (h u))" "fixed_digits 2 (nat (mi t)) = fixed_digits 2 (nat (mi u))"
      "fixed_digits 2 (nat (se t)) = fixed_digits 2 (nat (se u))"
      "fraction_text (t_nanos t mod nanos_per_second) = fraction_text (t_nanos u mod nanos_per_second)"
    by simp_all
  have two: "a = b" if "fixed_digits 2 (nat a) = fixed_digits 2 (nat b)" "0 \<le> a" "a < 100" "0 \<le> b" "b < 100" for a b :: int
    using that fixed_digits_inject [of "nat a" 2 "nat b"] by (simp add: nat_less_iff)
  have "m = m'" using f(1) r(3) r'(3) fixed_digits_inject [of m 2 m'] by simp
  moreover have "dd = dd'" using f(2) r(4,5) r'(4,5) by (intro two) auto
  ultimately have day: "d t = d u" using c c' y civil_of_day_inject by metis
  have "h t = h u" "mi t = mi u" "se t = se u" using f(3-5) hr by (auto intro!: two)
  moreover have "s x = h x * 3600 + mi x * 60 + se x" for x
    unfolding h_def mi_def se_def by (rule clock_split)
  ultimately have "s t = s u" by metis
  moreover have "t_nanos t mod nanos_per_second = t_nanos u mod nanos_per_second"
    by (rule fraction_text_inject [OF _ _ _ _ f(6)]) (simp_all add: nanos_per_second_def)
  ultimately show ?thesis
    using day_second_split(2) [of "t_nanos t", folded d_def s_def] day_second_split(2) [of "t_nanos u", folded d_def s_def] day by metis
qed

text \<open>The text is plain ASCII.\<close>

lemma format_rfc3339nano_chars:
  assumes "\<And>c. is_digit c \<Longrightarrow> P c" and "P (CHR ''-'')" and "P (CHR ''T'')" and "P (CHR '':'')" and "P (CHR ''.'')" and "P (CHR ''Z'')"
  shows "list_all P (format_rfc3339nano t)"
proof -
  have dig: "list_all P s" if "list_all is_digit s" for s using that assms(1) by (auto simp: list_all_iff)
  have "list_all P (year_text y)" for y
    using dig [OF year_digits_facts(1) [of y]] assms(2) by (simp add: year_text_eq)
  moreover have "list_all P (fixed_digits w n)" for w n by (rule dig [OF fixed_digits_digits])
  moreover have "list_all P (trim_zeros s)" if "list_all P s" for s
    using that set_dropWhileD unfolding trim_zeros_def list_all_iff by fastforce
  ultimately show ?thesis
    using assms by (simp add: format_rfc3339nano_def Let_def fraction_text_def split: prod.splits)
qed

end
