(* ===== verification/AuditEvent.thy ===== *)
theory AuditEvent
  imports Json Digest GoTime "HOL-Library.Finite_Map"
begin

section \<open>Audit events and their canonical encoding\<close>

text \<open>
  \<open>internal/audit/event.go\<close> and \<open>internal/audit/canonical.go\<close>: the content-free event, its
  validation and the deterministic JSON that the chain hashes. The Go string enumerations stay
  strings, pointers are options, and the count map is a finite map, which \<open>encoding/json\<close> writes
  with its keys in order. The code sets and the count map may be nil: \<open>Validate\<close> and the encoding read nil as
  empty (\<open>slice_list\<close>, \<open>map_entries\<close>), the database does not. The main lemma is that two events have the same encoding exactly when they agree up to the
  order inside the code sets, nil for empty, and the time zone of the instant.
\<close>

datatype audit_error = ErrInvalidEvent

definition maxEventCodes :: nat where "maxEventCodes = 64"

definition identifierPattern :: "string \<Rightarrow> bool" where [pattern_defs]:
  "identifierPattern = bounded_pattern is_alnum
     (\<lambda>c. is_alnum c \<or> c \<in> {CHR ''.'', CHR ''_'', CHR '':'', CHR ''/'', CHR ''@'', CHR ''+'', CHR ''-''}) 127"

definition codePattern :: "string \<Rightarrow> bool" where [pattern_defs]:
  "codePattern = bounded_pattern is_lower (\<lambda>c. is_lower c \<or> is_digit c \<or> c = CHR ''_'') 63"

definition EventRunStarted :: string where "EventRunStarted = ''run_started''"
definition EventRunCompleted :: string where "EventRunCompleted = ''run_completed''"
definition EventRunFailed :: string where "EventRunFailed = ''run_failed''"
definition EventRunDenied :: string where "EventRunDenied = ''run_denied''"

definition AuthOIDC :: string where "AuthOIDC = ''oidc''"
definition AuthAPIKey :: string where "AuthAPIKey = ''api_key''"
definition AuthWorkload :: string where "AuthWorkload = ''workload''"

definition DecisionAllow :: string where "DecisionAllow = ''allow''"
definition DecisionDeny :: string where "DecisionDeny = ''deny''"

definition StatusStarted :: string where "StatusStarted = ''started''"
definition StatusCompleted :: string where "StatusCompleted = ''completed''"
definition StatusFailed :: string where "StatusFailed = ''failed''"
definition StatusDenied :: string where "StatusDenied = ''denied''"

lemmas audit_enum_defs = EventRunStarted_def EventRunCompleted_def EventRunFailed_def EventRunDenied_def
  AuthOIDC_def AuthAPIKey_def AuthWorkload_def DecisionAllow_def DecisionDeny_def
  StatusStarted_def StatusCompleted_def StatusFailed_def StatusDenied_def

record Event =
  SchemaVersion :: int64
  EventID :: string
  RunID :: string
  EventType :: string
  OccurredAt :: go_time
  PrincipalID :: string
  AuthMethod :: string
  OIDCIssuerHash :: "digest option"
  PolicyVersionHash :: digest
  Decision :: string
  DecisionReasonCodes :: "string slice"
  RequestedModel :: string
  ResolvedBackend :: string
  ContentHMACKeyID :: string
  RequestHMAC :: digest
  ResponseHMAC :: "digest option"
  RequestBytes :: int64
  ResponseBytes :: "int64 option"
  PIICategories :: "string slice"
  PIIMatchCounts :: "(string, int64) fmap option"
  HealthIndicatorCategories :: "string slice"
  SecretCategories :: "string slice"
  DetectorBundleHash :: digest
  InputTokens :: "int64 option"
  OutputTokens :: "int64 option"
  ReservedCostMicros :: "int64 option"
  event_ActualCostMicros :: "int64 option"
  event_Status :: string
  ErrorCode :: "string option"
  PreviousEventHash :: digest
  SoftwareVersion :: string
  ConfigHash :: digest

subsection \<open>Validation\<close>

text \<open>The entries of a map that may be nil.\<close>

definition map_entries :: "('a, 'b) fmap option \<Rightarrow> ('a, 'b) fmap" where
  "map_entries m = (case m of None \<Rightarrow> fmempty | Some entries \<Rightarrow> entries)"

lemma map_entries_simps [simp]: "map_entries None = fmempty" "map_entries (Some m) = m"
  by (simp_all add: map_entries_def)

definition isZeroDigest :: "digest \<Rightarrow> bool" where
  "isZeroDigest d \<longleftrightarrow> d = zero_digest"

definition validEventState :: "string \<Rightarrow> string \<Rightarrow> string \<Rightarrow> bool" where
  "validEventState eventType decision status =
     (if eventType = EventRunStarted then decision = DecisionAllow \<and> status = StatusStarted
      else if eventType = EventRunCompleted then decision = DecisionAllow \<and> status = StatusCompleted
      else if eventType = EventRunFailed then decision = DecisionAllow \<and> status = StatusFailed
      else if eventType = EventRunDenied then decision = DecisionDeny \<and> status = StatusDenied
      else False)"

definition validAuthMethod :: "string \<Rightarrow> bool" where
  "validAuthMethod m \<longleftrightarrow> m = AuthOIDC \<or> m = AuthAPIKey \<or> m = AuthWorkload"

definition validAuthEvidence :: "string \<Rightarrow> digest option \<Rightarrow> bool" where
  "validAuthEvidence m issuerHash =
     (if \<not> validAuthMethod m then False
      else if m = AuthOIDC then (case issuerHash of None \<Rightarrow> False | Some h \<Rightarrow> \<not> isZeroDigest h)
      else issuerHash = None)"

definition validCodeSet :: "string list \<Rightarrow> bool" where
  "validCodeSet values = (if maxEventCodes < length values then False else distinct_scan codePattern {} values)"

definition validCountMap :: "(string, int64) fmap \<Rightarrow> bool" where
  "validCountMap values =
     (if maxEventCodes < size (fmdom values) then False
      else list_all (\<lambda>kv. codePattern (fst kv) \<and> \<not> snd kv <s 0) (sorted_list_of_fmap values))"

definition validOptionalCode :: "string option \<Rightarrow> bool" where
  "validOptionalCode v = (case v of None \<Rightarrow> True | Some c \<Rightarrow> codePattern c)"

definition validOptionalNonNegative :: "int64 option \<Rightarrow> bool" where
  "validOptionalNonNegative v = (case v of None \<Rightarrow> True | Some n \<Rightarrow> 0 \<le>s n)"

definition validOptionalDigest :: "digest option \<Rightarrow> bool" where
  "validOptionalDigest v = (case v of None \<Rightarrow> True | Some d \<Rightarrow> \<not> isZeroDigest d)"

definition event_Validate :: "Event \<Rightarrow> bool" where
  "event_Validate event =
     (\<not> (SchemaVersion event \<noteq> 1 \<or>
         \<not> uuidPattern (EventID event) \<or>
         \<not> uuidPattern (RunID event) \<or>
         \<not> uuidPattern (PrincipalID event) \<or>
         time_IsZero (OccurredAt event) \<or>
         time_Year (OccurredAt event) < 1 \<or>
         time_Year (OccurredAt event) > 9999 \<or>
         time_Nanosecond (OccurredAt event) mod 1000 \<noteq> 0 \<or>
         \<not> validEventState (EventType event) (Decision event) (event_Status event) \<or>
         \<not> validAuthEvidence (AuthMethod event) (OIDCIssuerHash event) \<or>
         \<not> identifierPattern (RequestedModel event) \<or>
         \<not> identifierPattern (ResolvedBackend event) \<or>
         \<not> identifierPattern (ContentHMACKeyID event) \<or>
         \<not> identifierPattern (SoftwareVersion event) \<or>
         isZeroDigest (PolicyVersionHash event) \<or>
         isZeroDigest (RequestHMAC event) \<or>
         isZeroDigest (DetectorBundleHash event) \<or>
         isZeroDigest (ConfigHash event) \<or>
         RequestBytes event <s 0 \<or>
         \<not> validOptionalNonNegative (ResponseBytes event) \<or>
         \<not> validOptionalNonNegative (InputTokens event) \<or>
         \<not> validOptionalNonNegative (OutputTokens event) \<or>
         \<not> validOptionalNonNegative (ReservedCostMicros event) \<or>
         \<not> validOptionalNonNegative (event_ActualCostMicros event) \<or>
         \<not> validOptionalDigest (ResponseHMAC event) \<or>
         \<not> validOptionalCode (ErrorCode event) \<or>
         \<not> validCodeSet (slice_list (DecisionReasonCodes event)) \<or>
         \<not> validCodeSet (slice_list (PIICategories event)) \<or>
         \<not> validCodeSet (slice_list (HealthIndicatorCategories event)) \<or>
         \<not> validCodeSet (slice_list (SecretCategories event)) \<or>
         \<not> validCountMap (map_entries (PIIMatchCounts event))))"

subsection \<open>Canonical encoding\<close>

definition sortedCopy :: "string list \<Rightarrow> string list" where
  "sortedCopy values = sort values"

definition mapCopy :: "(string, int64) fmap \<Rightarrow> (string \<times> int64) list" where
  "mapCopy values = sorted_list_of_fmap values"

definition digestStringPointer :: "digest option \<Rightarrow> string option" where
  "digestStringPointer d = map_option digest_String d"

text \<open>How \<open>encoding/json\<close> writes the field types of \<open>canonicalEvent\<close>.\<close>

definition json_option :: "('a \<Rightarrow> json) \<Rightarrow> 'a option \<Rightarrow> json" where
  "json_option f v = (case v of None \<Rightarrow> JNull | Some x \<Rightarrow> f x)"

definition json_int64 :: "int64 \<Rightarrow> json" where
  "json_int64 n = JInt (sint n)"

definition json_codes :: "string list \<Rightarrow> json" where
  "json_codes xs = JArray (map JString xs)"

definition json_counts :: "(string \<times> int64) list \<Rightarrow> json" where
  "json_counts kvs = JObject (map (\<lambda>kv. (fst kv, json_int64 (snd kv))) kvs)"

definition event_json :: "Event \<Rightarrow> json" where
  "event_json event = JObject [
     (''schema_version'', json_int64 (SchemaVersion event)),
     (''event_id'', JString (EventID event)),
     (''run_id'', JString (RunID event)),
     (''event_type'', JString (EventType event)),
     (''occurred_at'', JString (format_rfc3339nano (time_UTC (OccurredAt event)))),
     (''principal_id'', JString (PrincipalID event)),
     (''auth_method'', JString (AuthMethod event)),
     (''oidc_issuer_hash'', json_option JString (digestStringPointer (OIDCIssuerHash event))),
     (''policy_version_hash'', JString (digest_String (PolicyVersionHash event))),
     (''decision'', JString (Decision event)),
     (''decision_reason_codes'', json_codes (sortedCopy (slice_list (DecisionReasonCodes event)))),
     (''requested_model'', JString (RequestedModel event)),
     (''resolved_backend'', JString (ResolvedBackend event)),
     (''content_hmac_key_id'', JString (ContentHMACKeyID event)),
     (''request_hmac'', JString (digest_String (RequestHMAC event))),
     (''response_hmac'', json_option JString (digestStringPointer (ResponseHMAC event))),
     (''request_bytes'', json_int64 (RequestBytes event)),
     (''response_bytes'', json_option json_int64 (ResponseBytes event)),
     (''pii_categories'', json_codes (sortedCopy (slice_list (PIICategories event)))),
     (''pii_match_counts'', json_counts (mapCopy (map_entries (PIIMatchCounts event)))),
     (''health_indicator_categories'', json_codes (sortedCopy (slice_list (HealthIndicatorCategories event)))),
     (''secret_categories'', json_codes (sortedCopy (slice_list (SecretCategories event)))),
     (''detector_bundle_hash'', JString (digest_String (DetectorBundleHash event))),
     (''input_tokens'', json_option json_int64 (InputTokens event)),
     (''output_tokens'', json_option json_int64 (OutputTokens event)),
     (''reserved_cost_micros'', json_option json_int64 (ReservedCostMicros event)),
     (''actual_cost_micros'', json_option json_int64 (event_ActualCostMicros event)),
     (''status'', JString (event_Status event)),
     (''error_code'', json_option JString (ErrorCode event)),
     (''previous_event_hash'', JString (digest_String (PreviousEventHash event))),
     (''software_version'', JString (SoftwareVersion event)),
     (''config_hash'', JString (digest_String (ConfigHash event)))]"

definition Canonical :: "Event \<Rightarrow> audit_error + bytes" where
  "Canonical event = (if \<not> event_Validate event then Inl ErrInvalidEvent else Inr (marshal (event_json event)))"

subsection \<open>Plain text\<close>

lemma identifierPattern_plain: "identifierPattern s \<Longrightarrow> json_plain s"
  unfolding identifierPattern_def by (erule bounded_pattern_plain) auto

lemma codePattern_plain: "codePattern s \<Longrightarrow> json_plain s"
  unfolding codePattern_def by (erule bounded_pattern_plain) auto

lemma digest_String_plain: "json_plain (digest_String d)"
  by (simp add: digest_String_def hex_encode_plain)

lemma time_plain: "json_plain (format_rfc3339nano t)"
  by (rule format_rfc3339nano_chars) auto

lemma validCodeSet_iff: "validCodeSet xs \<longleftrightarrow> length xs \<le> 64 \<and> list_all codePattern xs \<and> distinct xs"
  by (auto simp: validCodeSet_def maxEventCodes_def distinct_scan_iff)

lemma validCodeSet_sort: "validCodeSet (sort xs) \<longleftrightarrow> validCodeSet xs"
  by (simp add: validCodeSet_iff list_all_iff)

lemma json_codes_plain: "validCodeSet xs \<Longrightarrow> all_plain (json_codes (sortedCopy xs))"
  using codePattern_plain by (fastforce simp: json_codes_def sortedCopy_def validCodeSet_iff list.pred_set comp_def)

lemma json_counts_plain: "validCountMap m \<Longrightarrow> all_plain (json_counts (mapCopy m))"
  using codePattern_plain by (fastforce simp: json_counts_def mapCopy_def validCountMap_def json_int64_def comp_def list.pred_set
      simp del: list_all_sorted_list split: if_splits)

lemma json_option_plain [simp]:
  "all_plain (json_option json_int64 v)"
  "all_plain (json_option JString (digestStringPointer d))"
  "validOptionalCode c \<Longrightarrow> all_plain (json_option JString c)"
  by (auto simp: json_option_def json_int64_def digestStringPointer_def validOptionalCode_def digest_String_plain
      codePattern_plain split: option.splits)

lemma validEventState_plain: "validEventState e d s \<Longrightarrow> json_plain e \<and> json_plain d \<and> json_plain s"
  by (auto simp: validEventState_def audit_enum_defs split: if_splits)

lemma validAuthEvidence_plain: "validAuthEvidence m h \<Longrightarrow> json_plain m"
  by (auto simp: validAuthEvidence_def validAuthMethod_def audit_enum_defs split: if_splits)

lemma event_json_plain: "event_Validate e \<Longrightarrow> all_plain (event_json e)"
proof -
  assume v: "event_Validate e"
  have st: "json_plain (EventType e) \<and> json_plain (Decision e) \<and> json_plain (event_Status e)"
    using v by (intro validEventState_plain) (simp add: event_Validate_def)
  moreover have "json_plain (AuthMethod e)"
    using v by (intro validAuthEvidence_plain [of _ "OIDCIssuerHash e"]) (simp add: event_Validate_def)
  ultimately show ?thesis
    using v unfolding event_json_def event_Validate_def
    by (simp add: json_codes_plain json_counts_plain uuidPattern_plain identifierPattern_plain digest_String_plain
      time_plain) (simp add: json_int64_def)
qed

subsection \<open>What the encoding determines\<close>

text \<open>
  The canonical form of an event: code sets in order, empty for nil, the instant in UTC. \<open>Canonical\<close> sees an event
  only up to its canonical form, and sees all of that.
\<close>

definition canonical_form :: "Event \<Rightarrow> Event" where
  "canonical_form e = e\<lparr>OccurredAt := time_UTC (OccurredAt e),
     DecisionReasonCodes := Some (sort (slice_list (DecisionReasonCodes e))), PIICategories := Some (sort (slice_list (PIICategories e))),
     PIIMatchCounts := Some (map_entries (PIIMatchCounts e)),
     HealthIndicatorCategories := Some (sort (slice_list (HealthIndicatorCategories e))),
     SecretCategories := Some (sort (slice_list (SecretCategories e)))\<rparr>"

lemma json_int64_inject [simp]: "json_int64 a = json_int64 b \<longleftrightarrow> a = b"
  by (simp add: json_int64_def flip: int64_eq_iff)

lemma json_codes_inject [simp]: "json_codes xs = json_codes ys \<longleftrightarrow> xs = ys"
  by (auto simp: json_codes_def dest: map_injective intro: injI)

lemma json_option_inject:
  assumes "\<And>x y. f x = f y \<longleftrightarrow> x = y" and "\<And>x. f x \<noteq> JNull"
  shows "json_option f a = json_option f b \<longleftrightarrow> a = b"
  using assms assms(2) [symmetric] by (auto simp: json_option_def split: option.splits)

lemma json_option_injects [simp]:
  "json_option json_int64 a = json_option json_int64 b \<longleftrightarrow> a = b"
  "json_option JString c = json_option JString d \<longleftrightarrow> c = d"
  by (rule json_option_inject; simp add: json_int64_def flip: int64_eq_iff)+

lemma digestStringPointer_inject [simp]: "digestStringPointer a = digestStringPointer b \<longleftrightarrow> a = b"
  unfolding digestStringPointer_def by (rule inj_eq) (rule option.inj_map, simp add: inj_def)

lemma json_counts_inject [simp]: "json_counts (mapCopy m) = json_counts (mapCopy n) \<longleftrightarrow> m = n"
proof
  assume "json_counts (mapCopy m) = json_counts (mapCopy n)"
  then have "sorted_list_of_fmap m = sorted_list_of_fmap n"
    unfolding json_counts_def mapCopy_def json.inject
    by (rule map_injective) (auto simp: inj_def prod_eq_iff)
  then have "fmlookup m = fmlookup n" by (metis map_of_sorted_list)
  then show "m = n" by (simp add: fmlookup_inject)
qed simp

lemma format_UTC_inject [simp]:
  "format_rfc3339nano (time_UTC t) = format_rfc3339nano (time_UTC u) \<longleftrightarrow> time_UTC t = time_UTC u"
proof
  assume "format_rfc3339nano (time_UTC t) = format_rfc3339nano (time_UTC u)"
  then have "t_nanos (time_UTC t) = t_nanos (time_UTC u)" by (rule format_rfc3339nano_inject)
  then show "time_UTC t = time_UTC u" by (simp add: time_UTC_def)
qed simp

lemma event_json_eq_iff: "event_json e = event_json f \<longleftrightarrow> canonical_form e = canonical_form f"
  unfolding event_json_def
  by (cases e; cases f) (simp add: canonical_form_def sortedCopy_def conj_ac)

lemma Canonical_Inr_iff: "Canonical e = Inr b \<longleftrightarrow> event_Validate e \<and> b = marshal (event_json e)"
  by (auto simp: Canonical_def)

lemma Canonical_inject:
  assumes "Canonical e = Inr b" and "Canonical f = Inr b"
  shows "canonical_form e = canonical_form f"
proof -
  have "event_Validate e" "event_Validate f" "marshal (event_json e) = marshal (event_json f)"
    using assms by (auto simp: Canonical_Inr_iff)
  then show ?thesis by (simp add: marshal_inject event_json_plain event_json_eq_iff)
qed

lemma canonical_form_idem [simp]: "canonical_form (canonical_form e) = canonical_form e"
  by (simp add: canonical_form_def time_UTC_def sorted_sort_id)

lemma PreviousEventHash_canonical [simp]: "PreviousEventHash (canonical_form e) = PreviousEventHash e"
  by (simp add: canonical_form_def)

subsection \<open>Properties\<close>

text \<open>A sample event, with two reason codes in the order given.\<close>

lift_definition sample_digest :: digest is "replicate 32 (CHR 0x01)"
  by simp

lemma sample_digest_nonzero [simp]: "sample_digest \<noteq> zero_digest"
  by transfer (simp add: numeral_eq_Suc)

definition sample_event :: "string list \<Rightarrow> location \<Rightarrow> Event" where
  "sample_event codes loc = \<lparr>
     SchemaVersion = 1, EventID = ''00000000-0000-4000-8000-000000000001'',
     RunID = ''00000000-0000-4000-8000-000000000002'', EventType = EventRunStarted,
     OccurredAt = \<lparr>t_nanos = 63900000000000001000, t_loc = loc\<rparr>,
     PrincipalID = ''00000000-0000-4000-8000-000000000003'', AuthMethod = AuthAPIKey, OIDCIssuerHash = None,
     PolicyVersionHash = sample_digest, Decision = DecisionAllow, DecisionReasonCodes = Some codes,
     RequestedModel = ''m1'', ResolvedBackend = ''local'', ContentHMACKeyID = ''k1'',
     RequestHMAC = sample_digest, ResponseHMAC = None, RequestBytes = 10, ResponseBytes = None,
     PIICategories = Some [''email''], PIIMatchCounts = Some (fmap_of_list [(''email'', 1)]),
     HealthIndicatorCategories = Some [], SecretCategories = Some [], DetectorBundleHash = sample_digest,
     InputTokens = None, OutputTokens = None, ReservedCostMicros = Some 400, event_ActualCostMicros = None,
     event_Status = StatusStarted, ErrorCode = None, PreviousEventHash = zero_digest,
     SoftwareVersion = ''v1.0'', ConfigHash = sample_digest\<rparr>"

lemma sample_event_parts:
  "uuidPattern ''00000000-0000-4000-8000-000000000001''" "uuidPattern ''00000000-0000-4000-8000-000000000002''"
  "uuidPattern ''00000000-0000-4000-8000-000000000003''"
  "identifierPattern ''m1''" "identifierPattern ''local''" "identifierPattern ''k1''" "identifierPattern ''v1.0''"
  "codePattern ''email''" "validCodeSet [''email'']" "validCodeSet []"
  "validCountMap (fmap_of_list [(''email'', 1)])"
  "time_Year \<lparr>t_nanos = 63900000000000001000, t_loc = UTC\<rparr> = 2025"
  "time_Year \<lparr>t_nanos = 63900000000000001000, t_loc = Zone 7200\<rparr> = 2025"
  "time_Nanosecond \<lparr>t_nanos = 63900000000000001000, t_loc = loc\<rparr> mod 1000 = 0"
  by code_simp+

lemma sample_event_valid:
  "validCodeSet codes \<Longrightarrow> loc = UTC \<or> loc = Zone 7200 \<Longrightarrow> event_Validate (sample_event codes loc)"
  using sample_event_parts
  by (auto simp: event_Validate_def sample_event_def isZeroDigest_def validEventState_def validAuthEvidence_def
      validAuthMethod_def audit_enum_defs validOptionalNonNegative_def validOptionalDigest_def validOptionalCode_def
      time_IsZero_def int64_less int64_le)

text \<open>
  C17. What the canonical encoding commits to. Two valid events have the same canonical bytes exactly
  when they are the same event up to the order inside their four code sets, nil for an empty set or map,
  and the time zone in which the instant is held: every other field, every code, every count and the instant to the
  nanosecond can be read off the bytes.
\<close>

theorem canonical_commits:
  assumes "event_Validate e" and "event_Validate f"
  shows "Canonical e = Canonical f \<longleftrightarrow> canonical_form e = canonical_form f"
  using assms by (simp add: Canonical_def marshal_inject event_json_plain event_json_eq_iff)

theorem canonical_commits_witness:
  "Canonical (sample_event [''b'', ''a''] (Zone 7200)) = Canonical (sample_event [''a'', ''b''] UTC) \<and>
   Canonical (sample_event [''a''] UTC) \<noteq> Canonical (sample_event [''a'', ''b''] UTC)"
proof -
  have "validCodeSet [''b'', ''a'']" "validCodeSet [''a'', ''b'']" "validCodeSet [''a'']" by code_simp+
  note valid = sample_event_valid [OF this(1)] sample_event_valid [OF this(2)] sample_event_valid [OF this(3)]
  have "sort [''b'', ''a''] = [''a'', ''b'']" "sort [''a'', ''b''] = [''a'', ''b'']" "sort [''a''] = [''a'']" by code_simp+
  then have "canonical_form (sample_event [''b'', ''a''] (Zone 7200)) = canonical_form (sample_event [''a'', ''b''] UTC)"
    "canonical_form (sample_event [''a''] UTC) \<noteq> canonical_form (sample_event [''a'', ''b''] UTC)"
    by (simp_all add: canonical_form_def sample_event_def time_UTC_def)
  then show ?thesis
    using canonical_commits [OF valid(1) [of "Zone 7200"] valid(2) [of UTC]] canonical_commits [OF valid(3) [of UTC] valid(2) [of UTC]]
    by simp
qed

end
