(* ===== verification/AuditChain.thy ===== *)
theory AuditChain
  imports AuditEvent
begin

section \<open>Content evidence and the hash chain\<close>

text \<open>
  \<open>internal/audit/chain.go\<close> and \<open>internal/audit/verify.go\<close>: the keyed digest of message content, the
  hash of an event, and the verification of a chain of stored records. SHA-256 and HMAC-SHA-256 are
  parameters. \<open>VerifyChain\<close> returns the sequence number of its error, \<^const>\<open>None\<close> for no error. The
  lemmas show what acceptance means record by record, which sequence number a rejection reports, and
  that a chain is determined by its last hash as long as SHA-256 neither collides nor gives the zero
  digest on the encodings of the events in question.
\<close>

subsection \<open>Content digester\<close>

definition ContentHMACKeySize :: nat where "ContentHMACKeySize = 32"
definition contentHMACDomain :: bytes where "contentHMACDomain = ''compliantai:content-hmac:v1'' @ [CHR 0x00]"
definition auditChainDomain :: bytes where "auditChainDomain = ''compliantai:audit-chain:v1'' @ [CHR 0x00]"

datatype digester_error = ErrInvalidContentHMACKey | ErrContentHMACUnavailable

record ContentDigester =
  dg_key :: bytes
  dg_keyID :: string
  dg_initialized :: bool

definition NewContentDigester :: "string \<Rightarrow> bytes \<Rightarrow> digester_error + ContentDigester" where
  "NewContentDigester keyID key =
     (if \<not> identifierPattern keyID \<or> length key \<noteq> ContentHMACKeySize then Inl ErrInvalidContentHMACKey
      else Inr \<lparr>dg_key = key, dg_keyID = keyID, dg_initialized = True\<rparr>)"

definition digester_KeyID :: "ContentDigester option \<Rightarrow> string" where
  "digester_KeyID digester =
     (case digester of None \<Rightarrow> [] | Some d \<Rightarrow> if \<not> dg_initialized d then [] else dg_keyID d)"

definition digester_Sum :: "(bytes \<Rightarrow> bytes \<Rightarrow> digest) \<Rightarrow> ContentDigester option \<Rightarrow> bytes \<Rightarrow> digester_error + digest" where
  "digester_Sum hmac digester content =
     (case digester of
        None \<Rightarrow> Inl ErrContentHMACUnavailable
      | Some d \<Rightarrow>
          if \<not> dg_initialized d then Inl ErrContentHMACUnavailable
          else Inr (hmac (dg_key d) (contentHMACDomain @ content)))"

definition digester_Verify :: "(bytes \<Rightarrow> bytes \<Rightarrow> digest) \<Rightarrow> ContentDigester option \<Rightarrow> bytes \<Rightarrow> digest \<Rightarrow> bool" where
  "digester_Verify hmac digester content expected =
     (case digester_Sum hmac digester content of Inl _ \<Rightarrow> False | Inr actual \<Rightarrow> actual = expected)"

text \<open>The fixed marker that \<open>String\<close> and \<open>Format\<close> print in place of the key.\<close>

definition digester_String :: "ContentDigester \<Rightarrow> string" where
  "digester_String d = ''<content-digester>''"

subsection \<open>The chain\<close>

definition EventHash :: "(bytes \<Rightarrow> digest) \<Rightarrow> Event \<Rightarrow> audit_error + digest" where
  "EventHash sha256 event =
     (case Canonical event of Inl e \<Rightarrow> Inl e | Inr canonical \<Rightarrow> Inr (sha256 (auditChainDomain @ canonical)))"

record Record =
  rec_Sequence :: int64
  rec_Event :: Event
  rec_EventHash :: digest

fun verify_loop :: "(bytes \<Rightarrow> digest) \<Rightarrow> int64 \<Rightarrow> digest \<Rightarrow> Record list \<Rightarrow> int64 option" where
  "verify_loop sha256 expectedSequence expectedPrevious [] = None"
| "verify_loop sha256 expectedSequence expectedPrevious (record # records) =
     (if rec_Sequence record \<noteq> expectedSequence then
        Some (if rec_Sequence record <s expectedSequence then rec_Sequence record else expectedSequence)
      else if PreviousEventHash (rec_Event record) \<noteq> expectedPrevious then Some (rec_Sequence record)
      else if (case EventHash sha256 (rec_Event record) of Inl _ \<Rightarrow> True | Inr computedHash \<Rightarrow> computedHash \<noteq> rec_EventHash record)
        then Some (rec_Sequence record)
      else verify_loop sha256 (expectedSequence + 1) (rec_EventHash record) records)"

definition VerifyChain :: "(bytes \<Rightarrow> digest) \<Rightarrow> Record list \<Rightarrow> int64 option" where
  "VerifyChain sha256 records = verify_loop sha256 1 zero_digest records"

subsection \<open>Acceptance\<close>

text \<open>What a record has to satisfy at its place in the chain.\<close>

definition link_ok :: "(bytes \<Rightarrow> digest) \<Rightarrow> int64 \<Rightarrow> digest \<Rightarrow> Record \<Rightarrow> bool" where
  "link_ok sha256 sequence previous r \<longleftrightarrow>
     rec_Sequence r = sequence \<and> PreviousEventHash (rec_Event r) = previous \<and>
     EventHash sha256 (rec_Event r) = Inr (rec_EventHash r)"

text \<open>The hash the next record has to link to.\<close>

definition head_hash :: "Record list \<Rightarrow> digest" where
  "head_hash rs = (if rs = [] then zero_digest else rec_EventHash (last rs))"

lemma head_hash_simps [simp]: "head_hash [] = zero_digest" "head_hash (rs @ [r]) = rec_EventHash r"
  by (simp_all add: head_hash_def)

text \<open>The sequence number an error at record \<open>r\<close> carries.\<close>

definition reported :: "int64 \<Rightarrow> Record \<Rightarrow> int64" where
  "reported expected r = (if rec_Sequence r <s expected then rec_Sequence r else expected)"

lemma link_ok_cases:
  "(case EventHash sha256 (rec_Event r) of Inl _ \<Rightarrow> True | Inr h \<Rightarrow> h \<noteq> rec_EventHash r) \<longleftrightarrow>
   EventHash sha256 (rec_Event r) \<noteq> Inr (rec_EventHash r)"
  by (cases "EventHash sha256 (rec_Event r)") auto

lemma verify_loop_Cons:
  "verify_loop sha256 s p (r # rs) =
    (if link_ok sha256 s p r then verify_loop sha256 (s + 1) (rec_EventHash r) rs else Some (reported s r))"
  by (auto simp: link_ok_cases link_ok_def reported_def int64_less)

declare verify_loop.simps(2) [simp del]

lemma verify_loop_append:
  "verify_loop sha256 s p (rs @ qs) =
    (case verify_loop sha256 s p rs of
       Some e \<Rightarrow> Some e
     | None \<Rightarrow> verify_loop sha256 (s + of_nat (length rs)) (if rs = [] then p else rec_EventHash (last rs)) qs)"
  by (induction rs arbitrary: s p) (auto simp: verify_loop_Cons add.assoc split: option.splits)

lemma VerifyChain_snoc:
  "VerifyChain sha256 (rs @ [r]) =
    (case VerifyChain sha256 rs of
       Some e \<Rightarrow> Some e
     | None \<Rightarrow> if link_ok sha256 (1 + of_nat (length rs)) (head_hash rs) r then None
               else Some (reported (1 + of_nat (length rs)) r))"
  by (auto simp: VerifyChain_def verify_loop_append verify_loop_Cons head_hash_def split: option.splits)

lemma VerifyChain_Nil [simp]: "VerifyChain sha256 [] = None"
  by (simp add: VerifyChain_def)

lemma VerifyChain_snoc_None:
  "VerifyChain sha256 (rs @ [r]) = None \<longleftrightarrow>
   VerifyChain sha256 rs = None \<and> link_ok sha256 (1 + of_nat (length rs)) (head_hash rs) r"
  by (auto simp: VerifyChain_snoc split: option.splits)

lemma VerifyChain_append_None: "VerifyChain sha256 (rs @ qs) = None \<Longrightarrow> VerifyChain sha256 rs = None"
  by (auto simp: VerifyChain_def verify_loop_append split: option.splits)

lemma VerifyChain_None_iff:
  "VerifyChain sha256 rs = None \<longleftrightarrow>
   (\<forall>i<length rs. link_ok sha256 (1 + of_nat i) (head_hash (take i rs)) (rs ! i))"
proof (induction rs rule: rev_induct)
  case (snoc r rs)
  have "(\<forall>i<length (rs @ [r]). link_ok sha256 (1 + of_nat i) (head_hash (take i (rs @ [r]))) ((rs @ [r]) ! i)) \<longleftrightarrow>
    (\<forall>i<length rs. link_ok sha256 (1 + of_nat i) (head_hash (take i rs)) (rs ! i)) \<and>
    link_ok sha256 (1 + of_nat (length rs)) (head_hash rs) r"
    by (auto simp: less_Suc_eq nth_append)
  then show ?case using snoc by (simp add: VerifyChain_snoc_None)
qed simp

lemma VerifyChain_Some_iff:
  "VerifyChain sha256 rs = Some s \<longleftrightarrow>
   (\<exists>i<length rs. VerifyChain sha256 (take i rs) = None \<and>
      \<not> link_ok sha256 (1 + of_nat i) (head_hash (take i rs)) (rs ! i) \<and> s = reported (1 + of_nat i) (rs ! i))"
    (is "_ \<longleftrightarrow> ?bad rs")
proof (induction rs rule: rev_induct)
  case (snoc r rs)
  have "(\<exists>i<length (rs @ [r]). P i) \<longleftrightarrow> (\<exists>i<length rs. P i) \<or> P (length rs)" for P
    by (auto simp: less_Suc_eq)
  moreover have "take i (rs @ [r]) = take i rs \<and> (rs @ [r]) ! i = rs ! i" if "i < length rs" for i
    using that by (simp add: nth_append)
  ultimately have "?bad (rs @ [r]) \<longleftrightarrow> ?bad rs \<or> (VerifyChain sha256 rs = None \<and>
      \<not> link_ok sha256 (1 + of_nat (length rs)) (head_hash rs) r \<and> s = reported (1 + of_nat (length rs)) r)"
    by (simp cong: conj_cong)
  then show ?case using snoc by (cases "VerifyChain sha256 rs") (auto simp: VerifyChain_snoc)
qed simp

subsection \<open>The last hash determines the chain\<close>

definition chain_payload :: "Event \<Rightarrow> bytes" where
  "chain_payload e = auditChainDomain @ marshal (event_json e)"

definition chain_payloads :: "Record list \<Rightarrow> bytes set" where
  "chain_payloads rs = chain_payload ` rec_Event ` set rs"

lemma chain_payloads_simps [simp]:
  "chain_payloads [] = {}" "chain_payloads (rs @ qs) = chain_payloads rs \<union> chain_payloads qs"
  "chain_payloads [r] = {chain_payload (rec_Event r)}"
  by (auto simp: chain_payloads_def)

lemma EventHash_Inr_iff: "EventHash sha256 e = Inr h \<longleftrightarrow> event_Validate e \<and> h = sha256 (chain_payload e)"
  by (auto simp: EventHash_def Canonical_def chain_payload_def)

text \<open>What is left of a record when the freedom of the encoding is taken out.\<close>

definition record_form :: "Record \<Rightarrow> Record" where
  "record_form r = r\<lparr>rec_Event := canonical_form (rec_Event r)\<rparr>"

lemma link_ok_determines:
  assumes "link_ok sha256 s p r" and "link_ok sha256 s' p' r'" and "rec_EventHash r = rec_EventHash r'"
    and "inj_on sha256 {chain_payload (rec_Event r), chain_payload (rec_Event r')}"
  shows "canonical_form (rec_Event r) = canonical_form (rec_Event r')" and "p = p'"
proof -
  have v: "event_Validate (rec_Event r)" "event_Validate (rec_Event r')"
    and h: "rec_EventHash r = sha256 (chain_payload (rec_Event r))" "rec_EventHash r' = sha256 (chain_payload (rec_Event r'))"
    using assms by (auto simp: link_ok_def EventHash_Inr_iff)
  have "sha256 (chain_payload (rec_Event r)) = sha256 (chain_payload (rec_Event r'))"
    using assms(3) h by simp
  then have "chain_payload (rec_Event r) = chain_payload (rec_Event r')"
    by (rule inj_onD [OF assms(4)]) simp_all
  then have "Canonical (rec_Event r) = Canonical (rec_Event r')"
    using v by (simp add: chain_payload_def Canonical_def)
  then show form: "canonical_form (rec_Event r) = canonical_form (rec_Event r')"
    using Canonical_inject v by (metis Canonical_Inr_iff)
  have "PreviousEventHash (rec_Event r) = PreviousEventHash (rec_Event r')"
    using arg_cong [OF form, of PreviousEventHash] by simp
  then show "p = p'" using assms(1,2) by (simp add: link_ok_def)
qed

lemma chain_head_determines:
  assumes "VerifyChain sha256 rs = None" and "VerifyChain sha256 qs = None" and "head_hash rs = head_hash qs"
    and "inj_on sha256 (chain_payloads rs \<union> chain_payloads qs)"
    and "zero_digest \<notin> sha256 ` (chain_payloads rs \<union> chain_payloads qs)"
  shows "map record_form rs = map record_form qs"
  using assms
proof (induction rs arbitrary: qs rule: rev_induct)
  case Nil
  show ?case
  proof (cases qs rule: rev_cases)
    case (snoc ys y)
    then have "rec_EventHash y = sha256 (chain_payload (rec_Event y))"
      using Nil.prems by (auto simp: VerifyChain_snoc_None link_ok_def EventHash_Inr_iff)
    then show ?thesis using Nil.prems snoc by auto
  qed simp
next
  case (snoc r rs)
  have r: "link_ok sha256 (1 + of_nat (length rs)) (head_hash rs) r" "VerifyChain sha256 rs = None"
    using snoc.prems(1) by (simp_all add: VerifyChain_snoc_None)
  then have hr: "rec_EventHash r = sha256 (chain_payload (rec_Event r))" by (simp add: link_ok_def EventHash_Inr_iff)
  show ?case
  proof (cases qs rule: rev_cases)
    case Nil
    then show ?thesis using snoc.prems(3,5) hr by auto
  next
    case (snoc ys y)
    have y: "link_ok sha256 (1 + of_nat (length ys)) (head_hash ys) y" "VerifyChain sha256 ys = None"
      using snoc.prems(2) snoc by (simp_all add: VerifyChain_snoc_None)
    have h: "rec_EventHash r = rec_EventHash y" using snoc.prems(3) snoc by simp
    have inj: "inj_on sha256 {chain_payload (rec_Event r), chain_payload (rec_Event y)}"
      by (rule inj_on_subset [OF snoc.prems(4)]) (auto simp: snoc)
    note same = link_ok_determines [OF r(1) y(1) h inj]
    have "map record_form rs = map record_form ys"
    proof (rule snoc.IH [OF r(2) y(2) same(2)])
      show "inj_on sha256 (chain_payloads rs \<union> chain_payloads ys)"
        by (rule inj_on_subset [OF snoc.prems(4)]) (auto simp: snoc)
      show "zero_digest \<notin> sha256 ` (chain_payloads rs \<union> chain_payloads ys)"
        using snoc.prems(5) by (auto simp: snoc)
    qed
    moreover from this have "length rs = length ys" by (metis length_map)
    then have "rec_Sequence r = rec_Sequence y" using r(1) y(1) by (simp add: link_ok_def)
    then have "record_form r = record_form y" using same(1) h by (cases r; cases y) (simp add: record_form_def)
    ultimately show ?thesis by (simp add: snoc)
  qed
qed

subsection \<open>Properties\<close>

definition sample_record :: "string list \<Rightarrow> Record" where
  "sample_record codes = \<lparr>rec_Sequence = 1, rec_Event = sample_event codes UTC, rec_EventHash = sample_digest\<rparr>"

lemma sample_codes: "validCodeSet [''b'', ''a'']" "validCodeSet [''a'', ''b'']"
  by code_simp+

lemma sample_chain: "validCodeSet codes \<Longrightarrow> VerifyChain (\<lambda>_. sample_digest) [sample_record codes] = None"
  using sample_event_valid [of codes UTC] VerifyChain_snoc_None [of _ "[]" "sample_record codes"]
  by (simp add: link_ok_def sample_record_def EventHash_Inr_iff) (simp add: sample_event_def)

text \<open>
  C16. What \<open>VerifyChain\<close> accepts. A list of records passes exactly when the record at each position
  carries the next sequence number, is linked to the stored hash of the record before it (the zero
  digest for the first), is a valid event, and stores the hash of its own canonical encoding.
\<close>

theorem VerifyChain_accepts_iff:
  "VerifyChain sha256 rs = None \<longleftrightarrow>
   (\<forall>i<length rs. rec_Sequence (rs ! i) = 1 + of_nat i \<and>
      PreviousEventHash (rec_Event (rs ! i)) = (if i = 0 then zero_digest else rec_EventHash (rs ! (i - 1))) \<and>
      event_Validate (rec_Event (rs ! i)) \<and>
      rec_EventHash (rs ! i) = sha256 (auditChainDomain @ marshal (event_json (rec_Event (rs ! i)))))"
proof -
  have "head_hash (take i rs) = (if i = 0 then zero_digest else rec_EventHash (rs ! (i - 1)))" if "i < length rs" for i
    using that by (cases i) (auto simp: head_hash_def last_conv_nth)
  then show ?thesis
    unfolding VerifyChain_None_iff by (auto simp: link_ok_def EventHash_Inr_iff chain_payload_def)
qed

theorem VerifyChain_accepts_iff_witness:
  "event_Validate (sample_event [''b'', ''a''] UTC) \<and> PreviousEventHash (sample_event [''b'', ''a''] UTC) = zero_digest"
  using VerifyChain_accepts_iff [of "\<lambda>_. sample_digest" "[sample_record [''b'', ''a'']]"] sample_chain [OF sample_codes(1)]
  by (simp add: sample_record_def)

text \<open>
  Which record a rejection names. \<open>VerifyChain\<close> fails with sequence number \<open>s\<close> exactly when there is
  a first record at which the chain breaks, everything before it verifying, and \<open>s\<close> is that record's
  position, or the lower number the record claims.
\<close>

theorem VerifyChain_reports_first:
  "VerifyChain sha256 rs = Some s \<longleftrightarrow>
   (\<exists>i<length rs. VerifyChain sha256 (take i rs) = None \<and> VerifyChain sha256 (take (Suc i) rs) \<noteq> None \<and>
      s = (if rec_Sequence (rs ! i) <s 1 + of_nat i then rec_Sequence (rs ! i) else 1 + of_nat i))"
proof -
  have "VerifyChain sha256 (take (Suc i) rs) \<noteq> None \<longleftrightarrow> \<not> link_ok sha256 (1 + of_nat i) (head_hash (take i rs)) (rs ! i)"
    if "i < length rs" "VerifyChain sha256 (take i rs) = None" for i
    using that by (simp add: take_Suc_conv_app_nth VerifyChain_snoc)
  then show ?thesis
    unfolding VerifyChain_Some_iff reported_def by (auto cong: conj_cong)
qed

text \<open>
  Tamper evidence. Two chains that verify and have the same last hash are the same chain, of the
  same length, with the same sequence numbers, hashes and events (up to the freedom that the canonical
  encoding leaves), provided SHA-256 has no collision among the encodings of their events and maps
  none of them to the zero digest. So whoever keeps one head hash can detect any insertion, removal,
  reordering or change of an event before it.
\<close>

theorem chain_head_commits:
  assumes "VerifyChain sha256 rs = None" and "VerifyChain sha256 qs = None" and "head_hash rs = head_hash qs"
    and "inj_on sha256 (chain_payloads rs \<union> chain_payloads qs)"
    and "zero_digest \<notin> sha256 ` (chain_payloads rs \<union> chain_payloads qs)"
  shows "length rs = length qs \<and> map rec_Sequence rs = map rec_Sequence qs \<and> map rec_EventHash rs = map rec_EventHash qs \<and>
    map (\<lambda>r. canonical_form (rec_Event r)) rs = map (\<lambda>r. canonical_form (rec_Event r)) qs"
proof -
  have m: "map record_form rs = map record_form qs" by (rule chain_head_determines [OF assms])
  have f: "map (\<lambda>r. g (record_form r)) rs = map (\<lambda>r. g (record_form r)) qs" for g :: "Record \<Rightarrow> 'a"
    using arg_cong [OF m, of "map g"] by (simp add: comp_def)
  show ?thesis
    using f [of rec_Sequence] f [of rec_EventHash] f [of rec_Event] m
    by (auto simp: record_form_def dest: map_eq_imp_length_eq)
qed

theorem chain_head_commits_witness:
  "map (\<lambda>r. canonical_form (rec_Event r)) [sample_record [''b'', ''a'']] =
   map (\<lambda>r. canonical_form (rec_Event r)) [sample_record [''a'', ''b'']]"
proof -
  let ?rs = "[sample_record [''b'', ''a'']]" and ?qs = "[sample_record [''a'', ''b'']]"
  have v: "event_Validate (sample_event [''b'', ''a''] UTC)" "event_Validate (sample_event [''a'', ''b''] UTC)"
    using sample_codes sample_event_valid by blast+
  have "sort [''b'', ''a''] = sort [''a'', ''b'']" by code_simp
  then have "chain_payload (sample_event [''b'', ''a''] UTC) = chain_payload (sample_event [''a'', ''b''] UTC)"
    by (simp add: chain_payload_def event_json_def sortedCopy_def sample_event_def)
  then have one: "chain_payloads ?rs \<union> chain_payloads ?qs = {chain_payload (sample_event [''a'', ''b''] UTC)}"
    by (simp add: chain_payloads_def sample_record_def)
  show ?thesis
    using chain_head_commits [OF sample_chain [OF sample_codes(1)] sample_chain [OF sample_codes(2)]] sample_digest_nonzero
    unfolding one by (auto simp: head_hash_def sample_record_def)
qed

end
