(* ===== verification/AuditStore.thy ===== *)
theory AuditStore
  imports AuditChain BudgetStore
begin

section \<open>The audit tables and the repository\<close>

text \<open>
  \<open>internal/audit/repository.go\<close> over \<open>migrations/000004\<close>, \<open>000005\<close>, \<open>000007\<close> and \<open>000008\<close>. A row of
  \<open>audit_events\<close> has one column per argument of \<open>append_audit_event\<close>: byte columns for the digests, a
  timestamp in microseconds, integers for the counters. \<open>appendArguments\<close> and \<open>scanRecord\<close> are the
  two directions between events and rows. The store has the chain head row, the identifiers that
  were registered, the known principals and the events; update, delete and truncate are rejected by
  triggers, so appending is the only way the events change. \<open>lock_audit_chain_head\<close> takes the row lock
  that serializes appends, so one append is one step; what may fail between the statements of its
  transaction is a parameter, including a commit whose reply is lost.
\<close>

subsection \<open>Rows\<close>

record audit_row =
  col_sequence :: int64
  col_schema_version :: int64
  col_event_id :: string
  col_run_id :: string
  col_event_type :: string
  col_occurred_at :: int
  col_principal_id :: string
  col_auth_method :: string
  col_oidc_issuer_hash :: "bytes option"
  col_policy_version_hash :: bytes
  col_decision :: string
  col_decision_reason_codes :: "string list option"
  col_requested_model :: string
  col_resolved_backend :: string
  col_content_hmac_key_id :: string
  col_request_hmac :: bytes
  col_response_hmac :: "bytes option"
  col_request_bytes :: int64
  col_response_bytes :: "int64 option"
  col_pii_categories :: "string list option"
  col_pii_match_counts :: "(string, int64) fmap option"
  col_health_indicator_categories :: "string list option"
  col_secret_categories :: "string list option"
  col_detector_bundle_hash :: bytes
  col_input_tokens :: "int64 option"
  col_output_tokens :: "int64 option"
  col_reserved_cost_micros :: "int64 option"
  col_actual_cost_micros :: "int64 option"
  col_status :: string
  col_error_code :: "string option"
  col_previous_event_hash :: bytes
  col_event_hash :: bytes
  col_software_version :: string
  col_config_hash :: bytes

record audit_store =
  head_sequence :: int64
  head_event_hash :: bytes
  audit_identifiers :: "(string \<times> string) set"
  known_principals :: "string set"
  audit_events :: "audit_row list"

definition zero_hash :: bytes where "zero_hash = replicate 32 (CHR 0x00)"

definition empty_audit :: audit_store where
  "empty_audit = \<lparr>head_sequence = 0, head_event_hash = zero_hash,
     audit_identifiers = {(''content_hmac_key'', ''legacy-v1'')}, known_principals = {}, audit_events = []\<rparr>"

subsection \<open>Events to rows and back\<close>

definition optionalDigestBytes :: "digest option \<Rightarrow> bytes option" where
  "optionalDigestBytes d = map_option digest_bytes d"

text \<open>
  The sequence column is not an argument; the trigger fills it in. A nil slice or map reaches the driver as NULL.
\<close>

definition appendArguments :: "Event \<Rightarrow> digest \<Rightarrow> audit_row" where
  "appendArguments event eventHash = \<lparr>
     col_sequence = 0,
     col_schema_version = SchemaVersion event,
     col_event_id = EventID event,
     col_run_id = RunID event,
     col_event_type = EventType event,
     col_occurred_at = t_nanos (OccurredAt event) div 1000,
     col_principal_id = PrincipalID event,
     col_auth_method = AuthMethod event,
     col_oidc_issuer_hash = optionalDigestBytes (OIDCIssuerHash event),
     col_policy_version_hash = digest_bytes (PolicyVersionHash event),
     col_decision = Decision event,
     col_decision_reason_codes = DecisionReasonCodes event,
     col_requested_model = RequestedModel event,
     col_resolved_backend = ResolvedBackend event,
     col_content_hmac_key_id = ContentHMACKeyID event,
     col_request_hmac = digest_bytes (RequestHMAC event),
     col_response_hmac = optionalDigestBytes (ResponseHMAC event),
     col_request_bytes = RequestBytes event,
     col_response_bytes = ResponseBytes event,
     col_pii_categories = PIICategories event,
     col_pii_match_counts = PIIMatchCounts event,
     col_health_indicator_categories = HealthIndicatorCategories event,
     col_secret_categories = SecretCategories event,
     col_detector_bundle_hash = digest_bytes (DetectorBundleHash event),
     col_input_tokens = InputTokens event,
     col_output_tokens = OutputTokens event,
     col_reserved_cost_micros = ReservedCostMicros event,
     col_actual_cost_micros = event_ActualCostMicros event,
     col_status = event_Status event,
     col_error_code = ErrorCode event,
     col_previous_event_hash = digest_bytes (PreviousEventHash event),
     col_event_hash = digest_bytes eventHash,
     col_software_version = SoftwareVersion event,
     col_config_hash = digest_bytes (ConfigHash event)\<rparr>"

text \<open>
  \<open>assignRequiredDigest\<close> is \<^const>\<open>digestFromBytes\<close>; an optional digest column may be NULL. The driver
  returns timestamps in the local time of the reading process, whose offset may differ from one instant to another.
  \<^const>\<open>None\<close> is \<open>ErrRead\<close>.
\<close>

definition scan_optional :: "bytes option \<Rightarrow> digest option option" where
  "scan_optional c = (case c of None \<Rightarrow> Some None | Some raw \<Rightarrow> map_option Some (digestFromBytes raw))"

type_synonym local_time = "int \<Rightarrow> location"

definition scanRecord :: "local_time \<Rightarrow> audit_row \<Rightarrow> Record option" where
  "scanRecord loc row =
     (case (digestFromBytes (col_policy_version_hash row), digestFromBytes (col_request_hmac row),
            digestFromBytes (col_detector_bundle_hash row), digestFromBytes (col_previous_event_hash row),
            digestFromBytes (col_config_hash row), digestFromBytes (col_event_hash row)) of
        (Some policyVersionHash, Some requestHMAC, Some detectorBundleHash, Some previousEventHash, Some configHash, Some eventHash) \<Rightarrow>
          (case (scan_optional (col_oidc_issuer_hash row), scan_optional (col_response_hmac row)) of
             (Some oidcIssuerHash, Some responseHMAC) \<Rightarrow>
               Some \<lparr>rec_Sequence = col_sequence row, rec_Event = \<lparr>
                  SchemaVersion = col_schema_version row, EventID = col_event_id row, RunID = col_run_id row,
                  EventType = col_event_type row,
                  OccurredAt = \<lparr>t_nanos = col_occurred_at row * 1000, t_loc = loc (col_occurred_at row * 1000)\<rparr>,
                  PrincipalID = col_principal_id row, AuthMethod = col_auth_method row,
                  OIDCIssuerHash = oidcIssuerHash, PolicyVersionHash = policyVersionHash,
                  Decision = col_decision row, DecisionReasonCodes = col_decision_reason_codes row,
                  RequestedModel = col_requested_model row, ResolvedBackend = col_resolved_backend row,
                  ContentHMACKeyID = col_content_hmac_key_id row, RequestHMAC = requestHMAC,
                  ResponseHMAC = responseHMAC, RequestBytes = col_request_bytes row,
                  ResponseBytes = col_response_bytes row, PIICategories = col_pii_categories row,
                  PIIMatchCounts = col_pii_match_counts row,
                  HealthIndicatorCategories = col_health_indicator_categories row,
                  SecretCategories = col_secret_categories row, DetectorBundleHash = detectorBundleHash,
                  InputTokens = col_input_tokens row, OutputTokens = col_output_tokens row,
                  ReservedCostMicros = col_reserved_cost_micros row,
                  event_ActualCostMicros = col_actual_cost_micros row, event_Status = col_status row,
                  ErrorCode = col_error_code row, PreviousEventHash = previousEventHash,
                  SoftwareVersion = col_software_version row, ConfigHash = configHash\<rparr>,
                  rec_EventHash = eventHash\<rparr>
           | _ \<Rightarrow> None)
      | _ \<Rightarrow> None)"

subsection \<open>append_audit_event and its triggers\<close>

text \<open>Strict SQL functions: the result of NULL is NULL.\<close>

definition audit_code_set_is_valid :: "string list option \<Rightarrow> bool option" where
  "audit_code_set_is_valid p_values =
     map_option (\<lambda>xs. length xs \<le> 64 \<and> list_all codePattern xs \<and> distinct xs) p_values"

definition audit_count_map_is_valid :: "(string, int64) fmap option \<Rightarrow> bool option" where
  "audit_count_map_is_valid p_values =
     map_option (\<lambda>m. size (fmdom m) \<le> 64 \<and> list_all (\<lambda>kv. codePattern (fst kv) \<and> 0 \<le>s snd kv) (sorted_list_of_fmap m)) p_values"

definition event_state_ok :: "audit_row \<Rightarrow> bool" where
  "event_state_ok r \<longleftrightarrow>
     (col_event_type r = ''run_started'' \<and> col_decision r = ''allow'' \<and> col_status r = ''started'') \<or>
     (col_event_type r = ''run_completed'' \<and> col_decision r = ''allow'' \<and> col_status r = ''completed'') \<or>
     (col_event_type r = ''run_failed'' \<and> col_decision r = ''allow'' \<and> col_status r = ''failed'') \<or>
     (col_event_type r = ''run_denied'' \<and> col_decision r = ''deny'' \<and> col_status r = ''denied'')"

text \<open>None of the checks \<open>IS NOT TRUE\<close>; the columns are also \<open>NOT NULL\<close>.\<close>

definition metadata_ok :: "audit_row \<Rightarrow> bool" where
  "metadata_ok r \<longleftrightarrow>
     audit_code_set_is_valid (col_decision_reason_codes r) = Some True \<and> audit_code_set_is_valid (col_pii_categories r) = Some True \<and>
     audit_count_map_is_valid (col_pii_match_counts r) = Some True \<and>
     audit_code_set_is_valid (col_health_indicator_categories r) = Some True \<and>
     audit_code_set_is_valid (col_secret_categories r) = Some True \<and>
     (case col_error_code r of None \<Rightarrow> True | Some c \<Rightarrow> codePattern c)"

definition identifiers_ok :: "audit_store \<Rightarrow> audit_row \<Rightarrow> bool" where
  "identifiers_ok st r \<longleftrightarrow>
     (''model'', col_requested_model r) \<in> audit_identifiers st \<and>
     (''backend'', col_resolved_backend r) \<in> audit_identifiers st \<and>
     (''software_version'', col_software_version r) \<in> audit_identifiers st \<and>
     (''content_hmac_key'', col_content_hmac_key_id r) \<in> audit_identifiers st"

definition hash_column :: "bytes \<Rightarrow> bool" where
  "hash_column b \<longleftrightarrow> length b = 32 \<and> b \<noteq> zero_hash"

definition not_blank :: "string \<Rightarrow> bool" where
  "not_blank s \<longleftrightarrow> \<not> list_all (\<lambda>c. c = CHR '' '') s"

definition counter_column :: "int64 option \<Rightarrow> bool" where
  "counter_column c = (case c of None \<Rightarrow> True | Some n \<Rightarrow> 0 \<le>s n)"

definition audit_events_check :: "audit_row \<Rightarrow> bool" where
  "audit_events_check r \<longleftrightarrow>
     col_schema_version r = 1 \<and> event_state_ok r \<and> metadata_ok r \<and>
     (case col_oidc_issuer_hash r of None \<Rightarrow> col_auth_method r \<in> {''api_key'', ''workload''}
       | Some h \<Rightarrow> col_auth_method r = ''oidc'' \<and> hash_column h) \<and>
     hash_column (col_policy_version_hash r) \<and> hash_column (col_request_hmac r) \<and>
     (case col_response_hmac r of None \<Rightarrow> True | Some h \<Rightarrow> hash_column h) \<and>
     hash_column (col_detector_bundle_hash r) \<and> hash_column (col_config_hash r) \<and> hash_column (col_event_hash r) \<and>
     length (col_previous_event_hash r) = 32 \<and>
     not_blank (col_requested_model r) \<and> not_blank (col_resolved_backend r) \<and> not_blank (col_software_version r) \<and>
     identifierPattern (col_content_hmac_key_id r) \<and> 0 \<le>s col_request_bytes r \<and>
     counter_column (col_response_bytes r) \<and> counter_column (col_input_tokens r) \<and> counter_column (col_output_tokens r) \<and>
     counter_column (col_reserved_cost_micros r) \<and> counter_column (col_actual_cost_micros r)"

text \<open>The \<open>BEFORE INSERT\<close> and \<open>AFTER INSERT\<close> triggers of \<open>000008\<close>.\<close>

definition serialize_audit_chain_append :: "audit_store \<Rightarrow> audit_row \<Rightarrow> sql_error + audit_row" where
  "serialize_audit_chain_append st new =
     (if col_previous_event_hash new \<noteq> head_event_hash st then Inl (Raised ''audit chain head changed'')
      else if head_sequence st = 9223372036854775807 then Inl Bigint_out_of_range
      else Inr (new\<lparr>col_sequence := head_sequence st + 1\<rparr>))"

definition advance_audit_chain_head :: "audit_row \<Rightarrow> audit_store \<Rightarrow> audit_store" where
  "advance_audit_chain_head new st = st\<lparr>head_sequence := col_sequence new, head_event_hash := col_event_hash new\<rparr>"

definition insert_audit_event :: "audit_row \<Rightarrow> audit_store \<Rightarrow> sql_error + int64 \<times> audit_store" where
  "insert_audit_event r st =
     bind_result (serialize_audit_chain_append st r) (\<lambda>new.
       if \<not> audit_events_check new then Inl Constraint_violation
       else if list_ex (\<lambda>x. col_event_id x = col_event_id new \<or> col_sequence x = col_sequence new) (audit_events st)
         then Inl Constraint_violation
       else if col_principal_id new \<notin> known_principals st then Inl Constraint_violation
       else Inr (col_sequence new, advance_audit_chain_head new (st\<lparr>audit_events := audit_events st @ [new]\<rparr>)))"

definition append_audit_event :: "audit_row \<Rightarrow> audit_store \<Rightarrow> sql_error + int64 \<times> audit_store" where
  "append_audit_event r st =
     (if \<not> event_state_ok r then Inl (Raised ''invalid audit event state'')
      else if \<not> metadata_ok r then Inl (Raised ''invalid audit event metadata'')
      else if \<not> identifiers_ok st r then Inl (Raised ''unregistered audit identifier'')
      else insert_audit_event r st)"

definition lock_audit_chain_head :: "audit_store \<Rightarrow> int64 \<times> bytes" where
  "lock_audit_chain_head st = (head_sequence st, head_event_hash st)"

definition admin_register_audit_identifier :: "string \<Rightarrow> string \<Rightarrow> audit_store \<Rightarrow> sql_error + audit_store" where
  "admin_register_audit_identifier t v st =
     (if t \<in> {''model'', ''backend'', ''software_version'', ''content_hmac_key''} \<and> identifierPattern v
      then Inr (st\<lparr>audit_identifiers := insert (t, v) (audit_identifiers st)\<rparr>) else Inl Constraint_violation)"

subsection \<open>The repository\<close>

datatype repository_error = ErrAppend | ErrRead | ErrVerification int64

record AppendReceipt =
  rc_sequence :: int64
  rc_eventHash :: digest
  rc_backendAuthorized :: bool

definition NewAppendReceipt :: "int64 \<Rightarrow> digest \<Rightarrow> string \<Rightarrow> AppendReceipt" where
  "NewAppendReceipt sequence eventHash eventType =
     \<lparr>rc_sequence = sequence, rc_eventHash = eventHash,
      rc_backendAuthorized = (eventType = EventRunStarted \<and> 0 <s sequence \<and> eventHash \<noteq> zero_digest)\<rparr>"

definition AuthorizesBackendCall :: "AppendReceipt \<Rightarrow> bool" where
  "AuthorizesBackendCall receipt = rc_backendAuthorized receipt"

datatype tx_fault = No_fault | Begin_fails | Lock_fails | Insert_fails | Commit_fails | Commit_reply_lost

definition Append ::
  "(bytes \<Rightarrow> digest) \<Rightarrow> bool \<Rightarrow> tx_fault \<Rightarrow> Event \<Rightarrow> audit_store \<Rightarrow> (repository_error + AppendReceipt) \<times> audit_store" where
  "Append sha256 pool fault event st =
     (if \<not> pool \<or> PreviousEventHash event \<noteq> zero_digest then (Inl ErrAppend, st)
      else if \<not> event_Validate event then (Inl ErrAppend, st)
      else if fault = Begin_fails \<or> fault = Lock_fails then (Inl ErrAppend, st)
      else case lock_audit_chain_head st of (headSequence, rawHeadHash) \<Rightarrow>
        case digestFromBytes rawHeadHash of
          None \<Rightarrow> (Inl ErrAppend, st)
        | Some headHash \<Rightarrow>
            let linked = event\<lparr>PreviousEventHash := headHash\<rparr> in
            case EventHash sha256 linked of
              Inl _ \<Rightarrow> (Inl ErrAppend, st)
            | Inr eventHash \<Rightarrow>
                if fault = Insert_fails then (Inl ErrAppend, st)
                else case append_audit_event (appendArguments linked eventHash) st of
                    Inl _ \<Rightarrow> (Inl ErrAppend, st)
                  | Inr (sequence, st') \<Rightarrow>
                      if sequence \<noteq> headSequence + 1 then (Inl ErrAppend, st)
                      else if fault = Commit_fails then (Inl ErrAppend, st)
                      else if fault = Commit_reply_lost then (Inl ErrAppend, st')
                      else (Inr (NewAppendReceipt sequence eventHash (EventType event)), st'))"

text \<open>\<open>readRecords\<close> stops at the first row that does not scan.\<close>

fun readRecords :: "local_time \<Rightarrow> audit_row list \<Rightarrow> repository_error + Record list" where
  "readRecords loc [] = Inr []"
| "readRecords loc (row # rows) =
     (case scanRecord loc row of
        None \<Rightarrow> Inl (if 0 <s col_sequence row then ErrVerification (col_sequence row) else ErrRead)
      | Some r \<Rightarrow> bind_result (readRecords loc rows) (\<lambda>rs. Inr (r # rs)))"

definition repository_Verify :: "(bytes \<Rightarrow> digest) \<Rightarrow> bool \<Rightarrow> local_time \<Rightarrow> audit_store \<Rightarrow> repository_error option" where
  "repository_Verify sha256 pool loc st =
     (if \<not> pool then Some ErrRead
      else case readRecords loc (sort_key (\<lambda>r. sint (col_sequence r)) (audit_events st)) of
          Inl e \<Rightarrow> Some e
        | Inr records \<Rightarrow> map_option ErrVerification (VerifyChain sha256 records))"

definition RecordsThrough :: "(bytes \<Rightarrow> digest) \<Rightarrow> bool \<Rightarrow> local_time \<Rightarrow> int64 \<Rightarrow> audit_store \<Rightarrow> repository_error + Record list" where
  "RecordsThrough sha256 pool loc sequence st =
     (if \<not> pool \<or> sequence \<le>s 0 then Inl ErrRead
      else bind_result (readRecords loc (sort_key (\<lambda>r. sint (col_sequence r))
             (filter (\<lambda>r. col_sequence r \<le>s sequence) (audit_events st)))) (\<lambda>records.
        case VerifyChain sha256 records of
          Some s \<Rightarrow> Inl (ErrVerification s)
        | None \<Rightarrow>
            if records = [] \<or> rec_Sequence (last records) \<noteq> sequence
            then Inl (ErrVerification (of_nat (length records + 1))) else Inr records))"

end
