(* ===== verification/AuditRepository.thy ===== *)
theory AuditRepository
  imports AuditStore
begin

section \<open>Every stored history verifies\<close>

text \<open>
  The invariant of the audit store: its rows are the rows of a chain of records that
  \<open>VerifyChain\<close> accepts, and the head row names the last of them. Appends keep it whatever fails in
  the transaction, so every store that appends can reach is read back and verified without error.
  The locale \<open>audit_log\<close> is the contract of one append, provided by the repository; AuditSchedule extends it to a log
  that several clients write to, which is what the request handler relies on.
\<close>

subsection \<open>Rows of records\<close>

definition row_of :: "Record \<Rightarrow> audit_row" where
  "row_of r = (appendArguments (rec_Event r) (rec_EventHash r))\<lparr>col_sequence := rec_Sequence r\<rparr>"

text \<open>A record as it comes back: the instant in the reader's local time.\<close>

definition relocate :: "local_time \<Rightarrow> Event \<Rightarrow> Event" where
  "relocate loc e = e\<lparr>OccurredAt := \<lparr>t_nanos = t_nanos (OccurredAt e), t_loc = loc (t_nanos (OccurredAt e))\<rparr>\<rparr>"

definition relocated :: "local_time \<Rightarrow> Record \<Rightarrow> Record" where
  "relocated loc r = r\<lparr>rec_Event := relocate loc (rec_Event r)\<rparr>"

lemma scan_optional_bytes [simp]: "scan_optional (optionalDigestBytes d) = Some d"
  by (cases d) (simp_all add: scan_optional_def optionalDigestBytes_def)

lemma valid_micros: "event_Validate e \<Longrightarrow> t_nanos (OccurredAt e) div 1000 * 1000 = t_nanos (OccurredAt e)"
proof -
  assume "event_Validate e"
  then have "t_nanos (OccurredAt e) mod 1000000000 mod 1000 = 0"
    by (simp add: event_Validate_def time_Nanosecond_def nanos_per_second_def)
  moreover have "t_nanos (OccurredAt e) mod 1000000000 mod 1000 = t_nanos (OccurredAt e) mod 1000"
    by (rule mod_mod_cancel) simp
  ultimately have "t_nanos (OccurredAt e) mod 1000 = 0" by simp
  then show ?thesis using div_mult_mod_eq [of "t_nanos (OccurredAt e)" 1000] by simp
qed

lemma scanRecord_row_of: "event_Validate (rec_Event r) \<Longrightarrow> scanRecord loc (row_of r) = Some (relocated loc r)"
  using valid_micros [of "rec_Event r"]
  by (cases r) (simp add: scanRecord_def row_of_def appendArguments_def relocated_def relocate_def)

lemma readRecords_rows:
  "list_all (\<lambda>r. event_Validate (rec_Event r)) rs \<Longrightarrow> readRecords loc (map row_of rs) = Inr (map (relocated loc) rs)"
  by (induction rs) (simp_all add: scanRecord_row_of)

text \<open>The encoding, and with it the hash, does not depend on the location.\<close>

lemma canonical_form_relocate [simp]: "canonical_form (relocate loc e) = canonical_form e"
  by (simp add: canonical_form_def relocate_def time_UTC_def)

lemma event_json_relocate: "event_json (relocate loc e) = event_json e"
  by (simp add: event_json_eq_iff)

definition year_ok :: "local_time \<Rightarrow> Event \<Rightarrow> bool" where
  "year_ok loc e \<longleftrightarrow> 1 \<le> time_Year (OccurredAt (relocate loc e)) \<and> time_Year (OccurredAt (relocate loc e)) \<le> 9999"

lemma event_Validate_relocate: "event_Validate e \<Longrightarrow> year_ok loc e \<Longrightarrow> event_Validate (relocate loc e)"
  unfolding event_Validate_def year_ok_def by (simp add: relocate_def time_IsZero_def time_Nanosecond_def)

lemma link_ok_relocated:
  "link_ok sha256 s p r \<Longrightarrow> year_ok loc (rec_Event r) \<Longrightarrow> link_ok sha256 s p (relocated loc r)"
  using event_Validate_relocate [of "rec_Event r" loc]
  by (simp add: link_ok_def relocated_def EventHash_Inr_iff chain_payload_def event_json_relocate) (simp add: relocate_def)

lemma VerifyChain_relocated:
  "VerifyChain sha256 rs = None \<Longrightarrow> list_all (\<lambda>r. year_ok loc (rec_Event r)) rs \<Longrightarrow>
   VerifyChain sha256 (map (relocated loc) rs) = None"
proof (induction rs rule: rev_induct)
  case (snoc r rs)
  have "head_hash (map (relocated loc) rs) = head_hash rs"
    by (cases rs rule: rev_cases) (simp_all add: relocated_def)
  then show ?case using snoc link_ok_relocated by (simp add: VerifyChain_snoc_None)
qed simp

lemma VerifyChain_valid: "VerifyChain sha256 rs = None \<Longrightarrow> list_all (\<lambda>r. event_Validate (rec_Event r)) rs"
  by (induction rs rule: rev_induct) (simp_all add: VerifyChain_snoc_None link_ok_def EventHash_Inr_iff)

subsection \<open>The invariant\<close>

definition holds_chain :: "(bytes \<Rightarrow> digest) \<Rightarrow> audit_store \<Rightarrow> Record list \<Rightarrow> bool" where
  "holds_chain sha256 st rs \<longleftrightarrow>
     audit_events st = map row_of rs \<and> VerifyChain sha256 rs = None \<and> length rs < 2 ^ 63 \<and>
     head_sequence st = of_nat (length rs) \<and> head_event_hash st = digest_bytes (head_hash rs)"

definition audit_ok :: "(bytes \<Rightarrow> digest) \<Rightarrow> audit_store \<Rightarrow> bool" where
  "audit_ok sha256 st \<longleftrightarrow> (\<exists>rs. holds_chain sha256 st rs)"

lemma zero_digest_bytes: "digest_bytes zero_digest = zero_hash"
  by (simp add: zero_digest.rep_eq zero_hash_def)

lemma empty_audit_ok: "holds_chain sha256 empty_audit []"
  by (simp add: holds_chain_def empty_audit_def zero_digest_bytes)

text \<open>What a successful insert does to a chain.\<close>

lemma append_audit_event_chain:
  assumes inv: "holds_chain sha256 st rs" and v: "EventHash sha256 e = Inr h" and p: "PreviousEventHash e = head_hash rs"
    and run: "append_audit_event (appendArguments e h) st = Inr (s, st')"
  defines "r \<equiv> \<lparr>rec_Sequence = 1 + of_nat (length rs), rec_Event = e, rec_EventHash = h\<rparr>"
  shows "holds_chain sha256 st' (rs @ [r])" and "s = 1 + of_nat (length rs)" and "h \<noteq> zero_digest"
    and "audit_events st' = audit_events st @ [row_of r]"
proof -
  define row where "row = (appendArguments e h)\<lparr>col_sequence := head_sequence st + 1\<rparr>"
  have hd: "head_sequence st = of_nat (length rs)" "length rs < 2 ^ 63" using inv by (simp_all add: holds_chain_def)
  have ins: "insert_audit_event (appendArguments e h) st = Inr (s, st')"
    using run by (auto simp: append_audit_event_def split: if_splits)
  then have max: "head_sequence st \<noteq> 9223372036854775807" and chk: "audit_events_check row"
    and s: "s = col_sequence row" and st': "st' = advance_audit_chain_head row (st\<lparr>audit_events := audit_events st @ [row]\<rparr>)"
    by (auto simp: insert_audit_event_def serialize_audit_chain_append_def row_def split: if_splits)
  have row: "row = row_of r" by (simp add: row_def row_of_def r_def hd)
  then show ev: "audit_events st' = audit_events st @ [row_of r]" by (simp add: st' advance_audit_chain_head_def)
  show "s = 1 + of_nat (length rs)" by (simp add: s row_def hd)
  have "hash_column (digest_bytes h)" using chk by (simp add: audit_events_check_def row_def appendArguments_def)
  then show "h \<noteq> zero_digest" using zero_digest_bytes by (auto simp: hash_column_def)
  have "length rs \<noteq> 2 ^ 63 - 1"
  proof
    assume "length rs = 2 ^ 63 - 1"
    then have "(of_nat (length rs) :: int64) = of_nat (2 ^ 63 - 1)" by (rule arg_cong)
    then show False using max hd by simp
  qed
  then have len: "Suc (length rs) < 2 ^ 63" using hd(2) by simp
  have "VerifyChain sha256 (rs @ [r]) = None"
    using inv v p by (simp add: VerifyChain_snoc_None holds_chain_def link_ok_def r_def)
  then show "holds_chain sha256 st' (rs @ [r])"
    using inv len ev unfolding holds_chain_def st' row
    by (simp add: advance_audit_chain_head_def) (simp add: row_of_def r_def appendArguments_def)
qed

lemma Append_cases:
  assumes inv: "holds_chain sha256 st rs" and run: "Append sha256 pool fault e st = (res, st')"
  obtains (kept) err where "res = Inl err" and "st' = st"
  | (stored) h where "EventHash sha256 (e\<lparr>PreviousEventHash := head_hash rs\<rparr>) = Inr h" and "h \<noteq> zero_digest"
      and "holds_chain sha256 st' (rs @ [\<lparr>rec_Sequence = 1 + of_nat (length rs), rec_Event = e\<lparr>PreviousEventHash := head_hash rs\<rparr>, rec_EventHash = h\<rparr>])"
      and "audit_events st' = audit_events st @ [row_of \<lparr>rec_Sequence = 1 + of_nat (length rs), rec_Event = e\<lparr>PreviousEventHash := head_hash rs\<rparr>, rec_EventHash = h\<rparr>]"
      and "(fault = Commit_reply_lost \<and> res = Inl ErrAppend) \<or>
           (fault \<noteq> Commit_reply_lost \<and> res = Inr (NewAppendReceipt (1 + of_nat (length rs)) h (EventType e)))"
proof (cases "res = Inl ErrAppend \<and> st' = st")
  case True
  then show thesis using kept by blast
next
  case False
  define linked where "linked = e\<lparr>PreviousEventHash := head_hash rs\<rparr>"
  have hd: "digestFromBytes (head_event_hash st) = Some (head_hash rs)" using inv by (simp add: holds_chain_def)
  from run False obtain h s st1 where v: "EventHash sha256 linked = Inr h"
    and ins: "append_audit_event (appendArguments linked h) st = Inr (s, st1)"
    and out: "st' = st1" "(fault = Commit_reply_lost \<and> res = Inl ErrAppend) \<or>
           (fault \<noteq> Commit_reply_lost \<and> res = Inr (NewAppendReceipt s h (EventType e)))"
    by (auto simp: Append_def lock_audit_chain_head_def hd Let_def linked_def split: if_splits sum.splits prod.splits)
  note chain = append_audit_event_chain [OF inv v _ ins]
  show thesis
    by (rule stored [of h]) (use v chain out in \<open>auto simp: linked_def\<close>)
qed

lemma Append_ok: "audit_ok sha256 st \<Longrightarrow> audit_ok sha256 (snd (Append sha256 pool fault e st))"
proof -
  assume "audit_ok sha256 st"
  then obtain rs where inv: "holds_chain sha256 st rs" by (auto simp: audit_ok_def)
  obtain res st' where run: "Append sha256 pool fault e st = (res, st')" by (cases "Append sha256 pool fault e st")
  from inv run show ?thesis
    by (cases rule: Append_cases) (use inv run in \<open>auto simp: audit_ok_def\<close>)
qed

subsection \<open>Sequences of operations\<close>

datatype audit_op =
    Op_Append bool tx_fault Event
  | Op_Register string string
  | Op_Principal string

fun audit_apply :: "(bytes \<Rightarrow> digest) \<Rightarrow> audit_op \<Rightarrow> audit_store \<Rightarrow> audit_store" where
  "audit_apply sha256 (Op_Append pool fault e) st = snd (Append sha256 pool fault e st)"
| "audit_apply sha256 (Op_Register t v) st = (case admin_register_audit_identifier t v st of Inl _ \<Rightarrow> st | Inr st' \<Rightarrow> st')"
| "audit_apply sha256 (Op_Principal p) st = st\<lparr>known_principals := insert p (known_principals st)\<rparr>"

inductive audit_reach :: "(bytes \<Rightarrow> digest) \<Rightarrow> audit_store \<Rightarrow> bool" for sha256 where
  audit_empty: "audit_reach sha256 empty_audit"
| audit_step: "audit_reach sha256 st \<Longrightarrow> audit_reach sha256 (audit_apply sha256 op st)"

lemma audit_reach_ok: "audit_reach sha256 st \<Longrightarrow> audit_ok sha256 st"
proof (induction rule: audit_reach.induct)
  case audit_empty
  show ?case using empty_audit_ok by (auto simp: audit_ok_def)
next
  case (audit_step st op)
  then have ok: "audit_ok sha256 st" by simp
  have same: "audit_ok sha256 st'"
    if "audit_events st' = audit_events st" "head_sequence st' = head_sequence st" "head_event_hash st' = head_event_hash st" for st'
    using ok that by (simp add: audit_ok_def holds_chain_def)
  show ?case
    by (cases op) (use ok in \<open>auto simp: Append_ok admin_register_audit_identifier_def intro: same\<close>)
qed

lemma audit_reach_ops: "audit_reach sha256 st \<Longrightarrow> audit_reach sha256 (foldr (audit_apply sha256) ops st)"
  by (induction ops) (auto intro: audit_step simp del: audit_apply.simps)

lemma audit_apply_prefix:
  assumes "audit_ok sha256 st"
  shows "\<exists>new. audit_events (audit_apply sha256 op st) = audit_events st @ new \<and> length new \<le> 1"
proof (cases op)
  case (Op_Append pool fault e)
  obtain rs where inv: "holds_chain sha256 st rs" using assms by (auto simp: audit_ok_def)
  obtain res st' where run: "Append sha256 pool fault e st = (res, st')" by (cases "Append sha256 pool fault e st")
  from inv run show ?thesis by (cases rule: Append_cases) (use run in \<open>simp_all add: Op_Append\<close>)
qed (auto simp: admin_register_audit_identifier_def)

subsection \<open>Reading back\<close>

lemma chain_sequences:
  "VerifyChain sha256 rs = None \<Longrightarrow> map rec_Sequence rs = map (\<lambda>i. 1 + of_nat i) [0..<length rs]"
  by (induction rs rule: rev_induct) (simp_all add: VerifyChain_snoc_None link_ok_def)

lemma rows_sorted:
  assumes "holds_chain sha256 st rs"
  shows "sort_key (\<lambda>r. sint (col_sequence r)) (audit_events st) = audit_events st"
proof -
  have rows: "audit_events st = map row_of rs" and v: "VerifyChain sha256 rs = None" and len: "length rs < 2 ^ 63"
    using assms by (simp_all add: holds_chain_def)
  have "map (\<lambda>r. sint (col_sequence r)) (audit_events st) = map sint (map rec_Sequence rs)"
    by (simp add: rows row_of_def)
  also have "\<dots> = map (\<lambda>i. int (Suc i)) [0..<length rs]"
    unfolding chain_sequences [OF v]
  proof (simp, rule ballI)
    fix i assume "i \<in> {0..<length rs}"
    then have "sint (of_nat (Suc i) :: int64) = int (Suc i)" using len by (intro sint_of_nat) auto
    then show "sint (1 + of_nat i :: int64) = 1 + int i" by simp
  qed
  finally have "sorted (map (\<lambda>r. sint (col_sequence r)) (audit_events st))"
    by (simp add: sorted_iff_nth_mono)
  then show ?thesis by (intro properties_for_sort_key) simp_all
qed

lemma repository_Verify_ok:
  assumes "holds_chain sha256 st rs" and "list_all (\<lambda>r. year_ok loc (rec_Event r)) rs"
  shows "repository_Verify sha256 True loc st = None"
proof -
  have rows: "audit_events st = map row_of rs" and v: "VerifyChain sha256 rs = None"
    using assms(1) by (simp_all add: holds_chain_def)
  have "readRecords loc (audit_events st) = Inr (map (relocated loc) rs)"
    unfolding rows by (rule readRecords_rows [OF VerifyChain_valid [OF v]])
  then show ?thesis
    using VerifyChain_relocated [OF v assms(2)] by (simp add: repository_Verify_def rows_sorted [OF assms(1)])
qed

subsection \<open>The contract of the audit log\<close>

text \<open>
  An entry is an event without the freedom of its encoding and without the link the store adds. A
  successful append extends the log by exactly the event's entry; a failed one leaves the log or,
  when the reply to the commit was lost, extends it by that entry all the same. The receipt permits
  the backend call exactly for \<open>run_started\<close>.
\<close>

definition entry :: "Event \<Rightarrow> Event" where
  "entry e = (canonical_form e)\<lparr>PreviousEventHash := zero_digest\<rparr>"

locale audit_log =
  fixes sound :: "'s \<Rightarrow> bool" and log :: "'s \<Rightarrow> Event list"
    and append :: "Event \<Rightarrow> 's \<Rightarrow> (repository_error + AppendReceipt) \<times> 's"
  assumes append_sound: "sound s \<Longrightarrow> sound (snd (append e s))"
    and append_stored: "sound s \<Longrightarrow> append e s = (Inr rc, s') \<Longrightarrow> log s' = log s @ [entry e]"
    and append_failed: "sound s \<Longrightarrow> append e s = (Inl err, s') \<Longrightarrow> log s' = log s \<or> log s' = log s @ [entry e]"
    and append_receipt: "sound s \<Longrightarrow> append e s = (Inr rc, s') \<Longrightarrow> AuthorizesBackendCall rc \<longleftrightarrow> EventType e = EventRunStarted"
    and append_valid: "sound s \<Longrightarrow> append e s = (Inr rc, s') \<Longrightarrow> event_Validate e"
begin

lemma append_log_cases:
  assumes "sound s"
  shows "log (snd (append e s)) = log s \<or> log (snd (append e s)) = log s @ [entry e]"
  using append_stored [OF assms] append_failed [OF assms]
  by (cases "append e s"; cases "fst (append e s)") auto

end

definition stored_entries :: "audit_store \<Rightarrow> Event list" where
  "stored_entries st = map (\<lambda>row. case scanRecord (\<lambda>_. UTC) row of None \<Rightarrow> undefined | Some r \<Rightarrow> entry (rec_Event r)) (audit_events st)"

lemma entry_simps [simp]: "entry (relocate loc e) = entry e" "entry (e\<lparr>PreviousEventHash := h\<rparr>) = entry e"
  by (simp add: entry_def) (simp add: entry_def canonical_form_def)

lemma event_Validate_link [simp]: "event_Validate (e\<lparr>PreviousEventHash := h\<rparr>) = event_Validate e"
  by (simp add: event_Validate_def)

lemma stored_entries_chain: "holds_chain sha256 st rs \<Longrightarrow> stored_entries st = map (\<lambda>r. entry (rec_Event r)) rs"
proof -
  assume inv: "holds_chain sha256 st rs"
  then have "list_all (\<lambda>r. event_Validate (rec_Event r)) rs" using VerifyChain_valid by (auto simp: holds_chain_def)
  then show ?thesis
    using inv by (simp add: stored_entries_def holds_chain_def list_all_iff scanRecord_row_of relocated_def)
qed

lemma Append_contract:
  assumes "audit_ok sha256 st" and "Append sha256 pool fault e st = (res, st')"
  shows "(case res of
      Inl _ \<Rightarrow> stored_entries st' = stored_entries st \<or> stored_entries st' = stored_entries st @ [entry e]
    | Inr rc \<Rightarrow> stored_entries st' = stored_entries st @ [entry e] \<and>
        (AuthorizesBackendCall rc \<longleftrightarrow> EventType e = EventRunStarted) \<and> event_Validate e)"
proof -
  from assms(1) obtain rs where inv: "holds_chain sha256 st rs" by (auto simp: audit_ok_def)
  from inv assms(2) show ?thesis
  proof (cases rule: Append_cases)
    case (stored h)
    have v: "event_Validate e" using stored(1) by (simp add: EventHash_Inr_iff)
    have "length rs < 2 ^ 63 - 1" using stored(3) by (simp add: holds_chain_def)
    then have "sint (of_nat (Suc (length rs)) :: int64) = int (Suc (length rs))" by (intro sint_of_nat) simp
    then have "0 <s (1 + of_nat (length rs) :: int64)" by (simp add: int64_less)
    then have "AuthorizesBackendCall (NewAppendReceipt (1 + of_nat (length rs)) h (EventType e)) \<longleftrightarrow> EventType e = EventRunStarted"
      using stored(2) by (simp add: AuthorizesBackendCall_def NewAppendReceipt_def)
    moreover have "stored_entries st' = stored_entries st @ [entry e]"
      using stored_entries_chain [OF inv] stored_entries_chain [OF stored(3)] by simp
    ultimately show ?thesis using stored(5) v by auto
  qed simp
qed

interpretation postgres_audit: audit_log "audit_ok sha256" stored_entries "Append sha256 pool fault" for sha256 pool fault
proof
  fix s e rc s' err
  assume ok: "audit_ok sha256 s"
  show "audit_ok sha256 (snd (Append sha256 pool fault e s))" by (rule Append_ok [OF ok])
  show "stored_entries s' = stored_entries s @ [entry e]" "AuthorizesBackendCall rc \<longleftrightarrow> EventType e = EventRunStarted"
    "event_Validate e" if "Append sha256 pool fault e s = (Inr rc, s')"
    using Append_contract [OF ok that] by simp_all
  show "stored_entries s' = stored_entries s \<or> stored_entries s' = stored_entries s @ [entry e]"
    if "Append sha256 pool fault e s = (Inl err, s')"
    using Append_contract [OF ok that] by simp
qed

subsection \<open>Properties\<close>

definition sample_sha :: "bytes \<Rightarrow> digest" where "sample_sha b = sample_digest"

definition sample_registered :: audit_store where
  "sample_registered =
     foldr (audit_apply sample_sha)
       [Op_Principal ''00000000-0000-4000-8000-000000000003'', Op_Register ''model'' ''m1'', Op_Register ''backend'' ''local'',
        Op_Register ''software_version'' ''v1.0'', Op_Register ''content_hmac_key'' ''k1''] empty_audit"

lemma sample_registered_eq:
  "sample_registered = \<lparr>head_sequence = 0, head_event_hash = zero_hash,
     audit_identifiers = {(''model'', ''m1''), (''backend'', ''local''), (''software_version'', ''v1.0''),
       (''content_hmac_key'', ''k1''), (''content_hmac_key'', ''legacy-v1'')},
     known_principals = {''00000000-0000-4000-8000-000000000003''}, audit_events = []\<rparr>"
  using sample_event_parts(4-7) by (simp add: sample_registered_def empty_audit_def admin_register_audit_identifier_def)

lemma sample_registered_reach: "audit_reach sample_sha sample_registered"
  unfolding sample_registered_def by (rule audit_reach_ops [OF audit_empty])

definition sample_stored :: audit_store where
  "sample_stored = snd (Append sample_sha True No_fault (sample_event [''a''] UTC) sample_registered)"

lemma sample_stored_reach: "audit_reach sample_sha sample_stored"
  using audit_step [OF sample_registered_reach, of "Op_Append True No_fault (sample_event [''a''] UTC)"]
  by (simp add: sample_stored_def)

lemma digestFromBytes_zero [simp]: "digestFromBytes zero_hash = Some zero_digest"
  by (metis zero_digest_bytes digestFromBytes_digest_bytes)

lemma sample_hash_column: "hash_column (digest_bytes sample_digest)"
  unfolding hash_column_def using sample_digest_nonzero by (metis digest_bytes_inject length_digest_bytes zero_digest_bytes)

lemma sample_append:
  "Append sample_sha True No_fault (sample_event [''a''] UTC) sample_registered =
   (Inr (NewAppendReceipt 1 sample_digest EventRunStarted),
    sample_registered\<lparr>head_sequence := 1, head_event_hash := digest_bytes sample_digest,
      audit_events := [row_of \<lparr>rec_Sequence = 1, rec_Event = sample_event [''a''] UTC, rec_EventHash = sample_digest\<rparr>]\<rparr>)"
proof -
  let ?e = "sample_event [''a''] UTC"
  have codes: "validCodeSet [''a'']" by code_simp
  have v: "event_Validate ?e" by (rule sample_event_valid [OF codes]) simp
  have same: "?e\<lparr>PreviousEventHash := zero_digest\<rparr> = ?e" by (simp add: sample_event_def)
  have prev: "PreviousEventHash ?e = zero_digest" by (simp add: sample_event_def)
  have h: "EventHash sample_sha ?e = Inr sample_digest" using v by (simp add: EventHash_Inr_iff sample_sha_def)
  define r where "r = appendArguments ?e sample_digest"
  have sets: "audit_code_set_is_valid (Some [''a'']) = Some True" "audit_code_set_is_valid (Some [''email'']) = Some True"
    "audit_code_set_is_valid (Some []) = Some True" "audit_count_map_is_valid (Some (fmap_of_list [(''email'', 1)])) = Some True" by code_simp+
  have cols: "event_state_ok r" "metadata_ok r" "identifiers_ok sample_registered r"
    using sets by (simp_all add: r_def appendArguments_def sample_event_def event_state_ok_def metadata_ok_def
        identifiers_ok_def sample_registered_eq audit_enum_defs)
  have row: "r\<lparr>col_sequence := 1\<rparr> = row_of \<lparr>rec_Sequence = 1, rec_Event = ?e, rec_EventHash = sample_digest\<rparr>"
    by (simp add: r_def row_of_def)
  have "audit_events_check (r\<lparr>col_sequence := 1\<rparr>)"
    using cols(1,2) sample_hash_column sample_event_parts(6) zero_digest_bytes
    by (simp add: audit_events_check_def event_state_ok_def metadata_ok_def)
      (simp add: r_def appendArguments_def sample_event_def audit_enum_defs
        optionalDigestBytes_def not_blank_def counter_column_def int64_le zero_hash_def)
  moreover have "col_previous_event_hash r = zero_hash" "col_principal_id r = ''00000000-0000-4000-8000-000000000003''"
    by (simp_all add: r_def appendArguments_def prev zero_digest_bytes) (simp add: sample_event_def)
  ultimately have "append_audit_event r sample_registered =
      Inr (1, advance_audit_chain_head (r\<lparr>col_sequence := 1\<rparr>) (sample_registered\<lparr>audit_events := [r\<lparr>col_sequence := 1\<rparr>]\<rparr>))"
    using cols by (simp add: append_audit_event_def insert_audit_event_def serialize_audit_chain_append_def)
      (simp add: sample_registered_eq)
  then show ?thesis
    using v prev h unfolding Append_def lock_audit_chain_head_def r_def [symmetric]
    by (simp add: sample_registered_eq same) (simp add: r_def row [symmetric] advance_audit_chain_head_def sample_event_def appendArguments_def row_of_def)
qed

text \<open>
  C14. Every stored history verifies. Whatever appends the gateway makes, with whatever failures in
  their transactions, and whatever identifiers and principals are registered in between, reading the
  whole audit table back and verifying it succeeds, whatever local time the reader has, its offset at each
  instant included, in which no stored instant falls outside the years 1 to 9999.
\<close>

theorem stored_history_verifies:
  assumes "audit_reach sha256 st"
    and "list_all (\<lambda>row. 1 \<le> time_Year \<lparr>t_nanos = col_occurred_at row * 1000, t_loc = loc (col_occurred_at row * 1000)\<rparr> \<and>
           time_Year \<lparr>t_nanos = col_occurred_at row * 1000, t_loc = loc (col_occurred_at row * 1000)\<rparr> \<le> 9999) (audit_events st)"
  shows "repository_Verify sha256 True loc st = None"
proof -
  from audit_reach_ok [OF assms(1)] obtain rs where inv: "holds_chain sha256 st rs" by (auto simp: audit_ok_def)
  then have rows: "audit_events st = map row_of rs" and valid: "list_all (\<lambda>r. event_Validate (rec_Event r)) rs"
    using VerifyChain_valid by (auto simp: holds_chain_def)
  have "year_ok loc (rec_Event r)" if "r \<in> set rs" for r
    using that assms(2) valid valid_micros [of "rec_Event r"]
    by (auto simp: rows list_all_iff year_ok_def relocate_def row_of_def appendArguments_def)
  then show ?thesis by (intro repository_Verify_ok [OF inv]) (simp add: list_all_iff)
qed

theorem stored_history_verifies_witness:
  "repository_Verify sample_sha True (\<lambda>t. if t < 63900000000000000000 then Zone 3600 else Zone 7200) sample_stored = None \<and> length (audit_events sample_stored) = 1"
proof -
  have rows: "audit_events sample_stored = [row_of \<lparr>rec_Sequence = 1, rec_Event = sample_event [''a''] UTC, rec_EventHash = sample_digest\<rparr>]"
    by (simp add: sample_stored_def sample_append)
  have "repository_Verify sample_sha True (\<lambda>t. if t < 63900000000000000000 then Zone 3600 else Zone 7200) sample_stored = None"
    using sample_event_parts(13)
    by (intro stored_history_verifies [OF sample_stored_reach]) (simp add: rows row_of_def appendArguments_def sample_event_def)
  then show ?thesis by (simp add: rows)
qed

text \<open>
  C15. The exact effect of an append. On any reachable store a successful append adds exactly one row,
  which holds the given event (linked to the previous head) and nothing is changed or removed; the
  event was valid; and the receipt authorizes a backend call exactly when the event is a
  \<open>run_started\<close>. A failed append leaves the log alone, or, when only the reply to its commit was
  lost, has added that same event.
\<close>

theorem append_exact_effect:
  assumes "audit_reach sha256 st" and "Append sha256 pool fault e st = (res, st')"
  shows "(\<exists>new. audit_events st' = audit_events st @ new \<and> length new \<le> 1) \<and>
    (case res of
      Inl _ \<Rightarrow> stored_entries st' = stored_entries st \<or> (fault = Commit_reply_lost \<and> stored_entries st' = stored_entries st @ [entry e])
    | Inr rc \<Rightarrow> stored_entries st' = stored_entries st @ [entry e] \<and> event_Validate e \<and>
        (AuthorizesBackendCall rc \<longleftrightarrow> EventType e = EventRunStarted))"
proof -
  note ok = audit_reach_ok [OF assms(1)]
  have "stored_entries st' = stored_entries st" if "res = Inl x" "fault \<noteq> Commit_reply_lost" for x
  proof -
    from ok obtain rs where "holds_chain sha256 st rs" by (auto simp: audit_ok_def)
    from this assms(2) show ?thesis by (cases rule: Append_cases) (use that in auto)
  qed
  moreover have "\<exists>new. audit_events st' = audit_events st @ new \<and> length new \<le> 1"
    using audit_apply_prefix [OF ok, of "Op_Append pool fault e"] assms(2) by simp
  ultimately show ?thesis using Append_contract [OF ok assms(2)] by (auto split: sum.splits)
qed

theorem append_exact_effect_witness:
  "stored_entries sample_stored = stored_entries sample_registered @ [entry (sample_event [''a''] UTC)] \<and>
   AuthorizesBackendCall (NewAppendReceipt 1 sample_digest EventRunStarted)"
  using append_exact_effect [OF sample_registered_reach sample_append]
  by (simp add: sample_stored_def sample_append) (simp add: sample_event_def)

end
