(* ===== verification/Auth.thy ===== *)
theory Auth
  imports Digest GoTime BudgetService
begin

section \<open>Principals and API keys\<close>

text \<open>
  \<open>internal/auth/principal.go\<close>, \<open>apikey.go\<close>, \<open>authenticator.go\<close>, the API-key part of
  \<open>repository.go\<close> and the procedures of \<open>migrations/000010\<close>. A generated key holds its secret until it
  is revealed once; the bearer is a text with a public identifier and the encoded secret, and what the
  store keeps is an HMAC keyed with the secret. HMAC-SHA-256 is a parameter, as are the random bytes,
  the clocks and the delivery of each query.
\<close>

subsection \<open>Principals\<close>

definition AuthMethodAPIKey :: string where "AuthMethodAPIKey = ''api_key''"
definition AuthMethodOIDC :: string where "AuthMethodOIDC = ''oidc''"

definition maxOIDCGroups :: nat where "maxOIDCGroups = 32"
definition maxOIDCGroupBytes :: nat where "maxOIDCGroupBytes = 128"

definition apiKeyPrefixPattern :: "string \<Rightarrow> bool" where
  "apiKeyPrefixPattern s \<longleftrightarrow> length s = 8 \<and> list_all is_lower_hex s"

definition oidcGroupPattern :: "string \<Rightarrow> bool" where [pattern_defs]:
  "oidcGroupPattern = bounded_pattern is_alnum
     (\<lambda>c. is_alnum c \<or> c \<in> {CHR ''.'', CHR ''_'', CHR '':'', CHR ''/'', CHR ''-''}) 127"

record Principal =
  p_ID :: string
  p_AuthMethod :: string
  p_APIKeyIDPrefix :: string
  p_Groups :: "string slice"
  p_OIDCIssuerHash :: digest

definition group_ok :: "string \<Rightarrow> bool" where
  "group_ok g \<longleftrightarrow> \<not> (g = [] \<or> maxOIDCGroupBytes < length g \<or> \<not> oidcGroupPattern g)"

definition validOIDCGroups :: "string slice \<Rightarrow> bool" where
  "validOIDCGroups groups =
     (case groups of
        None \<Rightarrow> False
      | Some gs \<Rightarrow> if maxOIDCGroups < length gs then False else ascending_scan group_ok {} None gs)"

definition principal_Validate :: "Principal \<Rightarrow> bool" where
  "principal_Validate pr =
     (if \<not> uuidPattern (p_ID pr) then False
      else if p_AuthMethod pr = AuthMethodAPIKey then
        \<not> (\<not> apiKeyPrefixPattern (p_APIKeyIDPrefix pr) \<or> p_Groups pr = None \<or>
           length (slice_list (p_Groups pr)) \<noteq> 0 \<or> p_OIDCIssuerHash pr \<noteq> zero_digest)
      else if p_AuthMethod pr = AuthMethodOIDC then
        \<not> (p_APIKeyIDPrefix pr \<noteq> [] \<or> \<not> validOIDCGroups (p_Groups pr) \<or>
           p_OIDCIssuerHash pr = zero_digest)
      else False)"

text \<open>The loop of \<open>normalizeOIDCGroups\<close>: it skips duplicates and stops at the first bad group.\<close>

fun collect_groups :: "string set \<Rightarrow> string list \<Rightarrow> string list option" where
  "collect_groups seen [] = Some []"
| "collect_groups seen (g # gs) =
     (if \<not> group_ok g then None
      else if g \<in> seen then collect_groups seen gs
      else case collect_groups (insert g seen) gs of None \<Rightarrow> None | Some rest \<Rightarrow> Some (g # rest))"

definition normalizeOIDCGroups :: "string slice \<Rightarrow> string list option" where
  "normalizeOIDCGroups groups =
     (case groups of
        None \<Rightarrow> Some []
      | Some gs \<Rightarrow>
          if maxOIDCGroups < length gs then None
          else case collect_groups {} gs of None \<Rightarrow> None | Some normalized \<Rightarrow> Some (sort normalized))"

lemma collect_groups_Some:
  "collect_groups seen gs = Some ns \<Longrightarrow>
   list_all group_ok gs \<and> distinct ns \<and> set ns = set gs - seen \<and> length ns \<le> length gs"
proof (induction gs arbitrary: seen ns)
  case (Cons g gs)
  show ?case
  proof (cases "g \<in> seen")
    case True
    then have "collect_groups seen gs = Some ns" "group_ok g" using Cons.prems by (auto split: if_splits)
    with Cons.IH [of seen ns] True show ?thesis by auto
  next
    case False
    then obtain rest where r: "collect_groups (insert g seen) gs = Some rest" "ns = g # rest" "group_ok g"
      using Cons.prems by (auto split: if_splits option.splits)
    with Cons.IH [OF r(1)] False show ?thesis by auto
  qed
qed simp

lemma collect_groups_total: "list_all group_ok gs \<Longrightarrow> \<exists>ns. collect_groups seen gs = Some ns"
  by (induction gs arbitrary: seen) (auto split: option.splits, metis option.distinct(1))

subsection \<open>Bearers and verifiers\<close>

definition apiKeyIDBytes :: nat where "apiKeyIDBytes = 16"
definition apiKeySecretBytes :: nat where "apiKeySecretBytes = 32"
definition apiKeyBearerPrefix :: string where "apiKeyBearerPrefix = ''cai_api_v1''"
definition apiKeyVerifierPrefix :: string where "apiKeyVerifierPrefix = ''hmac-sha256:''"
definition apiKeyVerifierDomain :: bytes where "apiKeyVerifierDomain = ''compliantai:api-key-verifier:v1'' @ [CHR 0x00]"

datatype apikey_error = ErrAPIKeyGeneration | ErrAPIKeyUnavailable

text \<open>\<open>strings.Split(s, ".")\<close>.\<close>

fun split_dots :: "string \<Rightarrow> string list" where
  "split_dots [] = [[]]"
| "split_dots (c # cs) =
     (if c = CHR ''.'' then [] # split_dots cs
      else case split_dots cs of p # ps \<Rightarrow> (c # p) # ps | [] \<Rightarrow> [[c]])"

definition verifierDigest :: "(bytes \<Rightarrow> bytes \<Rightarrow> digest) \<Rightarrow> string \<Rightarrow> bytes \<Rightarrow> bytes" where
  "verifierDigest hmac keyID secret = digest_bytes (hmac secret (apiKeyVerifierDomain @ keyID))"

definition encodeVerifier :: "(bytes \<Rightarrow> bytes \<Rightarrow> digest) \<Rightarrow> string \<Rightarrow> bytes \<Rightarrow> string" where
  "encodeVerifier hmac keyID secret = apiKeyVerifierPrefix @ hex_encode (verifierDigest hmac keyID secret)"

definition decodeVerifier :: "string \<Rightarrow> bytes option" where
  "decodeVerifier encoded =
     (if take (length apiKeyVerifierPrefix) encoded \<noteq> apiKeyVerifierPrefix \<or>
         length encoded \<noteq> length apiKeyVerifierPrefix + 64 then None
      else case hex_decode (drop (length apiKeyVerifierPrefix) encoded) of
          None \<Rightarrow> None
        | Some d \<Rightarrow> if hex_encode d \<noteq> drop (length apiKeyVerifierPrefix) encoded then None else Some d)"

definition parseBearer :: "string \<Rightarrow> (string \<times> bytes) option" where
  "parseBearer bearer =
     (case split_dots bearer of
        [prefix, keyID, encoded] \<Rightarrow>
          if prefix \<noteq> apiKeyBearerPrefix \<or> length keyID \<noteq> apiKeyIDBytes * 2 then None
          else (case hex_decode keyID of
              None \<Rightarrow> None
            | Some keyIDBytes \<Rightarrow>
                if hex_encode keyIDBytes \<noteq> keyID then None
                else case b64_decode encoded of
                    None \<Rightarrow> None
                  | Some secret \<Rightarrow>
                      if length secret \<noteq> apiKeySecretBytes \<or> b64_encode secret \<noteq> encoded then None
                      else Some (keyID, secret))
      | _ \<Rightarrow> None)"

definition VerifyAPIKey :: "(bytes \<Rightarrow> bytes \<Rightarrow> digest) \<Rightarrow> string \<Rightarrow> string \<Rightarrow> bool" where
  "VerifyAPIKey hmac bearer storedVerifier =
     (case parseBearer bearer of
        None \<Rightarrow> False
      | Some (keyID, secret) \<Rightarrow>
          case decodeVerifier storedVerifier of
            None \<Rightarrow> False
          | Some provided \<Rightarrow> verifierDigest hmac keyID secret = provided)"

subsection \<open>Generated keys\<close>

text \<open>The secret is the empty list once it has been cleared.\<close>

record apiKeySecretState =
  ak_keyID :: string
  ak_verifier :: string
  ak_secret :: bytes

definition generateAPIKey :: "(bytes \<Rightarrow> bytes \<Rightarrow> digest) \<Rightarrow> bytes \<Rightarrow> apikey_error + apiKeySecretState" where
  "generateAPIKey hmac random =
     (if length random < apiKeyIDBytes + apiKeySecretBytes then Inl ErrAPIKeyGeneration
      else let material = take (apiKeyIDBytes + apiKeySecretBytes) random;
               keyID = hex_encode (take apiKeyIDBytes material);
               secret = drop apiKeyIDBytes material
           in Inr \<lparr>ak_keyID = keyID, ak_verifier = encodeVerifier hmac keyID secret, ak_secret = secret\<rparr>)"

definition key_KeyID :: "apiKeySecretState option \<Rightarrow> string" where
  "key_KeyID credential = (case credential of None \<Rightarrow> [] | Some k \<Rightarrow> ak_keyID k)"

definition key_Verifier :: "apiKeySecretState option \<Rightarrow> string" where
  "key_Verifier credential = (case credential of None \<Rightarrow> [] | Some k \<Rightarrow> ak_verifier k)"

definition make_bearer :: "string \<Rightarrow> bytes \<Rightarrow> string" where
  "make_bearer keyID secret = apiKeyBearerPrefix @ ''.'' @ keyID @ ''.'' @ b64_encode secret"

definition Reveal :: "apiKeySecretState option \<Rightarrow> (apikey_error + string) \<times> apiKeySecretState option" where
  "Reveal credential =
     (case credential of
        None \<Rightarrow> (Inl ErrAPIKeyUnavailable, None)
      | Some k \<Rightarrow>
          if length (ak_secret k) \<noteq> apiKeySecretBytes then (Inl ErrAPIKeyUnavailable, Some k)
          else (Inr (make_bearer (ak_keyID k) (ak_secret k)), Some (k\<lparr>ak_secret := []\<rparr>)))"

definition key_Destroy :: "apiKeySecretState option \<Rightarrow> apiKeySecretState option" where
  "key_Destroy credential = map_option (\<lambda>k. k\<lparr>ak_secret := []\<rparr>) credential"

subsection \<open>Bearers parse uniquely\<close>

lemma split_dots_nonempty [simp]: "split_dots s \<noteq> []"
  by (cases s) (auto split: list.splits)

lemma split_dots_part: "CHR ''.'' \<notin> set p \<Longrightarrow> split_dots (p @ CHR ''.'' # s) = p # split_dots s"
  by (induction p) auto

lemma split_dots_last: "CHR ''.'' \<notin> set p \<Longrightarrow> split_dots p = [p]"
  by (induction p) auto

lemma join_split_dots:
  "split_dots s = p # ps \<Longrightarrow> s = p @ concat (map (\<lambda>q. CHR ''.'' # q) ps)"
proof (induction s arbitrary: p ps)
  case (Cons c s)
  obtain q qs where q: "split_dots s = q # qs" by (cases "split_dots s") auto
  from Cons.IH [OF q] have s: "s = q @ concat (map (\<lambda>q. CHR ''.'' # q) qs)" .
  show ?case
  proof (cases "c = CHR ''.''")
    case True
    then have "p = []" "ps = q # qs" using Cons.prems q by auto
    then show ?thesis using True s by simp
  next
    case False
    then have "p = c # q" "ps = qs" using Cons.prems q by auto
    then show ?thesis using s by simp
  qed
qed simp

definition key_id_ok :: "string \<Rightarrow> bool" where
  "key_id_ok k \<longleftrightarrow> length k = 32 \<and> list_all is_lower_hex k"

lemma key_id_no_dot: "key_id_ok k \<Longrightarrow> CHR ''.'' \<notin> set k"
  by (auto simp: key_id_ok_def list_all_iff is_lower_hex_def is_digit_def)

lemma parseBearer_iff:
  "parseBearer b = Some (k, s) \<longleftrightarrow> b = make_bearer k s \<and> key_id_ok k \<and> length s = 32"
proof
  assume p: "parseBearer b = Some (k, s)"
  then obtain enc where sp: "split_dots b = [apiKeyBearerPrefix, k, enc]" and e: "b64_encode s = enc" "length s = 32"
    and k: "length k = 32" "\<exists>kb. hex_decode k = Some kb \<and> hex_encode kb = k"
    by (auto simp: parseBearer_def apiKeyIDBytes_def apiKeySecretBytes_def split: list.splits if_splits option.splits)
  have "b = apiKeyBearerPrefix @ concat (map (\<lambda>q. CHR ''.'' # q) [k, enc])" by (rule join_split_dots [OF sp])
  then show "b = make_bearer k s \<and> key_id_ok k \<and> length s = 32"
    using e k hex_strict_iff [of k] by (auto simp: make_bearer_def key_id_ok_def)
next
  assume b: "b = make_bearer k s \<and> key_id_ok k \<and> length s = 32"
  have pre: "CHR ''.'' \<notin> set apiKeyBearerPrefix" by (simp add: apiKeyBearerPrefix_def)
  have enc: "CHR ''.'' \<notin> set (b64_encode s)" using b64_encode_chars [of s] by (auto simp: list_all_iff)
  have "split_dots b = [apiKeyBearerPrefix, k, b64_encode s]"
    using b pre key_id_no_dot [of k] enc by (simp add: make_bearer_def split_dots_part split_dots_last)
  moreover obtain kb where "hex_decode k = Some kb" "hex_encode kb = k"
    using b hex_strict_iff [of k] by (auto simp: key_id_ok_def)
  ultimately show "parseBearer b = Some (k, s)"
    using b by (simp add: parseBearer_def apiKeyIDBytes_def apiKeySecretBytes_def key_id_ok_def)
qed

lemma decodeVerifier_iff:
  "decodeVerifier v = Some d \<longleftrightarrow> v = apiKeyVerifierPrefix @ hex_encode d \<and> length d = 32"
proof
  assume "decodeVerifier v = Some d"
  then have v: "take (length apiKeyVerifierPrefix) v = apiKeyVerifierPrefix"
    "length v = length apiKeyVerifierPrefix + 64" "hex_encode d = drop (length apiKeyVerifierPrefix) v"
    by (auto simp: decodeVerifier_def split: if_splits option.splits)
  have "length (hex_encode d) = 64" using v(2,3) by simp
  then have "length d = 32" by simp
  then show "v = apiKeyVerifierPrefix @ hex_encode d \<and> length d = 32"
    using v append_take_drop_id [of "length apiKeyVerifierPrefix" v] by simp
qed (simp add: decodeVerifier_def)

lemma VerifyAPIKey_iff:
  "VerifyAPIKey hmac b v \<longleftrightarrow> (\<exists>k s. b = make_bearer k s \<and> key_id_ok k \<and> length s = 32 \<and> v = encodeVerifier hmac k s)"
proof -
  have dec: "decodeVerifier v = Some (verifierDigest hmac k s) \<longleftrightarrow> v = encodeVerifier hmac k s" for k s
    by (simp add: decodeVerifier_iff encodeVerifier_def verifierDigest_def)
  have "VerifyAPIKey hmac b v \<longleftrightarrow> (\<exists>k s. parseBearer b = Some (k, s) \<and> decodeVerifier v = Some (verifierDigest hmac k s))"
    by (auto simp: VerifyAPIKey_def split: option.splits)
  then show ?thesis by (auto simp: parseBearer_iff dec)
qed

subsection \<open>What the constructors promise\<close>

lemma normalized_groups_valid:
  assumes "list_all group_ok ns" "sorted_wrt (<) ns" "length ns \<le> 32"
  shows "validOIDCGroups (Some ns)"
  using assms by (simp add: validOIDCGroups_def maxOIDCGroups_def ascending_scan_iff)

lemma strict_sorted_unique: "sorted_wrt (<) xs \<Longrightarrow> sorted_wrt (<) ys \<Longrightarrow> set xs = set ys \<Longrightarrow> xs = (ys :: 'a :: linorder list)"
  by (simp add: strict_sorted_iff sorted_distinct_set_unique)

text \<open>
  C20. A generated key reveals its bearer exactly once: the first call returns the bearer of its identifier and
  of the secret bytes it was generated from, and every later call fails. That bearer verifies against the
  key's verifier, and another bearer verifies against it only if its identifier and secret have the same
  HMAC. Destroying the key first makes every reveal fail.
\<close>

theorem generated_key_reveals_once:
  assumes "generateAPIKey hmac random = Inr key"
  shows "\<exists>bearer key'. Reveal (Some key) = (Inr bearer, Some key') \<and> Reveal (Some key') = (Inl ErrAPIKeyUnavailable, Some key') \<and>
      Reveal (key_Destroy (Some key)) = (Inl ErrAPIKeyUnavailable, key_Destroy (Some key)) \<and>
      key_KeyID (Some key') = key_KeyID (Some key) \<and> ak_secret key' = [] \<and>
      parseBearer bearer = Some (key_KeyID (Some key), take 32 (drop 16 random)) \<and>
      VerifyAPIKey hmac bearer (key_Verifier (Some key')) \<and>
      (\<forall>other. VerifyAPIKey hmac other (key_Verifier (Some key)) \<longleftrightarrow>
        (\<exists>k sec. parseBearer other = Some (k, sec) \<and>
           verifierDigest hmac k sec = verifierDigest hmac (key_KeyID (Some key)) (take 32 (drop 16 random))))"
proof -
  have len: "48 \<le> length random" and key: "key = \<lparr>ak_keyID = hex_encode (take 16 random),
      ak_verifier = encodeVerifier hmac (hex_encode (take 16 random)) (take 32 (drop 16 random)), ak_secret = take 32 (drop 16 random)\<rparr>"
    using assms
    by (auto simp: generateAPIKey_def apiKeyIDBytes_def apiKeySecretBytes_def Let_def drop_take min_def split: if_splits)
  let ?k = "hex_encode (take 16 random)" and ?sec = "take 32 (drop 16 random)"
  have k: "key_id_ok ?k" using len hex_encode_lower by (simp add: key_id_ok_def)
  have sec: "length ?sec = 32" using len by simp
  have other: "VerifyAPIKey hmac b (encodeVerifier hmac ?k ?sec) \<longleftrightarrow>
      (\<exists>k sec. parseBearer b = Some (k, sec) \<and> verifierDigest hmac k sec = verifierDigest hmac ?k ?sec)" for b
    unfolding VerifyAPIKey_iff parseBearer_iff encodeVerifier_def append_same_eq same_append_eq hex.enc_inject by metis
  have self: "VerifyAPIKey hmac (make_bearer ?k ?sec) (encodeVerifier hmac ?k ?sec)"
    unfolding VerifyAPIKey_iff using k sec by blast
  have parse: "parseBearer (make_bearer ?k ?sec) = Some (?k, ?sec)" using k sec by (simp add: parseBearer_iff)
  have reveal: "Reveal (Some key) = (Inr (make_bearer ?k ?sec), Some (key\<lparr>ak_secret := []\<rparr>))"
    using sec by (simp add: key Reveal_def apiKeySecretBytes_def)
  have cleared: "Reveal (Some (key\<lparr>ak_secret := []\<rparr>)) = (Inl ErrAPIKeyUnavailable, Some (key\<lparr>ak_secret := []\<rparr>))"
    by (simp add: Reveal_def apiKeySecretBytes_def)
  have fields: "key_KeyID (Some key) = ?k" "key_Verifier (Some key) = encodeVerifier hmac ?k ?sec"
    "key_Verifier (Some (key\<lparr>ak_secret := []\<rparr>)) = encodeVerifier hmac ?k ?sec"
    "key_KeyID (Some (key\<lparr>ak_secret := []\<rparr>)) = ?k" "key_Destroy (Some key) = Some (key\<lparr>ak_secret := []\<rparr>)"
    by (simp_all add: key key_KeyID_def key_Verifier_def key_Destroy_def)
  show ?thesis unfolding fields
    by (intro exI [of _ "make_bearer ?k ?sec"] exI [of _ "key\<lparr>ak_secret := []\<rparr>"] conjI allI)
      (simp_all only: reveal cleared self parse other fields, simp_all)
qed

theorem generated_key_reveals_once_witness:
  "\<exists>key bearer key'. generateAPIKey (\<lambda>_ _. zero_digest) (replicate 48 (CHR ''a'')) = Inr key \<and>
     Reveal (Some key) = (Inr bearer, Some key') \<and> Reveal (Some key') = (Inl ErrAPIKeyUnavailable, Some key')"
proof -
  obtain key where key: "generateAPIKey (\<lambda>_ _. zero_digest) (replicate 48 (CHR ''a'')) = Inr key"
    by (simp add: generateAPIKey_def apiKeyIDBytes_def apiKeySecretBytes_def Let_def)
  from generated_key_reveals_once [OF key] show ?thesis using key by blast
qed

text \<open>
  Group normalization returns exactly when there are at most 32 groups and each is well formed; the result
  is the set of groups in strictly ascending order, so that a principal holding it passes the group check of
  principal validation.
\<close>

theorem normalizeOIDCGroups_spec:
  "normalizeOIDCGroups groups = Some ns \<longleftrightarrow>
     length (slice_list groups) \<le> 32 \<and> list_all group_ok (slice_list groups) \<and>
     sorted_wrt (<) ns \<and> set ns = set (slice_list groups) \<and> validOIDCGroups (Some ns)"
  (is "?lhs \<longleftrightarrow> ?rhs")
proof (cases groups)
  case None
  then show ?thesis by (auto simp: normalizeOIDCGroups_def validOIDCGroups_def)
next
  case (Some gs)
  have sorted: "sorted_wrt (<) (sort cs) \<and> set (sort cs) = set gs \<and> validOIDCGroups (Some (sort cs))"
    if "collect_groups {} gs = Some cs" "length gs \<le> 32" for cs
  proof -
    have "list_all group_ok gs" "distinct cs" "set cs = set gs" "length cs \<le> length gs"
      using collect_groups_Some [OF that(1)] by auto
    then show ?thesis
      using that(2) normalized_groups_valid [of "sort cs"] by (simp add: strict_sorted_iff list_all_iff)
  qed
  show ?thesis
  proof
    assume ?lhs
    then obtain cs where cs: "length gs \<le> 32" "collect_groups {} gs = Some cs" "ns = sort cs"
      using Some by (auto simp: normalizeOIDCGroups_def maxOIDCGroups_def split: if_splits option.splits)
    then show ?rhs using Some sorted [OF cs(2,1)] collect_groups_Some [OF cs(2)] by simp
  next
    assume r: ?rhs
    then obtain cs where cs: "collect_groups {} gs = Some cs" using Some collect_groups_total [of gs "{}"] by auto
    have "ns = sort cs" using r Some sorted [OF cs] by (intro strict_sorted_unique) auto
    then show ?lhs using r Some cs by (simp add: normalizeOIDCGroups_def maxOIDCGroups_def)
  qed
qed

end
