(* ===== verification/ApiKeys.thy ===== *)
theory ApiKeys
  imports Auth
begin

section \<open>API-key storage and authentication\<close>

text \<open>
  The tables and procedures of \<open>migrations/000002\<close> and \<open>000010\<close>, the repository functions over them
  and \<open>AuthenticateAPIKey\<close>. Timestamps are microseconds; the check constraints keep infinities out.
  The locale \<open>key_store\<close> is what the authenticator needs of its store: a found record is one the store
  holds, and a successful mark means that the key could be used at that moment. The store may change
  between the two calls; the authenticator is proved correct against any such interference.
\<close>

lemma fst_eqE: "fst p = a \<Longrightarrow> (\<And>s. p = (a, s) \<Longrightarrow> thesis) \<Longrightarrow> thesis"
  by (cases p) simp

subsection \<open>Tables and procedures\<close>

record api_key_row =
  key_id :: string
  secret_verifier :: string
  key_principal_id :: string
  key_created_at :: int
  key_expires_at :: "int option"
  key_last_used_at :: "int option"
  key_disabled_at :: "int option"

record key_tables =
  kt_status :: "string \<rightharpoonup> string"
  api_keys :: "api_key_row list"

text \<open>The first and the one past the last microsecond of the years 1 to 9999.\<close>

definition in_years :: "int \<Rightarrow> bool" where
  "in_years t \<longleftrightarrow> 0 \<le> t \<and> t < day_origin (days_before_year 10000)"

definition verifier_text :: "string \<Rightarrow> bool" where
  "verifier_text v \<longleftrightarrow> take 12 v = ''hmac-sha256:'' \<and> length v = 76 \<and> list_all is_lower_hex (drop 12 v)"

definition admin_create_api_key :: "int \<Rightarrow> string \<Rightarrow> string \<Rightarrow> string \<Rightarrow> int \<Rightarrow> key_tables \<Rightarrow> sql_error + key_tables" where
  "admin_create_api_key now p_key_id p_secret_verifier p_principal_id p_expires_at kt =
     (if \<not> key_id_ok p_key_id \<or> \<not> verifier_text p_secret_verifier \<or> \<not> in_years p_expires_at \<or> p_expires_at \<le> now \<or>
         kt_status kt p_principal_id \<noteq> Some ''active''
      then Inl (Raised ''API key administration failed'')
      else if list_ex (\<lambda>r. key_id r = p_key_id) (api_keys kt) then Inl (Raised ''API key administration failed'')
      else Inr (kt\<lparr>api_keys := api_keys kt @ [\<lparr>key_id = p_key_id, secret_verifier = p_secret_verifier,
             key_principal_id = p_principal_id, key_created_at = now, key_expires_at = Some p_expires_at,
             key_last_used_at = None, key_disabled_at = None\<rparr>]\<rparr>))"

definition admin_disable_api_key :: "int \<Rightarrow> string \<Rightarrow> key_tables \<Rightarrow> sql_error + key_tables" where
  "admin_disable_api_key now p_key_id kt =
     (if \<not> key_id_ok p_key_id then Inl (Raised ''API key administration failed'')
      else if length (filter (\<lambda>r. key_id r = p_key_id) (api_keys kt)) \<noteq> 1 then Inl (Raised ''API key administration failed'')
      else Inr (kt\<lparr>api_keys := map (\<lambda>r. if key_id r = p_key_id
             then r\<lparr>key_disabled_at := Some (case key_disabled_at r of None \<Rightarrow> now | Some t \<Rightarrow> t)\<rparr> else r) (api_keys kt)\<rparr>))"

definition lookup_api_key_auth :: "string \<Rightarrow> key_tables \<Rightarrow> (string \<times> string \<times> string \<times> bool \<times> int option \<times> bool) option" where
  "lookup_api_key_auth p_key_id kt =
     (case find (\<lambda>r. key_id r = p_key_id \<and> kt_status kt (key_principal_id r) \<noteq> None) (api_keys kt) of
        None \<Rightarrow> None
      | Some r \<Rightarrow> Some (key_id r, secret_verifier r, key_principal_id r,
            kt_status kt (key_principal_id r) = Some ''active'', key_expires_at r, key_disabled_at r \<noteq> None))"

definition key_usable :: "int \<Rightarrow> string \<Rightarrow> string \<Rightarrow> key_tables \<Rightarrow> api_key_row \<Rightarrow> bool" where
  "key_usable now k p kt r \<longleftrightarrow>
     key_id r = k \<and> key_principal_id r = p \<and> key_disabled_at r = None \<and>
     (case key_expires_at r of None \<Rightarrow> False | Some t \<Rightarrow> now < t) \<and> kt_status kt p = Some ''active''"

definition mark_api_key_used :: "int \<Rightarrow> string \<Rightarrow> string \<Rightarrow> key_tables \<Rightarrow> bool \<times> key_tables" where
  "mark_api_key_used now p_key_id p_principal_id kt =
     (list_ex (key_usable now p_key_id p_principal_id kt) (api_keys kt),
      kt\<lparr>api_keys := map (\<lambda>r. if key_usable now p_key_id p_principal_id kt r then r\<lparr>key_last_used_at := Some now\<rparr> else r) (api_keys kt)\<rparr>)"

subsection \<open>Repository\<close>

datatype key_store_error = ErrAPIKeyNotFound | ErrStoreUnavailable

record APIKeyRecord =
  kr_KeyID :: string
  kr_SecretVerifier :: string
  kr_PrincipalID :: string
  kr_PrincipalActive :: bool
  kr_ExpiresAt :: go_time
  kr_Disabled :: bool

definition zero_time :: go_time where "zero_time = \<lparr>t_nanos = 0, t_loc = UTC\<rparr>"

definition LookupAPIKey :: "bool \<Rightarrow> delivery \<Rightarrow> string \<Rightarrow> key_tables \<Rightarrow> key_store_error + APIKeyRecord" where
  "LookupAPIKey pool d keyID kt =
     (if \<not> pool \<or> \<not> key_id_ok keyID then Inl ErrStoreUnavailable
      else if d \<noteq> Delivered then Inl ErrStoreUnavailable
      else case lookup_api_key_auth keyID kt of
          None \<Rightarrow> Inl ErrAPIKeyNotFound
        | Some (k, verifier, p, active, expires, disabled) \<Rightarrow>
            let at = (case expires of None \<Rightarrow> zero_time | Some t \<Rightarrow> \<lparr>t_nanos = t * 1000, t_loc = UTC\<rparr>) in
            if expires \<noteq> None \<and> (time_Year at < 1 \<or> time_Year at > 9999 \<or> time_Nanosecond at mod 1000 \<noteq> 0)
            then Inl ErrStoreUnavailable
            else if k \<noteq> keyID \<or> \<not> key_id_ok k \<or> \<not> uuidPattern p then Inl ErrStoreUnavailable
            else if decodeVerifier verifier = None then Inl ErrStoreUnavailable
            else Inr \<lparr>kr_KeyID = k, kr_SecretVerifier = verifier, kr_PrincipalID = p, kr_PrincipalActive = active,
                      kr_ExpiresAt = at, kr_Disabled = disabled\<rparr>)"

definition MarkAPIKeyUsed :: "bool \<Rightarrow> delivery \<Rightarrow> int \<Rightarrow> string \<Rightarrow> string \<Rightarrow> key_tables \<Rightarrow> (key_store_error + unit) \<times> key_tables" where
  "MarkAPIKeyUsed pool d now keyID principalID kt =
     (if \<not> pool \<or> \<not> key_id_ok keyID \<or> \<not> uuidPattern principalID then (Inl ErrStoreUnavailable, kt)
      else case query d (\<lambda>s. Inr (mark_api_key_used now keyID principalID s)) kt of
          (Inl _, kt') \<Rightarrow> (Inl ErrStoreUnavailable, kt')
        | (Inr marked, kt') \<Rightarrow> (if \<not> marked then Inl ErrAPIKeyNotFound else Inr (), kt'))"

datatype admin_error = ErrAPIKeyAdministration

text \<open>
  \<open>publish\<close> is the caller's function that hands the bearer out. The insert is committed only after it
  succeeded; \<open>fault\<close> says what fails in the transaction.
\<close>

datatype key_fault = Key_no_fault | Key_begin_fails | Key_exec_fails | Key_commit_fails | Key_commit_reply_lost

definition CreateAndPublishAPIKey ::
  "(bytes \<Rightarrow> bytes \<Rightarrow> digest) \<Rightarrow> bool \<Rightarrow> key_fault \<Rightarrow> int \<Rightarrow> bytes \<Rightarrow> string \<Rightarrow> go_time \<Rightarrow> (string \<Rightarrow> string \<Rightarrow> 'w \<Rightarrow> bool \<times> 'w) \<Rightarrow>
   key_tables \<Rightarrow> 'w \<Rightarrow> admin_error option \<times> key_tables \<times> 'w" where
  "CreateAndPublishAPIKey hmac pool fault now random principalID expiresAt publish kt w =
     (if \<not> pool \<or> \<not> uuidPattern principalID \<or> time_IsZero expiresAt \<or> \<not> time_is_UTC expiresAt \<or>
         time_Year expiresAt < 1 \<or> time_Year expiresAt > 9999 \<or> time_Nanosecond expiresAt mod 1000 \<noteq> 0
      then (Some ErrAPIKeyAdministration, kt, w)
      else case generateAPIKey hmac random of
          Inl _ \<Rightarrow> (Some ErrAPIKeyAdministration, kt, w)
        | Inr credential \<Rightarrow>
            if fault = Key_begin_fails \<or> fault = Key_exec_fails then (Some ErrAPIKeyAdministration, kt, w)
            else case admin_create_api_key now (ak_keyID credential) (ak_verifier credential) principalID (t_nanos expiresAt div 1000) kt of
                Inl _ \<Rightarrow> (Some ErrAPIKeyAdministration, kt, w)
              | Inr kt' \<Rightarrow>
                  case Reveal (Some credential) of
                    (Inl _, _) \<Rightarrow> (Some ErrAPIKeyAdministration, kt, w)
                  | (Inr bearer, _) \<Rightarrow>
                      case publish (ak_keyID credential) bearer w of
                          (False, w') \<Rightarrow> (Some ErrAPIKeyAdministration, kt, w')
                        | (True, w') \<Rightarrow>
                            if fault = Key_commit_fails then (Some ErrAPIKeyAdministration, kt, w')
                            else if fault = Key_commit_reply_lost then (Some ErrAPIKeyAdministration, kt', w')
                            else (None, kt', w'))"

definition DisableAPIKey :: "bool \<Rightarrow> delivery \<Rightarrow> int \<Rightarrow> string \<Rightarrow> key_tables \<Rightarrow> admin_error option \<times> key_tables" where
  "DisableAPIKey pool d now keyID kt =
     (if \<not> pool \<or> \<not> key_id_ok keyID then (Some ErrAPIKeyAdministration, kt)
      else case query d (\<lambda>s. case admin_disable_api_key now keyID s of Inl e \<Rightarrow> Inl e | Inr s' \<Rightarrow> Inr ((), s')) kt of
          (Inl _, kt') \<Rightarrow> (Some ErrAPIKeyAdministration, kt')
        | (Inr _, kt') \<Rightarrow> (None, kt'))"

subsection \<open>Authentication\<close>

datatype auth_error = ErrUnauthenticated | ErrAuthenticationUnavailable

definition dummyAPIKeyID :: string where "dummyAPIKeyID = replicate (apiKeyIDBytes * 2) (CHR ''0'')"
definition dummyAPIKeySecret :: bytes where "dummyAPIKeySecret = replicate apiKeySecretBytes (CHR 0x00)"
definition dummyAPIKeyBearer :: string where "dummyAPIKeyBearer = make_bearer dummyAPIKeyID dummyAPIKeySecret"

definition dummyAPIKeyVerifier :: "(bytes \<Rightarrow> bytes \<Rightarrow> digest) \<Rightarrow> string" where
  "dummyAPIKeyVerifier hmac = encodeVerifier hmac dummyAPIKeyID dummyAPIKeySecret"

definition AuthenticateAPIKey ::
  "(bytes \<Rightarrow> bytes \<Rightarrow> digest) \<Rightarrow> bool \<Rightarrow> (string \<Rightarrow> 's \<Rightarrow> key_store_error + APIKeyRecord) \<Rightarrow>
   (string \<Rightarrow> string \<Rightarrow> 's \<Rightarrow> (key_store_error + unit) \<times> 's) \<Rightarrow> (string \<Rightarrow> string \<Rightarrow> bool) \<Rightarrow> go_time \<Rightarrow>
   string \<Rightarrow> 's \<Rightarrow> (auth_error + Principal) \<times> 's" where
  "AuthenticateAPIKey hmac configured lookup mark logged now bearer s =
     (if \<not> configured then (Inl ErrAuthenticationUnavailable, s)
      else let
        parsed = parseBearer bearer;
        keyID = (case parsed of None \<Rightarrow> dummyAPIKeyID | Some (k, _) \<Rightarrow> k);
        verificationBearer = (case parsed of None \<Rightarrow> dummyAPIKeyBearer | Some _ \<Rightarrow> bearer)
      in case lookup keyID s of
           Inl ErrStoreUnavailable \<Rightarrow> (Inl ErrAuthenticationUnavailable, s)
         | result \<Rightarrow>
             let found = (case result of Inl _ \<Rightarrow> False | Inr _ \<Rightarrow> True);
                 rcd = (case result of
                     Inl _ \<Rightarrow> \<lparr>kr_KeyID = dummyAPIKeyID, kr_SecretVerifier = dummyAPIKeyVerifier hmac, kr_PrincipalID = [],
                               kr_PrincipalActive = False, kr_ExpiresAt = zero_time, kr_Disabled = False\<rparr>
                   | Inr r \<Rightarrow> r);
                 verified = VerifyAPIKey hmac verificationBearer (kr_SecretVerifier rcd)
             in if parsed = None \<or> \<not> found \<or> kr_KeyID rcd \<noteq> keyID \<or> \<not> verified \<or> \<not> kr_PrincipalActive rcd \<or>
                   kr_Disabled rcd \<or> time_IsZero (kr_ExpiresAt rcd) \<or> \<not> t_nanos now < t_nanos (kr_ExpiresAt rcd)
                then (Inl ErrUnauthenticated, s)
                else let pr = \<lparr>p_ID = kr_PrincipalID rcd, p_AuthMethod = AuthMethodAPIKey,
                       p_APIKeyIDPrefix = take 8 keyID, p_Groups = Some [], p_OIDCIssuerHash = zero_digest\<rparr> in
                  if \<not> principal_Validate pr then (Inl ErrUnauthenticated, s)
                  else case mark keyID (p_ID pr) s of
                      (Inl ErrAPIKeyNotFound, s') \<Rightarrow> (Inl ErrUnauthenticated, s')
                    | (Inl ErrStoreUnavailable, s') \<Rightarrow> (Inl ErrAuthenticationUnavailable, s')
                    | (Inr _, s') \<Rightarrow>
                        if \<not> logged (p_ID pr) (p_APIKeyIDPrefix pr) then (Inl ErrAuthenticationUnavailable, s')
                        else (Inr pr, s'))"

subsection \<open>When authentication succeeds\<close>

definition api_principal :: "string \<Rightarrow> string \<Rightarrow> Principal" where
  "api_principal p k = \<lparr>p_ID = p, p_AuthMethod = AuthMethodAPIKey, p_APIKeyIDPrefix = take 8 k, p_Groups = Some [],
     p_OIDCIssuerHash = zero_digest\<rparr>"

lemma api_principal_valid: "key_id_ok k \<Longrightarrow> principal_Validate (api_principal p k) \<longleftrightarrow> uuidPattern p"
  using set_take_subset [of 8 k]
  by (auto simp: principal_Validate_def api_principal_def apiKeyPrefixPattern_def key_id_ok_def list_all_iff)

lemma authenticate_found:
  assumes "parseBearer bearer = Some (k, sec)" "lookup k s = Inr r"
    and ver: "\<And>v. VerifyAPIKey hmac bearer v \<longleftrightarrow> v = w"
    and val: "\<And>p. principal_Validate (api_principal p k) \<longleftrightarrow> uuidPattern p"
  shows "AuthenticateAPIKey hmac configured lookup mark logged now bearer s = (Inr pr, s') \<longleftrightarrow>
    configured \<and> (\<exists>r. lookup k s = Inr r \<and> kr_KeyID r = k \<and> kr_SecretVerifier r = w \<and> kr_PrincipalActive r \<and>
      \<not> kr_Disabled r \<and> \<not> time_IsZero (kr_ExpiresAt r) \<and> t_nanos now < t_nanos (kr_ExpiresAt r) \<and>
      uuidPattern (kr_PrincipalID r) \<and> mark k (kr_PrincipalID r) s = (Inr (), s') \<and>
      logged (kr_PrincipalID r) (take 8 k) \<and> pr = api_principal (kr_PrincipalID r) k)"
proof -
  obtain m s2 where m: "mark k (kr_PrincipalID r) s = (m, s2)" by (cases "mark k (kr_PrincipalID r) s")
  have "AuthenticateAPIKey hmac configured lookup mark logged now bearer s =
    (if \<not> configured then (Inl ErrAuthenticationUnavailable, s)
     else if kr_KeyID r \<noteq> k \<or> kr_SecretVerifier r \<noteq> w \<or> \<not> kr_PrincipalActive r \<or> kr_Disabled r \<or>
       time_IsZero (kr_ExpiresAt r) \<or> \<not> t_nanos now < t_nanos (kr_ExpiresAt r) then (Inl ErrUnauthenticated, s)
     else if \<not> uuidPattern (kr_PrincipalID r) then (Inl ErrUnauthenticated, s)
     else case m of Inl ErrAPIKeyNotFound \<Rightarrow> (Inl ErrUnauthenticated, s2)
       | Inl ErrStoreUnavailable \<Rightarrow> (Inl ErrAuthenticationUnavailable, s2)
       | Inr _ \<Rightarrow> if \<not> logged (kr_PrincipalID r) (take 8 k) then (Inl ErrAuthenticationUnavailable, s2)
           else (Inr (api_principal (kr_PrincipalID r) k), s2))"
    using val [unfolded api_principal_def]
    by (simp add: AuthenticateAPIKey_def Let_def assms(1,2) ver m api_principal_def split: sum.splits key_store_error.splits)
  then show ?thesis using assms(2) m
    by (cases m; cases "logged (kr_PrincipalID r) (take 8 k)") (auto split: key_store_error.splits)
qed

lemma AuthenticateAPIKey_Inr_iff:
  "AuthenticateAPIKey hmac configured lookup mark logged now bearer s = (Inr pr, s') \<longleftrightarrow>
   configured \<and> (\<exists>k sec r. bearer = make_bearer k sec \<and> key_id_ok k \<and> length sec = 32 \<and> lookup k s = Inr r \<and>
     kr_KeyID r = k \<and> kr_SecretVerifier r = encodeVerifier hmac k sec \<and> kr_PrincipalActive r \<and> \<not> kr_Disabled r \<and>
     \<not> time_IsZero (kr_ExpiresAt r) \<and> t_nanos now < t_nanos (kr_ExpiresAt r) \<and> uuidPattern (kr_PrincipalID r) \<and>
     mark k (kr_PrincipalID r) s = (Inr (), s') \<and> logged (kr_PrincipalID r) (take 8 k) \<and> pr = api_principal (kr_PrincipalID r) k)"
  (is "?lhs \<longleftrightarrow> ?rhs")
proof (cases "parseBearer bearer")
  case None
  then have "bearer \<noteq> make_bearer k sec \<or> \<not> key_id_ok k \<or> length sec \<noteq> 32" for k sec
    using parseBearer_iff [of bearer k sec] by auto
  then have "\<not> ?rhs" by blast
  moreover have "\<not> ?lhs"
    unfolding AuthenticateAPIKey_def Let_def None by (simp split: sum.splits key_store_error.splits)
  ultimately show ?thesis by blast
next
  case (Some ks)
  obtain k sec where ks: "ks = (k, sec)" by (cases ks)
  have b: "bearer = make_bearer k sec" "key_id_ok k" "length sec = 32"
    using Some ks parseBearer_iff [of bearer k sec] by auto
  have uniq: "k' = k \<and> sec' = sec" if "bearer = make_bearer k' sec'" "key_id_ok k'" "length sec' = 32" for k' sec'
    using that parseBearer_iff [of bearer k' sec'] Some ks by auto
  have ver: "VerifyAPIKey hmac bearer v \<longleftrightarrow> v = encodeVerifier hmac k sec" for v
    unfolding VerifyAPIKey_iff using b uniq by blast
  have val: "principal_Validate (api_principal p k) \<longleftrightarrow> uuidPattern p" for p by (rule api_principal_valid [OF b(2)])
  have one: "?rhs \<longleftrightarrow> configured \<and> (\<exists>r. lookup k s = Inr r \<and>
     kr_KeyID r = k \<and> kr_SecretVerifier r = encodeVerifier hmac k sec \<and> kr_PrincipalActive r \<and> \<not> kr_Disabled r \<and>
     \<not> time_IsZero (kr_ExpiresAt r) \<and> t_nanos now < t_nanos (kr_ExpiresAt r) \<and> uuidPattern (kr_PrincipalID r) \<and>
     mark k (kr_PrincipalID r) s = (Inr (), s') \<and> logged (kr_PrincipalID r) (take 8 k) \<and> pr = api_principal (kr_PrincipalID r) k)"
    using b uniq by blast
  show ?thesis
  proof (cases "lookup k s")
    case (Inl e)
    then show ?thesis unfolding one
      by (cases e) (simp_all add: AuthenticateAPIKey_def Some ks Let_def)
  next
    case (Inr r)
    show ?thesis unfolding one
      by (rule authenticate_found [where lookup = lookup, OF Some [unfolded ks] Inr ver val])
  qed
qed

subsection \<open>The contract of the key store\<close>

locale key_store =
  fixes holds :: "'s \<Rightarrow> string \<Rightarrow> string \<Rightarrow> string \<Rightarrow> bool" and usable :: "'s \<Rightarrow> string \<Rightarrow> string \<Rightarrow> bool"
    and interfere :: "'s \<Rightarrow> 's"
    and lookup :: "string \<Rightarrow> 's \<Rightarrow> key_store_error + APIKeyRecord"
    and mark :: "string \<Rightarrow> string \<Rightarrow> 's \<Rightarrow> (key_store_error + unit) \<times> 's"
  assumes lookup_holds: "lookup k s = Inr r \<Longrightarrow> holds s k (kr_SecretVerifier r) (kr_PrincipalID r)"
    and mark_usable: "mark k p s = (Inr (), s') \<Longrightarrow> usable (interfere s) k p"
begin

lemma authenticated:
  assumes "AuthenticateAPIKey hmac configured lookup mark logged now bearer s = (Inr pr, s')"
  shows "\<exists>k sec. bearer = make_bearer k sec \<and> length sec = 32 \<and> holds s k (encodeVerifier hmac k sec) (p_ID pr) \<and>
    usable (interfere s) k (p_ID pr) \<and> principal_Validate pr \<and> logged (p_ID pr) (take 8 k)"
proof -
  from assms obtain k sec r where "bearer = make_bearer k sec" "key_id_ok k" "length sec = 32" "lookup k s = Inr r"
    "kr_SecretVerifier r = encodeVerifier hmac k sec" "uuidPattern (kr_PrincipalID r)"
    "mark k (kr_PrincipalID r) s = (Inr (), s')" "logged (kr_PrincipalID r) (take 8 k)" "pr = api_principal (kr_PrincipalID r) k"
    unfolding AuthenticateAPIKey_Inr_iff by blast
  then show ?thesis
    using lookup_holds [of k s r] mark_usable [of k "kr_PrincipalID r" s s'] api_principal_valid [of k "kr_PrincipalID r"]
    by (auto simp: api_principal_def)
qed

end

definition holds_key :: "key_tables \<Rightarrow> string \<Rightarrow> string \<Rightarrow> string \<Rightarrow> bool" where
  "holds_key kt k v p \<longleftrightarrow> (\<exists>r\<in>set (api_keys kt). key_id r = k \<and> secret_verifier r = v \<and> key_principal_id r = p)"

definition usable_key :: "int \<Rightarrow> key_tables \<Rightarrow> string \<Rightarrow> string \<Rightarrow> bool" where
  "usable_key now kt k p \<longleftrightarrow> (\<exists>r\<in>set (api_keys kt). key_usable now k p kt r)"

lemma lookup_api_key_auth_Some:
  "lookup_api_key_auth k kt = Some (k', v, p, active, expires, disabled) \<Longrightarrow>
   \<exists>r\<in>set (api_keys kt). key_id r = k \<and> k' = k \<and> secret_verifier r = v \<and> key_principal_id r = p \<and>
     active = (kt_status kt p = Some ''active'') \<and> expires = key_expires_at r \<and> disabled = (key_disabled_at r \<noteq> None)"
  by (auto simp: lookup_api_key_auth_def find_Some_iff split: option.splits)

lemma LookupAPIKey_Inr:
  assumes "LookupAPIKey pool d k kt = Inr r"
  shows "holds_key kt k (kr_SecretVerifier r) (kr_PrincipalID r)"
  using assms lookup_api_key_auth_Some [of k kt]
  by (fastforce simp: LookupAPIKey_def holds_key_def Let_def split: if_splits option.splits prod.splits)

lemma MarkAPIKeyUsed_Inr:
  "MarkAPIKeyUsed pool d now k p kt = (Inr (), kt') \<Longrightarrow> usable_key now kt k p"
  by (auto simp: MarkAPIKeyUsed_def query_def mark_api_key_used_def usable_key_def list_ex_iff split: if_splits delivery.splits)

interpretation postgres_keys: key_store holds_key "usable_key now" interfere "LookupAPIKey pool d"
  "\<lambda>k p kt. MarkAPIKeyUsed pool d' now k p (interfere kt)" for now interfere pool d d'
  by unfold_locales (auto intro: LookupAPIKey_Inr MarkAPIKeyUsed_Inr)

subsection \<open>Created keys authenticate\<close>

lemma generateAPIKey_Inr:
  assumes "generateAPIKey hmac random = Inr c"
  shows "key_id_ok (ak_keyID c)" "length (ak_secret c) = 32" "ak_verifier c = encodeVerifier hmac (ak_keyID c) (ak_secret c)"
  using assms hex_encode_lower
  by (auto simp: generateAPIKey_def Let_def apiKeyIDBytes_def apiKeySecretBytes_def key_id_ok_def split: if_splits)

lemma lookup_created:
  assumes "admin_create_api_key now k v p e kt = Inr kt'"
  shows "lookup_api_key_auth k kt' = Some (k, v, p, True, Some e, False)"
    and "now' < e \<Longrightarrow> fst (mark_api_key_used now' k p kt')"
proof -
  have none: "find (\<lambda>r. key_id r = k \<and> P r) (api_keys kt) = None" for P
    using assms by (auto simp: admin_create_api_key_def find_None_iff list_ex_iff split: if_splits)
  have kt': "api_keys kt' = api_keys kt @ [\<lparr>key_id = k, secret_verifier = v, key_principal_id = p, key_created_at = now,
      key_expires_at = Some e, key_last_used_at = None, key_disabled_at = None\<rparr>]" "kt_status kt' = kt_status kt"
    "kt_status kt p = Some ''active''"
    using assms by (auto simp: admin_create_api_key_def split: if_splits)
  show "lookup_api_key_auth k kt' = Some (k, v, p, True, Some e, False)"
    by (simp add: lookup_api_key_auth_def kt' find_append none)
  show "now' < e \<Longrightarrow> fst (mark_api_key_used now' k p kt')"
    by (simp add: mark_api_key_used_def kt' key_usable_def)
qed

lemma microsecond_time:
  assumes "time_Nanosecond t mod 1000 = 0" "time_is_UTC t"
  shows "\<lparr>t_nanos = t_nanos t div 1000 * 1000, t_loc = UTC\<rparr> = t"
proof -
  have "t_nanos t mod 1000 = t_nanos t mod nanos_per_second mod 1000"
    by (simp add: mod_mod_cancel nanos_per_second_def)
  then have "t_nanos t div 1000 * 1000 = t_nanos t"
    using assms(1) div_mult_mod_eq [of "t_nanos t" 1000] by (simp add: time_Nanosecond_def)
  then show ?thesis using assms(2) by (simp add: time_is_UTC_def)
qed

lemma created_key_looked_up:
  assumes c: "admin_create_api_key now k v p (t_nanos e div 1000) kt = Inr kt'" and k: "key_id_ok k" and u: "uuidPattern p"
    and e: "time_Nanosecond e mod 1000 = 0" "time_is_UTC e" "1 \<le> time_Year e" "time_Year e \<le> 9999"
    and v: "decodeVerifier v \<noteq> None"
  shows "LookupAPIKey True Delivered k kt' = Inr \<lparr>kr_KeyID = k, kr_SecretVerifier = v, kr_PrincipalID = p,
    kr_PrincipalActive = True, kr_ExpiresAt = e, kr_Disabled = False\<rparr>"
  by (simp add: LookupAPIKey_def lookup_created(1) [OF c] k u Let_def microsecond_time [OF e(1,2)] e v linorder_not_less)

lemma created_key_marked:
  assumes c: "admin_create_api_key now k v p (t_nanos e div 1000) kt = Inr kt'" and k: "key_id_ok k" and u: "uuidPattern p"
    and t: "now' < t_nanos e div 1000"
  shows "MarkAPIKeyUsed True Delivered now' k p kt' = (Inr (), snd (mark_api_key_used now' k p kt'))"
  using lookup_created(2) [OF c t]
  by (cases "mark_api_key_used now' k p kt'") (simp add: MarkAPIKeyUsed_def k u query_def)

lemma CreateAndPublishAPIKey_None:
  assumes "CreateAndPublishAPIKey hmac pool fault now random p e publish kt w = (None, kt', w')"
  obtains c where "generateAPIKey hmac random = Inr c" "uuidPattern p" "\<not> time_IsZero e" "time_is_UTC e" "1 \<le> time_Year e"
    "time_Year e \<le> 9999" "time_Nanosecond e mod 1000 = 0" "publish (ak_keyID c) (make_bearer (ak_keyID c) (ak_secret c)) w = (True, w')"
    "admin_create_api_key now (ak_keyID c) (ak_verifier c) p (t_nanos e div 1000) kt = Inr kt'"
proof -
  from assms obtain c where c: "generateAPIKey hmac random = Inr c"
    by (auto simp: CreateAndPublishAPIKey_def split: if_splits sum.splits prod.splits bool.splits)
  have "Reveal (Some c) = (Inr (make_bearer (ak_keyID c) (ak_secret c)), Some (c\<lparr>ak_secret := []\<rparr>))"
    using generateAPIKey_Inr(2) [OF c] by (simp add: Reveal_def apiKeySecretBytes_def)
  then show thesis using assms c
    by (intro that [of c]) (auto simp: CreateAndPublishAPIKey_def split: if_splits sum.splits prod.splits bool.splits)
qed

lemma created_key_authenticates:
  assumes g: "generateAPIKey hmac random = Inr c"
    and cr: "admin_create_api_key now (ak_keyID c) (ak_verifier c) p (t_nanos e div 1000) kt = Inr kt'"
    and e: "uuidPattern p" "time_Nanosecond e mod 1000 = 0" "time_is_UTC e" "1 \<le> time_Year e" "time_Year e \<le> 9999"
      "\<not> time_IsZero e"
    and now: "now' < t_nanos e div 1000" "t_nanos t < t_nanos e" "logged p (take 8 (ak_keyID c))"
  shows "AuthenticateAPIKey hmac True (LookupAPIKey True Delivered) (MarkAPIKeyUsed True Delivered now') logged t
    (make_bearer (ak_keyID c) (ak_secret c)) kt' = (Inr (api_principal p (ak_keyID c)), snd (mark_api_key_used now' (ak_keyID c) p kt'))"
proof -
  note g = generateAPIKey_Inr [OF g]
  have v: "decodeVerifier (ak_verifier c) \<noteq> None"
    using decodeVerifier_iff [of "ak_verifier c" "verifierDigest hmac (ak_keyID c) (ak_secret c)"] g(3)
    by (simp add: encodeVerifier_def verifierDigest_def)
  show ?thesis
    unfolding AuthenticateAPIKey_Inr_iff
    using now g created_key_looked_up [OF cr g(1) e(1-5) v] created_key_marked [OF cr g(1) e(1) now(1)] e(1,6)
    by (intro conjI TrueI exI [of _ "ak_keyID c"] exI [of _ "ak_secret c"]
      exI [of _ "\<lparr>kr_KeyID = ak_keyID c, kr_SecretVerifier = ak_verifier c, kr_PrincipalID = p, kr_PrincipalActive = True,
        kr_ExpiresAt = e, kr_Disabled = False\<rparr>"]) simp_all
qed

lemma CreateAndPublishAPIKey_authenticates:
  assumes "CreateAndPublishAPIKey hmac pool fault now random p e publish kt w = (None, kt', w')"
  shows "\<exists>k sec. publish k (make_bearer k sec) w = (True, w') \<and> (\<forall>now' t logged. now' < t_nanos e div 1000 \<longrightarrow> t_nanos t < t_nanos e \<longrightarrow>
    logged p (take 8 k) \<longrightarrow>
    fst (AuthenticateAPIKey hmac True (LookupAPIKey True Delivered) (MarkAPIKeyUsed True Delivered now') logged t (make_bearer k sec) kt') =
      Inr (api_principal p k))"
  by (rule CreateAndPublishAPIKey_None [OF assms])
    (intro exI conjI allI impI, assumption, subst created_key_authenticates, auto)

subsection \<open>A sample key\<close>

definition sample_principal :: string where "sample_principal = ''00000000-0000-4000-8000-000000000001''"

definition sample_expiry :: go_time where "sample_expiry = \<lparr>t_nanos = 5000000, t_loc = UTC\<rparr>"

definition sample_keys :: key_tables where
  "sample_keys = \<lparr>kt_status = [sample_principal \<mapsto> ''active''], api_keys = []\<rparr>"

lemma sample_principal_uuid: "uuidPattern sample_principal"
  by (simp add: sample_principal_def uuidPattern_def is_lower_hex_def is_digit_def)

lemma sample_expiry_facts:
  "\<not> time_IsZero sample_expiry" "time_is_UTC sample_expiry" "time_Year sample_expiry = 1"
  "time_Nanosecond sample_expiry mod 1000 = 0" "t_nanos sample_expiry = 5000000"
  by (simp_all add: sample_expiry_def time_IsZero_def time_is_UTC_def time_Nanosecond_def nanos_per_second_def)
    code_simp

lemma verifier_text_encode: "verifier_text (encodeVerifier hmac k sec)"
  by (simp add: verifier_text_def encodeVerifier_def apiKeyVerifierPrefix_def verifierDigest_def hex_encode_lower)

definition sample_random :: bytes where "sample_random = replicate 48 (CHR 0x00)"

definition sample_hmac :: "bytes \<Rightarrow> bytes \<Rightarrow> digest" where "sample_hmac key msg = zero_digest"

lemma sample_in_years: "in_years 5000"
  by code_simp

lemma sample_created:
  obtains kt' where "CreateAndPublishAPIKey sample_hmac True Key_no_fault 0 sample_random sample_principal sample_expiry
    (\<lambda>k b. Pair True) sample_keys () = (None, kt', ())"
proof -
  obtain c where c: "generateAPIKey sample_hmac sample_random = Inr c"
    by (simp add: generateAPIKey_def sample_random_def apiKeyIDBytes_def apiKeySecretBytes_def Let_def)
  note g = generateAPIKey_Inr [OF c]
  have e: "t_nanos sample_expiry div 1000 = 5000" by (simp add: sample_expiry_facts)
  have "\<exists>kt'. admin_create_api_key 0 (ak_keyID c) (ak_verifier c) sample_principal 5000 sample_keys = Inr kt'"
    using g verifier_text_encode sample_in_years by (simp add: admin_create_api_key_def sample_keys_def)
  then show thesis
    using that c g sample_principal_uuid sample_expiry_facts e
    by (auto simp: CreateAndPublishAPIKey_def Reveal_def apiKeySecretBytes_def)
qed

subsection \<open>Who can authenticate\<close>

text \<open>
  C18. A bearer authenticates only if the tables, when they were looked up, held the verifier of its key and
  secret for the principal it authenticates as, and if when the use was recorded, after whatever other
  sessions did in between, the key of that principal was neither disabled nor expired by the database's clock
  and the principal was active. The principal returned is well formed and its use was logged.
\<close>

theorem api_key_authentication_sound:
  assumes "AuthenticateAPIKey hmac configured (LookupAPIKey pool d) (\<lambda>k p kt. MarkAPIKeyUsed pool d' now k p (interfere kt))
    logged t bearer kt = (Inr pr, kt')"
  shows "\<exists>k sec. bearer = make_bearer k sec \<and> length sec = 32 \<and> holds_key kt k (encodeVerifier hmac k sec) (p_ID pr) \<and>
    usable_key now (interfere kt) k (p_ID pr) \<and> principal_Validate pr \<and> logged (p_ID pr) (take 8 k)"
  by (rule postgres_keys.authenticated [OF assms])

theorem api_key_authentication_sound_witness:
  "\<exists>kt k sec. length sec = 32 \<and> holds_key kt k (encodeVerifier sample_hmac k sec) sample_principal \<and>
    usable_key 3000 kt k sample_principal"
proof -
  obtain kt where kt: "CreateAndPublishAPIKey sample_hmac True Key_no_fault 0 sample_random sample_principal sample_expiry
    (\<lambda>k b. Pair True) sample_keys () = (None, kt, ())" by (rule sample_created)
  from CreateAndPublishAPIKey_authenticates [OF kt] obtain k sec where auth:
    "\<forall>now' t logged. now' < t_nanos sample_expiry div 1000 \<longrightarrow> t_nanos t < t_nanos sample_expiry \<longrightarrow>
      logged sample_principal (take 8 k) \<longrightarrow>
      fst (AuthenticateAPIKey sample_hmac True (LookupAPIKey True Delivered) (MarkAPIKeyUsed True Delivered now') logged t (make_bearer k sec) kt) =
        Inr (api_principal sample_principal k)" by blast
  have "fst (AuthenticateAPIKey sample_hmac True (LookupAPIKey True Delivered) (\<lambda>k p kt. MarkAPIKeyUsed True Delivered 3000 k p (id kt))
      (\<lambda>p k. True) \<lparr>t_nanos = 3000000, t_loc = UTC\<rparr> (make_bearer k sec) kt) = Inr (api_principal sample_principal k)"
    using auth [THEN spec [of _ 3000]] by (simp add: sample_expiry_facts)
  then obtain kt' where "AuthenticateAPIKey sample_hmac True (LookupAPIKey True Delivered) (\<lambda>k p kt. MarkAPIKeyUsed True Delivered 3000 k p (id kt))
      (\<lambda>p k. True) \<lparr>t_nanos = 3000000, t_loc = UTC\<rparr> (make_bearer k sec) kt = (Inr (api_principal sample_principal k), kt')"
    by (rule fst_eqE)
  from api_key_authentication_sound [OF this] show ?thesis by (auto simp: api_principal_def)
qed

subsection \<open>Revocation is final\<close>

text \<open>
  What the sessions of the system do to the tables: the administrator's calls, the recording of uses and
  any change of a principal's status.
\<close>

inductive key_step :: "key_tables \<Rightarrow> key_tables \<Rightarrow> bool" where
  step_create: "key_step kt (fst (snd (CreateAndPublishAPIKey hmac pool fault now random p e publish kt ())))"
| step_disable: "key_step kt (snd (DisableAPIKey pool d now k kt))"
| step_mark: "key_step kt (snd (MarkAPIKeyUsed pool d now k p kt))"
| step_status: "key_step kt (kt\<lparr>kt_status := m\<rparr>)"

inductive key_reach :: "key_tables \<Rightarrow> bool" where
  reach_init: "api_keys kt = [] \<Longrightarrow> key_reach kt"
| reach_key_step: "key_reach kt \<Longrightarrow> key_step kt kt' \<Longrightarrow> key_reach kt'"

definition key_list :: "key_tables \<Rightarrow> string list" where "key_list kt = map key_id (api_keys kt)"

definition revoked :: "string \<Rightarrow> key_tables \<Rightarrow> bool" where
  "revoked k kt \<longleftrightarrow> k \<in> set (key_list kt) \<and> (\<forall>r\<in>set (api_keys kt). key_id r = k \<longrightarrow> key_disabled_at r \<noteq> None)"

lemma CreateAndPublishAPIKey_tables:
  "fst (snd (CreateAndPublishAPIKey hmac pool fault now random p e publish kt w)) = kt \<or>
   (\<exists>k v x. admin_create_api_key now k v p x kt = Inr (fst (snd (CreateAndPublishAPIKey hmac pool fault now random p e publish kt w))))"
  by (simp add: CreateAndPublishAPIKey_def split: sum.split prod.split bool.split) blast

lemma admin_create_keeps:
  assumes "admin_create_api_key now k v p x kt = Inr kt'"
  shows "distinct (key_list kt) \<Longrightarrow> distinct (key_list kt')" and "revoked j kt \<Longrightarrow> revoked j kt'"
  using assms
  by (fastforce simp: admin_create_api_key_def key_list_def revoked_def list_ex_iff split: if_splits)+

lemma snd_query: "snd (query d f st) = st \<or> (\<exists>x. f st = Inr (x, snd (query d f st)))"
  by (cases d) (auto simp: query_def split: sum.splits)

lemma mark_keeps:
  "key_list (snd (mark_api_key_used now k p kt)) = key_list kt"
  "revoked j kt \<Longrightarrow> revoked j (snd (mark_api_key_used now k p kt))"
  by (auto simp: mark_api_key_used_def key_list_def revoked_def)

lemma admin_disable_keeps:
  assumes "admin_disable_api_key now k kt = Inr kt'"
  shows "key_list kt' = key_list kt" and "revoked j kt \<Longrightarrow> revoked j kt'" and "revoked k kt'"
proof -
  have "filter (\<lambda>r. key_id r = k) (api_keys kt) \<noteq> []"
    using assms by (auto simp: admin_disable_api_key_def split: if_splits)
  then have "\<exists>r\<in>set (api_keys kt). key_id r = k" by (simp add: filter_empty_conv)
  then have k: "k \<in> set (key_list kt)" by (auto simp: key_list_def)
  have kt': "api_keys kt' = map (\<lambda>r. if key_id r = k
      then r\<lparr>key_disabled_at := Some (case key_disabled_at r of None \<Rightarrow> now | Some t \<Rightarrow> t)\<rparr> else r) (api_keys kt)"
    using assms by (auto simp: admin_disable_api_key_def split: if_splits)
  show l: "key_list kt' = key_list kt" unfolding key_list_def kt' map_map comp_def by (rule map_cong) simp_all
  have rows: "(\<forall>r\<in>set (api_keys kt'). key_id r = i \<longrightarrow> key_disabled_at r \<noteq> None) \<longleftrightarrow>
      (\<forall>r\<in>set (api_keys kt). key_id r = i \<longrightarrow> i = k \<or> key_disabled_at r \<noteq> None)" for i
    unfolding kt' set_map ball_simps by (rule ball_cong) auto
  show "revoked j kt \<Longrightarrow> revoked j kt'" "revoked k kt'" unfolding revoked_def l rows using k by blast+
qed

lemma DisableAPIKey_tables:
  "snd (DisableAPIKey pool d now k kt) = kt \<or> admin_disable_api_key now k kt = Inr (snd (DisableAPIKey pool d now k kt))"
proof -
  let ?q = "query d (\<lambda>s. case admin_disable_api_key now k s of Inl e \<Rightarrow> Inl e | Inr s' \<Rightarrow> Inr ((), s')) kt"
  have "snd (DisableAPIKey pool d now k kt) = kt \<or> snd (DisableAPIKey pool d now k kt) = snd ?q"
    by (auto simp: DisableAPIKey_def split: prod.split sum.split)
  moreover have "snd ?q = kt \<or> admin_disable_api_key now k kt = Inr (snd ?q)"
    using snd_query [of d "\<lambda>s. case admin_disable_api_key now k s of Inl e \<Rightarrow> Inl e | Inr s' \<Rightarrow> Inr ((), s')" kt]
    by (auto split: sum.splits)
  ultimately show ?thesis by metis
qed

lemma MarkAPIKeyUsed_tables:
  "snd (MarkAPIKeyUsed pool d now k p kt) = kt \<or> snd (MarkAPIKeyUsed pool d now k p kt) = snd (mark_api_key_used now k p kt)"
  using snd_query [of d "\<lambda>s. Inr (mark_api_key_used now k p s)" kt]
  by (auto simp: MarkAPIKeyUsed_def split: prod.split sum.split)

lemma key_step_keeps:
  assumes "key_step kt kt'"
  shows "(distinct (key_list kt) \<longrightarrow> distinct (key_list kt')) \<and> (revoked j kt \<longrightarrow> revoked j kt')"
  using assms
proof cases
  case (step_create hmac pool fault now random p e publish)
  then show ?thesis using CreateAndPublishAPIKey_tables [of hmac pool fault now random p e publish kt "()"] admin_create_keeps by metis
next
  case (step_disable pool d now k)
  then show ?thesis using DisableAPIKey_tables [of pool d now k kt] admin_disable_keeps by metis
next
  case (step_mark pool d now k p)
  then show ?thesis using MarkAPIKeyUsed_tables [of pool d now k p kt] mark_keeps by metis
qed (auto simp: key_list_def revoked_def)

lemma key_reach_distinct: "key_reach kt \<Longrightarrow> distinct (key_list kt)"
  by (induction rule: key_reach.induct) (simp add: key_list_def, use key_step_keeps in blast)

lemma key_steps_revoked: "key_step\<^sup>*\<^sup>* kt kt' \<Longrightarrow> revoked k kt \<Longrightarrow> revoked k kt'"
  by (induction rule: rtranclp_induct) (use key_step_keeps in blast)+

lemma revoked_lookup: "revoked k kt \<Longrightarrow> LookupAPIKey pool d k kt = Inr r \<Longrightarrow> kr_Disabled r"
  using lookup_api_key_auth_Some [of k kt]
  by (fastforce simp: LookupAPIKey_def Let_def revoked_def split: if_splits option.splits prod.splits)

text \<open>
  C19. Once disabling an API key has reported success, no bearer of that key authenticates again, whatever
  the administrators and the gateways do to the tables afterwards, between its lookup and the recording of
  its use included.
\<close>

theorem disabled_key_never_authenticates:
  assumes "DisableAPIKey pool d now k kt = (None, kt1)" and "key_step\<^sup>*\<^sup>* kt1 kt2"
    and "parseBearer bearer = Some (k, sec)"
  shows "fst (AuthenticateAPIKey hmac configured (LookupAPIKey pool' d') (\<lambda>k p kt. MarkAPIKeyUsed pool'' d'' now'' k p (interfere kt))
    logged t bearer kt2) \<noteq> Inr pr"
proof
  assume "fst (AuthenticateAPIKey hmac configured (LookupAPIKey pool' d') (\<lambda>k p kt. MarkAPIKeyUsed pool'' d'' now'' k p (interfere kt))
    logged t bearer kt2) = Inr pr"
  then obtain kt3 where "AuthenticateAPIKey hmac configured (LookupAPIKey pool' d')
    (\<lambda>k p kt. MarkAPIKeyUsed pool'' d'' now'' k p (interfere kt)) logged t bearer kt2 = (Inr pr, kt3)" by (rule fst_eqE)
  then obtain r where r: "LookupAPIKey pool' d' k kt2 = Inr r" "\<not> kr_Disabled r"
    unfolding AuthenticateAPIKey_Inr_iff using assms(3) parseBearer_iff by (metis option.inject prod.inject)
  have "admin_disable_api_key now k kt = Inr kt1"
    using assms(1) by (auto simp: DisableAPIKey_def query_def split: if_splits delivery.splits sum.splits)
  then have "revoked k kt2" using admin_disable_keeps(3) key_steps_revoked [OF assms(2)] by blast
  with r show False using revoked_lookup by blast
qed

text \<open>The sample key, disabled.\<close>

lemma sample_disabled:
  obtains k kt' where "DisableAPIKey True Delivered 3000 k
      \<lparr>kt_status = [sample_principal \<mapsto> ''active''], api_keys = [\<lparr>key_id = k, secret_verifier = encodeVerifier sample_hmac k dummyAPIKeySecret,
        key_principal_id = sample_principal, key_created_at = 0, key_expires_at = Some 5000, key_last_used_at = None, key_disabled_at = None\<rparr>]\<rparr> = (None, kt')"
    "parseBearer (make_bearer k dummyAPIKeySecret) = Some (k, dummyAPIKeySecret)"
proof -
  have k: "key_id_ok dummyAPIKeyID" by (simp add: key_id_ok_def dummyAPIKeyID_def apiKeyIDBytes_def list_all_iff is_lower_hex_def is_digit_def)
  moreover have "length dummyAPIKeySecret = 32" by (simp add: dummyAPIKeySecret_def apiKeySecretBytes_def)
  ultimately show thesis
    by (intro that [of dummyAPIKeyID]) (auto simp: DisableAPIKey_def query_def admin_disable_api_key_def parseBearer_iff)
qed

theorem disabled_key_never_authenticates_witness:
  "\<exists>k kt kt'. DisableAPIKey True Delivered 3000 k kt = (None, kt') \<and>
    fst (AuthenticateAPIKey sample_hmac True (LookupAPIKey True Delivered) (\<lambda>k p kt. MarkAPIKeyUsed True Delivered 4000 k p (id kt))
      (\<lambda>p k. True) \<lparr>t_nanos = 4000000, t_loc = UTC\<rparr> (make_bearer k dummyAPIKeySecret) kt') \<noteq> Inr (api_principal sample_principal k)"
proof -
  obtain k kt' where k: "DisableAPIKey True Delivered 3000 k
      \<lparr>kt_status = [sample_principal \<mapsto> ''active''], api_keys = [\<lparr>key_id = k, secret_verifier = encodeVerifier sample_hmac k dummyAPIKeySecret,
        key_principal_id = sample_principal, key_created_at = 0, key_expires_at = Some 5000, key_last_used_at = None, key_disabled_at = None\<rparr>]\<rparr> = (None, kt')"
    "parseBearer (make_bearer k dummyAPIKeySecret) = Some (k, dummyAPIKeySecret)" by (rule sample_disabled)
  show ?thesis
    using k(1) disabled_key_never_authenticates [OF k(1) rtranclp.rtrancl_refl k(2)] by blast
qed

end
