(* ===== verification/JsonParse.thy ===== *)
theory JsonParse
  imports Json
begin

section \<open>The JSON decoder\<close>

text \<open>
  \<open>encoding/json\<close> in the decoding direction, as far as the gateway uses it: the scanner
  (\<open>parse_value\<close>: white space, literals, numbers, strings with their escapes, the nesting limit), the
  unquoting of strings (\<open>unquote\<close>: surrogate pairs, the replacement character for what is no UTF-8),
  \<open>json.Unmarshal\<close>, which wants one value and nothing else, \<open>Decoder.Decode\<close>, which leaves what
  follows the value, \<open>Decoder.More\<close>, and the decoding into Go types: fields are found by their name
  up to case, a repeated field is decoded into what the first one left, null leaves a non-pointer
  alone, and a slice reuses the cells it already has.

  The parser recurses on a fuel argument; the lemma \<open>parse_fuel\<close> shows that twice the length of the
  text is always enough.
\<close>

subsection \<open>Strings\<close>

definition is_json_space :: "char \<Rightarrow> bool" where
  "is_json_space c \<longleftrightarrow> c = CHR 0x20 \<or> c = CHR 0x09 \<or> c = CHR 0x0D \<or> c = CHR 0x0A"

definition skip_space :: "bytes \<Rightarrow> bytes" where
  "skip_space s = dropWhile is_json_space s"

definition is_hex :: "char \<Rightarrow> bool" where "is_hex c \<longleftrightarrow> fromHexChar c \<noteq> None"

definition hex4 :: "char \<Rightarrow> char \<Rightarrow> char \<Rightarrow> char \<Rightarrow> nat option" where
  "hex4 a b c d =
     (case (fromHexChar a, fromHexChar b, fromHexChar c, fromHexChar d) of
        (Some w, Some x, Some y, Some z) \<Rightarrow> Some (((w * 16 + x) * 16 + y) * 16 + z)
      | _ \<Rightarrow> None)"

definition simple_escape :: "char \<Rightarrow> char option" where
  "simple_escape e =
     (if e = CHR 0x22 \<or> e = CHR 0x5C \<or> e = CHR ''/'' then Some e
      else if e = CHR ''b'' then Some (CHR 0x08)
      else if e = CHR ''f'' then Some (CHR 0x0C)
      else if e = CHR ''n'' then Some (CHR 0x0A)
      else if e = CHR ''r'' then Some (CHR 0x0D)
      else if e = CHR ''t'' then Some (CHR 0x09)
      else None)"

text \<open>The text of a string after its opening quote: what stands before the closing quote, and the rest.\<close>

fun scan_string :: "bytes \<Rightarrow> (bytes \<times> bytes) option" where
  "scan_string [] = None"
| "scan_string (c # s) =
     (if c = CHR 0x22 then Some ([], s)
      else if c = CHR 0x5C then
        (case s of
           e # r \<Rightarrow>
             if simple_escape e \<noteq> None then map_option (\<lambda>(t, q). (c # e # t, q)) (scan_string r)
             else if e = CHR ''u'' then
               (case r of
                  x # y # z # w # r' \<Rightarrow>
                    if hex4 x y z w = None then None
                    else map_option (\<lambda>(t, q). (c # e # x # y # z # w # t, q)) (scan_string r')
                | _ \<Rightarrow> None)
             else None
         | [] \<Rightarrow> None)
      else if (of_char c :: nat) < 32 then None
      else map_option (\<lambda>(t, q). (c # t, q)) (scan_string s))"

definition byte :: "nat \<Rightarrow> char" where "byte n = char_of n"

definition encode_rune :: "nat \<Rightarrow> bytes" where
  "encode_rune r =
     (if r < 128 then [byte r]
      else if r < 2048 then [byte (192 + r div 64), byte (128 + r mod 64)]
      else if r < 65536 then [byte (224 + r div 4096), byte (128 + r div 64 mod 64), byte (128 + r mod 64)]
      else [byte (240 + r div 262144), byte (128 + r div 4096 mod 64), byte (128 + r div 64 mod 64), byte (128 + r mod 64)])"

definition replacement :: bytes where "replacement = [CHR 0xEF, CHR 0xBF, CHR 0xBD]"

definition is_surrogate :: "nat \<Rightarrow> bool" where "is_surrogate r \<longleftrightarrow> 55296 \<le> r \<and> r < 57344"

definition decode_pair :: "nat \<Rightarrow> nat \<Rightarrow> nat option" where
  "decode_pair a b =
     (if 55296 \<le> a \<and> a < 56320 \<and> 56320 \<le> b \<and> b < 57344 then Some ((a - 55296) * 1024 + (b - 56320) + 65536) else None)"

text \<open>\<open>unquote\<close> on a text that \<open>scan_string\<close> has accepted.\<close>

fun unquote :: "bytes \<Rightarrow> bytes" where
  "unquote [] = []"
| "unquote (c # s) =
     (if c = CHR 0x5C then
        (case s of
           e # r \<Rightarrow>
             (case simple_escape e of
                Some d \<Rightarrow> d # unquote r
              | None \<Rightarrow>
                  (case r of
                     x # y # z # w # r' \<Rightarrow>
                       (case hex4 x y z w of
                          None \<Rightarrow> []
                        | Some u \<Rightarrow>
                            if is_surrogate u then
                              (case r' of
                                 b # l # x' # y' # z' # w' # r'' \<Rightarrow>
                                   (case (if b = CHR 0x5C \<and> l = CHR ''u'' then Option.bind (hex4 x' y' z' w') (decode_pair u) else None) of
                                      Some p \<Rightarrow> encode_rune p @ unquote r''
                                    | None \<Rightarrow> replacement @ unquote r')
                               | _ \<Rightarrow> replacement @ unquote r')
                            else encode_rune u @ unquote r')
                   | _ \<Rightarrow> []))
         | [] \<Rightarrow> [])
      else if (of_char c :: nat) < 128 then c # unquote s
      else let n = utf8_size (c # s) in
        if n = 0 then replacement @ unquote s else take n (c # s) @ unquote (drop (n - 1) s))"

subsection \<open>Numbers\<close>

definition digits_part :: "bytes \<Rightarrow> bytes \<times> bytes" where
  "digits_part s = (takeWhile is_digit s, dropWhile is_digit s)"

definition scan_integer :: "bytes \<Rightarrow> (bytes \<times> bytes) option" where
  "scan_integer s =
     (case s of
        [] \<Rightarrow> None
      | c # r \<Rightarrow> if c = CHR ''0'' then Some ([c], r) else if is_digit c then Some (digits_part s) else None)"

definition scan_fraction :: "bytes \<Rightarrow> (bytes \<times> bytes) option" where
  "scan_fraction s =
     (case s of
        c # r \<Rightarrow> if c = CHR ''.'' then (case digits_part r of (d, q) \<Rightarrow> if d = [] then None else Some (c # d, q)) else Some ([], s)
      | [] \<Rightarrow> Some ([], s))"

definition scan_exponent :: "bytes \<Rightarrow> (bytes \<times> bytes) option" where
  "scan_exponent s =
     (case s of
        c # r \<Rightarrow>
          if c = CHR ''e'' \<or> c = CHR ''E'' then
            (let (sign, r') = (case r of g # q \<Rightarrow> if g = CHR ''+'' \<or> g = CHR ''-'' then ([g], q) else ([], r) | [] \<Rightarrow> ([], r)) in
             case digits_part r' of (d, q) \<Rightarrow> if d = [] then None else Some (c # sign @ d, q))
          else Some ([], s)
      | [] \<Rightarrow> Some ([], s))"

definition scan_number :: "bytes \<Rightarrow> (bytes \<times> bytes) option" where
  "scan_number s =
     (let (sign, r) = (case s of c # q \<Rightarrow> if c = CHR ''-'' then ([c], q) else ([], s) | [] \<Rightarrow> ([], s)) in
      case scan_integer r of
        None \<Rightarrow> None
      | Some (i, r1) \<Rightarrow>
          case scan_fraction r1 of
            None \<Rightarrow> None
          | Some (f, r2) \<Rightarrow>
              case scan_exponent r2 of
                None \<Rightarrow> None
              | Some (e, r3) \<Rightarrow> Some (sign @ i @ f @ e, r3))"

subsection \<open>Values\<close>

text \<open>
  A number keeps its text; the members of an array or object keep the text they were read from, which
  is what \<open>json.RawMessage\<close> holds.
\<close>

datatype jvalue =
    VNull
  | VBool bool
  | VNum string
  | VString bytes
  | VArray "(bytes \<times> jvalue) list"
  | VObject "(bytes \<times> bytes \<times> jvalue) list"

definition maxNestingDepth :: nat where "maxNestingDepth = 10000"

definition consumed :: "bytes \<Rightarrow> bytes \<Rightarrow> bytes" where
  "consumed s r = take (length s - length r) s"

definition scan_literal :: "string \<Rightarrow> jvalue \<Rightarrow> bytes \<Rightarrow> (jvalue \<times> bytes) option" where
  "scan_literal w v s = (if take (length w) s = w then Some (v, drop (length w) s) else None)"

fun parse_value :: "nat \<Rightarrow> nat \<Rightarrow> bytes \<Rightarrow> (jvalue \<times> bytes) option"
  and parse_items :: "nat \<Rightarrow> nat \<Rightarrow> bytes \<Rightarrow> ((bytes \<times> jvalue) list \<times> bytes) option"
  and parse_members :: "nat \<Rightarrow> nat \<Rightarrow> bytes \<Rightarrow> ((bytes \<times> bytes \<times> jvalue) list \<times> bytes) option"
where
  "parse_value 0 d s = None"
| "parse_value (Suc n) d s =
     (case skip_space s of
        [] \<Rightarrow> None
      | c # r \<Rightarrow>
          if c = CHR 0x22 then map_option (\<lambda>(t, q). (VString (unquote t), q)) (scan_string r)
          else if c = CHR ''['' then
            if maxNestingDepth < Suc d then None
            else (case skip_space r of
                e # q \<Rightarrow> if e = CHR '']'' then Some (VArray [], q)
                         else map_option (\<lambda>(xs, q). (VArray xs, q)) (parse_items n (Suc d) r)
              | [] \<Rightarrow> None)
          else if c = CHR ''{'' then
            if maxNestingDepth < Suc d then None
            else (case skip_space r of
                e # q \<Rightarrow> if e = CHR ''}'' then Some (VObject [], q)
                         else map_option (\<lambda>(ms, q). (VObject ms, q)) (parse_members n (Suc d) r)
              | [] \<Rightarrow> None)
          else if c = CHR ''t'' then scan_literal ''true'' (VBool True) (c # r)
          else if c = CHR ''f'' then scan_literal ''false'' (VBool False) (c # r)
          else if c = CHR ''n'' then scan_literal ''null'' VNull (c # r)
          else map_option (\<lambda>(t, q). (VNum t, q)) (scan_number (c # r)))"
| "parse_items 0 d s = None"
| "parse_items (Suc n) d s =
     (case parse_value n d s of
        None \<Rightarrow> None
      | Some (v, r) \<Rightarrow>
          let item = (consumed (skip_space s) r, v) in
          (case skip_space r of
             c # q \<Rightarrow>
               if c = CHR '']'' then Some ([item], q)
               else if c = CHR '','' then map_option (\<lambda>(xs, q). (item # xs, q)) (parse_items n d q)
               else None
           | [] \<Rightarrow> None))"
| "parse_members 0 d s = None"
| "parse_members (Suc n) d s =
     (case skip_space s of
        [] \<Rightarrow> None
      | c # r \<Rightarrow>
          if c \<noteq> CHR 0x22 then None
          else case scan_string r of
              None \<Rightarrow> None
            | Some (k, r1) \<Rightarrow>
                (case skip_space r1 of
                   [] \<Rightarrow> None
                 | c1 # r2 \<Rightarrow>
                     if c1 \<noteq> CHR '':'' then None
                     else case parse_value n d r2 of
                         None \<Rightarrow> None
                       | Some (v, r3) \<Rightarrow>
                           let member = (unquote k, consumed (skip_space r2) r3, v) in
                           (case skip_space r3 of
                              c3 # q \<Rightarrow>
                                if c3 = CHR ''}'' then Some ([member], q)
                                else if c3 = CHR '','' then map_option (\<lambda>(ms, q). (member # ms, q)) (parse_members n d q)
                                else None
                            | [] \<Rightarrow> None)))"

definition read_value :: "bytes \<Rightarrow> (jvalue \<times> bytes) option" where
  "read_value s = parse_value (2 * length s + 1) 0 s"

subsection \<open>Fuel\<close>

lemma skip_space_le: "length (skip_space s) \<le> length s"
  by (simp add: skip_space_def length_dropWhile_le)

lemma skip_space_Cons: "skip_space s = c # r \<Longrightarrow> length r < length s"
  using skip_space_le [of s] by simp

lemma scan_string_le: "scan_string s = Some (t, r) \<Longrightarrow> length r < length s"
proof (induction s arbitrary: t r rule: scan_string.induct)
  case (2 c s)
  show ?case
  proof (cases "c = CHR 0x5C")
    case False
    show ?thesis
    proof (cases "c = CHR 0x22")
      case True
      then show ?thesis using 2 by simp
    next
      case nq: False
      then obtain t' where "scan_string s = Some (t', r)" and ctrl: "\<not> (of_char c :: nat) < 32"
        using 2 False by (auto split: if_splits)
      then show ?thesis using 2(3) nq False by fastforce
    qed
  next
    case c: True
    then obtain e q where s: "s = e # q" using 2 by (cases s) auto
    show ?thesis
    proof (cases "simple_escape e = None")
      case False
      then obtain t' where "scan_string q = Some (t', r)" using 2 c s by (auto split: if_splits)
      then show ?thesis using 2(1) c s False by fastforce
    next
      case esc: True
      then obtain x y z w q' t' where "q = x # y # z # w # q'" "scan_string q' = Some (t', r)" "e = CHR ''u''" "hex4 x y z w \<noteq> None"
        using 2(4) c s by (auto split: if_splits list.splits)
      then show ?thesis using 2(2) c s esc by fastforce
    qed
  qed
qed simp

lemma scan_literal_less: "scan_literal w v s = Some (u, r) \<Longrightarrow> w \<noteq> [] \<Longrightarrow> length r < length s"
  by (cases s; cases w) (auto simp: scan_literal_def split: if_splits)

lemma scan_integer_less: "scan_integer s = Some (t, r) \<Longrightarrow> length r < length s"
  using length_dropWhile_le [of is_digit "tl s"]
  by (auto simp: scan_integer_def digits_part_def split: list.splits if_splits)

lemma scan_fraction_le: "scan_fraction s = Some (t, r) \<Longrightarrow> length r \<le> length s"
  using length_dropWhile_le [of is_digit "tl s"]
  by (auto simp: scan_fraction_def digits_part_def split: list.splits if_splits)

lemma scan_exponent_le: "scan_exponent s = Some (t, r) \<Longrightarrow> length r \<le> length s"
  using length_dropWhile_le [of is_digit "tl s"] length_dropWhile_le [of is_digit "tl (tl s)"]
  by (auto simp: scan_exponent_def digits_part_def Let_def split: list.splits if_splits prod.splits)

lemma scan_number_less: "scan_number s = Some (t, r) \<Longrightarrow> length r < length s"
  by (auto simp: scan_number_def Let_def split: list.splits if_splits prod.splits option.splits
      dest!: scan_integer_less scan_fraction_le scan_exponent_le)

lemma parse_shorter:
  "parse_value n d s = Some (v, r) \<Longrightarrow> length r < length s"
  "parse_items n d s = Some (xs, r) \<Longrightarrow> length r < length s"
  "parse_members n d s = Some (ms, r) \<Longrightarrow> length r < length s"
proof (induction n d s and n d s and n d s arbitrary: v r and xs r and ms r
    rule: parse_value_parse_items_parse_members.induct)
  case (2 n d s)
  then obtain c q where s: "skip_space s = c # q" by (cases "skip_space s") auto
  have len: "length q < length s" by (rule skip_space_Cons [OF s])
  have lit: "length r < length s" if "scan_literal w u (c # q) = Some (v, r)" "w \<noteq> []" for w u
    using scan_literal_less [OF that] skip_space_le [of s] s by simp
  show ?case
  proof (cases "c = CHR ''['' \<or> c = CHR ''{''")
    case True
    then obtain e p where e: "skip_space q = e # p" using 2(3) s by (cases "skip_space q") (auto split: if_splits)
    have "length p < length q" by (rule skip_space_Cons [OF e])
    with True show ?thesis using 2 s e len by (fastforce split: if_splits)
  next
    case False
    then show ?thesis
      using 2(3) s len lit scan_string_le [of q] scan_number_less [of "c # q"] skip_space_le [of s]
      by (fastforce split: if_splits)
  qed
next
  case (4 n d s)
  then obtain v q where v: "parse_value n d s = Some (v, q)" by (cases "parse_value n d s") auto
  then obtain c p where q: "skip_space q = c # p" using 4(3) by (cases "skip_space q") (auto simp: Let_def)
  have "length q < length s" "length p < length q" using 4(1) v skip_space_Cons [OF q] by auto
  then show ?case using 4(2) [OF v refl refl q] 4(3) v q by (fastforce simp: Let_def split: if_splits)
next
  case (6 n d s)
  then obtain c q where s: "skip_space s = c # q" by (cases "skip_space s") auto
  with 6 obtain k q1 where k: "scan_string q = Some (k, q1)" and c: "c = CHR 0x22"
    by (auto split: if_splits option.splits)
  with 6(3) s obtain c1 q2 where q1: "skip_space q1 = c1 # q2" and c1: "c1 = CHR '':''" by (cases "skip_space q1") (auto split: if_splits)
  with 6(3) s k c obtain v q3 where v: "parse_value n d q2 = Some (v, q3)" by (cases "parse_value n d q2") auto
  with 6(3) s k c q1 c1 obtain c3 p where q3: "skip_space q3 = c3 # p" by (cases "skip_space q3") (auto simp: Let_def)
  have "length q < length s" "length q1 < length q" "length q2 < length q1" "length q3 < length q2" "length p < length q3"
    using skip_space_Cons [OF s] scan_string_le [OF k] skip_space_Cons [OF q1] skip_space_Cons [OF q3] 6(1) s c k q1 c1 v by auto
  then show ?case using 6(2) [OF s _ k _ q1] 6(3) s c k q1 c1 v q3 by (fastforce simp: Let_def split: if_splits)
qed simp_all

lemma parse_fuel:
  "2 * length s < n \<Longrightarrow> parse_value (n + k) d s = parse_value n d s"
  "2 * length s + 1 < n \<Longrightarrow> parse_items (n + k) d s = parse_items n d s"
  "2 * length s < n \<Longrightarrow> parse_members (n + k) d s = parse_members n d s"
proof (induction n arbitrary: s d)
  case (Suc n)
  {
    case 1
    show ?case
    proof (cases "skip_space s")
      case (Cons c q)
      have "length q < length s" by (rule skip_space_Cons [OF Cons])
      then have "parse_items (n + k) (Suc d) q = parse_items n (Suc d) q" "parse_members (n + k) (Suc d) q = parse_members n (Suc d) q"
        using 1 by (auto intro: Suc.IH(2,3))
      then show ?thesis using Cons by (simp split: list.split)
    qed simp
  next
    case 2
    have "parse_value (n + k) d s = parse_value n d s" using 2 by (auto intro: Suc.IH(1))
    moreover have "parse_items (n + k) d q = parse_items n d q" if "parse_value n d s = Some (v, r)" "skip_space r = c # q" for v r c q
      using parse_shorter(1) [OF that(1)] skip_space_Cons [OF that(2)] 2 by (intro Suc.IH(2)) simp
    ultimately show ?case by (auto simp: Let_def split: option.split list.split)
  next
    case 3
    have v: "parse_value (n + k) d q2 = parse_value n d q2"
      if "skip_space s = c # q" "scan_string q = Some (t, q1)" "skip_space q1 = c1 # q2" for c q t q1 c1 q2
      using skip_space_Cons [OF that(1)] scan_string_le [OF that(2)] skip_space_Cons [OF that(3)] 3 by (intro Suc.IH(1)) simp
    have m: "parse_members (n + k) d p = parse_members n d p"
      if "skip_space s = c # q" "scan_string q = Some (t, q1)" "skip_space q1 = c1 # q2" "parse_value n d q2 = Some (u, q3)"
        "skip_space q3 = c3 # p" for c q t q1 c1 q2 u q3 c3 p
      using skip_space_Cons [OF that(1)] scan_string_le [OF that(2)] skip_space_Cons [OF that(3)] parse_shorter(1) [OF that(4)]
        skip_space_Cons [OF that(5)] 3 by (intro Suc.IH(3)) simp
    show ?case using v m by (auto simp: Let_def split: option.split list.split)
  }
qed simp_all

lemma parse_value_read: "2 * length s < n \<Longrightarrow> parse_value n 0 s = read_value s"
  using parse_fuel(1) [of s "2 * length s + 1" "n - (2 * length s + 1)" 0] by (simp add: read_value_def)

text \<open>The value of \<open>json.Unmarshal\<close>'s argument, and whether \<open>Decoder.More\<close> sees another one.\<close>

definition unmarshal_value :: "bytes \<Rightarrow> jvalue option" where
  "unmarshal_value s =
     (case read_value s of None \<Rightarrow> None | Some (v, r) \<Rightarrow> if skip_space r = [] then Some v else None)"

definition decoder_More :: "bytes \<Rightarrow> bool" where
  "decoder_More r = (case skip_space r of [] \<Rightarrow> False | c # _ \<Rightarrow> c \<noteq> CHR '']'' \<and> c \<noteq> CHR ''}'')"

subsection \<open>Decoding into Go values\<close>

text \<open>
  A decoder takes the value read and what the destination holds; \<open>None\<close> is an error. Struct fields are
  looked up by name, then by folded name.
\<close>

type_synonym 'a decoder = "bytes \<times> jvalue \<Rightarrow> 'a \<Rightarrow> 'a option"

fun fold_name :: "bytes \<Rightarrow> bytes" where
  "fold_name [] = []"
| "fold_name (c # s) =
     (if is_lower c then char_of (of_char c - (32 :: nat)) # fold_name s
      else if take 2 (c # s) = [CHR 0xC5, CHR 0xBF] then CHR ''S'' # fold_name (drop 1 s)
      else if take 3 (c # s) = [CHR 0xE2, CHR 0x84, CHR 0xAA] then CHR ''K'' # fold_name (drop 2 s)
      else c # fold_name s)"

definition find_field :: "bytes \<Rightarrow> (string \<times> 'a) list \<Rightarrow> 'a option" where
  "find_field key fields =
     (case map_of fields key of
        Some f \<Rightarrow> Some f
      | None \<Rightarrow> map_of (map (\<lambda>(n, f). (fold_name n, f)) fields) (fold_name key))"

fun decode_members :: "bool \<Rightarrow> (string \<times> 'a decoder) list \<Rightarrow> (bytes \<times> bytes \<times> jvalue) list \<Rightarrow> 'a \<Rightarrow> 'a option" where
  "decode_members strict fields [] x = Some x"
| "decode_members strict fields ((k, v) # ms) x =
     (case find_field k fields of
        None \<Rightarrow> if strict then None else decode_members strict fields ms x
      | Some f \<Rightarrow> (case f v x of None \<Rightarrow> None | Some y \<Rightarrow> decode_members strict fields ms y))"

definition decode_struct :: "bool \<Rightarrow> (string \<times> 'a decoder) list \<Rightarrow> 'a decoder" where
  "decode_struct strict fields = (\<lambda>(_, v) x.
     case v of VObject ms \<Rightarrow> decode_members strict fields ms x | VNull \<Rightarrow> Some x | _ \<Rightarrow> None)"

text \<open>Decoding into one field of a struct.\<close>

definition field :: "'b decoder \<Rightarrow> ('a \<Rightarrow> 'b) \<Rightarrow> (('b \<Rightarrow> 'b) \<Rightarrow> 'a \<Rightarrow> 'a) \<Rightarrow> 'a decoder" where
  "field dec get upd = (\<lambda>v x. map_option (\<lambda>y. upd (\<lambda>_. y) x) (dec v (get x)))"

definition decode_string :: "bytes decoder" where
  "decode_string = (\<lambda>(_, v) x. case v of VString s \<Rightarrow> Some s | VNull \<Rightarrow> Some x | _ \<Rightarrow> None)"

definition decode_bool :: "bool decoder" where
  "decode_bool = (\<lambda>(_, v) x. case v of VBool b \<Rightarrow> Some b | VNull \<Rightarrow> Some x | _ \<Rightarrow> None)"

text \<open>\<open>strconv.ParseInt(text, 10, 64)\<close> on the text of a number.\<close>

definition parse_int64 :: "string \<Rightarrow> int64 option" where
  "parse_int64 t =
     (let (neg, d) = (case t of c # r \<Rightarrow> if c = CHR ''-'' then (True, r) else (False, t) | [] \<Rightarrow> (False, t)) in
      if d = [] \<or> \<not> list_all is_digit d then None
      else let i = (if neg then - int (digits_value d) else int (digits_value d)) in
        if i < - 9223372036854775808 \<or> 9223372036854775807 < i then None else Some (word_of_int i))"

definition decode_int64 :: "int64 decoder" where
  "decode_int64 = (\<lambda>(_, v) x. case v of VNum t \<Rightarrow> parse_int64 t | VNull \<Rightarrow> Some x | _ \<Rightarrow> None)"

text \<open>A pointer: null clears it, anything else is decoded into what it points to, or into a new zero value.\<close>

definition decode_pointer :: "'a decoder \<Rightarrow> 'a \<Rightarrow> 'a option decoder" where
  "decode_pointer dec zero = (\<lambda>(raw, v) x.
     case v of VNull \<Rightarrow> Some None
     | _ \<Rightarrow> map_option Some (dec (raw, v) (case x of None \<Rightarrow> zero | Some y \<Rightarrow> y)))"

definition decode_raw :: "bytes option decoder" where
  "decode_raw = (\<lambda>(raw, v) x. Some (Some raw))"

text \<open>A slice: the cells of its array and how many of them it shows.\<close>

type_synonym 'a cells = "'a list \<times> nat"

definition shown :: "'a cells \<Rightarrow> 'a list" where "shown c = take (snd c) (fst c)"

fun decode_cells :: "'a decoder \<Rightarrow> 'a \<Rightarrow> (bytes \<times> jvalue) list \<Rightarrow> 'a list \<Rightarrow> 'a list option" where
  "decode_cells dec zero [] cs = Some cs"
| "decode_cells dec zero (v # vs) cs =
     (case dec v (case cs of [] \<Rightarrow> zero | c # _ \<Rightarrow> c) of
        None \<Rightarrow> None
      | Some y \<Rightarrow> map_option (\<lambda>ys. y # ys) (decode_cells dec zero vs (case cs of [] \<Rightarrow> [] | _ # r \<Rightarrow> r)))"

definition decode_slice :: "'a decoder \<Rightarrow> 'a \<Rightarrow> 'a cells decoder" where
  "decode_slice dec zero = (\<lambda>(_, v) x.
     case v of
       VNull \<Rightarrow> Some ([], 0)
     | VArray [] \<Rightarrow> Some ([], 0)
     | VArray vs \<Rightarrow> map_option (\<lambda>ys. (ys, length vs)) (decode_cells dec zero vs (fst x))
     | _ \<Rightarrow> None)"

end
