(* ===== verification/GoText.thy ===== *)
theory GoText
  imports JsonParse
begin

section \<open>Text and stream helpers of the standard library\<close>

text \<open>
  What several components use of \<open>strings\<close>, \<open>io\<close>, \<open>net/url\<close> and \<open>float64\<close>: whether
  \<open>strings.TrimSpace\<close> leaves nothing, \<open>strings.Join\<close> and prefixes, reading a stream through
  \<open>io.LimitReader\<close>, and the comparisons of floating-point numbers, which are held as their IEEE 754 bits.
  The parser of \<open>net/url\<close> is a parameter of the definitions that call it; \<open>url\<close> is what they look at.
\<close>

text \<open>
  \<open>strings.TrimSpace(s) == ""\<close>: every rune is a Unicode space. The multi-byte spaces are U+0085, U+00A0,
  U+1680, U+2000 to U+200A, U+2028, U+2029, U+202F, U+205F and U+3000.
\<close>

fun blank :: "bytes \<Rightarrow> bool" where
  "blank [] = True"
| "blank (c # s) =
     (if c \<in> {CHR 0x09, CHR 0x0A, CHR 0x0B, CHR 0x0C, CHR 0x0D, CHR 0x20} then blank s
      else case s of
          b # r \<Rightarrow>
            if c = CHR 0xC2 \<and> (b = CHR 0x85 \<or> b = CHR 0xA0) then blank r
            else (case r of
                a # q \<Rightarrow>
                  if (c = CHR 0xE1 \<and> b = CHR 0x9A \<and> a = CHR 0x80) \<or>
                     (c = CHR 0xE2 \<and> b = CHR 0x80 \<and>
                       ((128 \<le> (of_char a :: nat) \<and> (of_char a :: nat) \<le> 138) \<or> a = CHR 0xA8 \<or> a = CHR 0xA9 \<or> a = CHR 0xAF)) \<or>
                     (c = CHR 0xE2 \<and> b = CHR 0x81 \<and> a = CHR 0x9F) \<or> (c = CHR 0xE3 \<and> b = CHR 0x80 \<and> a = CHR 0x80)
                  then blank q else False
              | [] \<Rightarrow> False)
        | [] \<Rightarrow> False)"

definition has_prefix :: "string \<Rightarrow> string \<Rightarrow> bool" where
  "has_prefix s p \<longleftrightarrow> take (length p) s = p"

fun join_with :: "string \<Rightarrow> string list \<Rightarrow> string" where
  "join_with sep [] = []"
| "join_with sep [x] = x"
| "join_with sep (x # y # r) = x @ sep @ join_with sep (y # r)"

text \<open>\<open>strings.TrimRight(s, "/")\<close>.\<close>

definition trim_slashes :: "string \<Rightarrow> string" where
  "trim_slashes s = rev (dropWhile (\<lambda>c. c = CHR ''/'') (rev s))"

subsection \<open>Streams\<close>

text \<open>
  A body delivers some bytes and then ends or fails. \<open>read_all n\<close> is \<open>io.ReadAll(io.LimitReader(body, n))\<close>:
  the failure is seen only when the limit has not been reached before.
\<close>

datatype stream_end = Eof | Read_error

record stream =
  st_bytes :: bytes
  st_end :: stream_end

definition read_all :: "int64 \<Rightarrow> stream \<Rightarrow> bytes option" where
  "read_all limit body =
     (if limit \<le>s 0 then Some []
      else if unat limit \<le> length (st_bytes body) then Some (take (unat limit) (st_bytes body))
      else case st_end body of Eof \<Rightarrow> Some (st_bytes body) | Read_error \<Rightarrow> None)"

definition len64 :: "'a list \<Rightarrow> int64" where "len64 xs = of_nat (length xs)"

subsection \<open>Floating-point numbers\<close>

type_synonym float64 = "64 word"

definition f64_magnitude :: "float64 \<Rightarrow> nat" where "f64_magnitude x = unat x mod 2 ^ 63"

definition f64_finite :: "float64 \<Rightarrow> bool" where "f64_finite x \<longleftrightarrow> f64_magnitude x < 0x7FF0000000000000"

definition f64_nan :: "float64 \<Rightarrow> bool" where "f64_nan x \<longleftrightarrow> 0x7FF0000000000000 < f64_magnitude x"

definition f64_negative :: "float64 \<Rightarrow> bool" where
  "f64_negative x \<longleftrightarrow> \<not> f64_nan x \<and> 2 ^ 63 < unat x"

definition f64_above_two :: "float64 \<Rightarrow> bool" where
  "f64_above_two x \<longleftrightarrow> \<not> f64_nan x \<and> unat x < 2 ^ 63 \<and> 0x4000000000000000 < unat x"

subsection \<open>URLs\<close>

record url =
  url_Host :: string
  url_Hostname :: string
  url_has_User :: bool
  url_RawQuery :: string
  url_Fragment :: string

definition loopback :: "string \<Rightarrow> bool" where
  "loopback host \<longleftrightarrow> host = ''127.0.0.1'' \<or> host = ''localhost'' \<or> host = ''::1''"

subsection \<open>Facts\<close>

lemma read_all_bound: "read_all limit body = Some b \<Longrightarrow> 0 <s limit \<Longrightarrow> length b \<le> unat limit"
  by (auto simp: read_all_def split: if_splits stream_end.splits)

lemma read_all_within:
  assumes "read_all (n + 1) body = Some b" "0 <s n + 1" "unat (n + 1) = unat n + 1" "length b \<le> unat n"
  shows "b = st_bytes body \<and> st_end body = Eof"
  using assms by (auto simp: read_all_def word_sle_eq word_sless_alt split: if_splits stream_end.splits)

end
