(* ===== verification/JsonRoundtrip.thy ===== *)
theory JsonRoundtrip
  imports JsonParse
begin

section \<open>Decoding what was encoded\<close>

text \<open>
  The decoder of \<open>JsonParse\<close> reads back what the encoder of \<open>Json\<close> writes: strings for every valid
  UTF-8 text (\<open>scan_string_escape\<close>, \<open>unquote_escape\<close>), numbers, and, member by member, arrays and
  objects (\<open>reads\<close>: a text that the parser takes for a given value before any delimiter).
\<close>

subsection \<open>Strings\<close>

abbreviation prefixed :: "bytes \<Rightarrow> (bytes \<times> bytes) option \<Rightarrow> (bytes \<times> bytes) option" where
  "prefixed p \<equiv> map_option (\<lambda>(t, q). (p @ t, q))"

lemma prefixed_Nil [simp]: "prefixed [] x = x"
  by (cases x) auto

lemma prefixed_append: "prefixed (a @ b) x = prefixed a (prefixed b x)"
  by (cases x) auto

lemma scan_string_high: "128 \<le> (of_char c :: nat) \<Longrightarrow> scan_string (c # s) = prefixed [c] (scan_string s)"
  by (auto simp: case_prod_unfold)

lemma scan_string_plain: "json_plain_char c \<Longrightarrow> scan_string (c # s) = prefixed [c] (scan_string s)"
  by (auto simp: json_plain_char_def case_prod_unfold)

lemma hex4_low:
  assumes "(of_char c :: nat) < 128"
  shows "hex4 (CHR ''0'') (CHR ''0'') (hex_digit (of_char c div 16)) (hex_digit (of_char c mod 16)) = Some (of_char c)"
proof -
  have "fromHexChar (CHR ''0'') = Some 0" by (simp add: fromHexChar_def is_digit_def)
  moreover have "(of_char c :: nat) div 16 < 16" "(of_char c :: nat) mod 16 < 16" using assms by simp_all
  ultimately show ?thesis by (simp add: hex4_def fromHexChar_hex_digit)
qed

lemma scan_string_ascii: "(of_char c :: nat) < 128 \<Longrightarrow> scan_string (json_ascii c @ s) = prefixed (json_ascii c) (scan_string s)"
  using scan_string_plain [of c s]
  by (auto simp: json_ascii_def simple_escape_def hex4_low case_prod_unfold)

lemma unquote_ascii: "(of_char c :: nat) < 128 \<Longrightarrow> unquote (json_ascii c @ s) = c # unquote s"
  by (auto simp: json_ascii_def simple_escape_def hex4_low is_surrogate_def encode_rune_def byte_def json_plain_char_def)

abbreviation high :: "char \<Rightarrow> bool" where "high c \<equiv> 128 \<le> (of_char c :: nat)"

lemma utf8_size_high:
  assumes "0 < utf8_size (c # s)" "high c"
  obtains p r where "c # s = p @ r" "length p = utf8_size (c # s)" "list_all high p" "p \<noteq> []"
    "\<forall>t. utf8_size (p @ t) = length p"
proof -
  let ?n = "of_char c :: nat"
  consider (two) "194 \<le> ?n" "?n \<le> 223" | (three) "224 \<le> ?n" "?n \<le> 239" | (four) "240 \<le> ?n" "?n \<le> 244"
    using assms by (auto simp: utf8_size_def Let_def split: if_splits)
  then show thesis
  proof cases
    case two
    then obtain b r where s: "s = b # r" and b: "utf8_cont b"
      using assms(1) by (cases s) (auto simp: utf8_size_def Let_def split: if_splits)
    show thesis using two s b by (intro that [of "[c, b]" r]) (auto simp: utf8_size_def utf8_cont_def)
  next
    case three
    then obtain b d r where s: "s = b # d # r" and b: "utf8_cont b" "utf8_cont d"
        "?n = 224 \<longrightarrow> (160 :: nat) \<le> of_char b" "?n = 237 \<longrightarrow> of_char b \<le> (159 :: nat)"
      using assms(1) by (cases s; cases "tl s") (auto simp: utf8_size_def Let_def split: if_splits)
    show thesis using three s b by (intro that [of "[c, b, d]" r]) (auto simp: utf8_size_def utf8_cont_def)
  next
    case four
    then obtain b d e r where s: "s = b # d # e # r" and b: "utf8_cont b" "utf8_cont d" "utf8_cont e"
        "?n = 240 \<longrightarrow> (144 :: nat) \<le> of_char b" "?n = 244 \<longrightarrow> of_char b \<le> (143 :: nat)"
      using assms(1) by (cases s; cases "tl s"; cases "tl (tl s)") (auto simp: utf8_size_def Let_def split: if_splits)
    show thesis using four s b by (intro that [of "[c, b, d, e]" r]) (auto simp: utf8_size_def utf8_cont_def)
  qed
qed

lemma scan_string_highs: "list_all high p \<Longrightarrow> scan_string (p @ s) = prefixed p (scan_string s)"
proof (induction p)
  case (Cons c p)
  then have "scan_string ((c # p) @ s) = prefixed [c] (prefixed p (scan_string s))" by (simp del: scan_string.simps add: scan_string_high)
  then show ?case using prefixed_append [of "[c]" p] by simp
qed (cases "scan_string s"; simp)

lemma unquote_highs:
  assumes "list_all high p" "p \<noteq> []" "\<forall>t. utf8_size (p @ t) = length p"
  shows "unquote (p @ s) = p @ unquote s"
proof (cases p)
  case (Cons c q)
  then have "c \<noteq> CHR 0x5C" "\<not> (of_char c :: nat) < 128" using assms(1) by auto
  then show ?thesis using Cons assms(3) [THEN spec [of _ s]] by simp
qed (use assms in simp)

lemma line_separator_bytes: "byte 226 = CHR 0xE2" "byte 128 = CHR 0x80" "byte 168 = CHR 0xA8" "byte 169 = CHR 0xA9"
  by code_simp+

lemma scan_string_separator:
  "scan_string (CHR 0x5C # ''u2028'' @ s) = prefixed (CHR 0x5C # ''u2028'') (scan_string s)"
  "scan_string (CHR 0x5C # ''u2029'' @ s) = prefixed (CHR 0x5C # ''u2029'') (scan_string s)"
  "unquote (CHR 0x5C # ''u2028'' @ s) = [CHR 0xE2, CHR 0x80, CHR 0xA8] @ unquote s"
  "unquote (CHR 0x5C # ''u2029'' @ s) = [CHR 0xE2, CHR 0x80, CHR 0xA9] @ unquote s"
  by (simp_all add: simple_escape_def hex4_def fromHexChar_def is_digit_def is_surrogate_def encode_rune_def line_separator_bytes case_prod_unfold)

text \<open>What the two sides do to one rune of a valid text.\<close>

lemma escape_step:
  assumes "utf8_valid (c # s)"
  obtains p r e where "c # s = p @ r" "p \<noteq> []" "utf8_valid r" "json_escape (c # s) = e @ json_escape r"
    "\<forall>t. scan_string (e @ t) = prefixed e (scan_string t)" "\<forall>t. unquote (e @ t) = p @ unquote t"
proof (cases "high c")
  case False
  then have "utf8_size (c # s) = 1" by (simp add: utf8_size_def)
  then have "utf8_valid s" using assms by simp
  then show thesis
    using False scan_string_ascii [of c] unquote_ascii [of c] by (intro that [of "[c]" s "json_ascii c"]) auto
next
  case True
  have n: "0 < utf8_size (c # s)" using assms by (auto simp: Let_def split: if_splits)
  from n True obtain p r where p: "c # s = p @ r" "length p = utf8_size (c # s)" "list_all high p" "p \<noteq> []"
    "\<forall>t. utf8_size (p @ t) = length p" by (rule utf8_size_high)
  have drop: "drop (utf8_size (c # s) - 1) s = r" "take (utf8_size (c # s)) (c # s) = p"
  proof -
    obtain q where q: "p = c # q" "s = q @ r" using p(1,4) by (cases p) auto
    show "drop (utf8_size (c # s) - 1) s = r" "take (utf8_size (c # s)) (c # s) = p"
      unfolding p(2) [symmetric] by (simp_all add: q)
  qed
  have valid: "utf8_valid r" using assms n drop by (simp add: Let_def)
  have esc: "json_escape (c # s) =
     (if take 3 (c # s) = [CHR 0xE2, CHR 0x80, CHR 0xA8] then CHR 0x5C # ''u2028'' @ json_escape r
      else if take 3 (c # s) = [CHR 0xE2, CHR 0x80, CHR 0xA9] then CHR 0x5C # ''u2029'' @ json_escape r
      else p @ json_escape r)"
    unfolding json_escape.simps Let_def drop using n True by (simp only: if_not_P not_less neq0_conv if_False if_True simp_thms)
  have three: "p = take 3 (c # s)" if "take 3 (c # s) = [CHR 0xE2, CHR 0x80, x]" "x = CHR 0xA8 \<or> x = CHR 0xA9" for x
  proof -
    have "c # s = [CHR 0xE2, CHR 0x80, x] @ drop 3 (c # s)"
      unfolding that(1) [symmetric] by (rule append_take_drop_id [symmetric])
    then have "c = CHR 0xE2 \<and> s = [CHR 0x80, x] @ drop 2 s" by simp
    then obtain r' where "c = CHR 0xE2" "s = [CHR 0x80, x] @ r'" by blast
    then have "utf8_size (c # s) = 3" using that(2) by (auto simp: utf8_size_def utf8_cont_def)
    then show ?thesis using drop(2) by simp
  qed
  consider "take 3 (c # s) = [CHR 0xE2, CHR 0x80, CHR 0xA8]" | "take 3 (c # s) = [CHR 0xE2, CHR 0x80, CHR 0xA9]"
    | "take 3 (c # s) \<noteq> [CHR 0xE2, CHR 0x80, CHR 0xA8]" "take 3 (c # s) \<noteq> [CHR 0xE2, CHR 0x80, CHR 0xA9]" by blast
  then show thesis
  proof cases
    case 1
    have "json_escape (c # s) = (CHR 0x5C # ''u2028'') @ json_escape r" unfolding esc using 1 by simp
    moreover have "p = [CHR 0xE2, CHR 0x80, CHR 0xA8]" using three [OF 1] 1 by (simp only: simp_thms)
    then have "\<forall>t. unquote ((CHR 0x5C # ''u2028'') @ t) = p @ unquote t" using scan_string_separator(3) by (simp only: append_Cons append_Nil simp_thms)
    moreover have "\<forall>t. scan_string ((CHR 0x5C # ''u2028'') @ t) = prefixed (CHR 0x5C # ''u2028'') (scan_string t)"
      using scan_string_separator(1) by (simp only: append_Cons append_Nil simp_thms)
    ultimately show thesis by (intro that [OF p(1,4) valid])
  next
    case 2
    have "json_escape (c # s) = (CHR 0x5C # ''u2029'') @ json_escape r" unfolding esc using 2 by simp
    moreover have "p = [CHR 0xE2, CHR 0x80, CHR 0xA9]" using three [OF 2] 2 by (simp only: simp_thms)
    then have "\<forall>t. unquote ((CHR 0x5C # ''u2029'') @ t) = p @ unquote t" using scan_string_separator(4) by (simp only: append_Cons append_Nil simp_thms)
    moreover have "\<forall>t. scan_string ((CHR 0x5C # ''u2029'') @ t) = prefixed (CHR 0x5C # ''u2029'') (scan_string t)"
      using scan_string_separator(2) by (simp only: append_Cons append_Nil simp_thms)
    ultimately show thesis by (intro that [OF p(1,4) valid])
  next
    case 3
    have "json_escape (c # s) = p @ json_escape r" unfolding esc using 3 by (simp only: if_False)
    then show thesis
      by (rule that [OF p(1,4) valid]) (simp_all only: scan_string_highs [OF p(3)] unquote_highs [OF p(3,4,5)] simp_thms)
  qed
qed

lemma json_escape_read:
  "utf8_valid s \<Longrightarrow> scan_string (json_escape s @ CHR 0x22 # t) = Some (json_escape s, t) \<and> unquote (json_escape s) = s"
proof (induction "length s" arbitrary: s rule: less_induct)
  case less
  show ?case
  proof (cases s)
    case (Cons c s')
    with less.prems obtain p r e where p: "s = p @ r" "p \<noteq> []" "utf8_valid r" "json_escape s = e @ json_escape r"
      "\<forall>t. scan_string (e @ t) = prefixed e (scan_string t)" "\<forall>t. unquote (e @ t) = p @ unquote t"
      by (metis escape_step)
    then show ?thesis using less.hyps [of r] by simp
  qed simp
qed

subsection \<open>Numbers\<close>

definition json_number :: "string \<Rightarrow> bool" where
  "json_number t \<longleftrightarrow> scan_number t = Some (t, [])"

lemma delimited_not_number:
  "delimited t \<Longrightarrow> t = [] \<or> (\<exists>c r. t = c # r \<and> \<not> is_digit c \<and> c \<noteq> CHR ''.'' \<and> c \<noteq> CHR ''e'' \<and> c \<noteq> CHR ''E'' \<and> c \<noteq> CHR ''+'' \<and> c \<noteq> CHR ''-'')"
  by (cases t) (auto simp: delimited_def is_digit_def)

lemma digits_part_extend: "digits_part s = (d, r) \<Longrightarrow> delimited t \<Longrightarrow> digits_part (s @ t) = (d, r @ t)"
  using delimited_not_number [of t]
proof (induction s arbitrary: d)
  case Nil
  then show ?case by (auto simp: digits_part_def)
next
  case (Cons c s)
  then show ?case by (cases "is_digit c") (auto simp: digits_part_def)
qed

lemma scan_integer_extend: "scan_integer s = Some (u, r) \<Longrightarrow> delimited t \<Longrightarrow> scan_integer (s @ t) = Some (u, r @ t)"
  using digits_part_extend [of s u r t]
  by (auto simp: scan_integer_def split: list.splits if_splits)

lemma scan_fraction_extend: "scan_fraction s = Some (u, r) \<Longrightarrow> delimited t \<Longrightarrow> scan_fraction (s @ t) = Some (u, r @ t)"
  using delimited_not_number [of t] digits_part_extend [of "tl s" "tl u" r t]
  by (auto simp: scan_fraction_def split: list.splits if_splits prod.splits)

lemma scan_exponent_extend: "scan_exponent s = Some (u, r) \<Longrightarrow> delimited t \<Longrightarrow> scan_exponent (s @ t) = Some (u, r @ t)"
proof (cases s)
  case (Cons c q)
  assume u: "scan_exponent s = Some (u, r)" and t: "delimited t"
  show ?thesis
  proof (cases "c = CHR ''e'' \<or> c = CHR ''E''")
    case True
    obtain sg p where q: "(case q of g # w \<Rightarrow> if g = CHR ''+'' \<or> g = CHR ''-'' then ([g], w) else ([], q) | [] \<Rightarrow> ([], q)) = (sg, p)"
      by (rule prod.exhaust)
    have q': "(case q @ t of g # w \<Rightarrow> if g = CHR ''+'' \<or> g = CHR ''-'' then ([g], w) else ([], q @ t) | [] \<Rightarrow> ([], q @ t)) = (sg, p @ t)"
      using q delimited_not_number [OF t] by (cases q) (auto split: if_splits)
    obtain d w where d: "digits_part p = (d, w)" by (cases "digits_part p")
    have "d \<noteq> []" "u = c # sg @ d" "r = w" using u Cons True q d by (auto simp: scan_exponent_def split: if_splits)
    then show ?thesis using Cons True q' digits_part_extend [OF d t] by (simp add: scan_exponent_def)
  next
    case False
    then show ?thesis using u Cons by (auto simp: scan_exponent_def)
  qed
qed (use delimited_not_number [of t] in \<open>auto simp: scan_exponent_def\<close>)

lemma scan_number_extend:
  assumes "scan_number s = Some (u, r)" "delimited t"
  shows "scan_number (s @ t) = Some (u, r @ t)"
proof -
  obtain sg p where p: "(case s of c # q \<Rightarrow> if c = CHR ''-'' then ([c], q) else ([], s) | [] \<Rightarrow> ([], s)) = (sg, p)"
    by (rule prod.exhaust)
  obtain i p1 f p2 e where n: "scan_integer p = Some (i, p1)" "scan_fraction p1 = Some (f, p2)" "scan_exponent p2 = Some (e, r)"
      "u = sg @ i @ f @ e"
    using assms(1) p by (auto simp: scan_number_def split: option.splits)
  have "s \<noteq> []" using n(1) p by (cases s) (auto simp: scan_integer_def)
  then have "(case s @ t of c # q \<Rightarrow> if c = CHR ''-'' then ([c], q) else ([], s @ t) | [] \<Rightarrow> ([], s @ t)) = (sg, p @ t)"
    using p by (cases s) (auto split: if_splits)
  then show ?thesis
    using scan_integer_extend [OF n(1) assms(2)] scan_fraction_extend [OF n(2) assms(2)] scan_exponent_extend [OF n(3) assms(2)] n(4)
    by (simp add: scan_number_def)
qed

lemma nat_digits_zero: "nat_digits n = CHR ''0'' # s \<Longrightarrow> s = []"
proof (induction n arbitrary: s rule: nat_digits.induct)
  case (1 n)
  show ?case
  proof (cases "n < 10")
    case True
    then show ?thesis using "1.prems" by (subst (asm) nat_digits.simps) simp
  next
    case False
    obtain c cs where hd: "nat_digits (n div 10) = c # cs" using nat_digits_head [of "n div 10"] by blast
    have "nat_digits n = nat_digits (n div 10) @ [digit_char (n mod 10)]" using False by (subst nat_digits.simps) simp
    then have "nat_digits (n div 10) = CHR ''0'' # cs" using "1.prems" hd by simp
    moreover from this have "cs = []" using "1.IH" False by blast
    ultimately have "n div 10 = digits_value [CHR ''0'']" using digits_value_nat_digits [of "n div 10"] by simp
    then show ?thesis using False by (simp add: digits_value_def)
  qed
qed

lemma scan_integer_nat: "scan_integer (nat_digits n) = Some (nat_digits n, [])"
proof -
  obtain c cs where n: "nat_digits n = c # cs" "is_digit c" using nat_digits_head [of n] by blast
  then have "\<forall>x\<in>set cs. is_digit x" using nat_digits_digits [of n] by (simp add: list_all_iff)
  then show ?thesis
    using n nat_digits_zero [of n cs] by (auto simp: scan_integer_def digits_part_def takeWhile_eq_all_conv dropWhile_eq_Nil_conv)
qed

lemma json_number_int: "json_number (int_digits i)"
proof -
  have fin: "scan_fraction [] = Some ([], [])" "scan_exponent [] = Some ([], [])" by (simp_all add: scan_fraction_def scan_exponent_def)
  show ?thesis
  proof (cases i rule: int_digits_cases)
    case (neg n)
    then show ?thesis using fin scan_integer_nat [of n] by (simp add: json_number_def scan_number_def)
  next
    case (nonneg n)
    obtain c s where "nat_digits n = c # s" "is_digit c" using nat_digits_head [of n] by blast
    then show ?thesis using nonneg fin scan_integer_nat [of n] by (auto simp: json_number_def scan_number_def is_digit_def)
  qed
qed

subsection \<open>Structure\<close>

text \<open>A text without leading space that the parser takes for the value \<open>v\<close> wherever it is followed by a delimiter.\<close>

definition reads :: "nat \<Rightarrow> bytes \<Rightarrow> jvalue \<Rightarrow> bool" where
  "reads d t v \<longleftrightarrow> skip_space t = t \<and> t \<noteq> [] \<and> (\<forall>n r. delimited r \<longrightarrow> 2 * length (t @ r) < n \<longrightarrow> parse_value n d (t @ r) = Some (v, r))"

lemma skip_space_append: "skip_space t = t \<Longrightarrow> t \<noteq> [] \<Longrightarrow> skip_space (t @ r) = t @ r"
  unfolding skip_space_def dropWhile_eq_self_iff by (cases t) auto

lemma skip_space_nonspace: "\<not> is_json_space c \<Longrightarrow> skip_space (c # r) = c # r"
  by (simp add: skip_space_def)

lemma consumed_append: "consumed (t @ r) r = t"
  by (simp add: consumed_def)

lemma readsD: "reads d t v \<Longrightarrow> delimited r \<Longrightarrow> 2 * length (t @ r) < n \<Longrightarrow> parse_value n d (t @ r) = Some (v, r)"
  by (simp add: reads_def)

lemma reads_skip: "reads d t v \<Longrightarrow> skip_space (t @ r) = t @ r"
  by (simp add: reads_def skip_space_append)

lemma parse_items_text:
  assumes "xs \<noteq> []" "list_all (\<lambda>(t, v). reads d t v) xs" "2 * length (commas (map fst xs) @ CHR '']'' # r) + 1 < n"
  shows "parse_items n d (commas (map fst xs) @ CHR '']'' # r) = Some (xs, r)"
  using assms
proof (induction xs arbitrary: n)
  case (Cons x xs)
  obtain t v where x: "x = (t, v)" by (cases x)
  have rd: "reads d t v" using Cons.prems(2) x by simp
  obtain m where n: "n = Suc m" using Cons.prems(3) by (cases n) auto
  show ?case
  proof (cases xs)
    case Nil
    have "parse_value m d (t @ CHR '']'' # r) = Some (v, CHR '']'' # r)"
      using Cons.prems(3) Nil x n by (intro readsD [OF rd]) simp_all
    then show ?thesis
      using Nil x n rd consumed_append [of t "CHR '']'' # r"] by (simp add: reads_skip skip_space_nonspace is_json_space_def)
  next
    case (Cons y ys)
    let ?rest = "CHR '','' # commas (map fst xs) @ CHR '']'' # r"
    have whole: "commas (map fst (x # xs)) @ CHR '']'' # r = t @ ?rest" using Cons x by simp
    have "parse_value m d (t @ ?rest) = Some (v, ?rest)"
      using Cons.prems(3) n whole by (intro readsD [OF rd]) simp_all
    moreover have "parse_items m d (commas (map fst xs) @ CHR '']'' # r) = Some (xs, r)"
      using Cons.prems n whole Cons by (intro Cons.IH) (auto simp: Cons)
    ultimately show ?thesis
      unfolding whole using n x rd consumed_append [of t ?rest]
      by (simp add: reads_skip skip_space_nonspace is_json_space_def)
  qed
qed simp

lemma parse_members_text:
  assumes "ms \<noteq> []" "list_all (\<lambda>(k, t, v). utf8_valid k \<and> reads d t v) ms"
    "2 * length (commas (map (\<lambda>(k, t, v). json_string k @ CHR '':'' # t) ms) @ CHR ''}'' # r) < n"
  shows "parse_members n d (commas (map (\<lambda>(k, t, v). json_string k @ CHR '':'' # t) ms) @ CHR ''}'' # r) = Some (ms, r)"
  using assms
proof (induction ms arbitrary: n)
  case (Cons x ms)
  obtain k t v where x: "x = (k, t, v)" by (cases x)
  have rd: "reads d t v" and k: "utf8_valid k" using Cons.prems(2) x by simp_all
  obtain m where n: "n = Suc m" using Cons.prems(3) by (cases n) auto
  define rest where "rest = (if ms = [] then CHR ''}'' # r else CHR '','' # commas (map (\<lambda>(k, t, v). json_string k @ CHR '':'' # t) ms) @ CHR ''}'' # r)"
  have whole: "commas (map (\<lambda>(k, t, v). json_string k @ CHR '':'' # t) (x # ms)) @ CHR ''}'' # r = json_string k @ CHR '':'' # t @ rest"
    by (cases ms) (simp_all add: x rest_def)
  have del: "delimited rest" by (simp add: rest_def)
  have val: "parse_value m d (t @ rest) = Some (v, rest)"
    using Cons.prems(3) n del unfolding whole by (intro readsD [OF rd]) simp_all
  have more: "parse_members m d (commas (map (\<lambda>(k, t, v). json_string k @ CHR '':'' # t) ms) @ CHR ''}'' # r) = Some (ms, r)" if "ms \<noteq> []"
    using Cons.prems(2,3) n that unfolding whole by (intro Cons.IH) (auto simp: rest_def)
  have key: "scan_string (json_escape k @ CHR 0x22 # CHR '':'' # t @ rest) = Some (json_escape k, CHR '':'' # t @ rest)"
    "unquote (json_escape k) = k" using json_escape_read [OF k] by auto
  show ?case
    unfolding whole unfolding n json_string_def append_Cons append_assoc append_Nil using key val more reads_skip [OF rd, of rest] consumed_append [of t rest] x
    by (cases "ms = []") (simp_all add: skip_space_nonspace is_json_space_def rest_def)
qed simp

subsection \<open>Values\<close>

fun value_of :: "json \<Rightarrow> jvalue" where
  "value_of JNull = VNull"
| "value_of (JBool b) = VBool b"
| "value_of (JInt i) = VNum (int_digits i)"
| "value_of (JString s) = VString s"
| "value_of (JArray xs) = VArray (map (\<lambda>x. (marshal x, value_of x)) xs)"
| "value_of (JObject fs) = VObject (map (\<lambda>f. (fst f, marshal (snd f), value_of (snd f))) fs)"

fun all_utf8 :: "json \<Rightarrow> bool" where
  "all_utf8 (JString s) = utf8_valid s"
| "all_utf8 (JArray xs) = list_all all_utf8 xs"
| "all_utf8 (JObject fs) = list_all (\<lambda>f. utf8_valid (fst f) \<and> all_utf8 (snd f)) fs"
| "all_utf8 _ = True"

fun json_depth :: "json \<Rightarrow> nat" where
  "json_depth (JArray xs) = Suc (Max (insert 0 (json_depth ` set xs)))"
| "json_depth (JObject fs) = Suc (Max (insert 0 ((\<lambda>f. json_depth (snd f)) ` set fs)))"
| "json_depth _ = 0"

lemma reads_number:
  assumes "json_number t"
  shows "reads d t (VNum t)"
proof -
  have "t \<noteq> []" using assms by (auto simp: json_number_def scan_number_def scan_integer_def)
  then obtain c s where t: "t = c # s" by (cases t) auto
  have "\<exists>u. scan_integer t = Some u" if "c \<noteq> CHR ''-''"
    using assms t that by (auto simp: json_number_def scan_number_def split: option.splits)
  then have c: "c = CHR ''-'' \<or> is_digit c"
    using t by (auto simp: scan_integer_def is_digit_def split: if_splits)
  then have "\<not> is_json_space c" "c \<noteq> CHR 0x22" "c \<noteq> CHR ''[''" "c \<noteq> CHR ''{''" "c \<noteq> CHR ''t''" "c \<noteq> CHR ''f''" "c \<noteq> CHR ''n''"
    by (auto simp: is_json_space_def is_digit_def)
  moreover have "scan_number (t @ r) = Some (t, r)" if "delimited r" for r
    using scan_number_extend [of t t "[]" r] assms that by (simp add: json_number_def)
  ultimately have "parse_value n d (t @ r) = Some (VNum t, r)" if "delimited r" "2 * length (t @ r) < n" for n r
    using that t by (cases n) (simp_all add: skip_space_nonspace)
  then show ?thesis using t \<open>\<not> is_json_space c\<close> by (simp add: reads_def skip_space_nonspace)
qed

lemma reads_string: "utf8_valid s \<Longrightarrow> reads d (json_string s) (VString s)"
proof -
  assume s: "utf8_valid s"
  have "parse_value n d (json_string s @ r) = Some (VString s, r)" if "2 * length (json_string s @ r) < n" for n r
    using json_escape_read [OF s, of r] that by (cases n) (simp_all add: json_string_def skip_space_nonspace is_json_space_def)
  then show ?thesis by (simp add: reads_def) (simp add: json_string_def skip_space_nonspace is_json_space_def)
qed

lemma reads_literals: "reads d ''null'' VNull" "reads d ''true'' (VBool True)" "reads d ''false'' (VBool False)"
proof -
  have sp: "skip_space (''null'' @ r) = ''null'' @ r" "skip_space (''true'' @ r) = ''true'' @ r" "skip_space (''false'' @ r) = ''false'' @ r" for r
    by (simp_all add: skip_space_nonspace is_json_space_def)
  show "reads d ''null'' VNull" "reads d ''true'' (VBool True)" "reads d ''false'' (VBool False)"
    unfolding reads_def using sp [of "[]"] sp by (auto simp: scan_literal_def gr0_conv_Suc dest!: less_imp_Suc_add)
qed

lemma reads_array:
  assumes "list_all (\<lambda>(t, v). reads (Suc d) t v) xs" "Suc d \<le> maxNestingDepth"
  shows "reads d (CHR ''['' # commas (map fst xs) @ '']'') (VArray xs)"
proof -
  have "parse_value n d ((CHR ''['' # commas (map fst xs) @ '']'') @ r) = Some (VArray xs, r)"
    if n: "2 * length ((CHR ''['' # commas (map fst xs) @ '']'') @ r) < n" for n r
  proof -
    obtain m where m: "n = Suc m" using n by (cases n) auto
    show ?thesis
    proof (cases xs)
      case Nil
      then show ?thesis using m assms(2) by (simp add: skip_space_nonspace is_json_space_def)
    next
      case (Cons x ys)
      obtain t v where x: "x = (t, v)" by (cases x)
      have rd: "reads (Suc d) t v" using assms(1) Cons x by simp
      have items: "parse_items m (Suc d) (commas (map fst xs) @ CHR '']'' # r) = Some (xs, r)"
        using n m Cons by (intro parse_items_text assms(1)) simp_all
      have hd: "skip_space (commas (map fst xs) @ CHR '']'' # r) = commas (map fst xs) @ CHR '']'' # r"
        using reads_skip [OF rd] Cons x by (cases ys) simp_all
      obtain a w where a: "t = a # w" using rd by (cases t) (auto simp: reads_def)
      have "a \<noteq> CHR '']''" using readsD [OF rd, of "[]" "2 * length t + 1"] a rd
        by (auto simp: reads_def skip_space_nonspace is_json_space_def scan_number_def scan_integer_def is_digit_def)
      then obtain e q where e: "commas (map fst xs) @ CHR '']'' # r = e # q" "e \<noteq> CHR '']''"
        using Cons x a by (cases ys) simp_all
      show ?thesis using m assms(2) items hd e by (simp add: skip_space_nonspace is_json_space_def)
    qed
  qed
  then show ?thesis by (simp add: reads_def skip_space_nonspace is_json_space_def)
qed

lemma reads_object:
  assumes "list_all (\<lambda>(k, t, v). utf8_valid k \<and> reads (Suc d) t v) ms" "Suc d \<le> maxNestingDepth"
  shows "reads d (CHR ''{'' # commas (map (\<lambda>(k, t, v). json_string k @ CHR '':'' # t) ms) @ ''}'') (VObject ms)"
proof -
  let ?txt = "commas (map (\<lambda>(k, t, v). json_string k @ CHR '':'' # t) ms)"
  have "parse_value n d ((CHR ''{'' # ?txt @ ''}'') @ r) = Some (VObject ms, r)"
    if n: "2 * length ((CHR ''{'' # ?txt @ ''}'') @ r) < n" for n r
  proof -
    obtain m where m: "n = Suc m" using n by (cases n) auto
    show ?thesis
    proof (cases ms)
      case Nil
      then show ?thesis using m assms(2) by (simp add: skip_space_nonspace is_json_space_def)
    next
      case (Cons x ys)
      obtain q where q: "?txt @ CHR ''}'' # r = CHR 0x22 # q"
        using Cons by (cases x; cases ys) (simp_all add: json_string_def)
      have "parse_members m (Suc d) (?txt @ CHR ''}'' # r) = Some (ms, r)"
        using n m Cons by (intro parse_members_text assms(1)) simp_all
      then show ?thesis using m assms(2) q by (simp add: skip_space_nonspace is_json_space_def)
    qed
  qed
  then show ?thesis by (simp add: reads_def skip_space_nonspace is_json_space_def)
qed

lemma reads_marshal: "all_utf8 j \<Longrightarrow> d + json_depth j \<le> maxNestingDepth \<Longrightarrow> reads d (marshal j) (value_of j)"
proof (induction j arbitrary: d)
  case (JArray xs)
  have "reads (Suc d) (marshal x) (value_of x)" if "x \<in> set xs" for x
  proof (rule JArray.IH [OF that])
    show "all_utf8 x" using JArray.prems(1) that by (simp add: list_all_iff)
    have "json_depth x \<le> Max (insert 0 (json_depth ` set xs))" using that by (intro Max_ge) auto
    then show "Suc d + json_depth x \<le> maxNestingDepth" using JArray.prems(2) by simp
  qed
  then show ?case
    using reads_array [of d "map (\<lambda>x. (marshal x, value_of x)) xs"] JArray.prems(2) by (simp add: list_all_iff comp_def)
next
  case (JObject fs)
  have "utf8_valid (fst f) \<and> reads (Suc d) (marshal (snd f)) (value_of (snd f))" if "f \<in> set fs" for f
  proof
    show "utf8_valid (fst f)" using JObject.prems(1) that by (simp add: list_all_iff)
    show "reads (Suc d) (marshal (snd f)) (value_of (snd f))"
    proof (rule JObject.IH [OF that])
      show "snd f \<in> Basic_BNFs.snds f" by (simp add: snds.simps)
      show "all_utf8 (snd f)" using JObject.prems(1) that by (simp add: list_all_iff)
      have "json_depth (snd f) \<le> Max (insert 0 ((\<lambda>f. json_depth (snd f)) ` set fs))" using that by (intro Max_ge) auto
      then show "Suc d + json_depth (snd f) \<le> maxNestingDepth" using JObject.prems(2) by simp
    qed
  qed
  then show ?case
    using reads_object [of d "map (\<lambda>f. (fst f, marshal (snd f), value_of (snd f))) fs"] JObject.prems(2)
    by (simp add: list_all_iff comp_def)
qed (simp_all add: reads_literals reads_number [OF json_number_int] reads_string)

lemma read_marshal:
  assumes "all_utf8 j" "json_depth j \<le> maxNestingDepth"
  shows "unmarshal_value (marshal j) = Some (value_of j)" "read_value (marshal j) = Some (value_of j, [])"
proof -
  have "reads 0 (marshal j) (value_of j)" by (rule reads_marshal) (use assms in simp_all)
  then show "read_value (marshal j) = Some (value_of j, [])"
    using readsD [of 0 "marshal j" "value_of j" "[]" "2 * length (marshal j) + 1"] by (simp add: read_value_def)
  then show "unmarshal_value (marshal j) = Some (value_of j)" by (simp add: unmarshal_value_def skip_space_def)
qed

lemma json_plain_utf8: "json_plain s \<Longrightarrow> utf8_valid s"
  by (induction s) (auto simp: utf8_size_def json_plain_char_def)

lemma all_plain_utf8: "all_plain j \<Longrightarrow> all_utf8 j"
  by (induction j) (auto simp: list_all_iff json_plain_utf8 snds.simps)

subsection \<open>Integers\<close>

lemma parse_int64_digits: "parse_int64 (int_digits (sint n)) = Some n"
proof -
  have range: "- 9223372036854775808 \<le> sint n" "sint n \<le> 9223372036854775807"
    using sint_range_size [of n] by (auto simp: word_size)
  have self: "n = word_of_int (sint n)" by (simp only: scast_eq [symmetric] scast_id)
  show ?thesis
  proof (cases "sint n" rule: int_digits_cases)
    case (neg m)
    then have "n = word_of_int (- int m)" using self by simp
    then show ?thesis using range neg nat_digits_digits [of m] by (simp add: parse_int64_def)
  next
    case (nonneg m)
    obtain c s where "nat_digits m = c # s" "is_digit c" using nat_digits_head [of m] by blast
    moreover have "n = word_of_int (int m)" using nonneg self by simp
    ultimately show ?thesis using range nonneg nat_digits_digits [of m] digits_value_nat_digits [of m]
      by (auto simp: parse_int64_def is_digit_def)
  qed
qed

subsection \<open>Struct fields\<close>

lemma decode_members_invariant:
  assumes "decode_members strict fields ms x = Some y" "P x"
    and "\<And>n f v x y. (n, f) \<in> set fields \<Longrightarrow> P x \<Longrightarrow> f v x = Some y \<Longrightarrow> P y"
  shows "P y"
  using assms(1,2)
proof (induction ms arbitrary: x)
  case (Cons m ms)
  obtain k v where m: "m = (k, v)" by (cases m)
  show ?case
  proof (cases "find_field k fields")
    case None
    then show ?thesis using Cons m by (auto split: if_splits)
  next
    case (Some f)
    then obtain z where z: "f v x = Some z" "decode_members strict fields ms z = Some y"
      using Cons.prems(1) m by (auto split: option.splits)
    have "\<exists>n. (n, f) \<in> set fields"
      using Some by (auto simp: find_field_def split: option.splits dest!: map_of_SomeD)
    then have "P z" using assms(3) Cons.prems(2) z(1) by blast
    then show ?thesis using Cons.IH z(2) by blast
  qed
qed simp

end
