(* ===== verification/Backend.thy ===== *)
theory Backend
  imports GoText JsonRoundtrip Price
begin

section \<open>The backend client\<close>

text \<open>
  \<open>internal/backend\<close>: the strict parser of chat requests, the request the gateway rebuilds from the
  supported fields, the parser of the backend's response with its usage, the error codes and the HTTP
  client. Conversion of numbers between text and \<open>float64\<close>, the URL parser and the transport are
  parameters.
\<close>

subsection \<open>Errors\<close>

datatype backend_error =
  ErrInvalidRequest | ErrTimeout | ErrUnavailable | ErrInvalidResponse | ErrResponseTooLarge | ErrUsageInvalid | ErrInvalidConfig

definition Code :: "backend_error \<Rightarrow> string" where
  "Code err =
     (case err of
        ErrTimeout \<Rightarrow> ''timeout''
      | ErrUnavailable \<Rightarrow> ''unavailable''
      | ErrInvalidResponse \<Rightarrow> ''invalid_response''
      | ErrInvalidRequest \<Rightarrow> ''invalid_response''
      | ErrResponseTooLarge \<Rightarrow> ''response_too_large''
      | ErrUsageInvalid \<Rightarrow> ''usage_invalid''
      | _ \<Rightarrow> ''unavailable'')"

subsection \<open>Requests\<close>

record Message =
  msg_Role :: string
  msg_Content :: string

record ChatRequest =
  cq_Model :: string
  cq_Messages :: "Message list"
  cq_Temperature :: "float64 option"
  cq_MaxTokens :: "int64 option"

record wireMessage =
  wm_Role :: string
  wm_Content :: "bytes option"
  wm_Name :: "bytes option"
  wm_ToolCalls :: "bytes option"

record wireChatRequest =
  wq_Model :: string
  wq_Messages :: "wireMessage cells"
  wq_Temperature :: "float64 option"
  wq_MaxTokens :: "int64 option"
  wq_Stream :: "bool option"
  wq_Tools :: "bytes option"
  wq_Functions :: "bytes option"
  wq_Modalities :: "bytes option"
  wq_ToolChoice :: "bytes option"

definition zero_message :: wireMessage where
  "zero_message = \<lparr>wm_Role = [], wm_Content = None, wm_Name = None, wm_ToolCalls = None\<rparr>"

definition zero_request :: wireChatRequest where
  "zero_request = \<lparr>wq_Model = [], wq_Messages = ([], 0), wq_Temperature = None, wq_MaxTokens = None, wq_Stream = None,
     wq_Tools = None, wq_Functions = None, wq_Modalities = None, wq_ToolChoice = None\<rparr>"

definition present :: "bytes option \<Rightarrow> bool" where
  "present raw = (case raw of None \<Rightarrow> False | Some b \<Rightarrow> 0 < length b)"

definition message_fields :: "(string \<times> wireMessage decoder) list" where
  "message_fields =
     [(''role'', field decode_string wm_Role wm_Role_update),
      (''content'', field decode_raw wm_Content wm_Content_update),
      (''name'', field decode_raw wm_Name wm_Name_update),
      (''tool_calls'', field decode_raw wm_ToolCalls wm_ToolCalls_update)]"

definition decode_float :: "(string \<Rightarrow> float64 option) \<Rightarrow> float64 decoder" where
  "decode_float parse_float = (\<lambda>(_, v) x. case v of VNum t \<Rightarrow> parse_float t | VNull \<Rightarrow> Some x | _ \<Rightarrow> None)"

definition request_fields :: "(string \<Rightarrow> float64 option) \<Rightarrow> (string \<times> wireChatRequest decoder) list" where
  "request_fields parse_float =
     [(''model'', field decode_string wq_Model wq_Model_update),
      (''messages'', field (decode_slice (decode_struct True message_fields) zero_message) wq_Messages wq_Messages_update),
      (''temperature'', field (decode_pointer (decode_float parse_float) 0) wq_Temperature wq_Temperature_update),
      (''max_tokens'', field (decode_pointer decode_int64 0) wq_MaxTokens wq_MaxTokens_update),
      (''stream'', field (decode_pointer decode_bool False) wq_Stream wq_Stream_update),
      (''tools'', field decode_raw wq_Tools wq_Tools_update),
      (''functions'', field decode_raw wq_Functions wq_Functions_update),
      (''modalities'', field decode_raw wq_Modalities wq_Modalities_update),
      (''tool_choice'', field decode_raw wq_ToolChoice wq_ToolChoice_update)]"

definition role_ok :: "string \<Rightarrow> bool" where
  "role_ok r \<longleftrightarrow> r = ''system'' \<or> r = ''user'' \<or> r = ''assistant''"

definition unmarshal_content :: "bytes option \<Rightarrow> string option" where
  "unmarshal_content raw =
     (case unmarshal_value (slice_list raw) of None \<Rightarrow> None | Some v \<Rightarrow> decode_string (slice_list raw, v) [])"

fun messages_from_wire :: "wireMessage list \<Rightarrow> Message list option" where
  "messages_from_wire [] = Some []"
| "messages_from_wire (m # ms) =
     (if \<not> role_ok (wm_Role m) then None
      else if present (wm_ToolCalls m) \<or> present (wm_Name m) then None
      else case unmarshal_content (wm_Content m) of
          None \<Rightarrow> None
        | Some content \<Rightarrow>
            if content = [] \<and> wm_Role m \<noteq> ''assistant'' then None
            else map_option (\<lambda>r. \<lparr>msg_Role = wm_Role m, msg_Content = content\<rparr> # r) (messages_from_wire ms))"

definition temperature_ok :: "float64 option \<Rightarrow> bool" where
  "temperature_ok t = (case t of None \<Rightarrow> True | Some x \<Rightarrow> \<not> (f64_negative x \<or> f64_above_two x))"

definition max_tokens_ok :: "int64 option \<Rightarrow> bool" where
  "max_tokens_ok m = (case m of None \<Rightarrow> True | Some n \<Rightarrow> \<not> n \<le>s 0)"

definition chatRequestFromWire :: "wireChatRequest \<Rightarrow> backend_error + ChatRequest" where
  "chatRequestFromWire wire =
     (if wq_Stream wire = Some True then Inl ErrInvalidRequest
      else if present (wq_Tools wire) \<or> present (wq_Functions wire) \<or> present (wq_Modalities wire) \<or> present (wq_ToolChoice wire)
        then Inl ErrInvalidRequest
      else if blank (wq_Model wire) \<or> length (shown (wq_Messages wire)) = 0 \<or> 128 < length (shown (wq_Messages wire))
        then Inl ErrInvalidRequest
      else case messages_from_wire (shown (wq_Messages wire)) of
          None \<Rightarrow> Inl ErrInvalidRequest
        | Some messages \<Rightarrow>
            if \<not> temperature_ok (wq_Temperature wire) then Inl ErrInvalidRequest
            else if \<not> max_tokens_ok (wq_MaxTokens wire) then Inl ErrInvalidRequest
            else Inr \<lparr>cq_Model = wq_Model wire, cq_Messages = messages, cq_Temperature = wq_Temperature wire,
                      cq_MaxTokens = wq_MaxTokens wire\<rparr>)"

definition ParseChatRequest :: "(string \<Rightarrow> float64 option) \<Rightarrow> bytes \<Rightarrow> backend_error + ChatRequest" where
  "ParseChatRequest parse_float raw =
     (if length raw = 0 \<or> 1048576 < length raw then Inl ErrInvalidRequest
      else case read_value raw of
          None \<Rightarrow> Inl ErrInvalidRequest
        | Some (v, rest) \<Rightarrow>
            case decode_struct True (request_fields parse_float) ([], v) zero_request of
              None \<Rightarrow> Inl ErrInvalidRequest
            | Some wire \<Rightarrow> if decoder_More rest then Inl ErrInvalidRequest else chatRequestFromWire wire)"

definition validateChatRequest :: "ChatRequest \<Rightarrow> bool" where
  "validateChatRequest req =
     (if blank (cq_Model req) \<or> length (cq_Messages req) = 0 \<or> 128 < length (cq_Messages req) then False
      else if \<not> list_all (\<lambda>m. role_ok (msg_Role m) \<and> \<not> (msg_Content m = [] \<and> msg_Role m \<noteq> ''assistant'')) (cq_Messages req)
        then False
      else if \<not> temperature_ok (cq_Temperature req) then False
      else max_tokens_ok (cq_MaxTokens req))"

definition message_json :: "Message \<Rightarrow> json" where
  "message_json m = JObject [(''role'', JString (msg_Role m)), (''content'', JString (msg_Content m))]"

definition member :: "string \<Rightarrow> string \<Rightarrow> string" where
  "member k t = json_string k @ CHR '':'' # t"

definition encodeChatRequest :: "(float64 \<Rightarrow> string) \<Rightarrow> ChatRequest \<Rightarrow> backend_error + bytes" where
  "encodeChatRequest format_float req =
     (if \<not> validateChatRequest req then Inl ErrInvalidRequest
      else if (case cq_Temperature req of None \<Rightarrow> False | Some x \<Rightarrow> \<not> f64_finite x) then Inl ErrInvalidRequest
      else Inr (CHR ''{'' # commas
        ([member ''model'' (json_string (cq_Model req)), member ''messages'' (marshal (JArray (map message_json (cq_Messages req))))] @
         (case cq_Temperature req of None \<Rightarrow> [] | Some x \<Rightarrow> [member ''temperature'' (format_float x)]) @
         (case cq_MaxTokens req of None \<Rightarrow> [] | Some n \<Rightarrow> [member ''max_tokens'' (int_digits (sint n))])) @ ''}''))"

subsection \<open>Responses\<close>

record Usage =
  us_PromptTokens :: int64
  us_CompletionTokens :: int64
  us_TotalTokens :: int64

record ChatResult =
  cr_ID :: string
  cr_Model :: string
  cr_Content :: string
  cr_Usage :: Usage
  cr_RawJSON :: bytes

record wireReply =
  wy_Role :: string
  wy_Content :: string

record wireChoice =
  wc_Index :: int64
  wc_Message :: wireReply
  wc_FinishReason :: string

record wireChatResponse =
  wr_ID :: string
  wr_Object :: string
  wr_Model :: string
  wr_Choices :: "wireChoice cells"
  wr_Usage :: "Usage option"

definition zero_usage :: Usage where "zero_usage = \<lparr>us_PromptTokens = 0, us_CompletionTokens = 0, us_TotalTokens = 0\<rparr>"
definition zero_choice :: wireChoice where
  "zero_choice = \<lparr>wc_Index = 0, wc_Message = \<lparr>wy_Role = [], wy_Content = []\<rparr>, wc_FinishReason = []\<rparr>"
definition zero_response :: wireChatResponse where
  "zero_response = \<lparr>wr_ID = [], wr_Object = [], wr_Model = [], wr_Choices = ([], 0), wr_Usage = None\<rparr>"

definition usage_fields :: "(string \<times> Usage decoder) list" where
  "usage_fields =
     [(''prompt_tokens'', field decode_int64 us_PromptTokens us_PromptTokens_update),
      (''completion_tokens'', field decode_int64 us_CompletionTokens us_CompletionTokens_update),
      (''total_tokens'', field decode_int64 us_TotalTokens us_TotalTokens_update)]"

definition choice_fields :: "(string \<times> wireChoice decoder) list" where
  "choice_fields =
     [(''index'', field decode_int64 wc_Index wc_Index_update),
      (''message'', field (decode_struct False
         [(''role'', field decode_string wy_Role wy_Role_update), (''content'', field decode_string wy_Content wy_Content_update)])
         wc_Message wc_Message_update),
      (''finish_reason'', field decode_string wc_FinishReason wc_FinishReason_update)]"

definition response_fields :: "(string \<times> wireChatResponse decoder) list" where
  "response_fields =
     [(''id'', field decode_string wr_ID wr_ID_update),
      (''object'', field decode_string wr_Object wr_Object_update),
      (''model'', field decode_string wr_Model wr_Model_update),
      (''choices'', field (decode_slice (decode_struct False choice_fields) zero_choice) wr_Choices wr_Choices_update),
      (''usage'', field (decode_pointer (decode_struct False usage_fields) zero_usage) wr_Usage wr_Usage_update)]"

definition validateUsage :: "Usage \<Rightarrow> bool" where
  "validateUsage usage =
     (if us_PromptTokens usage <s 0 \<or> us_CompletionTokens usage <s 0 \<or> us_TotalTokens usage <s 0 then False
      else us_TotalTokens usage = us_PromptTokens usage + us_CompletionTokens usage)"

definition parseChatResponse :: "bytes \<Rightarrow> backend_error + ChatResult" where
  "parseChatResponse raw =
     (case Option.bind (unmarshal_value raw) (\<lambda>v. decode_struct False response_fields ([], v) zero_response) of
        None \<Rightarrow> Inl ErrInvalidResponse
      | Some wire \<Rightarrow>
          if wr_Object wire \<noteq> [] \<and> wr_Object wire \<noteq> ''chat.completion'' then Inl ErrInvalidResponse
          else case shown (wr_Choices wire) of
              [] \<Rightarrow> Inl ErrInvalidResponse
            | choice # _ \<Rightarrow>
                if wy_Role (wc_Message choice) \<noteq> [] \<and> wy_Role (wc_Message choice) \<noteq> ''assistant'' then Inl ErrInvalidResponse
                else case wr_Usage wire of
                    None \<Rightarrow> Inl ErrUsageInvalid
                  | Some usage \<Rightarrow>
                      if \<not> validateUsage usage then Inl ErrUsageInvalid
                      else Inr \<lparr>cr_ID = wr_ID wire, cr_Model = wr_Model wire, cr_Content = wy_Content (wc_Message choice),
                                cr_Usage = usage, cr_RawJSON = raw\<rparr>)"

subsection \<open>The client\<close>

record BackendConfig =
  bc_BaseURL :: string
  bc_Credential :: string
  bc_Timeout :: int64
  bc_MaxResponseBytes :: int64
  bc_AllowInsecure :: bool

record Client =
  cl_baseURL :: string
  cl_credential :: string
  cl_timeout :: int64
  cl_maxResponseBytes :: int64

definition validateBaseURL :: "(string \<Rightarrow> url option) \<Rightarrow> string \<Rightarrow> bool \<Rightarrow> bool" where
  "validateBaseURL url_parse raw allowInsecure =
     (case url_parse raw of
        None \<Rightarrow> False
      | Some parsed \<Rightarrow>
          if url_Host parsed = [] then False
          else if url_has_User parsed \<or> url_RawQuery parsed \<noteq> [] \<or> url_Fragment parsed \<noteq> [] then False
          else if has_prefix raw ''https://'' then True
          else if has_prefix raw ''http://'' then loopback (url_Hostname parsed) \<or> allowInsecure
          else False)"

definition NewClient :: "(string \<Rightarrow> url option) \<Rightarrow> BackendConfig \<Rightarrow> backend_error + Client" where
  "NewClient url_parse cfg =
     (if bc_Timeout cfg \<le>s 0 \<or> bc_MaxResponseBytes cfg \<le>s 0 then Inl ErrInvalidConfig
      else if \<not> validateBaseURL url_parse (bc_BaseURL cfg) (bc_AllowInsecure cfg) then Inl ErrInvalidConfig
      else Inr \<lparr>cl_baseURL = trim_slashes (bc_BaseURL cfg), cl_credential = bc_Credential cfg, cl_timeout = bc_Timeout cfg,
                cl_maxResponseBytes = bc_MaxResponseBytes cfg\<rparr>)"

record http_request =
  hr_URL :: string
  hr_Headers :: "(string \<times> string) list"
  hr_Body :: bytes

text \<open>
  What a round trip does: it fails, or gives a status and a body. The flag of a failure says whether
  the deadline of the request's context had passed.
\<close>

datatype http_outcome = Do_failed bool | Replied int stream bool

definition backend_headers :: "string \<Rightarrow> (string \<times> string) list" where
  "backend_headers credential =
     [(''Content-Type'', ''application/json''), (''Accept'', ''application/json'')] @
     (if credential \<noteq> [] then [(''Authorization'', ''Bearer '' @ credential)] else [])"

definition classify_reply :: "int64 \<Rightarrow> http_outcome \<Rightarrow> backend_error + ChatResult" where
  "classify_reply maxResponseBytes outcome =
     (case outcome of
        Do_failed expired \<Rightarrow> Inl (if expired then ErrTimeout else ErrUnavailable)
      | Replied status body expired \<Rightarrow>
          case read_all (maxResponseBytes + 1) body of
            None \<Rightarrow> Inl (if expired then ErrTimeout else ErrUnavailable)
          | Some raw \<Rightarrow>
              if maxResponseBytes <s len64 raw then Inl ErrResponseTooLarge
              else if status < 200 \<or> 300 \<le> status then Inl ErrUnavailable
              else parseChatResponse raw)"

definition ChatCompletions ::
  "(string \<Rightarrow> url option) \<Rightarrow> (float64 \<Rightarrow> string) \<Rightarrow> (http_request \<Rightarrow> 'w \<Rightarrow> http_outcome \<times> 'w) \<Rightarrow> Client option \<Rightarrow> ChatRequest \<Rightarrow>
   'w \<Rightarrow> (backend_error + ChatResult) \<times> 'w" where
  "ChatCompletions url_parse format_float transport client request w =
     (case client of
        None \<Rightarrow> (Inl ErrUnavailable, w)
      | Some cl \<Rightarrow>
          case encodeChatRequest format_float request of
            Inl e \<Rightarrow> (Inl e, w)
          | Inr body \<Rightarrow>
              let target = cl_baseURL cl @ ''/v1/chat/completions'' in
              if url_parse target = None then (Inl ErrUnavailable, w)
              else case transport \<lparr>hr_URL = target, hr_Headers = backend_headers (cl_credential cl), hr_Body = body\<rparr> w of
                  (outcome, w') \<Rightarrow> (classify_reply (cl_maxResponseBytes cl) outcome, w'))"

subsection \<open>Accepted requests\<close>

lemma messages_from_wire_Some:
  "messages_from_wire ms = Some ns \<Longrightarrow> length ns = length ms \<and>
   list_all (\<lambda>m. role_ok (msg_Role m) \<and> \<not> (msg_Content m = [] \<and> msg_Role m \<noteq> ''assistant'')) ns"
proof (induction ms arbitrary: ns)
  case (Cons m ms)
  then show ?case by (auto split: if_splits option.splits)
qed simp

lemma chatRequestFromWire_Inr:
  assumes "chatRequestFromWire wire = Inr req"
  shows "validateChatRequest req" "cq_Temperature req = wq_Temperature wire" "wq_Stream wire \<noteq> Some True"
  using assms messages_from_wire_Some [of "shown (wq_Messages wire)"]
  by (auto simp: chatRequestFromWire_def validateChatRequest_def split: if_splits option.splits)

lemma ParseChatRequest_Inr:
  assumes "ParseChatRequest parse_float raw = Inr req"
  obtains v wire where "decode_struct True (request_fields parse_float) ([], v) zero_request = Some wire"
    "chatRequestFromWire wire = Inr req" "raw \<noteq> []" "length raw \<le> 2 ^ 20"
proof -
  have raw: "raw \<noteq> []" "length raw \<le> 1048576" using assms by (auto simp: ParseChatRequest_def split: if_splits)
  obtain v rest where v: "read_value raw = Some (v, rest)" using assms raw by (cases "read_value raw") (auto simp: ParseChatRequest_def)
  obtain wire where wire: "decode_struct True (request_fields parse_float) ([], v) zero_request = Some wire"
    using assms raw v by (cases "decode_struct True (request_fields parse_float) ([], v) zero_request") (auto simp: ParseChatRequest_def)
  have "chatRequestFromWire wire = Inr req" using assms raw v wire by (auto simp: ParseChatRequest_def split: if_splits)
  then show thesis using wire raw by (intro that) simp_all
qed

lemma decode_request_temperature:
  assumes "decode_struct True (request_fields parse_float) v zero_request = Some wire"
    and finite: "\<And>t x. parse_float t = Some x \<Longrightarrow> f64_finite x"
  shows "\<forall>x. wq_Temperature wire = Some x \<longrightarrow> f64_finite x"
proof -
  have "f64_finite 0" by (simp add: f64_finite_def f64_magnitude_def)
  then have step: "\<forall>x. y = Some x \<longrightarrow> f64_finite x"
    if "decode_pointer (decode_float parse_float) 0 w z = Some y" "\<forall>x. z = Some x \<longrightarrow> f64_finite x" for w y z
    using that finite
    by (cases w) (auto simp: decode_pointer_def decode_float_def split: jvalue.splits option.splits)
  have keep: "\<forall>x. wq_Temperature y = Some x \<longrightarrow> f64_finite x"
    if mem: "(n, f) \<in> set (request_fields parse_float)" and inv: "\<forall>x. wq_Temperature w = Some x \<longrightarrow> f64_finite x"
      and run: "f u w = Some y" for n f u w y
  proof -
    from mem consider "f = field (decode_pointer (decode_float parse_float) 0) wq_Temperature wq_Temperature_update"
      | "wq_Temperature y = wq_Temperature w"
      using run unfolding request_fields_def by (auto simp: field_def)
    then show ?thesis
    proof cases
      case 1
      then obtain z where "decode_pointer (decode_float parse_float) 0 u (wq_Temperature w) = Some z" "wq_Temperature y = z"
        using run by (auto simp: field_def)
      then show ?thesis using step [OF _ inv] by blast
    qed (use inv in simp)
  qed
  obtain raw u where v: "v = (raw, u)" by (cases v)
  show ?thesis
  proof (cases u)
    case (VObject ms)
    then have "decode_members True (request_fields parse_float) ms zero_request = Some wire"
      using assms(1) v by (simp add: decode_struct_def)
    then show ?thesis
      by (rule decode_members_invariant) (use keep in \<open>auto simp: zero_request_def\<close>)
  qed (use assms(1) v in \<open>auto simp: decode_struct_def zero_request_def\<close>)
qed

lemma encodeChatRequest_defined:
  assumes "validateChatRequest req" "\<forall>x. cq_Temperature req = Some x \<longrightarrow> f64_finite x"
  shows "\<exists>body. encodeChatRequest format_float req = Inr body"
  using assms by (cases "cq_Temperature req") (simp_all add: encodeChatRequest_def)

subsection \<open>Encoded requests parse back\<close>

lemma json_string_marshal: "json_string s = marshal (JString s)"
  by simp

lemma unmarshal_content_string: "utf8_valid c \<Longrightarrow> unmarshal_content (Some (json_string c)) = Some c"
  unfolding json_string_marshal by (simp add: unmarshal_content_def read_marshal maxNestingDepth_def decode_string_def del: marshal.simps)

definition wire_message :: "Message \<Rightarrow> wireMessage" where
  "wire_message m = \<lparr>wm_Role = msg_Role m, wm_Content = Some (json_string (msg_Content m)), wm_Name = None, wm_ToolCalls = None\<rparr>"

lemma decode_message:
  "decode_struct True message_fields (raw, value_of (message_json m)) zero_message = Some (wire_message m)"
  by (simp add: decode_struct_def message_json_def message_fields_def find_field_def field_def decode_string_def decode_raw_def
      zero_message_def wire_message_def)

lemma decode_message_cells:
  "decode_cells (decode_struct True message_fields) zero_message (map (\<lambda>m. (marshal (message_json m), value_of (message_json m))) ms) [] =
   Some (map wire_message ms)"
  by (induction ms) (simp_all add: decode_message del: marshal.simps)

lemma decode_messages:
  "decode_slice (decode_struct True message_fields) zero_message (raw, value_of (JArray (map message_json ms))) ([], 0) =
   Some (map wire_message ms, length ms)"
proof (cases ms)
  case (Cons m ns)
  then show ?thesis
    using decode_message_cells [of ms] by (simp add: decode_slice_def comp_def del: marshal.simps decode_cells.simps)
qed (simp add: decode_slice_def)

lemma messages_from_wire_message:
  "list_all (\<lambda>m. role_ok (msg_Role m) \<and> \<not> (msg_Content m = [] \<and> msg_Role m \<noteq> ''assistant'')) ms \<Longrightarrow>
   list_all (\<lambda>m. utf8_valid (msg_Content m)) ms \<Longrightarrow> messages_from_wire (map wire_message ms) = Some ms"
  by (induction ms) (auto simp: wire_message_def present_def unmarshal_content_string)

definition request_members :: "(float64 \<Rightarrow> string) \<Rightarrow> ChatRequest \<Rightarrow> (bytes \<times> bytes \<times> jvalue) list" where
  "request_members format_float req =
     [(''model'', json_string (cq_Model req), VString (cq_Model req)),
      (''messages'', marshal (JArray (map message_json (cq_Messages req))), value_of (JArray (map message_json (cq_Messages req))))] @
     (case cq_Temperature req of None \<Rightarrow> [] | Some x \<Rightarrow> [(''temperature'', format_float x, VNum (format_float x))]) @
     (case cq_MaxTokens req of None \<Rightarrow> [] | Some n \<Rightarrow> [(''max_tokens'', int_digits (sint n), VNum (int_digits (sint n)))])"

lemma encodeChatRequest_text:
  "encodeChatRequest format_float req = Inr body \<Longrightarrow>
   body = CHR ''{'' # commas (map (\<lambda>(k, t, v). json_string k @ CHR '':'' # t) (request_members format_float req)) @ ''}''"
  by (auto simp: encodeChatRequest_def request_members_def member_def simp del: marshal.simps split: if_splits option.splits)

lemma messages_depth: "json_depth (JArray (map message_json ms)) \<le> 2"
  by (auto simp: message_json_def)

lemma role_ok_utf8: "role_ok r \<Longrightarrow> utf8_valid r"
  by (auto simp: role_ok_def utf8_size_def)

lemma request_members_read:
  assumes "validateChatRequest req" "utf8_valid (cq_Model req)" "list_all (\<lambda>m. utf8_valid (msg_Content m)) (cq_Messages req)"
    and "\<forall>x. cq_Temperature req = Some x \<longrightarrow> json_number (format_float x)"
  shows "list_all (\<lambda>(k, t, v). utf8_valid k \<and> reads 1 t v) (request_members format_float req)"
proof -
  have keys: "utf8_valid ''model''" "utf8_valid ''messages''" "utf8_valid ''temperature''" "utf8_valid ''max_tokens''"
    by (rule json_plain_utf8, simp)+
  have keys2: "utf8_valid ''role''" "utf8_valid ''content''" by (rule json_plain_utf8, simp)+
  have "list_all (\<lambda>m. role_ok (msg_Role m)) (cq_Messages req)"
    using assms(1) by (auto simp: validateChatRequest_def list_all_iff split: if_splits)
  then have "all_utf8 (JArray (map message_json (cq_Messages req)))"
    using assms(3) keys2 by (simp add: message_json_def list_all_iff role_ok_utf8)
  then have "reads 1 (marshal (JArray (map message_json (cq_Messages req)))) (value_of (JArray (map message_json (cq_Messages req))))"
    using messages_depth [of "cq_Messages req"] by (intro reads_marshal) (simp_all add: maxNestingDepth_def del: json_depth.simps)
  then show ?thesis
    using keys assms(2,4) reads_string [of "cq_Model req" 1]
    by (auto simp: request_members_def reads_number json_number_int simp del: marshal.simps value_of.simps utf8_valid.simps split: option.splits)
qed

lemma decode_request_members:
  assumes "\<forall>x. cq_Temperature req = Some x \<longrightarrow> parse_float (format_float x) = Some x"
  shows "decode_struct True (request_fields parse_float) ([], VObject (request_members format_float req)) zero_request =
    Some (zero_request\<lparr>wq_Model := cq_Model req, wq_Messages := (map wire_message (cq_Messages req), length (cq_Messages req)),
      wq_Temperature := cq_Temperature req, wq_MaxTokens := cq_MaxTokens req\<rparr>)"
  using assms decode_messages [of _ "cq_Messages req"]
  by (cases "cq_Temperature req"; cases "cq_MaxTokens req")
    (simp_all add: decode_struct_def request_members_def request_fields_def find_field_def field_def decode_string_def decode_pointer_def
      decode_float_def decode_int64_def parse_int64_digits zero_request_def del: marshal.simps value_of.simps)

lemma chatRequestFromWire_members:
  assumes "validateChatRequest req" "list_all (\<lambda>m. utf8_valid (msg_Content m)) (cq_Messages req)"
  shows "chatRequestFromWire (zero_request\<lparr>wq_Model := cq_Model req, wq_Messages := (map wire_message (cq_Messages req), length (cq_Messages req)),
      wq_Temperature := cq_Temperature req, wq_MaxTokens := cq_MaxTokens req\<rparr>) = Inr req"
  using assms messages_from_wire_message [of "cq_Messages req"]
  by (auto simp: chatRequestFromWire_def zero_request_def present_def shown_def validateChatRequest_def split: if_splits)

lemma encode_parse:
  assumes enc: "encodeChatRequest format_float req = Inr body" and size: "length (body @ rest) \<le> 2 ^ 20"
    and rest: "delimited rest" "\<not> decoder_More rest"
    and utf8: "utf8_valid (cq_Model req)" "list_all (\<lambda>m. utf8_valid (msg_Content m)) (cq_Messages req)"
    and float: "\<And>x. f64_finite x \<Longrightarrow> json_number (format_float x) \<and> parse_float (format_float x) = Some x"
  shows "ParseChatRequest parse_float (body @ rest) = Inr req"
proof -
  note body = encodeChatRequest_text [OF enc]
  have valid: "validateChatRequest req" and temp: "\<forall>x. cq_Temperature req = Some x \<longrightarrow> f64_finite x"
    using enc by (auto simp: encodeChatRequest_def split: if_splits option.splits)
  have "reads 0 body (VObject (request_members format_float req))"
    unfolding body using request_members_read [OF valid utf8] temp float
    by (intro reads_object) (simp_all add: maxNestingDepth_def)
  then have "read_value (body @ rest) = Some (VObject (request_members format_float req), rest)"
    using readsD [of 0 body _ rest "2 * length (body @ rest) + 1"] rest(1) by (simp add: read_value_def)
  moreover have "body \<noteq> []" by (simp add: body)
  ultimately show ?thesis
    using size decode_request_members [of req parse_float format_float] temp float chatRequestFromWire_members [OF valid utf8(2)]
      rest(2) by (simp add: ParseChatRequest_def)
qed

text \<open>
  C24. The request the client sends is read back as the same request, within the parser's limit. For a request whose texts
  are valid UTF-8, \<open>ParseChatRequest\<close> gives that request again from what \<open>encodeChatRequest\<close> produced, whatever characters the
  messages hold, exactly when the encoding has at most 1 MiB: nothing of the supported fields is lost or altered on the way to
  the backend. The decimal text of a finite number has to parse back to that number, as \<open>strconv\<close> promises. A longer encoding is refused; an accepted request can have one, because the encoder writes a character
  like \<open><\<close> as six bytes.
\<close>

theorem encoded_request_parses:
  assumes enc: "encodeChatRequest format_float req = Inr body"
    and utf8: "utf8_valid (cq_Model req)" "list_all (\<lambda>m. utf8_valid (msg_Content m)) (cq_Messages req)"
    and float: "\<And>x. f64_finite x \<Longrightarrow> json_number (format_float x) \<and> parse_float (format_float x) = Some x"
  shows "ParseChatRequest parse_float body = (if length body \<le> 2 ^ 20 then Inr req else Inl ErrInvalidRequest)"
proof (cases "length body \<le> 2 ^ 20")
  case True
  then show ?thesis using encode_parse [of format_float req body "[]" parse_float] assms by (simp add: decoder_More_def skip_space_def)
qed (simp add: ParseChatRequest_def)

text \<open>The sample request, with numbers written as their bits in decimal.\<close>

definition sample_format :: "float64 \<Rightarrow> string" where "sample_format x = nat_digits (unat x)"
definition sample_parse :: "string \<Rightarrow> float64 option" where
  "sample_parse t = (let x = of_nat (digits_value t) in if f64_finite x then Some x else None)"

lemma sample_float: "f64_finite x \<Longrightarrow> json_number (sample_format x) \<and> sample_parse (sample_format x) = Some x"
  using json_number_int [of "int (unat x)"] by (simp add: sample_format_def sample_parse_def int_digits_def)

lemma sample_parse_finite: "sample_parse t = Some x \<Longrightarrow> f64_finite x"
  by (auto simp: sample_parse_def Let_def split: if_splits)

definition sample_chat :: ChatRequest where
  "sample_chat = \<lparr>cq_Model = ''m1'', cq_Messages = [\<lparr>msg_Role = ''user'', msg_Content = ''a<b'' @ [CHR 0x22, CHR 0x0A]\<rparr>],
     cq_Temperature = Some 0, cq_MaxTokens = Some 16\<rparr>"

lemma sample_chat_encodes: "\<exists>body. encodeChatRequest sample_format sample_chat = Inr body \<and> length body < 2 ^ 20"
  by (simp add: encodeChatRequest_def validateChatRequest_def sample_chat_def role_ok_def temperature_ok_def max_tokens_ok_def
      f64_negative_def f64_above_two_def f64_finite_def f64_magnitude_def int64_order member_def message_json_def sample_format_def
      json_string_def json_ascii_def int_digits_def nat_digits.simps)

lemma sample_chat_utf8: "utf8_valid (cq_Model sample_chat)" "list_all (\<lambda>m. utf8_valid (msg_Content m)) (cq_Messages sample_chat)"
  by (simp_all add: sample_chat_def utf8_size_def)

theorem encoded_request_parses_witness:
  "\<exists>body. encodeChatRequest sample_format sample_chat = Inr body \<and> ParseChatRequest sample_parse body = Inr sample_chat"
proof -
  obtain body where body: "encodeChatRequest sample_format sample_chat = Inr body" "length body < 2 ^ 20"
    using sample_chat_encodes by blast
  then show ?thesis
    using encoded_request_parses [OF body(1) sample_chat_utf8, of sample_parse] sample_float by auto
qed

text \<open>
  What follows the request in the body. A supported request followed by a closing bracket or brace and
  any text whatever is accepted like the request alone, although the parser is documented as strict: the
  test for a second value does not look past a closing delimiter.
\<close>

theorem trailing_bracket_accepted:
  assumes "encodeChatRequest format_float req = Inr body" and "c = CHR '']'' \<or> c = CHR ''}''"
    and "length (body @ c # junk) \<le> 2 ^ 20"
    and "utf8_valid (cq_Model req)" "list_all (\<lambda>m. utf8_valid (msg_Content m)) (cq_Messages req)"
    and "\<And>x. f64_finite x \<Longrightarrow> json_number (format_float x) \<and> parse_float (format_float x) = Some x"
  shows "ParseChatRequest parse_float (body @ c # junk) = Inr req"
  using assms by (intro encode_parse) (auto simp: decoder_More_def skip_space_def is_json_space_def)

theorem trailing_bracket_accepted_witness:
  "\<exists>body. encodeChatRequest sample_format sample_chat = Inr body \<and> ParseChatRequest sample_parse (body @ '']'') = Inr sample_chat"
proof -
  obtain body where body: "encodeChatRequest sample_format sample_chat = Inr body" "length body < 2 ^ 20"
    using sample_chat_encodes by blast
  then have "length (body @ CHR '']'' # []) \<le> 2 ^ 20" by simp
  then show ?thesis
    using body(1) trailing_bracket_accepted [OF body(1) disjI1 [OF refl] _ sample_chat_utf8, of "[]" sample_parse] sample_float by blast
qed

text \<open>
  What the request parser lets through. An accepted body is not empty, has at most 1 MiB and describes
  a request the client can send: a model name that is not blank, 1 to 128 messages with a known role and
  text (which only an assistant's message may lack), a temperature between 0 and 2 and a positive token
  limit where they are given. Encoding it for the backend cannot fail.
\<close>

theorem ParseChatRequest_accepts_valid:
  assumes "ParseChatRequest parse_float raw = Inr req" and "\<And>t x. parse_float t = Some x \<Longrightarrow> f64_finite x"
  shows "raw \<noteq> [] \<and> length raw \<le> 2 ^ 20 \<and> validateChatRequest req \<and> (\<exists>body. encodeChatRequest format_float req = Inr body)"
proof -
  obtain v wire where w: "decode_struct True (request_fields parse_float) ([], v) zero_request = Some wire"
      "chatRequestFromWire wire = Inr req" and raw: "raw \<noteq> []" "length raw \<le> 2 ^ 20"
    using assms(1) by (rule ParseChatRequest_Inr)
  have "\<forall>x. cq_Temperature req = Some x \<longrightarrow> f64_finite x"
    using decode_request_temperature [OF w(1) assms(2)] chatRequestFromWire_Inr(2) [OF w(2)] by simp
  then show ?thesis
    using raw chatRequestFromWire_Inr(1) [OF w(2)] encodeChatRequest_defined by blast
qed

theorem ParseChatRequest_accepts_valid_witness:
  "\<exists>raw. ParseChatRequest sample_parse raw = Inr sample_chat \<and> length raw \<le> 2 ^ 20 \<and> validateChatRequest sample_chat"
proof -
  obtain body where body: "encodeChatRequest sample_format sample_chat = Inr body" "length body < 2 ^ 20"
    using sample_chat_encodes by blast
  then have "ParseChatRequest sample_parse (body @ []) = Inr sample_chat"
    using sample_float by (intro encode_parse [OF body(1) _ _ _ sample_chat_utf8]) (auto simp: decoder_More_def skip_space_def)
  from ParseChatRequest_accepts_valid [OF this, of sample_format] show ?thesis
    using \<open>ParseChatRequest sample_parse (body @ []) = Inr sample_chat\<close> sample_parse_finite by blast
qed

subsection \<open>Accepted responses\<close>

text \<open>
  Usage accounting. Reported usage is accepted exactly when no count is negative and the total is the sum
  of the prompt and completion tokens as mathematical integers; a sum that overflows 64 bits is rejected.
\<close>

theorem validateUsage_iff:
  "validateUsage u \<longleftrightarrow>
     0 \<le> sint (us_PromptTokens u) \<and> 0 \<le> sint (us_CompletionTokens u) \<and>
     sint (us_TotalTokens u) = sint (us_PromptTokens u) + sint (us_CompletionTokens u)"
proof -
  let ?p = "us_PromptTokens u" and ?c = "us_CompletionTokens u" and ?t = "us_TotalTokens u"
  have "?t = ?p + ?c \<longleftrightarrow> sint ?t = sint ?p + sint ?c" if "0 \<le> sint ?p" "0 \<le> sint ?c" "0 \<le> sint ?t"
    using that sint_add_in_range [of ?p ?c] sint_add_overflow [of ?p ?c] sint_le_max [of ?t]
    unfolding int64_eq_iff [of ?t] by (cases "9223372036854775807 < sint ?p + sint ?c") auto
  then show ?thesis by (auto simp: validateUsage_def int64_order not_less)
qed

lemma parseChatResponse_Inr: "parseChatResponse raw = Inr result \<Longrightarrow> cr_RawJSON result = raw \<and> validateUsage (cr_Usage result)"
  by (auto simp: parseChatResponse_def split: option.splits if_splits list.splits)

lemma parseChatResponse_empty: "parseChatResponse [] = Inl ErrInvalidResponse"
  by (simp add: parseChatResponse_def unmarshal_value_def read_value_def skip_space_def)

lemma classify_reply_Inr:
  assumes "classify_reply limit outcome = Inr result"
  shows "\<exists>status reply expired. outcome = Replied status reply expired \<and> 200 \<le> status \<and> status < 300 \<and>
    cr_RawJSON result = st_bytes reply \<and> st_end reply = Eof \<and> int (length (cr_RawJSON result)) \<le> sint limit \<and>
    parseChatResponse (cr_RawJSON result) = Inr result \<and> validateUsage (cr_Usage result)"
proof -
  obtain status reply expired raw where o: "outcome = Replied status reply expired" and raw: "read_all (limit + 1) reply = Some raw"
    and small: "\<not> limit <s len64 raw" and ok: "200 \<le> status" "status < 300" and p: "parseChatResponse raw = Inr result"
    using assms by (auto simp: classify_reply_def split: http_outcome.splits option.splits if_splits)
  have pos: "0 <s limit + 1"
  proof (rule ccontr)
    assume "\<not> 0 <s limit + 1"
    then have "raw = []" using raw by (simp add: read_all_def int64_order)
    then show False using p parseChatResponse_empty by simp
  qed
  have succ: "sint (limit + 1) = sint limit + 1"
  proof (cases "sint limit = 9223372036854775807")
    case True
    then show ?thesis using sint_add_overflow [of limit 1] pos by (simp add: int64_order)
  next
    case False
    then show ?thesis using sint_add_in_range [of limit 1] sint_le_max [of limit] sint_ge_min [of limit] by simp
  qed
  have lim: "0 \<le> sint limit" "unat limit = nat (sint limit)" "unat (limit + 1) = unat limit + 1"
    using pos succ by (auto simp: int64_order unat_nat_sint)
  have "length raw \<le> unat limit + 1" using read_all_bound [OF raw pos] lim(3) by simp
  moreover have "length raw \<noteq> unat limit + 1"
  proof
    assume "length raw = unat limit + 1"
    then have "len64 raw = limit + 1" by (simp add: len64_def)
    then show False using small succ by (simp add: int64_order)
  qed
  ultimately have len: "length raw \<le> unat limit" by simp
  have "raw = st_bytes reply \<and> st_end reply = Eof" by (rule read_all_within [OF raw pos lim(3) len])
  then show ?thesis using o ok p parseChatResponse_Inr [OF p] len lim(1,2) by auto
qed

text \<open>
  C25. A completion the client returns. It is the whole body of one successful reply, within the configured
  size and parsed with valid usage, to the one request that was sent: the rebuilt request, to the
  configured address, with no header but the fixed ones and the gateway's own credential.
\<close>

theorem ChatCompletions_success:
  assumes "ChatCompletions url_parse format_float transport client request w = (Inr result, w')"
  shows "\<exists>cl body status reply expired. client = Some cl \<and> encodeChatRequest format_float request = Inr body \<and>
    transport \<lparr>hr_URL = cl_baseURL cl @ ''/v1/chat/completions'', hr_Headers = backend_headers (cl_credential cl), hr_Body = body\<rparr> w =
      (Replied status reply expired, w') \<and>
    200 \<le> status \<and> status < 300 \<and> cr_RawJSON result = st_bytes reply \<and> st_end reply = Eof \<and>
    int (length (cr_RawJSON result)) \<le> sint (cl_maxResponseBytes cl) \<and> parseChatResponse (cr_RawJSON result) = Inr result \<and>
    validateUsage (cr_Usage result)"
proof -
  obtain cl body where cl: "client = Some cl" and body: "encodeChatRequest format_float request = Inr body"
    using assms by (cases client; cases "encodeChatRequest format_float request") (auto simp: ChatCompletions_def)
  obtain outcome where t: "transport \<lparr>hr_URL = cl_baseURL cl @ ''/v1/chat/completions'', hr_Headers = backend_headers (cl_credential cl),
      hr_Body = body\<rparr> w = (outcome, w')" and r: "classify_reply (cl_maxResponseBytes cl) outcome = Inr result"
    using assms cl body by (auto simp: ChatCompletions_def Let_def split: if_splits prod.splits)
  from classify_reply_Inr [OF r] show ?thesis using cl body t by blast
qed

definition sample_reply :: bytes where
  "sample_reply = marshal (JObject [(''choices'', JArray [JObject []]),
     (''usage'', JObject [(''prompt_tokens'', JInt 1), (''completion_tokens'', JInt 2), (''total_tokens'', JInt 3)])])"

definition sample_result :: ChatResult where
  "sample_result = \<lparr>cr_ID = [], cr_Model = [], cr_Content = [],
     cr_Usage = \<lparr>us_PromptTokens = 1, us_CompletionTokens = 2, us_TotalTokens = 3\<rparr>, cr_RawJSON = sample_reply\<rparr>"

lemma parse_int64_numeral: "i \<in> int64_range \<Longrightarrow> parse_int64 (int_digits i) = Some (word_of_int i)"
  using parse_int64_digits [of "word_of_int i"] by (simp only: sint_word_of_int)

lemma sample_reply_parses: "parseChatResponse sample_reply = Inr sample_result"
proof -
  have "unmarshal_value sample_reply = Some (value_of (JObject [(''choices'', JArray [JObject []]),
     (''usage'', JObject [(''prompt_tokens'', JInt 1), (''completion_tokens'', JInt 2), (''total_tokens'', JInt 3)])]))"
    unfolding sample_reply_def by (rule read_marshal(1)) (simp_all add: utf8_size_def maxNestingDepth_def)
  moreover have "validateUsage \<lparr>us_PromptTokens = 1, us_CompletionTokens = 2, us_TotalTokens = 3\<rparr>"
    by (simp add: validateUsage_def int64_order)
  ultimately show ?thesis
    by (simp add: parseChatResponse_def decode_struct_def response_fields_def find_field_def field_def decode_slice_def shown_def
        zero_response_def zero_choice_def zero_usage_def choice_fields_def decode_pointer_def usage_fields_def decode_int64_def
        parse_int64_numeral sample_result_def)
qed

definition sample_client :: Client where
  "sample_client = \<lparr>cl_baseURL = ''https://b'', cl_credential = ''k'', cl_timeout = 1000, cl_maxResponseBytes = 4096\<rparr>"

lemma sample_reply_length: "length sample_reply < 4096"
  by (simp add: sample_reply_def json_string_plain int_digits_def nat_digits.simps)

lemma sample_completion:
  "\<exists>u. ChatCompletions (\<lambda>_. Some u) sample_format
     (\<lambda>_ w. (Replied 200 \<lparr>st_bytes = sample_reply, st_end = Eof\<rparr> False, w)) (Some sample_client) sample_chat () = (Inr sample_result, ())"
proof -
  obtain body where body: "encodeChatRequest sample_format sample_chat = Inr body" using sample_chat_encodes by blast
  have "unat (4097 :: int64) = 4097" by simp
  then have "read_all (4096 + 1) \<lparr>st_bytes = sample_reply, st_end = Eof\<rparr> = Some sample_reply"
    using sample_reply_length by (simp add: read_all_def int64_order)
  moreover have "\<not> 4096 <s len64 sample_reply"
    using sample_reply_length by (simp add: len64_def int64_order signed_of_nat signed_take_bit_int_eq_self)
  ultimately show ?thesis
    using body sample_reply_parses by (simp add: ChatCompletions_def sample_client_def classify_reply_def)
qed

theorem ChatCompletions_success_witness:
  "\<exists>body. encodeChatRequest sample_format sample_chat = Inr body \<and> parseChatResponse sample_reply = Inr sample_result \<and>
     validateUsage (cr_Usage sample_result)"
proof -
  obtain u where "ChatCompletions (\<lambda>_. Some u) sample_format
     (\<lambda>_ w. (Replied 200 \<lparr>st_bytes = sample_reply, st_end = Eof\<rparr> False, w)) (Some sample_client) sample_chat () = (Inr sample_result, ())"
    using sample_completion by blast
  from ChatCompletions_success [OF this] show ?thesis using sample_reply_parses by blast
qed

end
