(* ===== verification/Regex.thy ===== *)
theory Regex
  imports GoText
begin

section \<open>Regular expressions\<close>

text \<open>
  The part of \<open>regexp\<close> that the detectors use. A text is a list of runes, a position is the rune before it
  and the runes after it. \<open>matches r p\<close> lists the positions at which a match of \<open>r\<close> that starts at \<open>p\<close>
  can end, in the order in which the leftmost-first rule of Go and Perl prefers them, so that its head is
  the match that is taken. \<open>find_all\<close> is \<open>FindAll\<close>: the matches found from left to right, none overlapping
  another. Under \<open>(?i)\<close> a rune matches what any rune with the same simple case folding matches; of
  the runes beyond ASCII only U+017F and U+212A fold to ASCII letters.
\<close>

type_synonym rune = nat
type_synonym position = "rune option \<times> rune list"

datatype regex =
    Eps
  | Class "rune \<Rightarrow> bool"
  | Boundary
  | Seq regex regex
  | Alt regex regex
  | Repeat nat "nat option" bool regex

definition ascii_word :: "rune \<Rightarrow> bool" where
  "ascii_word r \<longleftrightarrow> (48 \<le> r \<and> r \<le> 57) \<or> (65 \<le> r \<and> r \<le> 90) \<or> r = 95 \<or> (97 \<le> r \<and> r \<le> 122)"

definition at_boundary :: "position \<Rightarrow> bool" where
  "at_boundary p =
     ((case fst p of None \<Rightarrow> False | Some r \<Rightarrow> ascii_word r) \<noteq> (case snd p of [] \<Rightarrow> False | r # _ \<Rightarrow> ascii_word r))"

text \<open>
  Repetition of a step between \<open>lo\<close> and \<open>hi\<close> times. A step that consumes nothing is not repeated, so that
  the number of remaining runes bounds the recursion.
\<close>

fun repeat_steps :: "nat \<Rightarrow> (position \<Rightarrow> position list) \<Rightarrow> nat \<Rightarrow> nat option \<Rightarrow> bool \<Rightarrow> position \<Rightarrow> position list" where
  "repeat_steps 0 step lo hi greedy p = []"
| "repeat_steps (Suc n) step lo hi greedy p =
     (let more = (if hi = Some 0 then []
          else concat (map (repeat_steps n step (lo - 1) (map_option (\<lambda>h. h - 1) hi) greedy)
            (filter (\<lambda>q. length (snd q) < length (snd p)) (step p))));
        stop = (if lo = 0 then [p] else [])
      in if greedy then more @ stop else stop @ more)"

primrec matches :: "regex \<Rightarrow> position \<Rightarrow> position list" where
  "matches Eps = (\<lambda>p. [p])"
| "matches (Class f) = (\<lambda>p. case snd p of [] \<Rightarrow> [] | r # s \<Rightarrow> if f r then [(Some r, s)] else [])"
| "matches Boundary = (\<lambda>p. if at_boundary p then [p] else [])"
| "matches (Seq a b) = (\<lambda>p. concat (map (matches b) (matches a p)))"
| "matches (Alt a b) = (\<lambda>p. matches a p @ matches b p)"
| "matches (Repeat lo hi greedy a) = (\<lambda>p. repeat_steps (Suc (length (snd p))) (matches a) lo hi greedy p)"

function find_all :: "(position \<Rightarrow> (position \<times> 'a) option) \<Rightarrow> position \<Rightarrow> (position \<times> position \<times> 'a) list" where
  "find_all f p =
     (case f p of
        Some (q, x) \<Rightarrow>
          if length (snd q) < length (snd p) then (p, q, x) # find_all f q
          else (case snd p of [] \<Rightarrow> [(p, q, x)] | r # s \<Rightarrow> (p, q, x) # find_all f (Some r, s))
      | None \<Rightarrow> (case snd p of [] \<Rightarrow> [] | r # s \<Rightarrow> find_all f (Some r, s)))"
  by pat_completeness auto
termination
  by (relation "measure (\<lambda>(f, p). length (snd p))") auto

declare find_all.simps [simp del]

definition first_match :: "regex \<Rightarrow> position \<Rightarrow> (position \<times> unit) option" where
  "first_match r p = (case matches r p of [] \<Rightarrow> None | q # _ \<Rightarrow> Some (q, ()))"

definition matched :: "position \<Rightarrow> position \<Rightarrow> rune list" where
  "matched p q = take (length (snd p) - length (snd q)) (snd p)"

definition FindAllString :: "regex \<Rightarrow> rune list \<Rightarrow> rune list list" where
  "FindAllString r text = map (\<lambda>(p, q, _). matched p q) (find_all (first_match r) (None, text))"

subsection \<open>Building blocks\<close>

definition between :: "char \<Rightarrow> char \<Rightarrow> rune \<Rightarrow> bool" where
  "between a b r \<longleftrightarrow> of_char a \<le> r \<and> r \<le> of_char b"

definition one_of :: "string \<Rightarrow> rune \<Rightarrow> bool" where
  "one_of cs r \<longleftrightarrow> r \<in> of_char ` set cs"

definition any_case :: "(rune \<Rightarrow> bool) \<Rightarrow> rune \<Rightarrow> bool" where
  "any_case f r \<longleftrightarrow>
     f r \<or> (97 \<le> r \<and> r \<le> 122 \<and> f (r - 32)) \<or> (65 \<le> r \<and> r \<le> 90 \<and> f (r + 32)) \<or>
     (r = 0x17F \<and> (f 83 \<or> f 115)) \<or> (r = 0x212A \<and> (f 75 \<or> f 107))"

fun seqs :: "regex list \<Rightarrow> regex" where
  "seqs [] = Eps"
| "seqs [r] = r"
| "seqs (r # s # t) = Seq r (seqs (s # t))"

definition literal :: "bool \<Rightarrow> string \<Rightarrow> regex" where
  "literal ci w = seqs (map (\<lambda>c. Class (if ci then any_case (one_of [c]) else one_of [c])) w)"

abbreviation opt :: "regex \<Rightarrow> regex" where "opt r \<equiv> Repeat 0 (Some 1) True r"
abbreviation star :: "regex \<Rightarrow> regex" where "star r \<equiv> Repeat 0 None True r"
abbreviation plus :: "regex \<Rightarrow> regex" where "plus r \<equiv> Repeat 1 None True r"
abbreviation lazy_star :: "regex \<Rightarrow> regex" where "lazy_star r \<equiv> Repeat 0 None False r"

definition digit_class :: regex where "digit_class = Class (between (CHR ''0'') (CHR ''9''))"
definition space_class :: "rune \<Rightarrow> bool" where "space_class r \<longleftrightarrow> r \<in> {9, 10, 12, 13, 32}"

subsection \<open>The runes of a text\<close>

fun runes :: "bytes \<Rightarrow> rune list" where
  "runes [] = []"
| "runes (c # s) =
     (let n = utf8_size (c # s); b = (\<lambda>i. of_char ((c # s) ! i) mod 64 :: nat) in
      if n \<le> 1 then of_char c # runes s
      else if n = 2 then ((of_char c - 192) * 64 + b 1) # runes (drop 1 s)
      else if n = 3 then (((of_char c - 224) * 64 + b 1) * 64 + b 2) # runes (drop 2 s)
      else ((((of_char c - 240) * 64 + b 1) * 64 + b 2) * 64 + b 3) # runes (drop 3 s))"

subsection \<open>Facts\<close>

lemma find_all_length: "length (find_all f p) \<le> Suc (length (snd p))"
proof (induction f p rule: find_all.induct)
  case (1 f p)
  show ?case
  proof (cases "f p")
    case None
    show ?thesis
    proof (cases "snd p")
      case Nil
      then show ?thesis using None by (subst find_all.simps) simp
    next
      case (Cons r s)
      then show ?thesis using None 1(1) [OF None Cons] by (subst find_all.simps) simp
    qed
  next
    case (Some qx)
    obtain q x where q: "qx = (q, x)" by (cases qx)
    show ?thesis
    proof (cases "length (snd q) < length (snd p)")
      case True
      then show ?thesis using 1(2) [OF Some q [symmetric] True] Some q by (subst find_all.simps) simp
    next
      case False
      show ?thesis
      proof (cases "snd p")
        case Nil
        then show ?thesis using False Some q by (subst find_all.simps) simp
      next
        case (Cons r s)
        then show ?thesis using 1(3) [OF Some q [symmetric] False Cons] False Some q by (subst find_all.simps) simp
      qed
    qed
  qed
qed

end
