(* ===== verification/Detect.thy ===== *)
theory Detect
  imports Regex AuditEvent "HOL-Library.AList"
begin

section \<open>Content detectors\<close>

text \<open>
  \<open>internal/detect\<close>: input normalization, the detectors for personal data, health indicators and secrets,
  and the aggregation of their hits into the content-free result that goes into the audit event.
  Patterns are matched on the runes of the text by the theory \<open>Regex\<close>; the IBAN check and the whole-word
  search are loops of the program. The search loop is a \<open>partial_function\<close>, so that not ending is the
  value \<open>None\<close>. SHA-256 is a parameter.
\<close>

datatype detect_error = ErrInvalidInput | ErrInputTooLarge

definition MaxInputBytes :: nat where "MaxInputBytes = 1048576"

record Finding =
  fi_Category :: string
  fi_Count :: int
  fi_RuleID :: string

record Result =
  re_PIICategories :: "string list"
  re_PIIMatchCounts :: "(string, int64) fmap"
  re_HealthIndicatorCategories :: "string list"
  re_SecretCategories :: "string list"
  re_Findings :: "Finding list"
  re_BundleDigest :: string

definition detect_String :: "Result \<Rightarrow> string" where
  "detect_String result = ''detect.Result{content_free}''"

definition BundleVersion :: string where "BundleVersion = ''detect-bundle-v1''"

subsection \<open>Normalization\<close>

definition normalizeInput :: "bytes \<Rightarrow> detect_error + bytes" where
  "normalizeInput raw =
     (if MaxInputBytes < length raw then Inl ErrInputTooLarge
      else if \<not> utf8_valid raw then Inl ErrInvalidInput
      else if CHR 0x00 \<in> set raw then Inl ErrInvalidInput
      else Inr raw)"

fun compactAlnumUpper :: "bytes \<Rightarrow> string" where
  "compactAlnumUpper [] = []"
| "compactAlnumUpper (c # s) =
     (if is_lower c then char_of (of_char c - (32 :: nat)) # compactAlnumUpper s
      else if is_upper c \<or> is_digit c then c # compactAlnumUpper s
      else compactAlnumUpper s)"

subsection \<open>Aggregation\<close>

text \<open>The hits map, in order of first insertion.\<close>

type_synonym aggregator = "((string \<times> string) \<times> int) list"

definition newAggregator :: aggregator where "newAggregator = []"

definition agg_add :: "string \<Rightarrow> string \<Rightarrow> int \<Rightarrow> aggregator \<Rightarrow> aggregator" where
  "agg_add category ruleID n hits =
     (if n \<le> 0 then hits
      else AList.update (category, ruleID) ((case map_of hits (category, ruleID) of None \<Rightarrow> 0 | Some k \<Rightarrow> k) + n) hits)"

definition isPIICategory :: "string \<Rightarrow> bool" where
  "isPIICategory c \<longleftrightarrow> c = ''email_address'' \<or> c = ''phone_number'' \<or> c = ''iban''"

definition isHealthCategory :: "string \<Rightarrow> bool" where
  "isHealthCategory c \<longleftrightarrow> c = ''diagnosis_indicator'' \<or> c = ''medication_indicator'' \<or> c = ''icd_code''"

definition isSecretCategory :: "string \<Rightarrow> bool" where
  "isSecretCategory c \<longleftrightarrow> c = ''api_credential'' \<or> c = ''private_key'' \<or> c = ''jwt_shape''"

definition bundle_rules :: "string list" where
  "bundle_rules =
     [BundleVersion, ''email_basic_v1'', ''phone_e164_de_at_v1'', ''iban_checksum_v1'', ''health_diagnosis_terms_v1'',
      ''health_medication_terms_v1'', ''health_icd_shape_v1'', ''secret_pem_private_key_v1'', ''secret_api_token_shape_v1'',
      ''secret_jwt_shape_v1'']"

definition bundleDigest :: "(bytes \<Rightarrow> digest) \<Rightarrow> string" where
  "bundleDigest sha256 = digest_String (sha256 (join_with [CHR 0x0A] bundle_rules))"

definition add_count :: "string \<Rightarrow> int64 \<Rightarrow> (string, int64) fmap \<Rightarrow> (string, int64) fmap" where
  "add_count c n m = fmupd c ((case fmlookup m c of None \<Rightarrow> 0 | Some k \<Rightarrow> k) + n) m"

definition sortedKeys :: "string fset \<Rightarrow> string list" where
  "sortedKeys keys = sorted_list_of_fset keys"

definition pii_counts :: "aggregator \<Rightarrow> (string, int64) fmap" where
  "pii_counts hits =
     fold (\<lambda>((c, _), n) m. if isPIICategory c then add_count c (word_of_int n) m else m) hits fmempty"

definition category_set :: "(string \<Rightarrow> bool) \<Rightarrow> aggregator \<Rightarrow> string fset" where
  "category_set is_category hits = fset_of_list (filter is_category (map (fst \<circ> fst) hits))"

definition agg_result :: "(bytes \<Rightarrow> digest) \<Rightarrow> aggregator \<Rightarrow> Result" where
  "agg_result sha256 hits =
     (let findings = map (\<lambda>((c, r), n). \<lparr>fi_Category = c, fi_Count = n, fi_RuleID = r\<rparr>) hits;
          piiCounts = pii_counts hits
      in \<lparr>re_PIICategories = sortedKeys (fmdom piiCounts),
          re_PIIMatchCounts = piiCounts,
          re_HealthIndicatorCategories = sortedKeys (category_set (\<lambda>c. \<not> isPIICategory c \<and> isHealthCategory c) hits),
          re_SecretCategories = sortedKeys (category_set (\<lambda>c. \<not> isPIICategory c \<and> \<not> isHealthCategory c \<and> isSecretCategory c) hits),
          re_Findings = sort_key fi_Category (sort_key fi_RuleID findings),
          re_BundleDigest = bundleDigest sha256\<rparr>)"

subsection \<open>Personal data\<close>

definition email_local :: regex where
  "email_local = Class (any_case (\<lambda>r. between (CHR ''a'') (CHR ''z'') r \<or> between (CHR ''0'') (CHR ''9'') r \<or> one_of ''._%+-'' r))"

definition email_domain :: regex where
  "email_domain = Class (any_case (\<lambda>r. between (CHR ''a'') (CHR ''z'') r \<or> between (CHR ''0'') (CHR ''9'') r \<or> one_of ''.-'' r))"

definition emailPattern :: regex where
  "emailPattern = seqs [Boundary, plus email_local, literal True ''@'', plus email_domain, literal True ''.'',
     Repeat 2 (Some 24) True (Class (any_case (between (CHR ''a'') (CHR ''z'')))), Boundary]"

definition phone_filler :: regex where
  "phone_filler = star (Class (\<lambda>r. space_class r \<or> one_of ''-./()'' r))"

definition phonePattern :: regex where
  "phonePattern = seqs [Alt (literal True ''+'') (literal True ''00''), Alt (literal True ''49'') (literal True ''43''), phone_filler,
     Repeat 6 (Some 13) True (Seq digit_class phone_filler), digit_class]"

definition ibanCountryLengths :: "string \<Rightarrow> nat option" where
  "ibanCountryLengths cc = (if cc = ''DE'' then Some 22 else if cc = ''AT'' then Some 20 else None)"

definition looksLikeIBAN :: "string \<Rightarrow> bool" where
  "looksLikeIBAN s =
     (if length s < 15 \<or> 34 < length s then False
      else if \<not> is_upper (s ! 0) \<or> \<not> is_upper (s ! 1) then False
      else if \<not> is_digit (s ! 2) \<or> \<not> is_digit (s ! 3) then False
      else list_all (\<lambda>c. is_digit c \<or> is_upper c) (drop 4 s))"

definition iban_numeric :: "char \<Rightarrow> string option" where
  "iban_numeric c =
     (if is_digit c then Some [c]
      else if is_upper c then let val = of_char c - 65 + 10 in Some [char_of (48 + val div 10), char_of (48 + val mod 10 :: nat)]
      else None)"

fun iban_digits :: "string \<Rightarrow> string option" where
  "iban_digits [] = Some []"
| "iban_digits (c # s) =
     (case iban_numeric c of None \<Rightarrow> None | Some d \<Rightarrow> map_option (\<lambda>r. d @ r) (iban_digits s))"

definition mod97 :: "string \<Rightarrow> int" where
  "mod97 digits = foldl (\<lambda>rem c. (rem * 10 + (int (of_char c) - 48)) mod 97) 0 digits"

definition validIBAN :: "string \<Rightarrow> bool" where
  "validIBAN iban =
     (if \<not> looksLikeIBAN iban then False
      else if (case ibanCountryLengths (take 2 iban) of Some expected \<Rightarrow> length iban \<noteq> expected | None \<Rightarrow> False) then False
      else case iban_digits (drop 4 iban @ take 4 iban) of None \<Rightarrow> False | Some numeric \<Rightarrow> mod97 numeric = 1)"

definition countDigits :: "rune list \<Rightarrow> nat" where
  "countDigits s = length (filter (between (CHR ''0'') (CHR ''9'')) s)"

function iban_scan :: "string \<Rightarrow> nat" where
  "iban_scan s =
     (if length s < 4 then 0
      else case ibanCountryLengths (take 2 s) of
          None \<Rightarrow> iban_scan (tl s)
        | Some len \<Rightarrow>
            if length s < len then iban_scan (tl s)
            else if validIBAN (take len s) then Suc (iban_scan (drop len s))
            else iban_scan (tl s))"
  by pat_completeness auto
termination
  by (relation "measure length") (auto simp: ibanCountryLengths_def split: if_splits)

declare iban_scan.simps [simp del]

fun add_times :: "nat \<Rightarrow> string \<Rightarrow> string \<Rightarrow> aggregator \<Rightarrow> aggregator" where
  "add_times 0 c r hits = hits"
| "add_times (Suc n) c r hits = add_times n c r (agg_add c r 1 hits)"

definition detectPII :: "bytes \<Rightarrow> aggregator \<Rightarrow> aggregator" where
  "detectPII content hits =
     (let emails = filter (\<lambda>m. length (filter (\<lambda>r. r = of_char (CHR ''@'')) m) = 1) (FindAllString emailPattern (runes content));
          phones = filter (\<lambda>m. \<not> (countDigits m < 8 \<or> 15 < countDigits m)) (FindAllString phonePattern (runes content))
      in add_times (iban_scan (compactAlnumUpper content)) ''iban'' ''iban_checksum_v1''
        (add_times (length phones) ''phone_number'' ''phone_e164_de_at_v1''
          (add_times (length emails) ''email_address'' ''email_basic_v1'' hits)))"

subsection \<open>Health indicators\<close>

definition diagnosisTerms :: "string list" where
  "diagnosisTerms = [''diagnosis'', ''diagnose'', ''diabetes'', ''hypertonie'', ''hypertension'', ''depression'', ''asthma'', ''migraene'',
     ''migraine'']"

definition medicationTerms :: "string list" where
  "medicationTerms = [''medication'', ''medikation'', ''prescription'', ''rezept'', ''metformin'', ''bisoprolol'', ''insulin'', ''ibuprofen'',
     ''amoxicillin'']"

definition isWordChar :: "char \<Rightarrow> bool" where
  "isWordChar c \<longleftrightarrow> is_lower c \<or> is_digit c \<or> c = CHR ''_'' \<or> 128 \<le> (of_char c :: nat)"

text \<open>\<open>strings.Index\<close>.\<close>

fun index_of :: "string \<Rightarrow> string \<Rightarrow> nat option" where
  "index_of s t =
     (if take (length t) s = t then Some 0
      else case s of [] \<Rightarrow> None | _ # r \<Rightarrow> map_option Suc (index_of r t))"

declare index_of.simps [simp del]

definition whole_word :: "string \<Rightarrow> string \<Rightarrow> nat \<Rightarrow> bool" where
  "whole_word lowerText term i \<longleftrightarrow>
     (i = 0 \<or> \<not> isWordChar (lowerText ! (i - 1))) \<and>
     (i + length term = length lowerText \<or> \<not> isWordChar (lowerText ! (i + length term)))"

partial_function (option) contains_word_from :: "string \<Rightarrow> string \<Rightarrow> nat \<Rightarrow> bool option" where
  "contains_word_from lowerText term start =
     (case index_of (drop start lowerText) term of
        None \<Rightarrow> Some False
      | Some idx \<Rightarrow>
          if whole_word lowerText term (start + idx) then Some True
          else contains_word_from lowerText term (start + idx + length term))"

definition containsWord :: "string \<Rightarrow> string \<Rightarrow> bool option" where
  "containsWord lowerText term = contains_word_from lowerText term 0"

fun containsAnyWord :: "string \<Rightarrow> string list \<Rightarrow> bool option" where
  "containsAnyWord lowerText [] = Some False"
| "containsAnyWord lowerText (t # ts) =
     (case containsWord lowerText t of
        None \<Rightarrow> None
      | Some True \<Rightarrow> Some True
      | Some False \<Rightarrow> containsAnyWord lowerText ts)"

text \<open>
  \<open>strings.ToLower\<close> up to what the word search can see of it: of the runes beyond ASCII, U+0130 and U+212A
  become the ASCII letters i and k; every other one becomes or stays a rune beyond ASCII, whose bytes
  are word characters that occur in no term.
\<close>

definition lower_rune :: "rune \<Rightarrow> rune" where
  "lower_rune r = (if 65 \<le> r \<and> r \<le> 90 then r + 32 else if r = 0x130 then 0x69 else if r = 0x212A then 0x6B else r)"

definition ToLower :: "bytes \<Rightarrow> bytes" where
  "ToLower s = concat (map (encode_rune \<circ> lower_rune) (runes s))"

definition icd_prefix :: regex where
  "icd_prefix = Seq Boundary (opt (seqs [literal True ''ICD'', opt (Seq (opt (literal True ''-'')) (literal True ''10'')),
     star (Class space_class), opt (Class (one_of '':#'')), star (Class space_class)]))"

definition icd_code :: regex where
  "icd_code = seqs [Class (any_case (\<lambda>r. between (CHR ''A'') (CHR ''T'') r \<or> between (CHR ''V'') (CHR ''Z'') r)),
     Repeat 2 (Some 2) True digit_class, opt (Seq (literal True ''.'') (Repeat 1 (Some 4) True digit_class))]"

text \<open>The ICD pattern has one group, the code; the middle position is where it starts.\<close>

definition icd_match :: "position \<Rightarrow> (position \<times> position) option" where
  "icd_match p =
     (case concat (map (\<lambda>m. map (\<lambda>e. (e, m)) (filter at_boundary (matches icd_code m))) (matches icd_prefix p)) of
        [] \<Rightarrow> None | x # _ \<Rightarrow> Some x)"

definition upper_ascii :: "rune \<Rightarrow> rune" where
  "upper_ascii r = (if 97 \<le> r \<and> r \<le> 122 then r - 32 else if r = 0x17F then 83 else r)"

fun has_factor :: "rune list \<Rightarrow> rune list \<Rightarrow> bool" where
  "has_factor s t = (take (length t) s = t \<or> (case s of [] \<Rightarrow> False | _ # r \<Rightarrow> has_factor r t))"

declare has_factor.simps [simp del]

definition icd_counts :: "position \<Rightarrow> position \<Rightarrow> position \<Rightarrow> bool" where
  "icd_counts p q m \<longleftrightarrow>
     \<not> (\<not> has_factor (map upper_ascii (matched p q)) (map of_char ''ICD'') \<and> of_char (CHR ''.'') \<notin> set (matched m q))"

definition detectHealth :: "bytes \<Rightarrow> aggregator \<Rightarrow> aggregator option" where
  "detectHealth content hits =
     (case containsAnyWord (ToLower content) diagnosisTerms of
        None \<Rightarrow> None
      | Some d \<Rightarrow>
          let hits1 = (if d then agg_add ''diagnosis_indicator'' ''health_diagnosis_terms_v1'' 1 hits else hits) in
          case containsAnyWord (ToLower content) medicationTerms of
            None \<Rightarrow> None
          | Some m \<Rightarrow>
              let hits2 = (if m then agg_add ''medication_indicator'' ''health_medication_terms_v1'' 1 hits1 else hits1);
                  codes = filter (\<lambda>(p, q, m). icd_counts p q m) (find_all icd_match (None, runes content))
              in Some (add_times (length codes) ''icd_code'' ''health_icd_shape_v1'' hits2))"

subsection \<open>Secrets\<close>

definition pem_kind :: regex where
  "pem_kind = opt (Alt (literal True ''RSA '') (Alt (literal True ''EC '') (literal True ''OPENSSH '')))"

definition privateKeyPattern :: regex where
  "privateKeyPattern = seqs [literal True ''-----BEGIN '', pem_kind, literal True ''PRIVATE KEY-----'', lazy_star (Class (\<lambda>_. True)),
     literal True ''-----END '', pem_kind, literal True ''PRIVATE KEY-----'']"

definition alnum_rune :: "rune \<Rightarrow> bool" where
  "alnum_rune r \<longleftrightarrow> between (CHR ''A'') (CHR ''Z'') r \<or> between (CHR ''a'') (CHR ''z'') r \<or> between (CHR ''0'') (CHR ''9'') r"

definition token_rune :: "rune \<Rightarrow> bool" where "token_rune r \<longleftrightarrow> alnum_rune r \<or> one_of ''_-'' r"

definition apiKeyPattern :: regex where
  "apiKeyPattern = seqs [Boundary,
     Alt (Seq (literal True ''sk-'') (Repeat 16 None True (Class (any_case alnum_rune))))
      (Alt (seqs [literal True ''cai_api_v1.'',
              Repeat 32 (Some 32) True (Class (any_case (\<lambda>r. between (CHR ''0'') (CHR ''9'') r \<or> between (CHR ''a'') (CHR ''f'') r))),
              literal True ''.'', Repeat 16 None True (Class (any_case token_rune))])
       (Seq (literal True ''AKIA'') (Repeat 16 (Some 16) True
          (Class (any_case (\<lambda>r. between (CHR ''0'') (CHR ''9'') r \<or> between (CHR ''A'') (CHR ''Z'') r)))))),
     Boundary]"

definition jwtPattern :: regex where
  "jwtPattern = seqs [Boundary, literal False ''eyJ'', Repeat 8 None True (Class token_rune), literal False ''.'',
     Repeat 8 None True (Class token_rune), literal False ''.'', Repeat 8 None True (Class token_rune), Boundary]"

definition detectSecrets :: "bytes \<Rightarrow> aggregator \<Rightarrow> aggregator" where
  "detectSecrets content hits =
     (let n1 = length (FindAllString privateKeyPattern (runes content));
          hits1 = (if 0 < n1 then agg_add ''private_key'' ''secret_pem_private_key_v1'' (int n1) hits else hits);
          n2 = length (FindAllString apiKeyPattern (runes content));
          hits2 = (if 0 < n2 then agg_add ''api_credential'' ''secret_api_token_shape_v1'' (int n2) hits1 else hits1);
          n3 = length (FindAllString jwtPattern (runes content))
      in if 0 < n3 then agg_add ''jwt_shape'' ''secret_jwt_shape_v1'' (int n3) hits2 else hits2)"

subsection \<open>The detector\<close>

definition DetectBytes :: "(bytes \<Rightarrow> digest) \<Rightarrow> bytes \<Rightarrow> (detect_error + Result) option" where
  "DetectBytes sha256 raw =
     (case normalizeInput raw of
        Inl e \<Rightarrow> Some (Inl e)
      | Inr content \<Rightarrow>
          case detectHealth content (detectPII content newAggregator) of
            None \<Rightarrow> None
          | Some hits \<Rightarrow> Some (Inr (agg_result sha256 (detectSecrets content hits))))"

definition Detect :: "(bytes \<Rightarrow> digest) \<Rightarrow> string \<Rightarrow> (detect_error + Result) option" where
  "Detect sha256 content = DetectBytes sha256 content"

subsection \<open>The whole-word search\<close>

definition occurs :: "string \<Rightarrow> string \<Rightarrow> nat \<Rightarrow> bool" where
  "occurs s t i \<longleftrightarrow> take (length t) (drop i s) = t"

lemma occurs_bound: "occurs s t i \<Longrightarrow> t \<noteq> [] \<Longrightarrow> i + length t \<le> length s"
  unfolding occurs_def by (metis diff_is_0_eq drop_all le_add_diff_inverse length_drop length_greater_0_conv length_take linorder_le_cases
      min_def nat_add_left_cancel_le take_eq_Nil)

lemma occurs_nth: "occurs s t i \<Longrightarrow> t \<noteq> [] \<Longrightarrow> k < length t \<Longrightarrow> s ! (i + k) = t ! k"
  using occurs_bound [of s t i] unfolding occurs_def by (metis add_leD1 nth_drop nth_take)

lemma index_of_Some: "index_of s t = Some i \<Longrightarrow> occurs s t i \<and> (\<forall>j<i. \<not> occurs s t j)"
proof (induction s t arbitrary: i rule: index_of.induct)
  case (1 s t)
  show ?case
  proof (cases "take (length t) s = t")
    case True
    then show ?thesis using "1.prems" by (subst (asm) index_of.simps) (simp add: occurs_def)
  next
    case False
    then obtain c r k where s: "s = c # r" and k: "index_of r t = Some k" "i = Suc k"
      using "1.prems" by (subst (asm) index_of.simps) (auto split: list.splits)
    have IH: "occurs r t k \<and> (\<forall>j<k. \<not> occurs r t j)" using "1.IH" [OF False s k(1)] .
    show ?thesis
    proof (intro conjI allI impI)
      show "occurs s t i" using IH s k(2) by (simp add: occurs_def)
      fix j assume "j < i"
      then show "\<not> occurs s t j" using IH s k(2) False by (cases j) (auto simp: occurs_def)
    qed
  qed
qed

lemma index_of_None: "index_of s t = None \<Longrightarrow> \<not> occurs s t i"
proof (induction s t arbitrary: i rule: index_of.induct)
  case (1 s t)
  have ne: "take (length t) s \<noteq> t" using "1.prems" by (subst (asm) index_of.simps) (auto split: if_splits)
  show ?case
  proof (cases s)
    case Nil
    then show ?thesis using ne by (simp add: occurs_def)
  next
    case (Cons c r)
    have "index_of r t = None" using "1.prems" ne Cons by (subst (asm) index_of.simps) simp
    then show ?thesis using "1.IH" [OF ne Cons] ne Cons by (cases i) (auto simp: occurs_def)
  qed
qed

lemma occurs_drop: "occurs (drop k s) t i \<longleftrightarrow> occurs s t (k + i)"
  by (simp add: occurs_def add.commute)

lemma no_whole_word_inside:
  assumes "occurs s t a" "t \<noteq> []" "list_all isWordChar t" "a < j" "j < a + length t"
  shows "\<not> whole_word s t j"
proof -
  have "s ! (j - 1) = t ! (j - 1 - a)" using occurs_nth [OF assms(1,2), of "j - 1 - a"] assms(4,5) by simp
  moreover have "t ! (j - 1 - a) \<in> set t" using assms(4,5) by (intro nth_mem) simp
  ultimately show ?thesis using assms(3,4) by (auto simp: whole_word_def list_all_iff)
qed

lemma contains_word_from_eq:
  assumes "t \<noteq> []" "list_all isWordChar t"
  shows "contains_word_from s t start = Some (\<exists>i\<ge>start. occurs s t i \<and> whole_word s t i)"
proof (induction "length s - start" arbitrary: start rule: less_induct)
  case less
  show ?case
  proof (cases "index_of (drop start s) t")
    case None
    have "\<not> occurs s t i" if "start \<le> i" for i
      using index_of_None [OF None, of "i - start"] that by (simp add: occurs_drop)
    then show ?thesis using None by (subst contains_word_from.simps) auto
  next
    case (Some k)
    have before: "\<not> occurs s t i" if "start \<le> i" "i < start + k" for i
      using index_of_Some [OF Some] that by (auto simp: occurs_drop dest!: spec [of _ "i - start"])
    have here: "occurs s t (start + k)" using index_of_Some [OF Some] by (simp add: occurs_drop)
    show ?thesis
    proof (cases "whole_word s t (start + k)")
      case True
      then show ?thesis using Some here by (subst contains_word_from.simps) (auto intro!: exI [of _ "start + k"])
    next
      case False
      have "length s - (start + k + length t) < length s - start"
        using occurs_bound [OF here assms(1)] assms(1) by (cases t) auto
      then have "contains_word_from s t (start + k + length t) = Some (\<exists>i\<ge>start + k + length t. occurs s t i \<and> whole_word s t i)"
        by (rule less)
      moreover have "i \<ge> start + k + length t" if "start \<le> i" "occurs s t i" "whole_word s t i" for i
        using that before [of i] False no_whole_word_inside [OF here assms, of i] by (metis linorder_cases not_le_imp_less)
      then have "(\<exists>i\<ge>start + k + length t. occurs s t i \<and> whole_word s t i) \<longleftrightarrow> (\<exists>i\<ge>start. occurs s t i \<and> whole_word s t i)"
        by (meson add_leE)
      ultimately show ?thesis using Some False by (subst contains_word_from.simps) simp
    qed
  qed
qed

lemma containsWord_eq:
  "t \<noteq> [] \<Longrightarrow> list_all isWordChar t \<Longrightarrow> containsWord s t = Some (\<exists>i. occurs s t i \<and> whole_word s t i)"
  by (simp add: containsWord_def contains_word_from_eq)

lemma containsAnyWord_eq:
  "list_all (\<lambda>t. t \<noteq> [] \<and> list_all isWordChar t) ts \<Longrightarrow>
   containsAnyWord s ts = Some (\<exists>t\<in>set ts. \<exists>i. occurs s t i \<and> whole_word s t i)"
  by (induction ts) (auto simp: containsWord_eq split: bool.splits)

lemma terms_are_words:
  "list_all (\<lambda>t. t \<noteq> [] \<and> list_all isWordChar t) diagnosisTerms" "list_all (\<lambda>t. t \<noteq> [] \<and> list_all isWordChar t) medicationTerms"
  by (simp_all add: diagnosisTerms_def medicationTerms_def isWordChar_def is_lower_def)

lemma detectHealth_total: "\<exists>hits'. detectHealth content hits = Some hits'"
  by (simp add: detectHealth_def containsAnyWord_eq terms_are_words Let_def)

text \<open>
  The word search ends, and finds what it should. For every search term of the detectors the loop returns,
  and it returns true exactly when the term occurs in the text with no word character on either side.
  Jumping over a whole occurrence after a failed one misses nothing.
\<close>

theorem containsWord_iff_whole_word:
  assumes "t \<in> set (diagnosisTerms @ medicationTerms)"
  shows "containsWord s t = Some (\<exists>i. occurs s t i \<and> whole_word s t i)"
  using assms terms_are_words by (intro containsWord_eq) (auto simp: list_all_iff)

theorem containsWord_iff_whole_word_witness:
  "containsWord ''my insulin, please'' ''insulin'' = Some True"
proof -
  have "occurs ''my insulin, please'' ''insulin'' 3 \<and> whole_word ''my insulin, please'' ''insulin'' 3"
    by (simp add: occurs_def whole_word_def isWordChar_def is_lower_def is_digit_def)
  then show ?thesis
    using containsWord_iff_whole_word [of "''insulin''" "''my insulin, please''"] by (auto simp: medicationTerms_def)
qed

subsection \<open>IBAN checksums\<close>

text \<open>The number that ISO 13616 reads a rearranged IBAN as: letters count as 10 to 35.\<close>

fun iban_value :: "nat \<Rightarrow> string \<Rightarrow> nat" where
  "iban_value acc [] = acc"
| "iban_value acc (c # s) =
     iban_value (if is_digit c then 10 * acc + (of_char c - 48) else 100 * acc + (of_char c - 65 + 10)) s"

lemma mod97_fold:
  "list_all is_digit ds \<Longrightarrow>
   foldl (\<lambda>rem c. (rem * 10 + (int (of_char c) - 48)) mod 97) (int acc mod 97) ds =
   int (foldl (\<lambda>acc c. 10 * acc + (of_char c - 48)) acc ds) mod 97"
proof (induction ds arbitrary: acc)
  case (Cons c ds)
  then have c: "48 \<le> (of_char c :: nat)" by (simp add: is_digit_def less_eq_char_def)
  have "(int acc mod 97 * 10 + (int (of_char c) - 48)) mod 97 = (int acc * 10 + (int (of_char c) - 48)) mod 97"
    by (metis mod_add_left_eq mod_mult_left_eq)
  also have "\<dots> = int (10 * acc + (of_char c - 48)) mod 97" using c by (simp add: of_nat_diff algebra_simps)
  finally have step: "(int acc mod 97 * 10 + (int (of_char c) - 48)) mod 97 = int (10 * acc + (of_char c - 48)) mod 97" .
  show ?case unfolding foldl_Cons step by (rule Cons.IH) (use Cons.prems in simp)
qed simp

lemma iban_numeric_value:
  assumes "is_digit c \<or> is_upper c"
  shows "\<exists>d. iban_numeric c = Some d \<and> list_all is_digit d \<and>
    foldl (\<lambda>acc c. 10 * acc + (of_char c - 48)) acc d =
      (if is_digit c then 10 * acc + (of_char c - 48) else 100 * acc + (of_char c - 65 + 10 :: nat))"
proof (cases "is_digit c")
  case True
  then show ?thesis by (simp add: iban_numeric_def)
next
  case False
  define v :: nat where "v = of_char c - 65 + 10"
  have v: "v < 100" using False assms by (auto simp: v_def is_upper_def less_eq_char_def)
  have dig: "is_digit (char_of (48 + d))" "of_char (char_of (48 + d) :: char) = (48 + d :: nat)" if "d < 10" for d :: nat
    using that by (simp_all add: is_digit_def less_eq_char_def)
  have "iban_numeric c = Some [char_of (48 + v div 10), char_of (48 + v mod 10)]"
    using False assms by (simp add: iban_numeric_def v_def)
  then show ?thesis using False v dig [of "v div 10"] dig [of "v mod 10"] by (simp add: v_def [symmetric])
qed

lemma iban_digits_value:
  "list_all (\<lambda>c. is_digit c \<or> is_upper c) s \<Longrightarrow> \<exists>ds. iban_digits s = Some ds \<and> list_all is_digit ds \<and>
    foldl (\<lambda>acc c. 10 * acc + (of_char c - 48)) acc ds = iban_value acc s"
proof (induction s arbitrary: acc)
  case (Cons c s)
  then obtain d where d: "iban_numeric c = Some d" "list_all is_digit d" "foldl (\<lambda>acc c. 10 * acc + (of_char c - 48)) acc d =
      (if is_digit c then 10 * acc + (of_char c - 48) else 100 * acc + (of_char c - 65 + 10))"
    using iban_numeric_value [of c acc] by auto
  from Cons obtain ds where "iban_digits s = Some ds" "list_all is_digit ds"
      "foldl (\<lambda>acc c. 10 * acc + (of_char c - 48)) (foldl (\<lambda>acc c. 10 * acc + (of_char c - 48)) acc d) ds =
        iban_value (foldl (\<lambda>acc c. 10 * acc + (of_char c - 48)) acc d) s" by fastforce
  then show ?case using d by (simp add: list_all_append)
qed simp

lemma looksLikeIBAN_chars: "looksLikeIBAN s \<Longrightarrow> list_all (\<lambda>c. is_digit c \<or> is_upper c) (drop 4 s @ take 4 s)"
proof -
  assume l: "looksLikeIBAN s"
  then have "15 \<le> length s" by (auto simp: looksLikeIBAN_def split: if_splits)
  then obtain a b c d r where s: "s = a # b # c # d # r"
    by (cases s; cases "tl s"; cases "tl (tl s)"; cases "tl (tl (tl s))") auto
  show ?thesis using l by (auto simp: s looksLikeIBAN_def split: if_splits)
qed

text \<open>
  C27. The IBAN check is the one of the standard. A candidate passes exactly when it has the form of an IBAN,
  the length its country prescribes where the country is known, and the number that ISO 13616 reads from
  the rearranged text leaves remainder 1 modulo 97, although the code never builds that number.
\<close>

theorem validIBAN_iff_standard:
  "validIBAN s \<longleftrightarrow> looksLikeIBAN s \<and> ibanCountryLengths (take 2 s) \<in> {None, Some (length s)} \<and>
     iban_value 0 (drop 4 s @ take 4 s) mod 97 = 1"
proof (cases "looksLikeIBAN s")
  case True
  obtain ds where ds: "iban_digits (drop 4 s @ take 4 s) = Some ds" "list_all is_digit ds"
      "foldl (\<lambda>acc c. 10 * acc + (of_char c - 48)) 0 ds = iban_value 0 (drop 4 s @ take 4 s)"
    using iban_digits_value [OF looksLikeIBAN_chars [OF True], of 0] by blast
  have "mod97 ds = int (iban_value 0 (drop 4 s @ take 4 s) mod 97)"
    using mod97_fold [OF ds(2), of 0] ds(3) by (simp add: mod97_def zmod_int)
  then show ?thesis using True ds(1) by (auto simp: validIBAN_def split: option.splits)
qed (simp add: validIBAN_def)

subsection \<open>Results\<close>

definition known_categories :: "string list" where
  "known_categories = [''email_address'', ''phone_number'', ''iban'', ''diagnosis_indicator'', ''medication_indicator'', ''icd_code'',
     ''api_credential'', ''private_key'', ''jwt_shape'']"

definition total_hits :: "aggregator \<Rightarrow> int" where "total_hits hits = sum_list (map snd hits)"

definition agg_ok :: "int \<Rightarrow> aggregator \<Rightarrow> bool" where
  "agg_ok n hits \<longleftrightarrow> (\<forall>x\<in>set hits. fst (fst x) \<in> set known_categories \<and> 0 < snd x) \<and> total_hits hits \<le> n"

lemma total_update:
  "sum_list (map snd (AList.update k (v + (case map_of hits k of None \<Rightarrow> 0 | Some n \<Rightarrow> n)) hits)) = sum_list (map snd hits) + (v :: int)"
  by (induction hits) auto

lemma update_entries:
  "x \<in> set (AList.update k v hits) \<Longrightarrow> x = (k, v) \<or> x \<in> set hits"
  by (induction hits) (auto split: if_splits)

lemma agg_add_ok:
  assumes "agg_ok n hits" "c \<in> set known_categories" "0 \<le> k"
  shows "agg_ok (n + k) (agg_add c r k hits)"
proof (cases "k \<le> 0")
  case True
  then show ?thesis using assms by (simp add: agg_add_def)
next
  case False
  have pos: "0 \<le> (case map_of hits (c, r) of None \<Rightarrow> 0 | Some m \<Rightarrow> m)"
    using assms(1) by (fastforce simp: agg_ok_def split: option.splits dest!: map_of_SomeD)
  let ?new = "AList.update (c, r) ((case map_of hits (c, r) of None \<Rightarrow> 0 | Some m \<Rightarrow> m) + k) hits"
  have "total_hits ?new = total_hits hits + k"
    using total_update [of "(c, r)" k hits] by (simp add: total_hits_def add.commute)
  moreover have "\<forall>x\<in>set ?new. fst (fst x) \<in> set known_categories \<and> 0 < snd x"
  proof
    fix x assume "x \<in> set ?new"
    then show "fst (fst x) \<in> set known_categories \<and> 0 < snd x"
      using update_entries [of x "(c, r)" "(case map_of hits (c, r) of None \<Rightarrow> 0 | Some m \<Rightarrow> m) + k" hits] assms(1,2) pos False
      by (auto simp: agg_ok_def)
  qed
  ultimately show ?thesis using False assms(1) by (simp add: agg_ok_def agg_add_def)
qed

lemma agg_ok_mono: "agg_ok n hits \<Longrightarrow> n \<le> m \<Longrightarrow> agg_ok m hits"
  by (simp add: agg_ok_def)

lemma add_times_ok: "agg_ok n hits \<Longrightarrow> c \<in> set known_categories \<Longrightarrow> agg_ok (n + int k) (add_times k c r hits)"
proof (induction k arbitrary: n hits)
  case (Suc k)
  have "agg_ok (n + 1) (agg_add c r 1 hits)" using Suc.prems by (intro agg_add_ok) simp_all
  then have "agg_ok (n + 1 + int k) (add_times k c r (agg_add c r 1 hits))" using Suc.prems(2) by (rule Suc.IH)
  then show ?case by (simp add: algebra_simps)
qed simp

lemma runes_length: "length (runes s) \<le> length s"
proof (induction s rule: runes.induct)
  case (2 c s)
  show ?case
  proof (cases "utf8_size (c # s) \<le> 3")
    case True
    then show ?thesis using 2(1-3) [OF refl refl] by (cases "utf8_size (c # s) \<le> 1"; cases "utf8_size (c # s) = 2") auto
  next
    case False
    then have "length (runes (drop 3 s)) \<le> length (drop 3 s)" using 2(4) [OF refl refl] by simp
    then show ?thesis using False by (simp add: Let_def)
  qed
qed simp

lemma find_length: "length (FindAllString r (runes s)) \<le> Suc (length s)"
  using find_all_length [of "first_match r" "(None, runes s)"] runes_length [of s] by (simp add: FindAllString_def)

lemma compact_length: "length (compactAlnumUpper s) \<le> length s"
  by (induction s) auto

lemma iban_scan_length: "iban_scan s \<le> length s"
proof (induction s rule: iban_scan.induct)
  case (1 s)
  show ?case
  proof (cases "length s < 4")
    case True
    then show ?thesis by (subst iban_scan.simps) simp
  next
    case False
    show ?thesis
    proof (cases "ibanCountryLengths (take 2 s)")
      case None
      then have "iban_scan s = iban_scan (tl s)" using False by (subst iban_scan.simps) simp
      then show ?thesis using 1(1) [OF False None] by simp
    next
      case (Some n)
      have n: "0 < n" using Some by (auto simp: ibanCountryLengths_def split: if_splits)
      consider "length s < n" | "\<not> length s < n" "validIBAN (take n s)" | "\<not> length s < n" "\<not> validIBAN (take n s)" by blast
      then show ?thesis
      proof cases
        case 1
        then have "iban_scan s = iban_scan (tl s)" using False Some by (subst iban_scan.simps) simp
        then show ?thesis using "1.IH"(2) [OF False Some 1] by simp
      next
        case 2
        then have "iban_scan s = Suc (iban_scan (drop n s))" using False Some by (subst iban_scan.simps) simp
        then show ?thesis using "1.IH"(3) [OF False Some 2] n 2(1) by simp
      next
        case 3
        then have "iban_scan s = iban_scan (tl s)" using False Some by (subst iban_scan.simps) simp
        then show ?thesis using "1.IH"(4) [OF False Some 3] by simp
      qed
    qed
  qed
qed

lemma pii_counts_snoc:
  "pii_counts (hits @ [((c, r), n)]) = (if isPIICategory c then add_count c (word_of_int n) (pii_counts hits) else pii_counts hits)"
  by (simp add: pii_counts_def)

lemma pii_counts_lookup:
  "fmlookup (pii_counts hits) c =
     (if isPIICategory c \<and> c \<in> (fst \<circ> fst) ` set hits
      then Some (word_of_int (sum_list (map snd (filter (\<lambda>x. fst (fst x) = c) hits)))) else None)"
proof (induction hits rule: rev_induct)
  case Nil
  then show ?case by (simp add: pii_counts_def)
next
  case (snoc x hits)
  obtain c' r n where x: "x = ((c', r), n)" by (metis surj_pair)
  have empty: "sum_list (map snd (filter (\<lambda>x. fst (fst x) = c) hits)) = 0" if "c \<notin> (fst \<circ> fst) ` set hits"
  proof -
    have "filter (\<lambda>x. fst (fst x) = c) hits = []" using that by (auto simp: filter_empty_conv image_iff)
    then show ?thesis by simp
  qed
  show ?case
    using snoc empty unfolding x pii_counts_snoc add_count_def by (auto simp: image_Un)
qed

lemma filtered_sum_le:
  "\<forall>x\<in>set hits. 0 \<le> (snd x :: int) \<Longrightarrow> 0 \<le> sum_list (map snd (filter P hits)) \<and> sum_list (map snd (filter P hits)) \<le> sum_list (map snd hits)"
  by (induction hits) auto

lemma known_categories_codes: "c \<in> set known_categories \<Longrightarrow> codePattern c"
  by (auto simp: known_categories_def pattern_defs bounded_pattern_def char_class_defs)

lemma sortedKeys_code_set: "fset s \<subseteq> set known_categories \<Longrightarrow> validCodeSet (sortedKeys s)"
proof -
  assume s: "fset s \<subseteq> set known_categories"
  have "card (fset s) \<le> card (set known_categories)" by (rule card_mono [OF _ s]) simp
  also have "\<dots> \<le> length known_categories" by (rule card_length)
  finally have "card (fset s) \<le> 64" by (simp add: known_categories_def)
  then show ?thesis
    using s known_categories_codes by (auto simp: validCodeSet_iff sortedKeys_def list_all_iff sorted_list_of_fset.rep_eq)
qed

lemma agg_result_fits:
  assumes "agg_ok n hits" "n < 2 ^ 63"
  shows "validCodeSet (re_PIICategories (agg_result sha hits)) \<and> validCodeSet (re_HealthIndicatorCategories (agg_result sha hits)) \<and>
    validCodeSet (re_SecretCategories (agg_result sha hits)) \<and> validCountMap (re_PIIMatchCounts (agg_result sha hits))"
proof -
  have keys: "c \<in> set known_categories" if "c \<in> (fst \<circ> fst) ` set hits" for c using assms(1) that by (auto simp: agg_ok_def)
  have dom: "fset (fmdom (pii_counts hits)) \<subseteq> set known_categories"
    using keys by (auto simp: fmlookup_dom_iff pii_counts_lookup split: if_splits)
  have cats: "fset (category_set P hits) \<subseteq> set known_categories" for P
    using keys by (auto simp: category_set_def fset_of_list.rep_eq)
  have "card (fset (fmdom (pii_counts hits))) \<le> card (set known_categories)" by (rule card_mono [OF _ dom]) simp
  also have "\<dots> \<le> length known_categories" by (rule card_length)
  finally have size: "\<not> maxEventCodes < size (fmdom (pii_counts hits))" by (simp add: known_categories_def maxEventCodes_def)
  have "\<not> v <s 0" if "fmlookup (pii_counts hits) c = Some v" for c v
  proof -
    let ?k = "sum_list (map snd (filter (\<lambda>x. fst (fst x) = c) hits))"
    have "v = word_of_int ?k" using that by (simp add: pii_counts_lookup split: if_splits)
    moreover have "0 \<le> ?k" "?k < 2 ^ 63"
      using filtered_sum_le [of hits "\<lambda>x. fst (fst x) = c"] assms by (auto simp: agg_ok_def total_hits_def less_imp_le)
    ultimately show ?thesis by (simp add: int64_less sint_word_of_int)
  qed
  moreover have "codePattern c" if "fmlookup (pii_counts hits) c = Some v" for c v
    using that dom known_categories_codes by (metis fmdomI subsetD)
  ultimately have "validCountMap (pii_counts hits)"
    using size by (auto simp: validCountMap_def list_all_iff sorted_list_of_fmap_def)
  then show ?thesis
    using sortedKeys_code_set [OF dom] sortedKeys_code_set [OF cats] by (simp add: agg_result_def Let_def)
qed


lemma add_times_within: "agg_ok n hits \<Longrightarrow> c \<in> set known_categories \<Longrightarrow> int k \<le> b \<Longrightarrow> agg_ok (n + b) (add_times k c r hits)"
  using add_times_ok [of n hits c k r] by (auto simp: agg_ok_def)

lemma agg_add_within:
  "agg_ok n hits \<Longrightarrow> c \<in> set known_categories \<Longrightarrow> int k \<le> b \<Longrightarrow> 0 \<le> b \<Longrightarrow> agg_ok (n + b) (if Q then agg_add c r (int k) hits else hits)"
  using agg_add_ok [of n hits c "int k" r] agg_ok_mono by (cases Q) fastforce+

lemma detect_agg_ok:
  assumes "detectHealth content (detectPII content newAggregator) = Some hits" "length content \<le> 2 ^ 20"
  shows "agg_ok (2 ^ 24) (detectSecrets content hits)"
proof -
  let ?n = "int (length content) + 1"
  have cat: "''email_address'' \<in> set known_categories" "''phone_number'' \<in> set known_categories" "''iban'' \<in> set known_categories"
    "''diagnosis_indicator'' \<in> set known_categories" "''medication_indicator'' \<in> set known_categories" "''icd_code'' \<in> set known_categories"
    "''api_credential'' \<in> set known_categories" "''private_key'' \<in> set known_categories" "''jwt_shape'' \<in> set known_categories"
    by (simp_all add: known_categories_def)
  have start: "agg_ok 0 newAggregator" by (simp add: agg_ok_def newAggregator_def total_hits_def)
  have found: "int (length (FindAllString r (runes content))) \<le> ?n" for r using find_length [of r content] by simp
  have kept: "int (length (filter P (FindAllString r (runes content)))) \<le> ?n" for P r
    using found [of r] length_filter_le [of P "FindAllString r (runes content)"] by linarith
  have iban: "int (iban_scan (compactAlnumUpper content)) \<le> ?n"
    using iban_scan_length [of "compactAlnumUpper content"] compact_length [of content] by simp
  have icd: "int (length (filter P (find_all icd_match (None, runes content)))) \<le> ?n" for P
    using find_all_length [of icd_match "(None, runes content)"] runes_length [of content]
      length_filter_le [of P "find_all icd_match (None, runes content)"] by (simp del: length_filter_le)
  have pii: "agg_ok (0 + ?n + ?n + ?n) (detectPII content newAggregator)"
    unfolding detectPII_def Let_def by (intro add_times_within start cat kept iban)
  obtain d m where words: "containsAnyWord (ToLower content) diagnosisTerms = Some d" "containsAnyWord (ToLower content) medicationTerms = Some m"
    by (simp add: containsAnyWord_eq terms_are_words)
  have hits: "hits = add_times (length (filter (\<lambda>(p, q, m). icd_counts p q m) (find_all icd_match (None, runes content))))
      ''icd_code'' ''health_icd_shape_v1''
      (if m then agg_add ''medication_indicator'' ''health_medication_terms_v1'' (int 1)
        (if d then agg_add ''diagnosis_indicator'' ''health_diagnosis_terms_v1'' (int 1) (detectPII content newAggregator)
         else detectPII content newAggregator)
       else if d then agg_add ''diagnosis_indicator'' ''health_diagnosis_terms_v1'' (int 1) (detectPII content newAggregator)
         else detectPII content newAggregator)"
    using assms(1) by (cases d; cases m) (simp_all add: detectHealth_def words Let_def eq_commute [of hits])
  have "agg_ok (0 + ?n + ?n + ?n + ?n + ?n + ?n) hits"
    unfolding hits by (intro add_times_within agg_add_within pii cat icd) simp_all
  then have "agg_ok (0 + ?n + ?n + ?n + ?n + ?n + ?n + ?n + ?n + ?n) (detectSecrets content hits)"
    unfolding detectSecrets_def Let_def by (intro agg_add_within cat found) simp_all
  then show ?thesis by (rule agg_ok_mono) (use assms(2) in simp)
qed

text \<open>
  C26. Classification always ends with a result or an input error, and every result fits the audit event it
  is copied into: the three category lists are sets of valid codes, the counts are valid and cover exactly
  the listed personal-data categories, and the digest is the one of the shipped rule set. Input is refused
  exactly when it is too large, not UTF-8, or contains a NUL byte.
\<close>

theorem Detect_total_and_fits:
  "\<exists>res. Detect sha256 content = Some res \<and>
     (case res of
        Inl e \<Rightarrow> if 2 ^ 20 < length content then e = ErrInputTooLarge
                 else e = ErrInvalidInput \<and> \<not> (utf8_valid content \<and> CHR 0x00 \<notin> set content)
      | Inr result \<Rightarrow> length content \<le> 2 ^ 20 \<and> utf8_valid content \<and> CHR 0x00 \<notin> set content \<and>
          validCodeSet (re_PIICategories result) \<and> validCodeSet (re_HealthIndicatorCategories result) \<and>
          validCodeSet (re_SecretCategories result) \<and> validCountMap (re_PIIMatchCounts result) \<and>
          set (re_PIICategories result) = fset (fmdom (re_PIIMatchCounts result)) \<and>
          api_digestFromHex (re_BundleDigest result) = Some (sha256 (join_with [CHR 0x0A] bundle_rules)))"
proof -
  obtain hits where hits: "detectHealth content (detectPII content newAggregator) = Some hits" using detectHealth_total by blast
  show ?thesis
  proof (cases "normalizeInput content")
    case (Inl e)
    then show ?thesis by (auto simp: Detect_def DetectBytes_def normalizeInput_def MaxInputBytes_def split: if_splits)
  next
    case (Inr t)
    then have t: "t = content" "length content \<le> 2 ^ 20" "utf8_valid content" "CHR 0x00 \<notin> set content"
      by (auto simp: normalizeInput_def MaxInputBytes_def split: if_splits)
    have "Detect sha256 content = Some (Inr (agg_result sha256 (detectSecrets content hits)))"
      using Inr t(1) hits by (simp add: Detect_def DetectBytes_def)
    then show ?thesis
      using t agg_result_fits [OF detect_agg_ok [OF hits t(2)], of sha256]
      by (simp add: agg_result_def Let_def bundleDigest_def sortedKeys_def)
  qed
qed

end
