(* ===== verification/Server.thy ===== *)
theory Server
  imports Policy Price BudgetService AuditRepository Auth ApiKeys Backend Detect
begin

section \<open>The HTTP API\<close>

text \<open>
  \<open>internal/api/server.go\<close>. The injected collaborators are the fields of a record; those that act on the
  outside take and return a state of any type \<open>'w\<close>, so that every statement about a handler holds for all
  implementations of them, failing ones included. A request is what the handlers read of it, a response its
  status and body. \<open>handleChatCompletions\<close> is split where the code has its stages: \<open>unknown_model\<close>,
  \<open>known_model\<close>, \<open>reserve_and_start\<close>, \<open>call_backend\<close> and \<open>complete_run\<close>; each early return is a branch.
\<close>

subsection \<open>Collaborators, requests, responses\<close>

record ModelRoute =
  mr_Name :: string
  mr_BackendModel :: string
  mr_Price :: ModelPrice

record 'w Dependencies =
  dp_Authenticate :: "string \<Rightarrow> 'w \<Rightarrow> (auth_error + Principal) \<times> 'w"
  dp_Policy :: Engine
  dp_Detect :: "string \<Rightarrow> detect_error + Result"
  dp_Reserve :: "ReserveRequest \<Rightarrow> 'w \<Rightarrow> (budget_error + Reservation) \<times> 'w"
  dp_Settle :: "SettleRequest \<Rightarrow> 'w \<Rightarrow> (budget_error + int64) \<times> 'w"
  dp_Append :: "Event \<Rightarrow> 'w \<Rightarrow> (repository_error + AppendReceipt) \<times> 'w"
  dp_ChatCompletions :: "ChatRequest \<Rightarrow> 'w \<Rightarrow> (backend_error + ChatResult) \<times> 'w"
  dp_Digester :: ContentDigester
  dp_Models :: "ModelRoute list"
  dp_MaxRequestBytes :: int64
  dp_MaxResponseBytes :: int64
  dp_ResolvedBackend :: string
  dp_ConfigHash :: digest
  dp_Now :: "'w \<Rightarrow> go_time \<times> 'w"
  dp_BudgetTTL :: int64
  dp_Random :: "'w \<Rightarrow> bytes \<times> 'w"
  dp_Version :: string

record http_in =
  in_Method :: string
  in_Path :: string
  in_RawQuery :: string
  in_Authorization :: string
  in_Body :: stream

record http_out =
  out_Status :: nat
  out_Body :: bytes

datatype api_error = ErrMisconfigured | ErrInvalidDigest

text \<open>Hash functions and number parsing, which the standard library provides.\<close>

record primitives =
  pr_sha256 :: "bytes \<Rightarrow> digest"
  pr_hmac :: "bytes \<Rightarrow> bytes \<Rightarrow> digest"
  pr_parse_float :: "string \<Rightarrow> float64 option"

text \<open>\<open>missing\<close> says that one of the collaborators is nil.\<close>

definition New :: "bool \<Rightarrow> 'w Dependencies \<Rightarrow> api_error + 'w Dependencies" where
  "New missing deps =
     (if missing \<or> dp_MaxRequestBytes deps \<le>s 0 \<or> dp_MaxResponseBytes deps \<le>s 0 \<or> length (dp_Models deps) = 0 \<or>
         dp_ResolvedBackend deps = []
      then Inl ErrMisconfigured
      else Inr (if dp_BudgetTTL deps \<le>s 0 then deps\<lparr>dp_BudgetTTL := 120000000000\<rparr> else deps))"

definition writeJSON :: "nat \<Rightarrow> json \<Rightarrow> http_out" where
  "writeJSON status payload = \<lparr>out_Status = status, out_Body = marshal payload @ [CHR 0x0A]\<rparr>"

definition writeError :: "nat \<Rightarrow> string \<Rightarrow> http_out" where
  "writeError status code =
     writeJSON status (JObject [(''error'', JObject [(''code'', JString code), (''message'', JString code), (''type'', JString ''gateway_error'')])])"

definition writeAuthError :: "auth_error \<Rightarrow> http_out" where
  "writeAuthError err =
     (case err of ErrUnauthenticated \<Rightarrow> writeError 401 ''invalid_credentials'' | _ \<Rightarrow> writeError 503 ''unavailable'')"

subsection \<open>Helpers\<close>

definition uuid_byte :: "nat \<Rightarrow> nat \<Rightarrow> char \<Rightarrow> char" where
  "uuid_byte keep set_bits c = char_of (of_char c mod keep + set_bits)"

text \<open>\<open>rand.Read\<close> fills the zero array as far as it gets.\<close>

definition newUUID :: "bytes \<Rightarrow> string" where
  "newUUID random =
     (let b0 = take 16 (random @ replicate 16 (CHR 0x00));
          b1 = b0[6 := uuid_byte 16 64 (b0 ! 6)];
          b = b1[8 := uuid_byte 64 128 (b1 ! 8)]
      in hex_encode (take 4 b) @ ''-'' @ hex_encode (take 2 (drop 4 b)) @ ''-'' @ hex_encode (take 2 (drop 6 b)) @ ''-'' @
         hex_encode (take 2 (drop 8 b)) @ ''-'' @ hex_encode (take 6 (drop 10 b)))"

definition new_uuid :: "'w Dependencies \<Rightarrow> 'w \<Rightarrow> string \<times> 'w" where
  "new_uuid deps w = (case dp_Random deps w of (b, w') \<Rightarrow> (newUUID b, w'))"

definition server_now :: "'w Dependencies \<Rightarrow> 'w \<Rightarrow> go_time \<times> 'w" where
  "server_now deps w = (case dp_Now deps w of (t, w') \<Rightarrow> (time_Truncate (time_UTC t) 1000, w'))"

definition lookupModel :: "'w Dependencies \<Rightarrow> string \<Rightarrow> ModelRoute option" where
  "lookupModel deps name = find (\<lambda>m. mr_Name m = name) (dp_Models deps)"

definition joinMessageText :: "ChatRequest \<Rightarrow> string" where
  "joinMessageText req = join_with [CHR 0x0A] (map msg_Content (cq_Messages req))"

definition policy_request :: "Principal \<Rightarrow> string \<Rightarrow> string \<Rightarrow> Request" where
  "policy_request pr endpoint model =
     \<lparr>req_PrincipalID = p_ID pr, req_Groups = p_Groups pr, req_Endpoint = endpoint, req_Model = model\<rparr>"

definition buildEvent ::
  "primitives \<Rightarrow> 'w Dependencies \<Rightarrow> Principal \<Rightarrow> string \<Rightarrow> string \<Rightarrow> string \<Rightarrow> string \<Rightarrow> PolicyDecision \<Rightarrow> string \<Rightarrow> digest \<Rightarrow>
   digest option \<Rightarrow> int64 \<Rightarrow> int64 option \<Rightarrow> Result \<Rightarrow> int64 option \<Rightarrow> int64 option \<Rightarrow> string option \<Rightarrow> go_time \<Rightarrow> 'w \<Rightarrow>
   (api_error + Event) \<times> 'w" where
  "buildEvent prim deps pr runID eventType decision status policyDecision model requestHMAC responseHMAC requestBytes responseBytes
     classification reserved actual errorCode now w =
     (let policyHash = (case api_digestFromHex (dec_PolicyDigest policyDecision) of
            None \<Rightarrow> pr_sha256 prim (engine_Version (Some (dp_Policy deps))) | Some d \<Rightarrow> d);
          detectorHash = (case api_digestFromHex (re_BundleDigest classification) of
            None \<Rightarrow> pr_sha256 prim BundleVersion | Some d \<Rightarrow> d)
      in if p_AuthMethod pr = AuthMethodOIDC \<and> p_OIDCIssuerHash pr = zero_digest then (Inl ErrInvalidDigest, w)
         else case new_uuid deps w of (eventID, w') \<Rightarrow>
           (Inr \<lparr>SchemaVersion = 1, EventID = eventID, RunID = runID, EventType = eventType, OccurredAt = now,
              PrincipalID = p_ID pr,
              AuthMethod = (if p_AuthMethod pr = AuthMethodOIDC then AuthOIDC else AuthAPIKey),
              OIDCIssuerHash = (if p_AuthMethod pr = AuthMethodOIDC then Some (p_OIDCIssuerHash pr) else None),
              PolicyVersionHash = policyHash, Decision = decision, DecisionReasonCodes = Some (dec_ReasonCodes policyDecision),
              RequestedModel = model, ResolvedBackend = dp_ResolvedBackend deps,
              ContentHMACKeyID = digester_KeyID (Some (dp_Digester deps)), RequestHMAC = requestHMAC, ResponseHMAC = responseHMAC,
              RequestBytes = requestBytes, ResponseBytes = responseBytes, PIICategories = Some (re_PIICategories classification),
              PIIMatchCounts = Some (re_PIIMatchCounts classification),
              HealthIndicatorCategories = Some (re_HealthIndicatorCategories classification),
              SecretCategories = Some (re_SecretCategories classification), DetectorBundleHash = detectorHash, InputTokens = None,
              OutputTokens = None, ReservedCostMicros = reserved, event_ActualCostMicros = actual, event_Status = status,
              ErrorCode = errorCode, PreviousEventHash = zero_digest, SoftwareVersion = dp_Version deps,
              ConfigHash = dp_ConfigHash deps\<rparr>, w'))"

definition appendDenied ::
  "primitives \<Rightarrow> 'w Dependencies \<Rightarrow> Principal \<Rightarrow> string \<Rightarrow> string \<Rightarrow> PolicyDecision \<Rightarrow> digest \<Rightarrow> int64 \<Rightarrow> Result \<Rightarrow> go_time \<Rightarrow> 'w \<Rightarrow> bool \<times> 'w" where
  "appendDenied prim deps pr runID model decision requestHMAC requestBytes classification now w =
     (case buildEvent prim deps pr runID EventRunDenied DecisionDeny StatusDenied decision model requestHMAC None requestBytes None
         classification None None None now w of
        (Inl _, w1) \<Rightarrow> (False, w1)
      | (Inr event, w1) \<Rightarrow> (case dp_Append deps event w1 of (Inl _, w2) \<Rightarrow> (False, w2) | (Inr _, w2) \<Rightarrow> (True, w2)))"

definition appendFailed ::
  "primitives \<Rightarrow> 'w Dependencies \<Rightarrow> Principal \<Rightarrow> string \<Rightarrow> string \<Rightarrow> PolicyDecision \<Rightarrow> digest \<Rightarrow> int64 \<Rightarrow> Result \<Rightarrow> int64 \<Rightarrow> int64 \<Rightarrow> string \<Rightarrow>
   go_time \<Rightarrow> 'w \<Rightarrow> 'w" where
  "appendFailed prim deps pr runID model decision requestHMAC requestBytes classification reserved actual code now w =
     (case buildEvent prim deps pr runID EventRunFailed DecisionAllow StatusFailed decision model requestHMAC None requestBytes None
         classification (Some reserved) (Some actual) (Some code) now w of
        (Inl _, w1) \<Rightarrow> w1
      | (Inr event, w1) \<Rightarrow> snd (dp_Append deps event w1))"

subsection \<open>Listing models\<close>

definition model_object :: "ModelRoute \<Rightarrow> json" where
  "model_object m = JObject [(''id'', JString (mr_Name m)), (''object'', JString ''model''), (''owned_by'', JString ''customer'')]"

definition allowed_models :: "'w Dependencies \<Rightarrow> Principal \<Rightarrow> ModelRoute list" where
  "allowed_models deps pr =
     filter (\<lambda>m. dec_Effect (Evaluate (Some (dp_Policy deps)) (policy_request pr ''models.list'' (mr_Name m))) = EffectAllow) (dp_Models deps)"

definition handleModels :: "'w Dependencies \<Rightarrow> http_in \<Rightarrow> 'w \<Rightarrow> http_out \<times> 'w" where
  "handleModels deps request w =
     (if in_Method request \<noteq> ''GET'' then (writeError 405 ''method_not_allowed'', w)
      else case dp_Authenticate deps (in_Authorization request) w of
          (Inl err, w1) \<Rightarrow> (writeAuthError err, w1)
        | (Inr pr, w1) \<Rightarrow>
            (writeJSON 200 (JObject [(''object'', JString ''list''), (''data'', JArray (map model_object (allowed_models deps pr)))]), w1))"

subsection \<open>Chat completions\<close>

text \<open>What the stages of one run pass on.\<close>

record run_context =
  rx_principal :: Principal
  rx_runID :: string
  rx_route :: ModelRoute
  rx_decision :: PolicyDecision
  rx_requestHMAC :: digest
  rx_requestBytes :: int64
  rx_classification :: Result

definition run_failed :: "primitives \<Rightarrow> 'w Dependencies \<Rightarrow> run_context \<Rightarrow> int64 \<Rightarrow> int64 \<Rightarrow> string \<Rightarrow> go_time \<Rightarrow> 'w \<Rightarrow> 'w" where
  "run_failed prim deps rx reserved actual code now w =
     appendFailed prim deps (rx_principal rx) (rx_runID rx) (mr_Name (rx_route rx)) (rx_decision rx) (rx_requestHMAC rx) (rx_requestBytes rx)
       (rx_classification rx) reserved actual code now w"

definition settle :: "'w Dependencies \<Rightarrow> string \<Rightarrow> int64 \<Rightarrow> 'w \<Rightarrow> (budget_error + int64) \<times> 'w" where
  "settle deps reservationID actual w = dp_Settle deps \<lparr>sr_ReservationID = reservationID, sr_ActualMicros = Some actual\<rparr> w"

definition actual_cost :: "ModelRoute \<Rightarrow> int64 \<Rightarrow> Usage \<Rightarrow> int64" where
  "actual_cost route reserveMicros usage =
     (let promptTokens = (if us_PromptTokens usage \<le>s 0 then 1 else us_PromptTokens usage) in
      case ActualCostMicros (mr_Price route) promptTokens (us_CompletionTokens usage) of
        Inl _ \<Rightarrow> reserveMicros
      | Inr cost \<Rightarrow> if reserveMicros <s cost then reserveMicros else cost)"

definition complete_run ::
  "primitives \<Rightarrow> 'w Dependencies \<Rightarrow> run_context \<Rightarrow> string \<Rightarrow> int64 \<Rightarrow> ChatResult \<Rightarrow> go_time \<Rightarrow> 'w \<Rightarrow> http_out \<times> 'w" where
  "complete_run prim deps rx reservationID reserveMicros result completeNow w =
     (case digester_Sum (pr_hmac prim) (Some (dp_Digester deps)) (cr_RawJSON result) of
        Inl _ \<Rightarrow>
          (case settle deps reservationID 0 w of (_, w1) \<Rightarrow>
             (writeError 503 ''unavailable'', run_failed prim deps rx reserveMicros 0 ''unavailable'' completeNow w1))
      | Inr responseHMAC \<Rightarrow>
          case settle deps reservationID (actual_cost (rx_route rx) reserveMicros (cr_Usage result)) w of
            (Inl _, w1) \<Rightarrow> (writeError 503 ''unavailable'', run_failed prim deps rx reserveMicros 0 ''unavailable'' completeNow w1)
          | (Inr settled, w1) \<Rightarrow>
              case buildEvent prim deps (rx_principal rx) (rx_runID rx) EventRunCompleted DecisionAllow StatusCompleted (rx_decision rx)
                  (mr_Name (rx_route rx)) (rx_requestHMAC rx) (Some responseHMAC) (rx_requestBytes rx) (Some (len64 (cr_RawJSON result)))
                  (rx_classification rx) (Some reserveMicros) (Some settled) None completeNow w1 of
                (Inl _, w2) \<Rightarrow> (writeError 503 ''unavailable'', run_failed prim deps rx reserveMicros settled ''unavailable'' completeNow w2)
              | (Inr event, w2) \<Rightarrow>
                  let completeEvent = event\<lparr>InputTokens := Some (us_PromptTokens (cr_Usage result)),
                        OutputTokens := Some (us_CompletionTokens (cr_Usage result))\<rparr> in
                  case dp_Append deps completeEvent w2 of
                    (Inl _, w3) \<Rightarrow> (writeError 503 ''unavailable'', run_failed prim deps rx reserveMicros settled ''unavailable'' completeNow w3)
                  | (Inr _, w3) \<Rightarrow> (\<lparr>out_Status = 200, out_Body = cr_RawJSON result\<rparr>, w3))"

definition call_backend ::
  "primitives \<Rightarrow> 'w Dependencies \<Rightarrow> run_context \<Rightarrow> ChatRequest \<Rightarrow> string \<Rightarrow> int64 \<Rightarrow> 'w \<Rightarrow> http_out \<times> 'w" where
  "call_backend prim deps rx chatReq reservationID reserveMicros w =
     (case dp_ChatCompletions deps (chatReq\<lparr>cq_Model := mr_BackendModel (rx_route rx)\<rparr>) w of (outcome, w1) \<Rightarrow>
        case server_now deps w1 of (completeNow, w2) \<Rightarrow>
          case outcome of
            Inl backendErr \<Rightarrow>
              (case settle deps reservationID 0 w2 of (_, w3) \<Rightarrow>
                 (writeError 502 (''backend_'' @ Code backendErr),
                  run_failed prim deps rx reserveMicros 0 (Code backendErr) completeNow w3))
          | Inr result \<Rightarrow>
              if dp_MaxResponseBytes deps <s len64 (cr_RawJSON result) then
                (case settle deps reservationID 0 w2 of (_, w3) \<Rightarrow>
                   (writeError 502 ''backend_response_too_large'',
                    run_failed prim deps rx reserveMicros 0 ''response_too_large'' completeNow w3))
              else complete_run prim deps rx reservationID reserveMicros result completeNow w2)"

definition start_run ::
  "primitives \<Rightarrow> 'w Dependencies \<Rightarrow> run_context \<Rightarrow> ChatRequest \<Rightarrow> string \<Rightarrow> int64 \<Rightarrow> go_time \<Rightarrow> 'w \<Rightarrow> http_out \<times> 'w" where
  "start_run prim deps rx chatReq reservationID reserveMicros now w =
     (case buildEvent prim deps (rx_principal rx) (rx_runID rx) EventRunStarted DecisionAllow StatusStarted (rx_decision rx)
         (mr_Name (rx_route rx)) (rx_requestHMAC rx) None (rx_requestBytes rx) None (rx_classification rx) (Some reserveMicros) None None now w of
        (Inl _, w1) \<Rightarrow> (case settle deps reservationID 0 w1 of (_, w2) \<Rightarrow> (writeError 503 ''unavailable'', w2))
      | (Inr startEvent, w1) \<Rightarrow>
          case dp_Append deps startEvent w1 of
            (Inl _, w2) \<Rightarrow> (case settle deps reservationID 0 w2 of (_, w3) \<Rightarrow> (writeError 503 ''unavailable'', w3))
          | (Inr startReceipt, w2) \<Rightarrow>
              if \<not> AuthorizesBackendCall startReceipt
              then (case settle deps reservationID 0 w2 of (_, w3) \<Rightarrow> (writeError 503 ''unavailable'', w3))
              else call_backend prim deps rx chatReq reservationID reserveMicros w2)"

definition deny_run ::
  "primitives \<Rightarrow> 'w Dependencies \<Rightarrow> Principal \<Rightarrow> string \<Rightarrow> string \<Rightarrow> PolicyDecision \<Rightarrow> digest \<Rightarrow> int64 \<Rightarrow> Result \<Rightarrow> go_time \<Rightarrow> http_out \<Rightarrow> 'w \<Rightarrow>
   http_out \<times> 'w" where
  "deny_run prim deps pr runID model decision requestHMAC requestBytes classification now response w =
     (case appendDenied prim deps pr runID model decision requestHMAC requestBytes classification now w of
        (False, w1) \<Rightarrow> (writeError 503 ''unavailable'', w1)
      | (True, w1) \<Rightarrow> (response, w1))"

definition reserve_and_start ::
  "primitives \<Rightarrow> 'w Dependencies \<Rightarrow> run_context \<Rightarrow> ChatRequest \<Rightarrow> bytes \<Rightarrow> go_time \<Rightarrow> 'w \<Rightarrow> http_out \<times> 'w" where
  "reserve_and_start prim deps rx chatReq body now w =
     (case EstimateMaxCostMicros (mr_Price (rx_route rx)) (of_nat (length body div 4 + 1)) of
        Inl _ \<Rightarrow> (writeError 503 ''unavailable'', w)
      | Inr reserveMicros \<Rightarrow>
          case dp_Reserve deps \<lparr>rr_PrincipalID = p_ID (rx_principal rx), rr_RunID = rx_runID rx, rr_ModelName = mr_Name (rx_route rx),
              rr_ReservedMaxMicros = reserveMicros, rr_TTL = dp_BudgetTTL deps\<rparr> w of
            (Inl err, w1) \<Rightarrow>
              if err = ErrBudgetDenied then
                deny_run prim deps (rx_principal rx) (rx_runID rx) (mr_Name (rx_route rx))
                  ((rx_decision rx)\<lparr>dec_Effect := EffectDeny, dec_ReasonCodes := [''budget_denied'']\<rparr>)
                  (rx_requestHMAC rx) (rx_requestBytes rx) (rx_classification rx) now (writeError 402 ''budget_denied'') w1
              else (writeError 503 ''unavailable'', w1)
          | (Inr reservation, w1) \<Rightarrow> start_run prim deps rx chatReq (rsv_ID reservation) reserveMicros now w1)"

definition known_model ::
  "primitives \<Rightarrow> 'w Dependencies \<Rightarrow> Principal \<Rightarrow> bytes \<Rightarrow> ChatRequest \<Rightarrow> ModelRoute \<Rightarrow> 'w \<Rightarrow> http_out \<times> 'w" where
  "known_model prim deps pr body chatReq route w =
     (case digester_Sum (pr_hmac prim) (Some (dp_Digester deps)) body of
        Inl _ \<Rightarrow> (writeError 503 ''unavailable'', w)
      | Inr requestHMAC \<Rightarrow>
          case dp_Detect deps (joinMessageText chatReq) of
            Inl _ \<Rightarrow> (writeError 400 ''invalid_request'', w)
          | Inr classification \<Rightarrow>
              let decision = Evaluate (Some (dp_Policy deps)) (policy_request pr ''chat.completions'' (mr_Name route)) in
              case new_uuid deps w of (runID, w1) \<Rightarrow>
                case server_now deps w1 of (now, w2) \<Rightarrow>
                  if dec_Effect decision \<noteq> EffectAllow then
                    deny_run prim deps pr runID (mr_Name route) decision requestHMAC (len64 body) classification now
                      (writeError 403 ''policy_denied'') w2
                  else reserve_and_start prim deps
                    \<lparr>rx_principal = pr, rx_runID = runID, rx_route = route, rx_decision = decision, rx_requestHMAC = requestHMAC,
                     rx_requestBytes = len64 body, rx_classification = classification\<rparr> chatReq body now w2)"

definition unknown_model :: "primitives \<Rightarrow> 'w Dependencies \<Rightarrow> Principal \<Rightarrow> bytes \<Rightarrow> ChatRequest \<Rightarrow> 'w \<Rightarrow> http_out \<times> 'w" where
  "unknown_model prim deps pr body chatReq w =
     (let evaluated = Evaluate (Some (dp_Policy deps)) (policy_request pr ''chat.completions'' (cq_Model chatReq));
          decision = (if dec_Effect evaluated = EffectAllow
            then evaluated\<lparr>dec_Effect := EffectDeny, dec_ReasonCodes := [''no_matching_allow'']\<rparr> else evaluated)
      in case new_uuid deps w of (runID, w1) \<Rightarrow>
           case server_now deps w1 of (now, w2) \<Rightarrow>
             case digester_Sum (pr_hmac prim) (Some (dp_Digester deps)) body of
               Inl _ \<Rightarrow> (writeError 503 ''unavailable'', w2)
             | Inr requestHMAC \<Rightarrow>
                 case dp_Detect deps (joinMessageText chatReq) of
                   Inl _ \<Rightarrow> (writeError 400 ''invalid_request'', w2)
                 | Inr classification \<Rightarrow>
                     deny_run prim deps pr runID ''unknown_model'' decision requestHMAC (len64 body) classification now
                       (writeError 403 ''policy_denied'') w2)"

definition handleChatCompletions :: "primitives \<Rightarrow> 'w Dependencies \<Rightarrow> http_in \<Rightarrow> 'w \<Rightarrow> http_out \<times> 'w" where
  "handleChatCompletions prim deps request w =
     (if in_Method request \<noteq> ''POST'' then (writeError 405 ''method_not_allowed'', w)
      else case dp_Authenticate deps (in_Authorization request) w of
          (Inl err, w1) \<Rightarrow> (writeAuthError err, w1)
        | (Inr pr, w1) \<Rightarrow>
            case read_all (dp_MaxRequestBytes deps + 1) (in_Body request) of
              None \<Rightarrow> (writeError 400 ''invalid_request'', w1)
            | Some body \<Rightarrow>
                if dp_MaxRequestBytes deps <s len64 body then (writeError 413 ''request_too_large'', w1)
                else case ParseChatRequest (pr_parse_float prim) body of
                    Inl _ \<Rightarrow> (writeError 400 ''invalid_request'', w1)
                  | Inr chatReq \<Rightarrow>
                      case lookupModel deps (cq_Model chatReq) of
                        None \<Rightarrow> unknown_model prim deps pr body chatReq w1
                      | Some route \<Rightarrow> known_model prim deps pr body chatReq route w1)"

text \<open>\<open>mux_other\<close> is what \<open>http.ServeMux\<close> answers for a path that is not registered.\<close>

definition Handler :: "primitives \<Rightarrow> (http_in \<Rightarrow> http_out) \<Rightarrow> 'w Dependencies \<Rightarrow> http_in \<Rightarrow> 'w \<Rightarrow> http_out \<times> 'w" where
  "Handler prim mux_other deps request w =
     (if in_RawQuery request \<noteq> [] then (writeError 400 ''invalid_request'', w)
      else if in_Path request = ''/v1/chat/completions'' then handleChatCompletions prim deps request w
      else if in_Path request = ''/v1/models'' then handleModels deps request w
      else (mux_other request, w))"

end
