(* ===== verification/ServerTrace.thy ===== *)
theory ServerTrace
  imports Server
begin

section \<open>What the server asks of its collaborators\<close>

text \<open>
  \<open>traced\<close> wraps the collaborators so that the state also collects the calls made, in order. \<open>chat_trace\<close> is the
  protocol of \<open>handleChatCompletions\<close>: every list of calls one request can give rise to, with the response that goes
  with it. The handler refines it whatever the collaborators do, and the safety of the gateway is read off it.
\<close>

subsection \<open>Recording the calls\<close>

datatype call =
    Authenticated "auth_error + Principal"
  | Reserved ReserveRequest "budget_error + Reservation"
  | Settled SettleRequest "budget_error + int64"
  | Appended Event "repository_error + AppendReceipt"
  | Called ChatRequest "backend_error + ChatResult"

definition record_call :: "('a \<Rightarrow> 'w \<Rightarrow> 'b \<times> 'w) \<Rightarrow> ('a \<Rightarrow> 'b \<Rightarrow> call) \<Rightarrow> 'a \<Rightarrow> 'w \<times> call list \<Rightarrow> 'b \<times> 'w \<times> call list" where
  "record_call f mk x s = (case f x (fst s) of (y, w') \<Rightarrow> (y, w', snd s @ [mk x y]))"

definition quiet :: "('w \<Rightarrow> 'b \<times> 'w) \<Rightarrow> 'w \<times> call list \<Rightarrow> 'b \<times> 'w \<times> call list" where
  "quiet f s = (case f (fst s) of (y, w') \<Rightarrow> (y, w', snd s))"

definition traced :: "'w Dependencies \<Rightarrow> ('w \<times> call list) Dependencies" where
  "traced deps = \<lparr>
     dp_Authenticate = record_call (dp_Authenticate deps) (\<lambda>_ r. Authenticated r),
     dp_Policy = dp_Policy deps, dp_Detect = dp_Detect deps,
     dp_Reserve = record_call (dp_Reserve deps) Reserved,
     dp_Settle = record_call (dp_Settle deps) Settled,
     dp_Append = record_call (dp_Append deps) Appended,
     dp_ChatCompletions = record_call (dp_ChatCompletions deps) Called,
     dp_Digester = dp_Digester deps, dp_Models = dp_Models deps, dp_MaxRequestBytes = dp_MaxRequestBytes deps,
     dp_MaxResponseBytes = dp_MaxResponseBytes deps, dp_ResolvedBackend = dp_ResolvedBackend deps, dp_ConfigHash = dp_ConfigHash deps,
     dp_Now = quiet (dp_Now deps), dp_BudgetTTL = dp_BudgetTTL deps, dp_Random = quiet (dp_Random deps), dp_Version = dp_Version deps\<rparr>"

subsection \<open>What a traced stage adds\<close>

named_theorems trace_simps

lemma traced_simps [simp]:
  "dp_Authenticate (traced deps) = record_call (dp_Authenticate deps) (\<lambda>_ r. Authenticated r)"
  "dp_Policy (traced deps) = dp_Policy deps" "dp_Detect (traced deps) = dp_Detect deps"
  "dp_Reserve (traced deps) = record_call (dp_Reserve deps) Reserved"
  "dp_Settle (traced deps) = record_call (dp_Settle deps) Settled"
  "dp_Append (traced deps) = record_call (dp_Append deps) Appended"
  "dp_ChatCompletions (traced deps) = record_call (dp_ChatCompletions deps) Called"
  "dp_Digester (traced deps) = dp_Digester deps" "dp_Models (traced deps) = dp_Models deps"
  "dp_MaxRequestBytes (traced deps) = dp_MaxRequestBytes deps" "dp_MaxResponseBytes (traced deps) = dp_MaxResponseBytes deps"
  "dp_ResolvedBackend (traced deps) = dp_ResolvedBackend deps" "dp_ConfigHash (traced deps) = dp_ConfigHash deps"
  "dp_Now (traced deps) = quiet (dp_Now deps)" "dp_BudgetTTL (traced deps) = dp_BudgetTTL deps"
  "dp_Random (traced deps) = quiet (dp_Random deps)" "dp_Version (traced deps) = dp_Version deps"
  by (simp_all add: traced_def)

lemma lookupModel_traced [simp]: "lookupModel (traced deps) = lookupModel deps"
  by (simp add: lookupModel_def fun_eq_iff)

lemma writeError_status [simp]: "out_Status (writeError n c) = n"
  by (simp add: writeError_def writeJSON_def)

lemma writeError_neq [simp]: "n \<noteq> m \<Longrightarrow> writeError n c \<noteq> writeError m d"
  by (metis writeError_status)

lemma record_call_eq [trace_simps]:
  "record_call f mk x (w, tr) = (y, s) \<longleftrightarrow> (\<exists>w'. f x w = (y, w') \<and> s = (w', tr @ [mk x y]))"
  by (auto simp: record_call_def split: prod.splits)

lemma quiet_eq [trace_simps]: "quiet f (w, tr) = (y, s) \<longleftrightarrow> (\<exists>w'. f w = (y, w') \<and> s = (w', tr))"
  by (auto simp: quiet_def split: prod.splits)

lemma server_now_traced [trace_simps]:
  "server_now (traced deps) (w, tr) = (y, s) \<longleftrightarrow> (\<exists>w'. server_now deps w = (y, w') \<and> s = (w', tr))"
  by (auto simp: trace_simps server_now_def split: prod.splits)

lemma new_uuid_traced [trace_simps]:
  "new_uuid (traced deps) (w, tr) = (y, s) \<longleftrightarrow> (\<exists>w'. new_uuid deps w = (y, w') \<and> s = (w', tr))"
  by (auto simp: trace_simps new_uuid_def split: prod.splits)

lemma settle_traced [trace_simps]:
  "settle (traced deps) hold a (w, tr) = (r, s) \<longleftrightarrow>
   (\<exists>w'. settle deps hold a w = (r, w') \<and> s = (w', tr @ [Settled \<lparr>sr_ReservationID = hold, sr_ActualMicros = Some a\<rparr> r]))"
  by (simp add: trace_simps settle_def)

lemma buildEvent_traced:
  assumes "buildEvent prim (traced deps) pr run ty d st pd m h rh rb sb cl res act ec now (w, tr) = (r, s)"
  shows "\<exists>w'. buildEvent prim deps pr run ty d st pd m h rh rb sb cl res act ec now w = (r, w') \<and> s = (w', tr)"
  using assms unfolding buildEvent_def Let_def traced_simps by (auto simp: trace_simps split: if_splits prod.splits)

lemma buildEvent_fields:
  assumes "buildEvent prim deps pr run ty d st pd m h rh rb sb cl res act ec now w = (Inr e, w')"
  shows "EventType e = ty" "RunID e = run" "PrincipalID e = p_ID pr" "Decision e = d" "event_Status e = st" "RequestedModel e = m"
    "RequestHMAC e = h" "ResponseHMAC e = rh" "RequestBytes e = rb" "ResponseBytes e = sb" "ReservedCostMicros e = res"
    "event_ActualCostMicros e = act" "ErrorCode e = ec" "OccurredAt e = now" "DecisionReasonCodes e = Some (dec_ReasonCodes pd)"
  using assms by (auto simp: buildEvent_def Let_def split: if_splits prod.splits)

lemma appendFailed_traced:
  assumes "appendFailed prim (traced deps) pr run m pd h rb cl res act ec now (w, tr) = s"
  shows "\<exists>new. snd s = tr @ new \<and> length new \<le> 1 \<and>
    (\<forall>c \<in> set new. \<exists>e r. c = Appended e r \<and> EventType e = EventRunFailed \<and> RunID e = run)"
  using assms unfolding appendFailed_def
  by (auto simp: record_call_def split: prod.splits sum.splits dest!: buildEvent_traced dest: buildEvent_fields)

text \<open>
  \<open>accounted\<close>: the calls that close a run whose reservation was granted, one settlement of at most the reserved amount
  and then nothing but terminal audit events of the run. \<open>delivered\<close>: the calls behind a response that carries the
  backend's bytes.
\<close>

definition accounted :: "string \<Rightarrow> string \<Rightarrow> int64 \<Rightarrow> call list \<Rightarrow> bool" where
  "accounted run hold reserve calls \<longleftrightarrow>
     (\<exists>a r rest. calls = Settled \<lparr>sr_ReservationID = hold, sr_ActualMicros = Some a\<rparr> r # rest \<and> 0 \<le>s a \<and> a \<le>s reserve \<and>
        length rest \<le> 2 \<and>
        (\<forall>c \<in> set rest. \<exists>e x. c = Appended e x \<and> EventType e \<in> {EventRunCompleted, EventRunFailed} \<and> RunID e = run))"

definition delivered :: "primitives \<Rightarrow> 'w Dependencies \<Rightarrow> run_context \<Rightarrow> string \<Rightarrow> int64 \<Rightarrow> ChatResult \<Rightarrow> call list \<Rightarrow> http_out \<Rightarrow> bool" where
  "delivered prim deps rx hold reserve result calls out \<longleftrightarrow>
     out = \<lparr>out_Status = 200, out_Body = cr_RawJSON result\<rparr> \<and>
     (\<exists>settled e rc h.
        calls = [Settled \<lparr>sr_ReservationID = hold, sr_ActualMicros = Some (actual_cost (rx_route rx) reserve (cr_Usage result))\<rparr> (Inr settled),
                 Appended e (Inr rc)] \<and>
        digester_Sum (pr_hmac prim) (Some (dp_Digester deps)) (cr_RawJSON result) = Inr h \<and>
        EventType e = EventRunCompleted \<and> RunID e = rx_runID rx \<and> PrincipalID e = p_ID (rx_principal rx) \<and>
        RequestHMAC e = rx_requestHMAC rx \<and> ResponseHMAC e = Some h \<and> ReservedCostMicros e = Some reserve \<and>
        event_ActualCostMicros e = Some settled)"

lemma cost_positive: "ActualCostMicros p i n = Inr c \<Longrightarrow> 0 <s c"
proof -
  assume run: "ActualCostMicros p i n = Inr c"
  then have pos: "0 < sint (InputMicrosPerMillion p)" "0 < sint (OutputMicrosPerMillion p)" "0 < sint i" "0 \<le> sint n"
    and cost: "costMicros (InputMicrosPerMillion p) (OutputMicrosPerMillion p) i n = Inr c"
    by (auto simp: ActualCostMicros_def int64_order split: if_splits)
  from cost have "0 < sint c" unfolding costMicros_Inr_iff [OF pos] using exact_cost_range(1) [OF pos] by simp
  then show ?thesis by (simp add: int64_order)
qed

lemma cost_nonneg: "ActualCostMicros p i n = Inr c \<Longrightarrow> 0 \<le>s c"
  using cost_positive by (fastforce simp: int64_order)

lemma actual_cost_range: "0 \<le>s reserve \<Longrightarrow> 0 \<le>s actual_cost route reserve u \<and> actual_cost route reserve u \<le>s reserve"
  using cost_nonneg by (auto simp: actual_cost_def Let_def int64_order split: sum.splits)

lemma run_failed_traced:
  assumes "run_failed prim (traced deps) rx reserve act code now (w, tr) = s"
  shows "\<exists>new. snd s = tr @ new \<and> length new \<le> 1 \<and>
    (\<forall>c \<in> set new. \<exists>e r. c = Appended e r \<and> EventType e = EventRunFailed \<and> RunID e = rx_runID rx)"
  by (rule appendFailed_traced [OF assms [unfolded run_failed_def]])

definition terminal :: "string \<Rightarrow> call \<Rightarrow> bool" where
  "terminal run c \<longleftrightarrow> (\<exists>e x. c = Appended e x \<and> EventType e \<in> {EventRunCompleted, EventRunFailed} \<and> RunID e = run)"

lemma settled_then_failed:
  assumes "snd s1 = tr @ Settled \<lparr>sr_ReservationID = hold, sr_ActualMicros = Some a\<rparr> r # rest" and "0 \<le>s a" and "a \<le>s reserve"
    and "length rest \<le> 1" and "list_all (terminal (rx_runID rx)) rest"
    and "s = run_failed prim (traced deps) rx reserve act code now s1"
  shows "\<exists>new. snd s = tr @ new \<and> accounted (rx_runID rx) hold reserve new"
proof -
  obtain w1 where s1: "s1 = (w1, tr @ Settled \<lparr>sr_ReservationID = hold, sr_ActualMicros = Some a\<rparr> r # rest)"
    using assms(1) by (cases s1) auto
  from run_failed_traced [OF assms(6) [symmetric, unfolded s1]] obtain new where
    new: "snd s = (tr @ Settled \<lparr>sr_ReservationID = hold, sr_ActualMicros = Some a\<rparr> r # rest) @ new" "length new \<le> 1"
    "\<forall>c \<in> set new. \<exists>e r. c = Appended e r \<and> EventType e = EventRunFailed \<and> RunID e = rx_runID rx" by blast
  have "accounted (rx_runID rx) hold reserve (Settled \<lparr>sr_ReservationID = hold, sr_ActualMicros = Some a\<rparr> r # rest @ new)"
    unfolding accounted_def using assms(2-5) new(2,3) by (fastforce simp: list_all_iff terminal_def)
  then show ?thesis using new(1) by auto
qed

lemma accounted_settle_only: "0 \<le>s a \<Longrightarrow> a \<le>s reserve \<Longrightarrow> list_all (terminal run) rest \<Longrightarrow> length rest \<le> 2 \<Longrightarrow>
    accounted run hold reserve (Settled \<lparr>sr_ReservationID = hold, sr_ActualMicros = Some a\<rparr> r # rest)"
  unfolding accounted_def by (fastforce simp: list_all_iff terminal_def)

lemma complete_run_traced:
  assumes "complete_run prim (traced deps) rx hold reserve result now (w, tr) = (out, s)" and "0 \<le>s reserve"
  shows "\<exists>new. snd s = tr @ new \<and> accounted (rx_runID rx) hold reserve new \<and>
    (out_Status out = 200 \<longrightarrow> delivered prim deps rx hold reserve result new out)"
proof (cases "digester_Sum (pr_hmac prim) (Some (dp_Digester deps)) (cr_RawJSON result)")
  case (Inl err)
  obtain r s1 where st: "settle (traced deps) hold 0 (w, tr) = (r, s1)" by (rule prod.exhaust)
  then have s1: "snd s1 = tr @ Settled \<lparr>sr_ReservationID = hold, sr_ActualMicros = Some 0\<rparr> r # []" by (auto simp: trace_simps)
  have "out_Status out = 503" "s = run_failed prim (traced deps) rx reserve 0 ''unavailable'' now s1"
    using assms(1) Inl st by (auto simp: complete_run_def)
  then show ?thesis using settled_then_failed [OF s1 _ assms(2)] by simp
next
  case (Inr h)
  define a where "a = actual_cost (rx_route rx) reserve (cr_Usage result)"
  have a: "0 \<le>s a" "a \<le>s reserve" using actual_cost_range [OF assms(2)] by (simp_all add: a_def)
  obtain r s1 where st: "settle (traced deps) hold a (w, tr) = (r, s1)" by (rule prod.exhaust)
  then have s1: "snd s1 = tr @ Settled \<lparr>sr_ReservationID = hold, sr_ActualMicros = Some a\<rparr> r # []" by (auto simp: trace_simps)
  show ?thesis
  proof (cases r)
    case (Inl err)
    have "out_Status out = 503" "s = run_failed prim (traced deps) rx reserve 0 ''unavailable'' now s1"
      using assms(1) Inl Inr st by (auto simp: complete_run_def a_def)
    then show ?thesis using settled_then_failed [OF s1 a] by simp
  next
    case settled: (Inr settled)
    obtain w1 where w1: "s1 = (w1, tr @ [Settled \<lparr>sr_ReservationID = hold, sr_ActualMicros = Some a\<rparr> r])"
      using s1 by (cases s1) auto
    obtain b s2 where built: "buildEvent prim (traced deps) (rx_principal rx) (rx_runID rx) EventRunCompleted DecisionAllow StatusCompleted
        (rx_decision rx) (mr_Name (rx_route rx)) (rx_requestHMAC rx) (Some h) (rx_requestBytes rx) (Some (len64 (cr_RawJSON result)))
        (rx_classification rx) (Some reserve) (Some settled) None now s1 = (b, s2)" by (rule prod.exhaust)
    then obtain w2 where built': "buildEvent prim deps (rx_principal rx) (rx_runID rx) EventRunCompleted DecisionAllow StatusCompleted
        (rx_decision rx) (mr_Name (rx_route rx)) (rx_requestHMAC rx) (Some h) (rx_requestBytes rx) (Some (len64 (cr_RawJSON result)))
        (rx_classification rx) (Some reserve) (Some settled) None now w1 = (b, w2)" and s2: "s2 = (w2, snd s1)"
      unfolding w1 by (auto dest: buildEvent_traced)
    have s2': "snd s2 = tr @ Settled \<lparr>sr_ReservationID = hold, sr_ActualMicros = Some a\<rparr> r # []" by (simp add: s2 s1)
    show ?thesis
    proof (cases b)
      case (Inl err)
      have "out_Status out = 503" "s = run_failed prim (traced deps) rx reserve settled ''unavailable'' now s2"
        using assms(1) settled Inr Inl st built by (auto simp: complete_run_def a_def)
      then show ?thesis using settled_then_failed [OF s2' a] by simp
    next
      case event: (Inr event)
      define e where "e = event\<lparr>InputTokens := Some (us_PromptTokens (cr_Usage result)), OutputTokens := Some (us_CompletionTokens (cr_Usage result))\<rparr>"
      note fields = buildEvent_fields [OF built' [unfolded event]]
      obtain x s3 where app: "record_call (dp_Append deps) Appended e s2 = (x, s3)" by (rule prod.exhaust)
      then have s3: "snd s3 = tr @ Settled \<lparr>sr_ReservationID = hold, sr_ActualMicros = Some a\<rparr> r # [Appended e x]"
        unfolding s2 by (auto simp: s1 trace_simps)
      have tl: "list_all (terminal (rx_runID rx)) [Appended e x]" using fields by (simp add: terminal_def e_def)
      show ?thesis
      proof (cases x)
        case (Inl err)
        have "out_Status out = 503" "s = run_failed prim (traced deps) rx reserve settled ''unavailable'' now s3"
          using assms(1) settled Inr event Inl st built app by (auto simp: complete_run_def a_def e_def)
        then show ?thesis using settled_then_failed [OF s3 a _ tl] by simp
      next
        case receipt: (Inr rc)
        have out: "out = \<lparr>out_Status = 200, out_Body = cr_RawJSON result\<rparr>" "s = s3"
          using assms(1) settled Inr event receipt st built app by (auto simp: complete_run_def a_def e_def)
        then have "delivered prim deps rx hold reserve result [Settled \<lparr>sr_ReservationID = hold, sr_ActualMicros = Some a\<rparr> r, Appended e x] out"
          unfolding delivered_def using fields Inr settled receipt by (simp add: a_def e_def)
        then show ?thesis using s3 out(2) accounted_settle_only [OF a tl] by auto
      qed
    qed
  qed
qed

text \<open>The calls of a run from the granted reservation on: either the run stops before the backend is called, or the start is on record.\<close>

definition stopped_early :: "run_context \<Rightarrow> string \<Rightarrow> call list \<Rightarrow> bool" where
  "stopped_early rx hold calls \<longleftrightarrow>
     (\<exists>pre r. calls = pre @ [Settled \<lparr>sr_ReservationID = hold, sr_ActualMicros = Some 0\<rparr> r] \<and>
        (pre = [] \<or> (\<exists>e x. pre = [Appended e x] \<and> EventType e = EventRunStarted \<and> RunID e = rx_runID rx \<and>
           (\<forall>rc. x = Inr rc \<longrightarrow> \<not> AuthorizesBackendCall rc))))"

definition backend_called ::
  "primitives \<Rightarrow> 'w Dependencies \<Rightarrow> run_context \<Rightarrow> ChatRequest \<Rightarrow> string \<Rightarrow> int64 \<Rightarrow> call list \<Rightarrow> http_out \<Rightarrow> bool" where
  "backend_called prim deps rx chatReq hold reserve calls out \<longleftrightarrow>
     (\<exists>outcome rest. calls = Called (chatReq\<lparr>cq_Model := mr_BackendModel (rx_route rx)\<rparr>) outcome # rest \<and>
        accounted (rx_runID rx) hold reserve rest \<and>
        (out_Status out = 200 \<longrightarrow> (\<exists>result. outcome = Inr result \<and> len64 (cr_RawJSON result) \<le>s dp_MaxResponseBytes deps \<and>
           delivered prim deps rx hold reserve result rest out)))"

definition started ::
  "primitives \<Rightarrow> 'w Dependencies \<Rightarrow> run_context \<Rightarrow> ChatRequest \<Rightarrow> string \<Rightarrow> int64 \<Rightarrow> call list \<Rightarrow> http_out \<Rightarrow> bool" where
  "started prim deps rx chatReq hold reserve calls out \<longleftrightarrow>
     (\<exists>e rc rest. calls = Appended e (Inr rc) # rest \<and> AuthorizesBackendCall rc \<and> EventType e = EventRunStarted \<and>
        RunID e = rx_runID rx \<and> PrincipalID e = p_ID (rx_principal rx) \<and> RequestHMAC e = rx_requestHMAC rx \<and>
        RequestedModel e = mr_Name (rx_route rx) \<and> ReservedCostMicros e = Some reserve \<and>
        backend_called prim deps rx chatReq hold reserve rest out)"

lemma call_backend_traced:
  assumes "call_backend prim (traced deps) rx chatReq hold reserve (w, tr) = (out, s)" and "0 \<le>s reserve"
  shows "\<exists>new. snd s = tr @ new \<and> backend_called prim deps rx chatReq hold reserve new out"
proof -
  let ?req = "chatReq\<lparr>cq_Model := mr_BackendModel (rx_route rx)\<rparr>"
  obtain outcome s1 where called: "record_call (dp_ChatCompletions deps) Called ?req (w, tr) = (outcome, s1)" by (rule prod.exhaust)
  obtain now s2 where clock: "server_now (traced deps) s1 = (now, s2)" by (rule prod.exhaust)
  obtain w2 where s2: "s2 = (w2, tr @ [Called ?req outcome])"
    using called clock by (auto simp: trace_simps)
  have fails: "\<exists>new. snd s = tr @ new \<and> backend_called prim deps rx chatReq hold reserve new out"
    if run: "(out, s) = (case settle (traced deps) hold 0 s2 of (_, s3) \<Rightarrow>
      (writeError 502 code, run_failed prim (traced deps) rx reserve 0 ec now s3))" for code ec
  proof -
    obtain r s3 where st: "settle (traced deps) hold 0 s2 = (r, s3)" by (rule prod.exhaust)
    then have s3: "snd s3 = (tr @ [Called ?req outcome]) @ Settled \<lparr>sr_ReservationID = hold, sr_ActualMicros = Some 0\<rparr> r # []"
      unfolding s2 by (auto simp: trace_simps)
    have end': "out = writeError 502 code" "s = run_failed prim (traced deps) rx reserve 0 ec now s3" using run st by simp_all
    obtain new where "snd s = (tr @ [Called ?req outcome]) @ new" "accounted (rx_runID rx) hold reserve new"
      using settled_then_failed [OF s3 _ assms(2) _ _ end'(2)] by auto
    then show ?thesis using end'(1) by (auto simp: backend_called_def)
  qed
  show ?thesis
  proof (cases outcome)
    case (Inl err)
    with assms(1) called clock show ?thesis unfolding call_backend_def traced_simps
      by (intro fails [of "''backend_'' @ Code err" "Code err"]) auto
  next
    case (Inr result)
    show ?thesis
    proof (cases "dp_MaxResponseBytes deps <s len64 (cr_RawJSON result)")
      case True
      with Inr assms(1) called clock show ?thesis unfolding call_backend_def traced_simps
        by (intro fails [of "''backend_response_too_large''" "''response_too_large''"]) auto
    next
      case False
      with Inr assms(1) called clock have "complete_run prim (traced deps) rx hold reserve result now s2 = (out, s)"
        unfolding call_backend_def traced_simps by auto
      from complete_run_traced [OF this [unfolded s2] assms(2)] False Inr show ?thesis
        by (auto simp: backend_called_def int64_order)
    qed
  qed
qed

lemma start_run_traced:
  assumes "start_run prim (traced deps) rx chatReq hold reserve now (w, tr) = (out, s)" and "0 \<le>s reserve"
  shows "\<exists>new. snd s = tr @ new \<and>
    (out = writeError 503 ''unavailable'' \<and> stopped_early rx hold new \<or> started prim deps rx chatReq hold reserve new out)"
proof -
  let ?build = "\<lambda>d. buildEvent prim d (rx_principal rx) (rx_runID rx) EventRunStarted DecisionAllow StatusStarted (rx_decision rx)
      (mr_Name (rx_route rx)) (rx_requestHMAC rx) None (rx_requestBytes rx) None (rx_classification rx) (Some reserve) None None now"
  obtain b s1 where built: "?build (traced deps) (w, tr) = (b, s1)" by (rule prod.exhaust)
  then obtain w1 where built': "?build deps w = (b, w1)" and s1: "s1 = (w1, tr)" by (auto dest: buildEvent_traced)
  have stops: "\<exists>new. snd s = tr @ new \<and> out = writeError 503 ''unavailable'' \<and> stopped_early rx hold new"
    if "(out, s) = (case settle (traced deps) hold 0 s2 of (_, s3) \<Rightarrow> (writeError 503 ''unavailable'', s3))" and "snd s2 = tr @ pre"
      and "stopped_early rx hold (pre @ [Settled \<lparr>sr_ReservationID = hold, sr_ActualMicros = Some 0\<rparr> (fst (settle (traced deps) hold 0 s2))])"
    for s2 pre
    using that by (cases s2) (auto simp: trace_simps split: prod.splits)
  show ?thesis
  proof (cases b)
    case (Inl err)
    have "\<exists>new. snd s = tr @ new \<and> out = writeError 503 ''unavailable'' \<and> stopped_early rx hold new"
      by (rule stops [of s1 "[]"]) (use assms(1) built Inl in \<open>auto simp: start_run_def s1 stopped_early_def\<close>)
    then show ?thesis by blast
  next
    case (Inr e)
    note fields = buildEvent_fields [OF built' [unfolded Inr]]
    obtain x s2 where app: "record_call (dp_Append deps) Appended e s1 = (x, s2)" by (rule prod.exhaust)
    then obtain w2 where s2: "s2 = (w2, tr @ [Appended e x])" unfolding s1 by (auto simp: trace_simps)
    show ?thesis
    proof (cases "\<exists>rc. x = Inr rc \<and> AuthorizesBackendCall rc")
      case False
      have "\<exists>new. snd s = tr @ new \<and> out = writeError 503 ''unavailable'' \<and> stopped_early rx hold new"
        by (rule stops [of s2 "[Appended e x]"])
          (use assms(1) built Inr app False fields in \<open>auto simp: start_run_def s2 stopped_early_def split: sum.splits\<close>)
      then show ?thesis by blast
    next
      case True
      then obtain rc where rc: "x = Inr rc" "AuthorizesBackendCall rc" by blast
      with assms(1) built Inr app have "call_backend prim (traced deps) rx chatReq hold reserve s2 = (out, s)"
        by (simp add: start_run_def)
      from call_backend_traced [OF this [unfolded s2] assms(2)] rc fields show ?thesis by (auto simp: started_def)
    qed
  qed
qed

text \<open>
  The traces of \<open>handleChatCompletions\<close>. \<open>admitted\<close> collects what has been established about a request before a
  reservation is asked for.
\<close>

definition admitted :: "primitives \<Rightarrow> 'w Dependencies \<Rightarrow> http_in \<Rightarrow> Principal \<Rightarrow> ChatRequest \<Rightarrow> run_context \<Rightarrow> int64 \<Rightarrow> bool" where
  "admitted prim deps request pr chatReq rx reserve \<longleftrightarrow>
     (\<exists>body. read_all (dp_MaxRequestBytes deps + 1) (in_Body request) = Some body \<and>
        len64 body \<le>s dp_MaxRequestBytes deps \<and> ParseChatRequest (pr_parse_float prim) body = Inr chatReq \<and>
        lookupModel deps (cq_Model chatReq) = Some (rx_route rx) \<and> rx_principal rx = pr \<and>
        digester_Sum (pr_hmac prim) (Some (dp_Digester deps)) body = Inr (rx_requestHMAC rx) \<and>
        dp_Detect deps (joinMessageText chatReq) = Inr (rx_classification rx) \<and>
        rx_decision rx = Evaluate (Some (dp_Policy deps)) (policy_request pr ''chat.completions'' (mr_Name (rx_route rx))) \<and>
        dec_Effect (rx_decision rx) = EffectAllow \<and> rx_requestBytes rx = len64 body \<and>
        EstimateMaxCostMicros (mr_Price (rx_route rx)) (of_nat (length body div 4 + 1)) = Inr reserve)"

definition reserve_request :: "'w Dependencies \<Rightarrow> run_context \<Rightarrow> int64 \<Rightarrow> ReserveRequest" where
  "reserve_request deps rx reserve = \<lparr>rr_PrincipalID = p_ID (rx_principal rx), rr_RunID = rx_runID rx,
     rr_ModelName = mr_Name (rx_route rx), rr_ReservedMaxMicros = reserve, rr_TTL = dp_BudgetTTL deps\<rparr>"

definition denial :: "Principal \<Rightarrow> string \<Rightarrow> http_out \<Rightarrow> call list \<Rightarrow> http_out \<Rightarrow> bool" where
  "denial pr model refusal calls out \<longleftrightarrow>
     calls = [] \<and> out = writeError 503 ''unavailable'' \<or>
     (\<exists>e x. calls = [Appended e x] \<and> EventType e = EventRunDenied \<and> PrincipalID e = p_ID pr \<and> RequestedModel e = model \<and>
        out = (case x of Inl _ \<Rightarrow> writeError 503 ''unavailable'' | Inr _ \<Rightarrow> refusal))"

inductive chat_trace :: "primitives \<Rightarrow> 'w Dependencies \<Rightarrow> http_in \<Rightarrow> call list \<Rightarrow> http_out \<Rightarrow> bool" for prim deps request where
  wrong_method: "chat_trace prim deps request [] (writeError 405 ''method_not_allowed'')"
| unauthenticated: "chat_trace prim deps request [Authenticated (Inl err)] (writeAuthError err)"
| rejected: "out = writeError 400 ''invalid_request'' \<or> out = writeError 413 ''request_too_large'' \<or> out = writeError 503 ''unavailable'' \<Longrightarrow>
    chat_trace prim deps request [Authenticated (Inr pr)] out"
| denied: "denial pr model (writeError 403 ''policy_denied'') calls out \<Longrightarrow> chat_trace prim deps request (Authenticated (Inr pr) # calls) out"
| unreserved: "admitted prim deps request pr chatReq rx reserve \<Longrightarrow> err \<noteq> ErrBudgetDenied \<Longrightarrow>
    chat_trace prim deps request [Authenticated (Inr pr), Reserved (reserve_request deps rx reserve) (Inl err)] (writeError 503 ''unavailable'')"
| over_budget: "admitted prim deps request pr chatReq rx reserve \<Longrightarrow>
    denial pr (mr_Name (rx_route rx)) (writeError 402 ''budget_denied'') calls out \<Longrightarrow>
    chat_trace prim deps request (Authenticated (Inr pr) # Reserved (reserve_request deps rx reserve) (Inl ErrBudgetDenied) # calls) out"
| stopped: "admitted prim deps request pr chatReq rx reserve \<Longrightarrow> stopped_early rx (rsv_ID rsv) calls \<Longrightarrow>
    chat_trace prim deps request (Authenticated (Inr pr) # Reserved (reserve_request deps rx reserve) (Inr rsv) # calls) (writeError 503 ''unavailable'')"
| called: "admitted prim deps request pr chatReq rx reserve \<Longrightarrow> 0 \<le>s reserve \<Longrightarrow> started prim deps rx chatReq (rsv_ID rsv) reserve calls out \<Longrightarrow>
    chat_trace prim deps request (Authenticated (Inr pr) # Reserved (reserve_request deps rx reserve) (Inr rsv) # calls) out"

lemma appendDenied_traced:
  assumes "appendDenied prim (traced deps) pr run m pd h rb cl now (w, tr) = (ok, s)"
  shows "\<exists>new. snd s = tr @ new \<and> (new = [] \<and> \<not> ok \<or>
     (\<exists>e x. new = [Appended e x] \<and> EventType e = EventRunDenied \<and> PrincipalID e = p_ID pr \<and> RequestedModel e = m \<and> (ok \<longleftrightarrow> \<not> isl x)))"
proof -
  let ?build = "\<lambda>d. buildEvent prim d pr run EventRunDenied DecisionDeny StatusDenied pd m h None rb None cl None None None now"
  obtain b s1 where built: "?build (traced deps) (w, tr) = (b, s1)" by (rule prod.exhaust)
  then obtain w1 where built': "?build deps w = (b, w1)" and s1: "s1 = (w1, tr)" by (auto dest: buildEvent_traced)
  show ?thesis
  proof (cases b)
    case (Inl err)
    then show ?thesis using assms built by (auto simp: appendDenied_def s1)
  next
    case (Inr e)
    show ?thesis
      using assms built Inr buildEvent_fields(1,3,6) [OF built' [unfolded Inr]]
      by (auto simp: appendDenied_def s1 trace_simps split: prod.splits sum.splits)
  qed
qed

lemma deny_run_traced:
  assumes "deny_run prim (traced deps) pr run m pd h rb cl now refusal (w, tr) = (out, s)"
  shows "\<exists>new. snd s = tr @ new \<and> denial pr m refusal new out"
proof -
  obtain ok s1 where app: "appendDenied prim (traced deps) pr run m pd h rb cl now (w, tr) = (ok, s1)" by (rule prod.exhaust)
  with assms have "s = s1" "out = (if ok then refusal else writeError 503 ''unavailable'')"
    by (auto simp: deny_run_def split: bool.splits)
  with appendDenied_traced [OF app] show ?thesis
    by (auto simp: denial_def isl_def split: sum.splits)
qed

lemma estimate_positive: "EstimateMaxCostMicros p i = Inr c \<Longrightarrow> 0 <s c"
proof -
  assume run: "EstimateMaxCostMicros p i = Inr c"
  then have "ActualCostMicros p i (MaxOutputTokens p) = Inr c"
    by (auto simp: EstimateMaxCostMicros_def ActualCostMicros_def int64_order split: if_splits)
  then show ?thesis by (rule cost_positive)
qed

lemma estimate_nonneg: "EstimateMaxCostMicros p i = Inr c \<Longrightarrow> 0 \<le>s c"
  using estimate_positive by (fastforce simp: int64_order)

lemma admitted_nonneg: "admitted prim deps request pr chatReq rx reserve \<Longrightarrow> 0 \<le>s reserve"
  unfolding admitted_def by (elim exE conjE) (rule estimate_nonneg)

lemma reserve_and_start_traced:
  assumes "reserve_and_start prim (traced deps) rx chatReq body now (w, [Authenticated (Inr pr)]) = (out, s)"
    and "\<And>reserve. EstimateMaxCostMicros (mr_Price (rx_route rx)) (of_nat (length body div 4 + 1)) = Inr reserve \<Longrightarrow>
       admitted prim deps request pr chatReq rx reserve"
  shows "chat_trace prim deps request (snd s) out"
proof (cases "EstimateMaxCostMicros (mr_Price (rx_route rx)) (of_nat (length body div 4 + 1))")
  case (Inl err)
  then show ?thesis using assms(1) by (auto simp: reserve_and_start_def intro: rejected)
next
  case (Inr reserve)
  let ?q = "reserve_request deps rx reserve"
  note adm = assms(2) [OF Inr] note nn = estimate_nonneg [OF Inr]
  have pr: "rx_principal rx = pr" using adm by (auto simp: admitted_def)
  obtain r s1 where rsv: "record_call (dp_Reserve deps) Reserved ?q (w, [Authenticated (Inr pr)]) = (r, s1)" by (rule prod.exhaust)
  then obtain w1 where s1: "s1 = (w1, [Authenticated (Inr pr), Reserved ?q r])" by (auto simp: trace_simps)
  show ?thesis
  proof (cases r)
    case err: (Inl err)
    show ?thesis
    proof (cases "err = ErrBudgetDenied")
      case True
      with assms(1) Inr err rsv have "deny_run prim (traced deps) pr (rx_runID rx) (mr_Name (rx_route rx))
            ((rx_decision rx)\<lparr>dec_Effect := EffectDeny, dec_ReasonCodes := [''budget_denied'']\<rparr>)
            (rx_requestHMAC rx) (rx_requestBytes rx) (rx_classification rx) now (writeError 402 ''budget_denied'') s1 = (out, s)"
        by (simp add: reserve_and_start_def reserve_request_def pr)
      from deny_run_traced [OF this [unfolded s1]] show ?thesis
        using over_budget [OF adm] by (auto simp: err True)
    next
      case False
      with assms(1) Inr err rsv have "out = writeError 503 ''unavailable''" "s = s1"
        by (simp_all add: reserve_and_start_def reserve_request_def)
      then show ?thesis using unreserved [OF adm False] by (simp add: s1 err)
    qed
  next
    case held: (Inr reservation)
    with assms(1) Inr rsv have "start_run prim (traced deps) rx chatReq (rsv_ID reservation) reserve now s1 = (out, s)"
      by (simp add: reserve_and_start_def reserve_request_def)
    from start_run_traced [OF this [unfolded s1] nn] show ?thesis
      using stopped [OF adm] called [OF adm nn] by (auto simp: held)
  qed
qed

lemma known_model_traced:
  assumes "known_model prim (traced deps) pr body chatReq route (w, [Authenticated (Inr pr)]) = (out, s)"
    and "read_all (dp_MaxRequestBytes deps + 1) (in_Body request) = Some body" and "\<not> dp_MaxRequestBytes deps <s len64 body"
    and "ParseChatRequest (pr_parse_float prim) body = Inr chatReq" and "lookupModel deps (cq_Model chatReq) = Some route"
  shows "chat_trace prim deps request (snd s) out"
proof -
  let ?hmac = "digester_Sum (pr_hmac prim) (Some (dp_Digester deps)) body"
  let ?cls = "dp_Detect deps (joinMessageText chatReq)"
  define decision where "decision = Evaluate (Some (dp_Policy deps)) (policy_request pr ''chat.completions'' (mr_Name route))"
  obtain runID s1 where uuid: "new_uuid (traced deps) (w, [Authenticated (Inr pr)]) = (runID, s1)" by (rule prod.exhaust)
  obtain now s2 where clock: "server_now (traced deps) s1 = (now, s2)" by (rule prod.exhaust)
  obtain w2 where s2: "s2 = (w2, [Authenticated (Inr pr)])" using uuid clock by (auto simp: trace_simps)
  consider (early) err err' where "?hmac = Inl err \<or> ?cls = Inl err'"
    | (go) h c where "?hmac = Inr h" "?cls = Inr c" by (meson sum.exhaust)
  then show ?thesis
  proof cases
    case early
    then show ?thesis using assms(1) by (auto simp: known_model_def split: sum.splits intro: rejected)
  next
    case go
    show ?thesis
    proof (cases "dec_Effect decision = EffectAllow")
      case False
      with assms(1) go uuid clock have "deny_run prim (traced deps) pr runID (mr_Name route) decision h (len64 body) c now
          (writeError 403 ''policy_denied'') s2 = (out, s)"
        by (simp add: known_model_def decision_def)
      from deny_run_traced [OF this [unfolded s2]] show ?thesis by (auto intro: denied)
    next
      case True
      define rx where "rx = \<lparr>rx_principal = pr, rx_runID = runID, rx_route = route, rx_decision = decision, rx_requestHMAC = h,
         rx_requestBytes = len64 body, rx_classification = c\<rparr>"
      from True assms(1) go uuid clock have "reserve_and_start prim (traced deps) rx chatReq body now s2 = (out, s)"
        by (simp add: known_model_def decision_def rx_def)
      from this [unfolded s2] show ?thesis
        by (rule reserve_and_start_traced)
          (use assms(2-5) go True in \<open>auto simp: admitted_def rx_def decision_def int64_order\<close>)
    qed
  qed
qed

lemma unknown_model_traced:
  assumes "unknown_model prim (traced deps) pr body chatReq (w, [Authenticated (Inr pr)]) = (out, s)"
  shows "chat_trace prim deps request (snd s) out"
proof -
  obtain runID s1 where uuid: "new_uuid (traced deps) (w, [Authenticated (Inr pr)]) = (runID, s1)" by (rule prod.exhaust)
  obtain now s2 where clock: "server_now (traced deps) s1 = (now, s2)" by (rule prod.exhaust)
  obtain w2 where s2: "s2 = (w2, [Authenticated (Inr pr)])" using uuid clock by (auto simp: trace_simps)
  show ?thesis
    using assms uuid clock
    by (auto simp: unknown_model_def Let_def s2 split: sum.splits dest!: deny_run_traced intro: rejected denied)
qed

lemma chat_completions_traced:
  assumes "handleChatCompletions prim (traced deps) request (w, []) = (out, s)"
  shows "chat_trace prim deps request (snd s) out"
proof (cases "in_Method request = ''POST''")
  case False
  then show ?thesis using assms by (auto simp: handleChatCompletions_def intro: wrong_method)
next
  case True
  obtain r s1 where auth: "dp_Authenticate (traced deps) (in_Authorization request) (w, []) = (r, s1)" by (rule prod.exhaust)
  then obtain w1 where s1: "s1 = (w1, [Authenticated r])" by (auto simp: trace_simps)
  show ?thesis
  proof (cases r)
    case (Inl err)
    then show ?thesis using True auth assms by (auto simp: handleChatCompletions_def s1 intro: unauthenticated simp del: traced_simps)
  next
    case (Inr pr)
    then show ?thesis using True auth assms
      by (auto simp: handleChatCompletions_def s1 simp del: traced_simps(1) split: option.splits sum.splits if_splits intro: rejected
          dest: known_model_traced unknown_model_traced)
  qed
qed

subsection \<open>Reading the protocol\<close>

lemma writeAuthError_status: "out_Status (writeAuthError err) \<noteq> 200"
  by (simp add: writeAuthError_def split: auth_error.splits)

lemma denial_status: "denial pr m (writeError n c) calls out \<Longrightarrow> n \<noteq> 200 \<Longrightarrow> out_Status out \<noteq> 200"
  unfolding denial_def by (elim disjE exE conjE) (simp_all split: sum.splits)

lemma chat_trace_success:
  assumes "chat_trace prim deps request calls out" and "out_Status out = 200"
  obtains pr chatReq rx reserve rsv rest where "calls = Authenticated (Inr pr) # Reserved (reserve_request deps rx reserve) (Inr rsv) # rest"
    and "admitted prim deps request pr chatReq rx reserve" and "0 \<le>s reserve" and "started prim deps rx chatReq (rsv_ID rsv) reserve rest out"
  using assms by cases (auto simp: writeAuthError_status dest: denial_status)

definition is_call :: "call \<Rightarrow> bool" where "is_call c = (case c of Called _ _ \<Rightarrow> True | _ \<Rightarrow> False)"
definition is_settle :: "call \<Rightarrow> bool" where "is_settle c = (case c of Settled _ _ \<Rightarrow> True | _ \<Rightarrow> False)"

lemma call_kinds [simp]:
  "is_call (Called q r)" "\<not> is_call (Settled x y)" "\<not> is_call (Appended e z)" "\<not> is_call (Reserved a b)" "\<not> is_call (Authenticated t)"
  "\<not> is_settle (Called q r)" "is_settle (Settled x y)" "\<not> is_settle (Appended e z)" "\<not> is_settle (Reserved a b)" "\<not> is_settle (Authenticated t)"
  by (simp_all add: is_call_def is_settle_def)

lemma accounted_calls:
  assumes "accounted run hold reserve calls"
  shows "\<forall>c \<in> set calls. \<not> is_call c"
    and "\<exists>a r. filter is_settle calls = [Settled \<lparr>sr_ReservationID = hold, sr_ActualMicros = Some a\<rparr> r] \<and> 0 \<le>s a \<and> a \<le>s reserve"
proof -
  obtain a r rest where c: "calls = Settled \<lparr>sr_ReservationID = hold, sr_ActualMicros = Some a\<rparr> r # rest" "0 \<le>s a" "a \<le>s reserve"
    and rest: "\<forall>c \<in> set rest. \<exists>e x. c = Appended e x"
    using assms unfolding accounted_def by (elim exE conjE) fast
  show "\<forall>c \<in> set calls. \<not> is_call c" using c(1) rest by auto
  have "filter is_settle rest = []" using rest by (auto simp: filter_empty_conv)
  then show "\<exists>a r. filter is_settle calls = [Settled \<lparr>sr_ReservationID = hold, sr_ActualMicros = Some a\<rparr> r] \<and> 0 \<le>s a \<and> a \<le>s reserve"
    using c by simp
qed

lemma denial_calls: "denial pr m refusal calls out \<Longrightarrow> c \<in> set calls \<Longrightarrow> \<exists>e x. c = Appended e x \<and> EventType e = EventRunDenied"
  by (auto simp: denial_def)

lemma denial_filters:
  assumes "denial pr m refusal calls out"
  shows "filter is_settle calls = []" and "Reserved q r \<notin> set calls"
  using assms by (auto simp: denial_def)

lemma denial_cases:
  assumes "denial pr m refusal calls out"
  obtains (lost) "calls = []" and "out = writeError 503 ''unavailable''"
  | (failed) e err where "calls = [Appended e (Inl err)]" and "EventType e = EventRunDenied" and "out = writeError 503 ''unavailable''"
  | (recorded) e rc where "calls = [Appended e (Inr rc)]" and "EventType e = EventRunDenied" and "out = refusal"
proof -
  from assms consider "calls = []" "out = writeError 503 ''unavailable''"
    | e x where "calls = [Appended e x]" "EventType e = EventRunDenied"
        "out = (case x of Inl _ \<Rightarrow> writeError 503 ''unavailable'' | Inr _ \<Rightarrow> refusal)"
    unfolding denial_def by (elim disjE exE conjE)
  then show thesis
  proof cases
    case (2 e x)
    then show thesis using failed recorded by (cases x) auto
  qed (rule lost)
qed

lemma stopped_early_calls:
  assumes "stopped_early rx hold calls"
  shows "\<forall>c \<in> set calls. \<not> is_call c" and "\<exists>r. filter is_settle calls = [Settled \<lparr>sr_ReservationID = hold, sr_ActualMicros = Some 0\<rparr> r]"
  using assms by (auto simp: stopped_early_def)

lemma started_calls:
  assumes "started prim deps rx chatReq hold reserve calls out"
  shows "\<exists>a r. filter is_settle calls = [Settled \<lparr>sr_ReservationID = hold, sr_ActualMicros = Some a\<rparr> r] \<and> 0 \<le>s a \<and> a \<le>s reserve"
  using assms accounted_calls(2) [of "rx_runID rx" hold reserve] by (auto simp: started_def backend_called_def)

lemma chat_trace_call:
  assumes "chat_trace prim deps request calls out" and "Called req outcome \<in> set calls"
  obtains pr chatReq rx reserve rsv rest where "calls = Authenticated (Inr pr) # Reserved (reserve_request deps rx reserve) (Inr rsv) # rest"
    and "admitted prim deps request pr chatReq rx reserve" and "started prim deps rx chatReq (rsv_ID rsv) reserve rest out"
  using assms by cases (fastforce dest: denial_calls stopped_early_calls(1))+

subsection \<open>A run\<close>

text \<open>A server whose collaborators all succeed, and the run of a request through it.\<close>

definition sample_server_principal :: Principal where
  "sample_server_principal = \<lparr>p_ID = sample_principal, p_AuthMethod = AuthMethodAPIKey, p_APIKeyIDPrefix = ''00000000'', p_Groups = Some [],
     p_OIDCIssuerHash = zero_digest\<rparr>"

definition sample_route :: ModelRoute where
  "sample_route = \<lparr>mr_Name = ''m1'', mr_BackendModel = ''legal-7b'',
     mr_Price = \<lparr>InputMicrosPerMillion = 1, OutputMicrosPerMillion = 1, MaxOutputTokens = 16\<rparr>\<rparr>"

definition sample_class :: Result where
  "sample_class = \<lparr>re_PIICategories = [], re_PIIMatchCounts = fmempty, re_HealthIndicatorCategories = [], re_SecretCategories = [],
     re_Findings = [], re_BundleDigest = []\<rparr>"

definition sample_deps :: "unit Dependencies" where
  "sample_deps = \<lparr>dp_Authenticate = (\<lambda>_ w. (Inr sample_server_principal, w)),
     dp_Policy = \<lparr>eng_version = ''v1'', eng_digest = [], eng_rules =
       [\<lparr>rule_ID = ''allow'', rule_Effect = EffectAllow, rule_Principals = Some [sample_principal], rule_Groups = None,
         rule_Endpoints = Some [''models.list'', ''chat.completions''], rule_Models = Some [''m1'']\<rparr>]\<rparr>,
     dp_Detect = (\<lambda>_. Inr sample_class),
     dp_Reserve = (\<lambda>q w. (Inr \<lparr>rsv_ID = sample_hold, rsv_RunID = rr_RunID q, rsv_PrincipalID = rr_PrincipalID q,
        rsv_ModelName = rr_ModelName q, rsv_ReservedMaxMicros = rr_ReservedMaxMicros q, rsv_SettledActualMicros = None,
        rsv_State = StateReserved, rsv_ExpiresAt = 0\<rparr>, w)),
     dp_Settle = (\<lambda>_ w. (Inr 0, w)),
     dp_Append = (\<lambda>e w. (Inr (NewAppendReceipt 1 sample_digest (EventType e)), w)),
     dp_ChatCompletions = (\<lambda>_ w. (Inr sample_result, w)),
     dp_Digester = \<lparr>dg_key = [], dg_keyID = ''k1'', dg_initialized = True\<rparr>, dp_Models = [sample_route],
     dp_MaxRequestBytes = 1048576, dp_MaxResponseBytes = 4096, dp_ResolvedBackend = ''local'', dp_ConfigHash = sample_digest,
     dp_Now = (\<lambda>w. (\<lparr>t_nanos = 63900000000000001000, t_loc = UTC\<rparr>, w)), dp_BudgetTTL = 120000000000,
     dp_Random = (\<lambda>w. ([], w)), dp_Version = ''v1.0''\<rparr>"

definition sample_prim :: primitives where
  "sample_prim = \<lparr>pr_sha256 = (\<lambda>_. sample_digest), pr_hmac = (\<lambda>_ _. sample_digest), pr_parse_float = sample_parse\<rparr>"

lemma sample_allowed:
  "dec_Effect (Evaluate (Some (dp_Policy sample_deps)) (policy_request sample_server_principal ''chat.completions'' ''m1'')) = EffectAllow"
  by (simp add: Evaluate_Some permits_def request_ok_def applies_with_def rule_applies_def pattern_defs uuidPattern_def char_class_defs
      maxSelectorsPerRule_def sample_deps_def sample_server_principal_def policy_request_def sample_principal_def EffectAllow_def EffectDeny_def Let_def)

lemma sample_estimate:
  assumes "length body < 2 ^ 20"
  shows "\<exists>reserve. EstimateMaxCostMicros (mr_Price sample_route) (of_nat (length body div 4 + 1)) = Inr reserve"
proof -
  define n where "n = length body div 4 + 1"
  have n: "0 < int n" "int n < 2 ^ 20" using assms unfolding n_def by simp_all
  then have t: "sint (of_nat n :: int64) = int n" by (intro sint_of_nat) simp
  have "cost_fits 1 1 (of_nat n) 16" using n by (simp add: cost_fits_def t)
  then show ?thesis
    unfolding n_def [symmetric] EstimateMaxCostMicros_def using n costMicros_eq [of 1 1 "of_nat n" 16] t
    by (simp add: sample_route_def int64_order)
qed

definition sample_post :: "bytes \<Rightarrow> http_in" where
  "sample_post body = \<lparr>in_Method = ''POST'', in_Path = ''/v1/chat/completions'', in_RawQuery = [], in_Authorization = ''Bearer k'',
     in_Body = \<lparr>st_bytes = body, st_end = Eof\<rparr>\<rparr>"

lemma small_body:
  assumes "length body < 2 ^ 20"
  shows "read_all (1048576 + 1) \<lparr>st_bytes = body, st_end = Eof\<rparr> = Some body" and "\<not> 1048576 <s len64 body"
proof -
  have u: "unat (1048577 :: int64) = 1048577" by simp
  then show "read_all (1048576 + 1) \<lparr>st_bytes = body, st_end = Eof\<rparr> = Some body"
    using assms by (simp add: read_all_def int64_order)
  have "sint (len64 body) = int (length body)" unfolding len64_def using assms by (intro sint_of_nat) simp
  then show "\<not> 1048576 <s len64 body" using assms by (simp add: int64_order)
qed

lemma sample_body: "\<exists>body. ParseChatRequest sample_parse body = Inr sample_chat \<and> length body < 2 ^ 20"
proof -
  obtain body where body: "encodeChatRequest sample_format sample_chat = Inr body" "length body < 2 ^ 20"
    using sample_chat_encodes by blast
  then have "ParseChatRequest sample_parse (body @ []) = Inr sample_chat"
    using sample_float by (intro encode_parse [OF body(1) _ _ _ sample_chat_utf8]) (auto simp: decoder_More_def skip_space_def)
  then show ?thesis using body(2) by auto
qed

lemma sample_receipt: "AuthorizesBackendCall (NewAppendReceipt 1 sample_digest EventRunStarted)"
  using sample_digest_nonzero by (simp add: AuthorizesBackendCall_def NewAppendReceipt_def int64_order)

lemmas handler_defs = handleChatCompletions_def known_model_def reserve_and_start_def start_run_def call_backend_def complete_run_def
  buildEvent_def new_uuid_def server_now_def settle_def record_call_def quiet_def digester_Sum_def lookupModel_def

lemma sample_run:
  "\<exists>request calls. handleChatCompletions sample_prim (traced sample_deps) request ((), []) =
     (\<lparr>out_Status = 200, out_Body = sample_reply\<rparr>, (), calls)"
proof -
  obtain body where body: "ParseChatRequest sample_parse body = Inr sample_chat" "length body < 2 ^ 20" using sample_body by blast
  obtain reserve where est: "EstimateMaxCostMicros (mr_Price sample_route) (1 + of_nat (length body div 4)) = Inr reserve"
    using sample_estimate [OF body(2)] by auto
  have "sint (len64 sample_reply) = int (length sample_reply)"
    unfolding len64_def using sample_reply_length by (intro sint_of_nat) simp
  then have small: "\<not> 4096 <s len64 sample_reply"
    using sample_reply_length by (simp add: int64_order)
  have "\<exists>calls. handleChatCompletions sample_prim (traced sample_deps) (sample_post body) ((), []) =
     (\<lparr>out_Status = 200, out_Body = sample_reply\<rparr>, (), calls)"
    using body(1) small_body [OF body(2)] est small sample_allowed sample_receipt
    by (simp add: handler_defs sample_deps_def sample_prim_def sample_post_def sample_chat_def sample_result_def sample_route_def
        sample_server_principal_def AuthMethodAPIKey_def AuthMethodOIDC_def Let_def)
  then show ?thesis by blast
qed

lemma sample_calls:
  assumes "handleChatCompletions sample_prim (traced sample_deps) request ((), []) = (\<lparr>out_Status = 200, out_Body = sample_reply\<rparr>, (), calls)"
  shows "\<exists>req outcome. Called req outcome \<in> set calls" and "\<exists>q rsv. Reserved q (Inr rsv) \<in> set calls"
    and "\<exists>e x. Appended e x \<in> set calls"
proof -
  have t: "chat_trace sample_prim sample_deps request calls \<lparr>out_Status = 200, out_Body = sample_reply\<rparr>"
    using chat_completions_traced [OF assms] by simp
  show "\<exists>req outcome. Called req outcome \<in> set calls"
    using t by (rule chat_trace_success) (simp, unfold started_def backend_called_def, elim exE conjE, simp, blast)
  show "\<exists>q rsv. Reserved q (Inr rsv) \<in> set calls"
    using t by (rule chat_trace_success) auto
  show "\<exists>e x. Appended e x \<in> set calls"
    using t by (rule chat_trace_success) (simp, unfold started_def, elim exE conjE, simp, blast)
qed

subsection \<open>Properties\<close>

text \<open>
  C3. No backend call without a durable record. The backend is called at most once for a request, and only after the
  request was authenticated, parsed, classified and allowed by the policy, its worst-case cost was reserved, and the audit
  store confirmed a \<open>run_started\<close> event of the same run, principal, content digest, model and amount with a receipt that
  authorizes the call. What is sent is the parsed request with the model name of the route. This holds whatever the
  collaborators answer.
\<close>

theorem backend_call_needs_durable_start:
  assumes "handleChatCompletions prim (traced deps) request (w, []) = (out, w', calls)" and "Called req outcome \<in> set calls"
  shows "\<exists>pr chatReq rx reserve rsv e rc rest.
    calls = [Authenticated (Inr pr), Reserved (reserve_request deps rx reserve) (Inr rsv), Appended e (Inr rc), Called req outcome] @ rest \<and>
    admitted prim deps request pr chatReq rx reserve \<and> req = chatReq\<lparr>cq_Model := mr_BackendModel (rx_route rx)\<rparr> \<and>
    AuthorizesBackendCall rc \<and> EventType e = EventRunStarted \<and> RunID e = rx_runID rx \<and> PrincipalID e = p_ID pr \<and>
    RequestHMAC e = rx_requestHMAC rx \<and> RequestedModel e = mr_Name (rx_route rx) \<and> ReservedCostMicros e = Some reserve \<and>
    (\<forall>c \<in> set rest. \<not> is_call c)"
proof -
  have "chat_trace prim deps request calls out" using chat_completions_traced [OF assms(1)] by simp
  from this assms(2) show ?thesis
  proof (cases rule: chat_trace_call)
    case (1 pr chatReq rx reserve rsv rest)
    from 1(3) obtain e rc o' rest' where s: "rest = Appended e (Inr rc) # Called (chatReq\<lparr>cq_Model := mr_BackendModel (rx_route rx)\<rparr>) o' # rest'"
      and e: "AuthorizesBackendCall rc" "EventType e = EventRunStarted" "RunID e = rx_runID rx" "PrincipalID e = p_ID (rx_principal rx)"
        "RequestHMAC e = rx_requestHMAC rx" "RequestedModel e = mr_Name (rx_route rx)" "ReservedCostMicros e = Some reserve"
      and acc: "accounted (rx_runID rx) (rsv_ID rsv) reserve rest'"
      unfolding started_def backend_called_def by blast
    have no: "\<forall>c \<in> set rest'. \<not> is_call c" by (rule accounted_calls(1) [OF acc])
    have "req = chatReq\<lparr>cq_Model := mr_BackendModel (rx_route rx)\<rparr>" "outcome = o'"
      using assms(2) no unfolding 1(1) s by (auto dest: bspec [of _ _ "Called req outcome"])
    moreover have "rx_principal rx = pr" using 1(2) by (auto simp: admitted_def)
    ultimately show ?thesis using 1(1,2) s e no by auto
  qed
qed

theorem backend_call_needs_durable_start_witness:
  "\<exists>request out calls req outcome e rc. handleChatCompletions sample_prim (traced sample_deps) request ((), []) = (out, (), calls) \<and>
     Called req outcome \<in> set calls \<and> Appended e (Inr rc) \<in> set calls \<and> AuthorizesBackendCall rc \<and> EventType e = EventRunStarted"
proof -
  obtain request calls where run: "handleChatCompletions sample_prim (traced sample_deps) request ((), []) =
     (\<lparr>out_Status = 200, out_Body = sample_reply\<rparr>, (), calls)" using sample_run by blast
  obtain req outcome where c: "Called req outcome \<in> set calls" using sample_calls [OF run] by blast
  from backend_call_needs_durable_start [OF run c] obtain pr rx reserve rsv e rc rest where
    "calls = [Authenticated (Inr pr), Reserved (reserve_request sample_deps rx reserve) (Inr rsv), Appended e (Inr rc), Called req outcome] @ rest"
    and e: "AuthorizesBackendCall rc" "EventType e = EventRunStarted" by (elim exE conjE) rule
  then have "Appended e (Inr rc) \<in> set calls" by simp
  then show ?thesis using run c e by blast
qed

text \<open>
  C4. Every granted reservation is settled exactly once. When the budget service grants a reservation to a request, the
  handler makes exactly one settlement call, for that reservation and for an amount between zero and the reserved maximum,
  whatever fails on the way; and it makes no settlement call otherwise.
\<close>

theorem granted_reservation_settled_once:
  assumes "handleChatCompletions prim (traced deps) request (w, []) = (out, w', calls)"
  shows "(\<forall>q rsv. Reserved q (Inr rsv) \<in> set calls \<longrightarrow>
      (\<exists>a r. filter is_settle calls = [Settled \<lparr>sr_ReservationID = rsv_ID rsv, sr_ActualMicros = Some a\<rparr> r] \<and>
         0 \<le>s a \<and> a \<le>s rr_ReservedMaxMicros q)) \<and>
    ((\<forall>q rsv. Reserved q (Inr rsv) \<notin> set calls) \<longrightarrow> filter is_settle calls = [])"
proof -
  have "chat_trace prim deps request calls out" using chat_completions_traced [OF assms] by simp
  then show ?thesis
  proof cases
    case (stopped pr chatReq rx reserve rsv rest)
    note nn = admitted_nonneg [OF stopped(3)]
    have "Reserved q (Inr x) \<notin> set rest" for q x using stopped(4) by (auto simp: stopped_early_def)
    then show ?thesis using stopped(1) stopped_early_calls(2) [OF stopped(4)] nn by (auto simp: reserve_request_def)
  next
    case (called pr chatReq rx reserve rsv rest)
    have "Reserved q (Inr x) \<notin> set rest" for q x
      using called(4) by (fastforce simp: started_def backend_called_def accounted_def)
    then show ?thesis using called(1) started_calls [OF called(4)] by (auto simp: reserve_request_def)
  next
    case (denied pr model rest)
    then show ?thesis using denial_filters [OF denied(2)] by auto
  next
    case (over_budget pr chatReq rx reserve rest)
    then show ?thesis using denial_filters [OF over_budget(3)] by auto
  qed auto
qed

theorem granted_reservation_settled_once_witness:
  "\<exists>request out calls q rsv a r. handleChatCompletions sample_prim (traced sample_deps) request ((), []) = (out, (), calls) \<and>
     Reserved q (Inr rsv) \<in> set calls \<and>
     filter is_settle calls = [Settled \<lparr>sr_ReservationID = rsv_ID rsv, sr_ActualMicros = Some a\<rparr> r] \<and> a \<le>s rr_ReservedMaxMicros q"
proof -
  obtain request calls where run: "handleChatCompletions sample_prim (traced sample_deps) request ((), []) =
     (\<lparr>out_Status = 200, out_Body = sample_reply\<rparr>, (), calls)" using sample_run by blast
  obtain q rsv where c: "Reserved q (Inr rsv) \<in> set calls" using sample_calls [OF run] by blast
  from granted_reservation_settled_once [OF run] c show ?thesis using run by blast
qed

text \<open>
  C5. A successful response is fully accounted for. When the handler answers 200 the calls it made are exactly:
  authentication, a granted reservation, the confirmed \<open>run_started\<close> event, one backend call that succeeded within the
  response limit, one successful settlement, and the confirmed \<open>run_completed\<close> event of the same run, which carries the
  digest of the bytes that are returned and the settled amount. The body is the backend's response, unchanged.
\<close>

theorem success_is_accounted:
  assumes "handleChatCompletions prim (traced deps) request (w, []) = (out, w', calls)" and "out_Status out = 200"
  shows "\<exists>pr chatReq rx reserve rsv start rc result a settled fin rc' h.
    calls = [Authenticated (Inr pr), Reserved (reserve_request deps rx reserve) (Inr rsv), Appended start (Inr rc),
      Called (chatReq\<lparr>cq_Model := mr_BackendModel (rx_route rx)\<rparr>) (Inr result),
      Settled \<lparr>sr_ReservationID = rsv_ID rsv, sr_ActualMicros = Some a\<rparr> (Inr settled), Appended fin (Inr rc')] \<and>
    admitted prim deps request pr chatReq rx reserve \<and> a = actual_cost (rx_route rx) reserve (cr_Usage result) \<and>
    EventType start = EventRunStarted \<and> EventType fin = EventRunCompleted \<and> RunID fin = RunID start \<and> PrincipalID fin = p_ID pr \<and>
    digester_Sum (pr_hmac prim) (Some (dp_Digester deps)) (cr_RawJSON result) = Inr h \<and> ResponseHMAC fin = Some h \<and>
    RequestHMAC fin = RequestHMAC start \<and> event_ActualCostMicros fin = Some settled \<and>
    len64 (cr_RawJSON result) \<le>s dp_MaxResponseBytes deps \<and> out_Body out = cr_RawJSON result"
proof -
  have "chat_trace prim deps request calls out" using chat_completions_traced [OF assms(1)] by simp
  from this assms(2) show ?thesis
  proof (cases rule: chat_trace_success)
    case (1 pr chatReq rx reserve rsv rest)
    have "rx_principal rx = pr" using 1(2) by (auto simp: admitted_def)
    with 1 assms(2) show ?thesis
      unfolding started_def backend_called_def delivered_def by fastforce
  qed
qed

theorem success_is_accounted_witness:
  "\<exists>request calls fin rc. handleChatCompletions sample_prim (traced sample_deps) request ((), []) =
     (\<lparr>out_Status = 200, out_Body = sample_reply\<rparr>, (), calls) \<and> length calls = 6 \<and> last calls = Appended fin (Inr rc) \<and>
     EventType fin = EventRunCompleted"
proof -
  obtain request calls where run: "handleChatCompletions sample_prim (traced sample_deps) request ((), []) =
     (\<lparr>out_Status = 200, out_Body = sample_reply\<rparr>, (), calls)" using sample_run by blast
  from success_is_accounted [OF run] obtain fin rc where
    "length calls = 6" "last calls = Appended fin (Inr rc)" "EventType fin = EventRunCompleted" by auto
  then show ?thesis using run by blast
qed


definition no_rules_deps :: "unit Dependencies" where
  "no_rules_deps = sample_deps\<lparr>dp_Policy := \<lparr>eng_version = ''v1'', eng_digest = [], eng_rules = []\<rparr>\<rparr>"

lemma no_rules_deny: "dec_Effect (Evaluate (Some (dp_Policy no_rules_deps)) q) \<noteq> EffectAllow"
  by (simp add: no_rules_deps_def Evaluate_Some permits_def applies_with_def denyDecision_def Let_def EffectAllow_def EffectDeny_def)


text \<open>
  C22. The gateway itself shows nothing of the content but its length, its keyed digest, its classification and the model name.
  Take two requests of one caller that agree in these, and a backend that answers the two alike, which is assumed: then the
  response and everything the collaborators are told, every audit event and every budget call included, are the same whatever
  the messages say. What a backend that reads the messages puts into its answers, the body of a 200 response included, is
  outside the statement.
\<close>

theorem run_independent_of_content:
  assumes "read_all (dp_MaxRequestBytes deps + 1) (in_Body r1) = Some body1" "read_all (dp_MaxRequestBytes deps + 1) (in_Body r2) = Some body2"
    and "ParseChatRequest (pr_parse_float prim) body1 = Inr q1" "ParseChatRequest (pr_parse_float prim) body2 = Inr q2"
    and "in_Method r2 = in_Method r1" "in_Authorization r2 = in_Authorization r1"
    and "length body2 = length body1" "cq_Model q2 = cq_Model q1"
    and "digester_Sum (pr_hmac prim) (Some (dp_Digester deps)) body2 = digester_Sum (pr_hmac prim) (Some (dp_Digester deps)) body1"
    and "dp_Detect deps (joinMessageText q2) = dp_Detect deps (joinMessageText q1)"
    and "\<And>m. dp_ChatCompletions deps (q2\<lparr>cq_Model := m\<rparr>) = dp_ChatCompletions deps (q1\<lparr>cq_Model := m\<rparr>)"
  shows "handleChatCompletions prim deps r2 w = handleChatCompletions prim deps r1 w"
proof -
  have len: "len64 body2 = len64 body1" using assms(7) by (simp add: len64_def)
  have call: "call_backend prim deps rx q2 hold reserve = call_backend prim deps rx q1 hold reserve" for rx hold reserve
    by (rule ext) (simp add: call_backend_def assms(11))
  have start: "start_run prim deps rx q2 hold reserve now = start_run prim deps rx q1 hold reserve now" for rx hold reserve now
    by (rule ext) (unfold start_run_def call, rule refl)
  have rsv: "reserve_and_start prim deps rx q2 body2 now = reserve_and_start prim deps rx q1 body1 now" for rx now
    by (rule ext) (unfold reserve_and_start_def start assms(7), rule refl)
  have known: "known_model prim deps pr body2 q2 route = known_model prim deps pr body1 q1 route" for pr route
    by (rule ext) (unfold known_model_def rsv assms(9,10) len, rule refl)
  have unknown: "unknown_model prim deps pr body2 q2 = unknown_model prim deps pr body1 q1" for pr
    by (rule ext) (unfold unknown_model_def assms(8,9,10) len, rule refl)
  show ?thesis
    unfolding handleChatCompletions_def assms(1,2,5,6) option.case len assms(3,4) sum.case assms(8) known unknown by (rule refl)
qed

text \<open>A second request, of the same length and with another message.\<close>

definition other_chat :: ChatRequest where
  "other_chat = sample_chat\<lparr>cq_Messages := [\<lparr>msg_Role = ''user'', msg_Content = ''c<b'' @ [CHR 0x22, CHR 0x0A]\<rparr>]\<rparr>"

lemma two_chats_encode:
  "\<exists>b1 b2. encodeChatRequest sample_format sample_chat = Inr b1 \<and> encodeChatRequest sample_format other_chat = Inr b2 \<and>
     length b2 = length b1 \<and> length b1 < 2 ^ 20"
  by (simp add: encodeChatRequest_def validateChatRequest_def other_chat_def sample_chat_def role_ok_def temperature_ok_def max_tokens_ok_def
      f64_negative_def f64_above_two_def f64_finite_def f64_magnitude_def int64_order member_def message_json_def sample_format_def
      json_string_def json_ascii_def int_digits_def nat_digits.simps)

theorem run_independent_of_content_witness:
  "\<exists>body1 body2. ParseChatRequest sample_parse body1 = Inr sample_chat \<and> ParseChatRequest sample_parse body2 = Inr other_chat \<and>
     map msg_Content (cq_Messages other_chat) \<noteq> map msg_Content (cq_Messages sample_chat) \<and>
     handleChatCompletions sample_prim sample_deps (sample_post body2) () = handleChatCompletions sample_prim sample_deps (sample_post body1) ()"
proof -
  obtain b1 b2 where enc: "encodeChatRequest sample_format sample_chat = Inr b1" "encodeChatRequest sample_format other_chat = Inr b2"
    "length b2 = length b1" "length b1 < 2 ^ 20" using two_chats_encode by blast
  have utf8: "utf8_valid (cq_Model other_chat)" "list_all (\<lambda>m. utf8_valid (msg_Content m)) (cq_Messages other_chat)"
    by (simp_all add: other_chat_def sample_chat_def utf8_size_def)
  have parse: "ParseChatRequest sample_parse (b1 @ []) = Inr sample_chat" "ParseChatRequest sample_parse (b2 @ []) = Inr other_chat"
    using enc sample_float encode_parse [OF enc(1) _ _ _ sample_chat_utf8, of "[]" sample_parse] encode_parse [OF enc(2) _ _ _ utf8, of "[]" sample_parse]
    by (simp_all add: decoder_More_def skip_space_def)
  have len: "length b1 < 2 ^ 20" "length b2 < 2 ^ 20" using enc(3,4) by simp_all
  have "handleChatCompletions sample_prim sample_deps (sample_post b2) () = handleChatCompletions sample_prim sample_deps (sample_post b1) ()"
    by (rule run_independent_of_content [where ?body1.0 = b1 and ?body2.0 = b2 and ?q1.0 = sample_chat and ?q2.0 = other_chat])
      (use small_body [OF len(1)] small_body [OF len(2)] parse enc(3) in
        \<open>simp_all add: sample_post_def sample_deps_def sample_prim_def digester_Sum_def other_chat_def\<close>)
  then show ?thesis using parse by (intro exI [of _ b1] exI [of _ b2]) (simp add: other_chat_def sample_chat_def)
qed

end
