(* ===== verification/ServerEvents.thy ===== *)
theory ServerEvents
  imports ServerTrace
begin

section \<open>The events the server builds\<close>

text \<open>
  \<open>server_ready\<close> is what the server relies on: a configuration whose names fit the audit patterns, hash functions that do
  not return the all-zero digest, a clock inside the years 1 to 9999, and collaborators that keep to their own contracts
  (validated principals and usage, valid classifications, non-negative settlements). Then every event a request gives rise to
  passes \<open>Event.Validate\<close>: the audit store never refuses a run for the form of its events.
\<close>

subsection \<open>Run identifiers\<close>

lemma uuid_layout:
  assumes "length a = 4" "length b = 2" "length c = 2" "length d = 2" "length e = 6"
  shows "uuidPattern (hex_encode a @ ''-'' @ hex_encode b @ ''-'' @ hex_encode c @ ''-'' @ hex_encode d @ ''-'' @ hex_encode e)"
  using assms by (simp add: uuidPattern_def hex_encode_lower)

lemma newUUID_pattern: "uuidPattern (newUUID random)"
  unfolding newUUID_def Let_def by (rule uuid_layout) simp_all

subsection \<open>Contracts\<close>

definition class_ok :: "Result \<Rightarrow> bool" where
  "class_ok c \<longleftrightarrow> validCodeSet (re_PIICategories c) \<and> validCodeSet (re_HealthIndicatorCategories c) \<and>
     validCodeSet (re_SecretCategories c) \<and> validCountMap (re_PIIMatchCounts c) \<and> api_digestFromHex (re_BundleDigest c) \<noteq> Some zero_digest"

definition clock_ok :: "go_time \<Rightarrow> bool" where
  "clock_ok t \<longleftrightarrow> 1000 \<le> t_nanos t \<and> 1 \<le> time_Year (time_UTC t) \<and> time_Year (time_UTC t) \<le> 9999"

definition result_ok :: "ChatResult \<Rightarrow> bool" where
  "result_ok r \<longleftrightarrow> validateUsage (cr_Usage r) \<and> length (cr_RawJSON r) < 2 ^ 63"

definition config_ok :: "'w Dependencies \<Rightarrow> bool" where
  "config_ok deps \<longleftrightarrow> list_all (\<lambda>m. identifierPattern (mr_Name m)) (dp_Models deps) \<and> identifierPattern (dp_ResolvedBackend deps) \<and>
     identifierPattern (digester_KeyID (Some (dp_Digester deps))) \<and> identifierPattern (dp_Version deps) \<and>
     dp_ConfigHash deps \<noteq> zero_digest \<and> api_digestFromHex (eng_digest (dp_Policy deps)) \<noteq> Some zero_digest"

definition server_ready :: "primitives \<Rightarrow> 'w Dependencies \<Rightarrow> bool" where
  "server_ready prim deps \<longleftrightarrow> config_ok deps \<and>
     (\<forall>b. pr_sha256 prim b \<noteq> zero_digest) \<and> (\<forall>k b. pr_hmac prim k b \<noteq> zero_digest) \<and>
     (\<forall>w. clock_ok (fst (dp_Now deps w))) \<and>
     (\<forall>h w pr. fst (dp_Authenticate deps h w) = Inr pr \<longrightarrow> principal_Validate pr) \<and>
     (\<forall>t c. dp_Detect deps t = Inr c \<longrightarrow> class_ok c) \<and>
     (\<forall>q w n. fst (dp_Settle deps q w) = Inr n \<longrightarrow> 0 \<le>s n) \<and>
     (\<forall>q w r. fst (dp_ChatCompletions deps q w) = Inr r \<longrightarrow> result_ok r)"

text \<open>A decision as the handlers pass it on, and an instant as \<open>server_now\<close> gives it.\<close>

definition decision_ok :: "'w Dependencies \<Rightarrow> PolicyDecision \<Rightarrow> bool" where
  "decision_ok deps d \<longleftrightarrow> validCodeSet (dec_ReasonCodes d) \<and> dec_PolicyDigest d = eng_digest (dp_Policy deps)"

definition instant_ok :: "go_time \<Rightarrow> bool" where
  "instant_ok t \<longleftrightarrow> t_nanos t \<noteq> 0 \<and> 1 \<le> time_Year t \<and> time_Year t \<le> 9999 \<and> t_nanos t mod 1000 = 0"

lemma server_now_ok:
  assumes "server_ready prim deps" and "server_now deps w = (t, w')"
  shows "instant_ok t"
proof -
  obtain u where u: "dp_Now deps w = (u, w')" "t = time_Truncate (time_UTC u) 1000"
    using assms(2) by (auto simp: server_now_def split: prod.splits)
  have c: "clock_ok u" using assms(1) u(1) unfolding server_ready_def by (metis fst_conv)
  have n: "t_nanos t = t_nanos u - t_nanos u mod 1000" "t_loc t = UTC" by (simp_all add: u(2) time_Truncate_def time_UTC_def)
  have "(t_nanos u - t_nanos u mod 1000) div nanos_per_day = t_nanos u div nanos_per_day"
  proof -
    have "(t_nanos u - t_nanos u mod 1000) div (1000 * 86400000000) = (t_nanos u - t_nanos u mod 1000) div 1000 div 86400000000"
      by (rule zdiv_zmult2_eq) simp
    also have "\<dots> = t_nanos u div 1000 div 86400000000" by (simp add: minus_mod_eq_mult_div)
    also have "\<dots> = t_nanos u div (1000 * 86400000000)" by (rule zdiv_zmult2_eq [symmetric]) simp
    finally show ?thesis by (simp add: nanos_per_day_def nanos_per_second_def)
  qed
  then have "time_Year t = time_Year (time_UTC u)" by (simp add: time_Year_def n time_UTC_def)
  moreover have "t_nanos t \<noteq> 0" using c n(1) pos_mod_bound [of 1000 "t_nanos u"] by (auto simp: clock_ok_def)
  ultimately show ?thesis using c by (simp add: instant_ok_def clock_ok_def n(1) mod_diff_right_eq)
qed

lemma Evaluate_decision_ok: "decision_ok deps (Evaluate (Some (dp_Policy deps)) q)"
proof -
  have "validCodeSet [ReasonPolicyAllowed]" "validCodeSet [ReasonNoMatchingAllow]" "validCodeSet [ReasonExplicitDeny]"
    by (simp_all add: validCodeSet_iff ReasonPolicyAllowed_def ReasonNoMatchingAllow_def ReasonExplicitDeny_def codePattern_def char_class_defs)
  then show ?thesis by (simp add: decision_ok_def Evaluate_Some Let_def denyDecision_def)
qed

lemma fixed_codes:
  "validCodeSet [''budget_denied'']" "validCodeSet [''no_matching_allow'']" "identifierPattern ''unknown_model''"
  "codePattern ''unavailable''" "codePattern ''response_too_large''" "codePattern (Code err)"
  by (simp_all add: validCodeSet_iff identifierPattern_def codePattern_def char_class_defs Code_def split: backend_error.split)

subsection \<open>Building valid events\<close>

lemma buildEvent_valid:
  assumes built: "buildEvent prim deps pr run ty d st pd m h rh rb sb cl res act ec now w = (Inr e, w')"
    and ready: "server_ready prim deps" and pr: "principal_Validate pr" and "uuidPattern run" and "validEventState ty d st"
    and pd: "decision_ok deps pd" and "identifierPattern m" and "h \<noteq> zero_digest" and "validOptionalDigest rh" and "0 \<le>s rb"
    and "validOptionalNonNegative sb" and cl: "class_ok cl" and "validOptionalNonNegative res" and "validOptionalNonNegative act"
    and "validOptionalCode ec" and now: "instant_ok now"
  shows "event_Validate e"
proof -
  have cfg: "config_ok deps" and sha: "pr_sha256 prim b \<noteq> zero_digest" for b using ready by (simp_all add: server_ready_def)
  obtain eid where e: "e = \<lparr>SchemaVersion = 1, EventID = eid, RunID = run, EventType = ty, OccurredAt = now,
              PrincipalID = p_ID pr, AuthMethod = (if p_AuthMethod pr = AuthMethodOIDC then AuthOIDC else AuthAPIKey),
              OIDCIssuerHash = (if p_AuthMethod pr = AuthMethodOIDC then Some (p_OIDCIssuerHash pr) else None),
              PolicyVersionHash = (case api_digestFromHex (dec_PolicyDigest pd) of
                None \<Rightarrow> pr_sha256 prim (engine_Version (Some (dp_Policy deps))) | Some d \<Rightarrow> d), Decision = d,
              DecisionReasonCodes = Some (dec_ReasonCodes pd), RequestedModel = m, ResolvedBackend = dp_ResolvedBackend deps,
              ContentHMACKeyID = digester_KeyID (Some (dp_Digester deps)), RequestHMAC = h, ResponseHMAC = rh,
              RequestBytes = rb, ResponseBytes = sb, PIICategories = Some (re_PIICategories cl), PIIMatchCounts = Some (re_PIIMatchCounts cl),
              HealthIndicatorCategories = Some (re_HealthIndicatorCategories cl), SecretCategories = Some (re_SecretCategories cl),
              DetectorBundleHash = (case api_digestFromHex (re_BundleDigest cl) of None \<Rightarrow> pr_sha256 prim BundleVersion | Some d \<Rightarrow> d),
              InputTokens = None, OutputTokens = None, ReservedCostMicros = res, event_ActualCostMicros = act, event_Status = st,
              ErrorCode = ec, PreviousEventHash = zero_digest, SoftwareVersion = dp_Version deps, ConfigHash = dp_ConfigHash deps\<rparr>"
      and eid: "uuidPattern eid" and oidc: "p_AuthMethod pr = AuthMethodOIDC \<longrightarrow> p_OIDCIssuerHash pr \<noteq> zero_digest"
    using built newUUID_pattern unfolding buildEvent_def Let_def by (auto simp: new_uuid_def split: if_splits prod.splits)
  have hashes: "PolicyVersionHash e \<noteq> zero_digest" "DetectorBundleHash e \<noteq> zero_digest"
    using cfg pd cl sha by (auto simp: e config_ok_def decision_ok_def class_ok_def split: option.splits)
  have auth: "validAuthEvidence (AuthMethod e) (OIDCIssuerHash e)"
    using oidc by (simp add: e validAuthEvidence_def validAuthMethod_def isZeroDigest_def audit_enum_defs)
  have clock: "\<not> time_IsZero now" "time_Nanosecond now mod 1000 = 0"
    using now mod_mod_cancel [of 1000 nanos_per_second "t_nanos now"]
    by (simp_all add: instant_ok_def time_IsZero_def time_Nanosecond_def nanos_per_second_def)
  have "uuidPattern (p_ID pr)" using pr by (auto simp: principal_Validate_def split: if_splits)
  then show ?thesis
    unfolding event_Validate_def
    using hashes auth clock now assms(4,5,7-11,13-15) eid pd cl cfg
    by (simp add: e isZeroDigest_def instant_ok_def decision_ok_def class_ok_def config_ok_def int64_order validOptionalNonNegative_def [of None])
qed

subsection \<open>Every stage appends valid events\<close>

definition valid_calls :: "call list \<Rightarrow> bool" where
  "valid_calls tr \<longleftrightarrow> (\<forall>e x. Appended e x \<in> set tr \<longrightarrow> event_Validate e)"

lemma valid_calls_simps [simp]:
  "valid_calls []" "valid_calls (tr @ tr') \<longleftrightarrow> valid_calls tr \<and> valid_calls tr'"
  "valid_calls (Settled q r # tr) \<longleftrightarrow> valid_calls tr" "valid_calls (Reserved a b # tr) \<longleftrightarrow> valid_calls tr"
  "valid_calls (Called c d # tr) \<longleftrightarrow> valid_calls tr" "valid_calls (Authenticated t # tr) \<longleftrightarrow> valid_calls tr"
  "valid_calls (Appended e x # tr) \<longleftrightarrow> event_Validate e \<and> valid_calls tr"
  by (auto simp: valid_calls_def)

definition rx_ok :: "'w Dependencies \<Rightarrow> run_context \<Rightarrow> bool" where
  "rx_ok deps rx \<longleftrightarrow> principal_Validate (rx_principal rx) \<and> uuidPattern (rx_runID rx) \<and> decision_ok deps (rx_decision rx) \<and>
     identifierPattern (mr_Name (rx_route rx)) \<and> rx_requestHMAC rx \<noteq> zero_digest \<and> 0 \<le>s rx_requestBytes rx \<and> class_ok (rx_classification rx)"

lemma event_states:
  "validEventState EventRunStarted DecisionAllow StatusStarted" "validEventState EventRunCompleted DecisionAllow StatusCompleted"
  "validEventState EventRunFailed DecisionAllow StatusFailed" "validEventState EventRunDenied DecisionDeny StatusDenied"
  by (simp_all add: validEventState_def audit_enum_defs)

lemma optional_simps:
  "validOptionalNonNegative None" "validOptionalNonNegative (Some n) \<longleftrightarrow> 0 \<le>s n" "validOptionalDigest None"
  "validOptionalDigest (Some d) \<longleftrightarrow> d \<noteq> zero_digest" "validOptionalCode None" "validOptionalCode (Some c) \<longleftrightarrow> codePattern c"
  by (simp_all add: validOptionalNonNegative_def validOptionalDigest_def validOptionalCode_def isZeroDigest_def)

lemma run_event_valid:
  assumes "buildEvent prim (traced deps) (rx_principal rx) (rx_runID rx) ty d st (rx_decision rx) (mr_Name (rx_route rx)) (rx_requestHMAC rx)
      rh (rx_requestBytes rx) sb (rx_classification rx) res act ec now s0 = (r, s)"
    and "server_ready prim deps" and "rx_ok deps rx" and "instant_ok now" and "validEventState ty d st"
    and "validOptionalDigest rh" and "validOptionalNonNegative sb" and "validOptionalNonNegative res" and "validOptionalNonNegative act"
    and "validOptionalCode ec"
  shows "snd s = snd s0" and "r = Inr e \<Longrightarrow> event_Validate e"
proof -
  obtain w tr where s0: "s0 = (w, tr)" by (cases s0)
  from buildEvent_traced [OF assms(1) [unfolded s0]] obtain w' where b: "buildEvent prim deps (rx_principal rx) (rx_runID rx) ty d st (rx_decision rx)
      (mr_Name (rx_route rx)) (rx_requestHMAC rx) rh (rx_requestBytes rx) sb (rx_classification rx) res act ec now w = (r, w')"
    and s: "s = (w', tr)" by blast
  show "snd s = snd s0" by (simp add: s s0)
  show "event_Validate e" if "r = Inr e"
    using buildEvent_valid [OF b [unfolded that] assms(2)] assms(3-10) by (simp add: rx_ok_def)
qed

lemma run_failed_valid:
  assumes "server_ready prim deps" and "rx_ok deps rx" and "instant_ok now" and "0 \<le>s reserve" and "0 \<le>s act" and "codePattern code"
    and "valid_calls (snd s0)"
  shows "valid_calls (snd (run_failed prim (traced deps) rx reserve act code now s0))"
proof -
  obtain w tr where s0: "s0 = (w, tr)" by (cases s0)
  obtain b s1 where built: "buildEvent prim (traced deps) (rx_principal rx) (rx_runID rx) EventRunFailed DecisionAllow StatusFailed
      (rx_decision rx) (mr_Name (rx_route rx)) (rx_requestHMAC rx) None (rx_requestBytes rx) None (rx_classification rx)
      (Some reserve) (Some act) (Some code) now (w, tr) = (b, s1)" by (rule prod.exhaust)
  note ev = run_event_valid [OF built assms(1-3) event_states(3)]
  have tr: "snd s1 = tr" and ok: "\<And>e. b = Inr e \<Longrightarrow> event_Validate e" using ev assms(4-6) by (simp_all add: optional_simps)
  show ?thesis
    using assms(7) built tr ok unfolding run_failed_def appendFailed_def s0
    by (cases b; cases s1) (auto simp: record_call_def split: prod.splits)
qed

lemma settle_valid:
  assumes "settle (traced deps) hold a s0 = (r, s1)" and "valid_calls (snd s0)"
  shows "valid_calls (snd s1)" and "server_ready prim deps \<Longrightarrow> r = Inr n \<Longrightarrow> 0 \<le>s n"
proof -
  obtain w tr where s0: "s0 = (w, tr)" by (cases s0)
  from assms(1) [unfolded s0] obtain w' where st: "settle deps hold a w = (r, w')"
    and s1: "s1 = (w', tr @ [Settled \<lparr>sr_ReservationID = hold, sr_ActualMicros = Some a\<rparr> r])" by (auto simp: trace_simps)
  show "valid_calls (snd s1)" using assms(2) by (simp add: s0 s1)
  show "0 \<le>s n" if "server_ready prim deps" "r = Inr n"
    using that st unfolding server_ready_def settle_def by (metis fst_conv)
qed

lemma record_append_valid:
  assumes "record_call (dp_Append deps) Appended e s0 = (r, s1)" and "valid_calls (snd s0)" and "event_Validate e"
  shows "valid_calls (snd s1)"
  using assms by (auto simp: record_call_def split: prod.splits)

lemma complete_run_valid:
  assumes run: "complete_run prim (traced deps) rx hold reserve result now s0 = (out, s)"
    and ready: "server_ready prim deps" and rx: "rx_ok deps rx" and now: "instant_ok now" and res: "0 \<le>s reserve" "result_ok result"
    and v: "valid_calls (snd s0)"
  shows "valid_calls (snd s)"
proof (cases "digester_Sum (pr_hmac prim) (Some (dp_Digester deps)) (cr_RawJSON result)")
  case (Inl err)
  obtain r s1 where st: "settle (traced deps) hold 0 s0 = (r, s1)" by (rule prod.exhaust)
  have "s = run_failed prim (traced deps) rx reserve 0 ''unavailable'' now s1" using run Inl st by (simp add: complete_run_def)
  then show ?thesis using run_failed_valid [OF ready rx now res(1) _ fixed_codes(4) settle_valid(1) [OF st v]] by simp
next
  case (Inr h)
  have h: "h \<noteq> zero_digest" using Inr ready by (auto simp: digester_Sum_def server_ready_def split: if_splits)
  obtain r s1 where st: "settle (traced deps) hold (actual_cost (rx_route rx) reserve (cr_Usage result)) s0 = (r, s1)" by (rule prod.exhaust)
  note v1 = settle_valid [OF st v]
  have fails: "valid_calls (snd s)" if "s = run_failed prim (traced deps) rx reserve act ''unavailable'' now s'" "0 \<le>s act" "valid_calls (snd s')" for act s'
    using run_failed_valid [OF ready rx now res(1) that(2) fixed_codes(4) that(3)] that(1) by simp
  show ?thesis
  proof (cases r)
    case (Inl err)
    then show ?thesis using run Inr st v1(1) by (intro fails [of 0 s1]) (simp_all add: complete_run_def)
  next
    case settled: (Inr n)
    have n: "0 \<le>s n" by (rule v1(2) [OF ready settled])
    obtain b s2 where built: "buildEvent prim (traced deps) (rx_principal rx) (rx_runID rx) EventRunCompleted DecisionAllow StatusCompleted
        (rx_decision rx) (mr_Name (rx_route rx)) (rx_requestHMAC rx) (Some h) (rx_requestBytes rx) (Some (len64 (cr_RawJSON result)))
        (rx_classification rx) (Some reserve) (Some n) None now s1 = (b, s2)" by (rule prod.exhaust)
    have "0 \<le>s len64 (cr_RawJSON result)"
      using res(2) sint_of_nat [of "length (cr_RawJSON result)"] by (simp add: result_ok_def len64_def int64_order)
    then have v2: "valid_calls (snd s2)" and ok: "\<And>e. b = Inr e \<Longrightarrow> event_Validate e"
      using run_event_valid [OF built ready rx now event_states(2)] v1(1) h n res(1)
      by (simp_all add: optional_simps)
    show ?thesis
    proof (cases b)
      case (Inl err)
      then show ?thesis using run Inr settled st built n v2 by (intro fails [of n s2]) (simp_all add: complete_run_def)
    next
      case event: (Inr event)
      define e where "e = event\<lparr>InputTokens := Some (us_PromptTokens (cr_Usage result)), OutputTokens := Some (us_CompletionTokens (cr_Usage result))\<rparr>"
      have e: "event_Validate e"
        using ok [OF event] res(2) by (simp add: e_def event_Validate_def result_ok_def validateUsage_def optional_simps int64_order split: if_splits)
      obtain x s3 where app: "record_call (dp_Append deps) Appended e s2 = (x, s3)" by (rule prod.exhaust)
      note v3 = record_append_valid [OF app v2 e]
      show ?thesis
      proof (cases x)
        case (Inl err)
        then show ?thesis using run Inr settled event st built app n v3 by (intro fails [of n s3]) (simp_all add: complete_run_def e_def)
      next
        case (Inr rc)
        then show ?thesis
          using run \<open>digester_Sum _ _ _ = Inr h\<close> settled event st built app v3 by (simp add: complete_run_def e_def)
      qed
    qed
  qed
qed

lemma call_backend_valid:
  assumes run: "call_backend prim (traced deps) rx chatReq hold reserve s0 = (out, s)"
    and ready: "server_ready prim deps" and rx: "rx_ok deps rx" and res: "0 \<le>s reserve" and v: "valid_calls (snd s0)"
  shows "valid_calls (snd s)"
proof -
  let ?req = "chatReq\<lparr>cq_Model := mr_BackendModel (rx_route rx)\<rparr>"
  obtain w tr where s0: "s0 = (w, tr)" by (cases s0)
  obtain outcome s1 where called: "record_call (dp_ChatCompletions deps) Called ?req s0 = (outcome, s1)" by (rule prod.exhaust)
  then obtain w1 where reply: "dp_ChatCompletions deps ?req w = (outcome, w1)" and s1: "s1 = (w1, tr @ [Called ?req outcome])"
    unfolding s0 by (auto simp: trace_simps)
  obtain now s2 where clock: "server_now (traced deps) s1 = (now, s2)" by (rule prod.exhaust)
  then obtain w2 where now: "server_now deps w1 = (now, w2)" and s2: "s2 = (w2, tr @ [Called ?req outcome])" unfolding s1 by (auto simp: trace_simps)
  note ok = server_now_ok [OF ready now]
  have v2: "valid_calls (snd s2)" using v by (simp add: s0 s2)
  obtain r s3 where st: "settle (traced deps) hold 0 s2 = (r, s3)" by (rule prod.exhaust)
  note v3 = settle_valid(1) [OF st v2]
  have fails: "valid_calls (snd s)" if "s = run_failed prim (traced deps) rx reserve 0 code now s3" "codePattern code" for code
    using run_failed_valid [OF ready rx ok res _ that(2) v3, of 0] that(1) by simp
  show ?thesis
  proof (cases outcome)
    case (Inl err)
    then show ?thesis using run called clock st fixed_codes(6) by (intro fails [of "Code err"]) (simp_all add: call_backend_def)
  next
    case (Inr result)
    have r: "result_ok result" using ready reply Inr unfolding server_ready_def by (metis fst_conv)
    show ?thesis
    proof (cases "dp_MaxResponseBytes deps <s len64 (cr_RawJSON result)")
      case True
      then show ?thesis using run called clock st Inr fixed_codes(5) by (intro fails [of "''response_too_large''"]) (simp_all add: call_backend_def)
    next
      case False
      then have "complete_run prim (traced deps) rx hold reserve result now s2 = (out, s)"
        using run called clock Inr by (simp add: call_backend_def)
      then show ?thesis by (rule complete_run_valid [OF _ ready rx ok res r v2])
    qed
  qed
qed

lemma start_run_valid:
  assumes run: "start_run prim (traced deps) rx chatReq hold reserve now s0 = (out, s)"
    and ready: "server_ready prim deps" and rx: "rx_ok deps rx" and now: "instant_ok now" and res: "0 \<le>s reserve" and v: "valid_calls (snd s0)"
  shows "valid_calls (snd s)"
proof -
  obtain b s1 where built: "buildEvent prim (traced deps) (rx_principal rx) (rx_runID rx) EventRunStarted DecisionAllow StatusStarted
      (rx_decision rx) (mr_Name (rx_route rx)) (rx_requestHMAC rx) None (rx_requestBytes rx) None (rx_classification rx) (Some reserve)
      None None now s0 = (b, s1)" by (rule prod.exhaust)
  have v1: "valid_calls (snd s1)" and ok: "\<And>e. b = Inr e \<Longrightarrow> event_Validate e"
    using run_event_valid [OF built ready rx now event_states(1)] v res by (simp_all add: optional_simps)
  have stops: "valid_calls (snd (snd (case settle (traced deps) hold 0 s' of (_, s'') \<Rightarrow> (writeError 503 ''unavailable'', s''))))"
    if "valid_calls (snd s')" for s'
    using settle_valid(1) [OF prod.collapse [symmetric] that] by (simp add: case_prod_beta)
  show ?thesis
  proof (cases b)
    case (Inl err)
    then show ?thesis using run built stops [OF v1] by (simp add: start_run_def)
  next
    case (Inr e)
    obtain x s2 where app: "record_call (dp_Append deps) Appended e s1 = (x, s2)" by (rule prod.exhaust)
    note v2 = record_append_valid [OF app v1 ok [OF Inr]]
    show ?thesis
      using run built Inr app stops [OF v2] call_backend_valid [OF _ ready rx res v2]
      by (auto simp: start_run_def split: sum.splits if_splits)
  qed
qed

lemma deny_run_valid:
  assumes run: "deny_run prim (traced deps) pr runID model decision h rb cl now refusal s0 = (out, s)"
    and ready: "server_ready prim deps" and "principal_Validate pr" "uuidPattern runID" "decision_ok deps decision" "identifierPattern model"
      "h \<noteq> zero_digest" "0 \<le>s rb" "class_ok cl" "instant_ok now" and v: "valid_calls (snd s0)"
  shows "valid_calls (snd s)"
proof -
  obtain w tr where s0: "s0 = (w, tr)" by (cases s0)
  obtain b s1 where built: "buildEvent prim (traced deps) pr runID EventRunDenied DecisionDeny StatusDenied decision model h None rb None cl
      None None None now (w, tr) = (b, s1)" by (rule prod.exhaust)
  from buildEvent_traced [OF built] obtain w1 where b: "buildEvent prim deps pr runID EventRunDenied DecisionDeny StatusDenied decision model h
      None rb None cl None None None now w = (b, w1)" and s1: "s1 = (w1, tr)" by blast
  have ok: "event_Validate e" if "b = Inr e" for e
    using buildEvent_valid [OF b [unfolded that] ready] assms(3-10) event_states(4) by (simp add: optional_simps)
  show ?thesis
    using run v built ok unfolding deny_run_def appendDenied_def s0
    by (cases b) (auto simp: s1 trace_simps split: prod.splits sum.splits bool.splits)
qed

lemma reserve_and_start_valid:
  assumes run: "reserve_and_start prim (traced deps) rx chatReq body now s0 = (out, s)"
    and ready: "server_ready prim deps" and rx: "rx_ok deps rx" and now: "instant_ok now" and v: "valid_calls (snd s0)"
  shows "valid_calls (snd s)"
proof (cases "EstimateMaxCostMicros (mr_Price (rx_route rx)) (of_nat (length body div 4 + 1))")
  case (Inl err)
  then show ?thesis using run v by (simp add: reserve_and_start_def)
next
  case (Inr reserve)
  let ?q = "reserve_request deps rx reserve"
  obtain r s1 where rsv: "record_call (dp_Reserve deps) Reserved ?q s0 = (r, s1)" by (rule prod.exhaust)
  then have v1: "valid_calls (snd s1)" using v by (auto simp: record_call_def split: prod.splits)
  have "decision_ok deps ((rx_decision rx)\<lparr>dec_Effect := EffectDeny, dec_ReasonCodes := [''budget_denied'']\<rparr>)"
    using rx fixed_codes(1) by (simp add: rx_ok_def decision_ok_def)
  note deny = deny_run_valid [OF _ ready _ _ this _ _ _ _ now v1]
  show ?thesis
    using run Inr rsv rx v1 start_run_valid [OF _ ready rx now estimate_nonneg [OF Inr] v1]
    by (auto simp: reserve_and_start_def reserve_request_def rx_ok_def split: sum.splits if_splits intro: deny)
qed

lemma read_all_length:
  assumes "read_all limit body = Some bytes"
  shows "0 \<le>s len64 bytes"
proof -
  have "length bytes < 2 ^ 63"
  proof (cases "limit \<le>s 0")
    case False
    then have "unat limit < 2 ^ 63" using unat_nat_sint [of limit] sint_le_max [of limit] by (simp add: int64_order nat_less_iff)
    then show ?thesis using assms False by (auto simp: read_all_def split: if_splits stream_end.splits)
  qed (use assms in \<open>auto simp: read_all_def\<close>)
  then show ?thesis using sint_of_nat [of "length bytes"] by (simp add: len64_def int64_order)
qed

lemma new_uuid_pattern: "new_uuid deps w = (u, w') \<Longrightarrow> uuidPattern u"
  using newUUID_pattern by (auto simp: new_uuid_def split: prod.splits)

lemma hmac_nonzero: "server_ready prim deps \<Longrightarrow> digester_Sum (pr_hmac prim) d content = Inr h \<Longrightarrow> h \<noteq> zero_digest"
  by (auto simp: digester_Sum_def server_ready_def split: if_splits option.splits)

lemma run_identity_traced:
  assumes "server_ready prim deps" and "new_uuid (traced deps) s0 = (runID, s1)" and "server_now (traced deps) s1 = (now, s2)"
  shows "uuidPattern runID" and "instant_ok now" and "snd s2 = snd s0"
proof -
  obtain w tr where s0: "s0 = (w, tr)" by (cases s0)
  from assms(2) [unfolded s0] obtain w1 where u: "new_uuid deps w = (runID, w1)" "s1 = (w1, tr)" by (auto simp: trace_simps)
  from assms(3) [unfolded u(2)] obtain w2 where n: "server_now deps w1 = (now, w2)" "s2 = (w2, tr)" by (auto simp: trace_simps)
  show "uuidPattern runID" "instant_ok now" "snd s2 = snd s0"
    using new_uuid_pattern [OF u(1)] server_now_ok [OF assms(1) n(1)] by (simp_all add: n(2) s0)
qed

lemma known_model_valid:
  assumes run: "known_model prim (traced deps) pr body chatReq route s0 = (out, s)" and ready: "server_ready prim deps"
    and pr: "principal_Validate pr" and len: "0 \<le>s len64 body" and name: "identifierPattern (mr_Name route)" and v: "valid_calls (snd s0)"
  shows "valid_calls (snd s)"
proof -
  obtain runID s1 where uuid: "new_uuid (traced deps) s0 = (runID, s1)" by (rule prod.exhaust)
  obtain now s2 where clock: "server_now (traced deps) s1 = (now, s2)" by (rule prod.exhaust)
  note id = run_identity_traced [OF ready uuid clock]
  have v2: "valid_calls (snd s2)" using v id(3) by simp
  have ok: "decision_ok deps (Evaluate (Some (dp_Policy deps)) q)" for q by (rule Evaluate_decision_ok)
  show ?thesis
  proof (cases "digester_Sum (pr_hmac prim) (Some (dp_Digester deps)) body")
    case hmac: (Inr h)
    note h = hmac_nonzero [OF ready hmac]
    show ?thesis
    proof (cases "dp_Detect deps (joinMessageText chatReq)")
      case found: (Inr c)
      have c: "class_ok c" using ready found by (auto simp: server_ready_def)
      show ?thesis
        using run hmac found uuid clock deny_run_valid [OF _ ready pr id(1) ok name h len c id(2) v2]
          reserve_and_start_valid [OF _ ready _ id(2) v2] pr id(1) name h len c ok
        by (auto simp: known_model_def Let_def rx_ok_def split: if_splits)
    qed (use run hmac v in \<open>simp add: known_model_def\<close>)
  qed (use run v in \<open>simp add: known_model_def\<close>)
qed

lemma unknown_model_valid:
  assumes run: "unknown_model prim (traced deps) pr body chatReq s0 = (out, s)" and ready: "server_ready prim deps"
    and pr: "principal_Validate pr" and len: "0 \<le>s len64 body" and v: "valid_calls (snd s0)"
  shows "valid_calls (snd s)"
proof -
  obtain runID s1 where uuid: "new_uuid (traced deps) s0 = (runID, s1)" by (rule prod.exhaust)
  obtain now s2 where clock: "server_now (traced deps) s1 = (now, s2)" by (rule prod.exhaust)
  note id = run_identity_traced [OF ready uuid clock]
  have v2: "valid_calls (snd s2)" using v id(3) by simp
  define decision where "decision = (let evaluated = Evaluate (Some (dp_Policy deps)) (policy_request pr ''chat.completions'' (cq_Model chatReq))
    in if dec_Effect evaluated = EffectAllow then evaluated\<lparr>dec_Effect := EffectDeny, dec_ReasonCodes := [''no_matching_allow'']\<rparr> else evaluated)"
  have ok: "decision_ok deps decision"
    using Evaluate_decision_ok [of deps "policy_request pr ''chat.completions'' (cq_Model chatReq)"] fixed_codes(2)
    by (simp add: decision_def Let_def decision_ok_def)
  show ?thesis
  proof (cases "digester_Sum (pr_hmac prim) (Some (dp_Digester deps)) body")
    case hmac: (Inr h)
    note h = hmac_nonzero [OF ready hmac]
    show ?thesis
    proof (cases "dp_Detect deps (joinMessageText chatReq)")
      case found: (Inr c)
      have c: "class_ok c" using ready found by (auto simp: server_ready_def)
      have "deny_run prim (traced deps) pr runID ''unknown_model'' decision h (len64 body) c now (writeError 403 ''policy_denied'') s2 = (out, s)"
        using run hmac found uuid clock by (simp add: unknown_model_def decision_def Let_def)
      then show ?thesis by (rule deny_run_valid [OF _ ready pr id(1) ok fixed_codes(3) h len c id(2) v2])
    qed (use run hmac uuid clock v2 in \<open>simp add: unknown_model_def Let_def\<close>)
  qed (use run uuid clock v2 in \<open>simp add: unknown_model_def Let_def\<close>)
qed

lemma chat_completions_valid:
  assumes run: "handleChatCompletions prim (traced deps) request (w, []) = (out, s)" and ready: "server_ready prim deps"
  shows "valid_calls (snd s)"
proof (cases "in_Method request = ''POST''")
  case True
  obtain r w1 where auth: "dp_Authenticate deps (in_Authorization request) w = (r, w1)" by (rule prod.exhaust)
  show ?thesis
  proof (cases r)
    case (Inl err)
    then show ?thesis using run True auth by (auto simp: handleChatCompletions_def record_call_def)
  next
    case (Inr pr)
    have pr: "principal_Validate pr" using ready auth Inr unfolding server_ready_def by (metis fst_conv)
    have names: "lookupModel deps n = Some route \<Longrightarrow> identifierPattern (mr_Name route)" for n route
      using ready by (auto simp: lookupModel_def server_ready_def config_ok_def list_all_iff find_Some_iff)
    let ?s1 = "(w1, [Authenticated (Inr pr)])"
    have v: "valid_calls (snd ?s1)" by simp
    show ?thesis
      using run True auth Inr v
      by (auto simp: handleChatCompletions_def record_call_def split: option.splits sum.splits if_splits
          dest: known_model_valid [OF _ ready pr read_all_length names] unknown_model_valid [OF _ ready pr read_all_length])
  qed
qed (use run in \<open>auto simp: handleChatCompletions_def\<close>)

subsection \<open>Properties\<close>

text \<open>
  C23. Every event of a request is valid. With a configuration whose names fit the audit patterns, nonzero digests, a sane clock
  and collaborators that keep to their contracts, every event the handler gives to the audit store passes \<open>Event.Validate\<close>, on
  every path: denials, starts, completions and failures, whatever fails in between.
\<close>

theorem handler_events_valid:
  assumes "server_ready prim deps" and "handleChatCompletions prim (traced deps) request (w, []) = (out, w', calls)"
    and "Appended e x \<in> set calls"
  shows "event_Validate e"
  using chat_completions_valid [OF assms(2,1)] assms(3) by (auto simp: valid_calls_def)

lemma sample_ready: "server_ready sample_prim sample_deps"
proof -
  have pats: "identifierPattern ''m1''" "identifierPattern ''local''" "identifierPattern ''k1''" "identifierPattern ''v1.0''"
    using sample_event_parts by simp_all
  have cfg: "config_ok sample_deps"
    using pats sample_digest_nonzero
    by (simp add: config_ok_def sample_deps_def sample_route_def digester_KeyID_def api_digestFromHex_def digestFromBytes_def)
  have clock: "clock_ok \<lparr>t_nanos = 63900000000000001000, t_loc = UTC\<rparr>"
    using sample_event_parts(12) by (simp add: clock_ok_def time_UTC_def)
  have pr: "principal_Validate sample_server_principal"
    by (simp add: principal_Validate_def sample_server_principal_def sample_principal_def uuidPattern_def char_class_defs pattern_defs
        AuthMethodAPIKey_def apiKeyPrefixPattern_def)
  have c: "class_ok sample_class"
    using sample_event_parts(10)
    by (simp add: class_ok_def sample_class_def validCountMap_def maxEventCodes_def api_digestFromHex_def digestFromBytes_def)
  have r: "result_ok sample_result"
    using sample_reply_length by (simp add: result_ok_def sample_result_def validateUsage_def int64_order)
  show ?thesis
    using cfg clock pr c r sample_digest_nonzero unfolding server_ready_def
    by (simp add: sample_prim_def) (simp add: sample_deps_def)
qed

theorem handler_events_valid_witness:
  "\<exists>request out calls e x. handleChatCompletions sample_prim (traced sample_deps) request ((), []) = (out, (), calls) \<and>
     Appended e x \<in> set calls \<and> event_Validate e"
proof -
  obtain request calls where run: "handleChatCompletions sample_prim (traced sample_deps) request ((), []) =
     (\<lparr>out_Status = 200, out_Body = sample_reply\<rparr>, (), calls)" using sample_run by blast
  obtain e x where c: "Appended e x \<in> set calls" using sample_calls [OF run] by blast
  show ?thesis using handler_events_valid [OF sample_ready run c] run c by blast
qed

text \<open>
  Identifiers. Whatever the random source delivers, even nothing, \<open>newUUID\<close> gives text of the form every identifier
  check of the system accepts, a version 4 identifier: the version digit is 4 and the variant digit one of 8, 9, a and b.
\<close>

theorem newUUID_version4:
  "uuidPattern (newUUID random) \<and> newUUID random ! 14 = CHR ''4'' \<and> newUUID random ! 19 \<in> {CHR ''8'', CHR ''9'', CHR ''a'', CHR ''b''}"
proof -
  define b where "b = take 16 (random @ replicate 16 (CHR 0x00))"
  have "length b = 16" by (simp add: b_def)
  then have "b = map ((!) b) [0..<16]" using map_nth [of b] by simp
  then obtain f where f: "b = map f [0..<16]" by blast
  have ix: "[0..<16] = [0, 1, 2, 3, 4, 5, 6, 7, 8, 9, 10, 11, 12, 13, 14, 15 :: nat]" by code_simp
  have "newUUID random ! 14 = hex_digit (of_char (uuid_byte 16 64 (f 6)) div 16)"
    "newUUID random ! 19 = hex_digit (of_char (uuid_byte 64 128 (f 8)) div 16)"
    unfolding newUUID_def b_def [symmetric] f ix by (simp_all add: Let_def)
  moreover have "of_char (uuid_byte 16 64 (f 6)) div 16 = (4 :: nat)" by (simp add: uuid_byte_def)
  moreover have "of_char (uuid_byte 64 128 (f 8)) div 16 \<in> {8, 9, 10, 11 :: nat}"
  proof -
    have "of_char (uuid_byte 64 128 (f 8)) = of_char (f 8) mod 64 + (128 :: nat)" by (simp add: uuid_byte_def)
    moreover have "of_char (f 8) mod 64 < (64 :: nat)" by simp
    ultimately have "8 \<le> of_char (uuid_byte 64 128 (f 8)) div (16 :: nat)" "of_char (uuid_byte 64 128 (f 8)) div (16 :: nat) < 12" by simp_all
    then show ?thesis by auto
  qed
  moreover have "hex_digit 4 = CHR ''4''" "hex_digit 8 = CHR ''8''" "hex_digit 9 = CHR ''9''" "hex_digit 10 = CHR ''a''" "hex_digit 11 = CHR ''b''"
    by code_simp+
  ultimately show ?thesis using newUUID_pattern by auto
qed

end
