(* ===== verification/ServerSimulation.thy ===== *)
theory ServerSimulation
  imports ServerEvents
begin

section \<open>Exchanging collaborators\<close>

text \<open>
  The handler sees its collaborators only through their answers. When two sets of collaborators give the same answers on
  related states and keep the states related, the handler gives the same response with both, and the final states are
  related. Recording the calls is one instance, a state invariant is another.
\<close>

text \<open>Related functions: \<open>same_arg\<close> takes equal arguments, \<open>result_sim\<close> related states to equal results and related states.\<close>

abbreviation same_arg :: "('b \<Rightarrow> 'c \<Rightarrow> bool) \<Rightarrow> ('a \<Rightarrow> 'b) \<Rightarrow> ('a \<Rightarrow> 'c) \<Rightarrow> bool" where
  "same_arg S \<equiv> rel_fun (=) S"

abbreviation result_sim :: "('s \<Rightarrow> 't \<Rightarrow> bool) \<Rightarrow> ('s \<Rightarrow> 'a \<times> 's) \<Rightarrow> ('t \<Rightarrow> 'a \<times> 't) \<Rightarrow> bool" where
  "result_sim R \<equiv> rel_fun R (rel_prod (=) R)"

locale server_simulation =
  fixes deps :: "'v Dependencies" and deps' :: "'w Dependencies" and R :: "'v \<Rightarrow> 'w \<Rightarrow> bool"
  assumes same_config: "dp_Policy deps' = dp_Policy deps" "dp_Detect deps' = dp_Detect deps" "dp_Digester deps' = dp_Digester deps"
      "dp_Models deps' = dp_Models deps" "dp_MaxRequestBytes deps' = dp_MaxRequestBytes deps"
      "dp_MaxResponseBytes deps' = dp_MaxResponseBytes deps" "dp_ResolvedBackend deps' = dp_ResolvedBackend deps"
      "dp_ConfigHash deps' = dp_ConfigHash deps" "dp_BudgetTTL deps' = dp_BudgetTTL deps" "dp_Version deps' = dp_Version deps"
    and sim_auth: "same_arg (result_sim R) (dp_Authenticate deps) (dp_Authenticate deps')"
    and sim_reserve: "same_arg (result_sim R) (dp_Reserve deps) (dp_Reserve deps')"
    and sim_settle: "same_arg (result_sim R) (dp_Settle deps) (dp_Settle deps')"
    and sim_append: "same_arg (result_sim R) (dp_Append deps) (dp_Append deps')"
    and sim_chat: "same_arg (result_sim R) (dp_ChatCompletions deps) (dp_ChatCompletions deps')"
    and sim_now: "result_sim R (dp_Now deps) (dp_Now deps')"
    and sim_random: "result_sim R (dp_Random deps) (dp_Random deps')"
begin

lemmas [transfer_rule] = sim_auth sim_reserve sim_settle sim_append sim_chat sim_now sim_random

lemma sim_uuid [transfer_rule]: "result_sim R (new_uuid deps) (new_uuid deps')"
  unfolding new_uuid_def by transfer_prover

lemma sim_clock [transfer_rule]: "result_sim R (server_now deps) (server_now deps')"
  unfolding server_now_def by transfer_prover

lemma sim_settling [transfer_rule]: "same_arg (same_arg (result_sim R)) (settle deps) (settle deps')"
  unfolding settle_def by transfer_prover

lemma sim_build [transfer_rule]:
  "same_arg (same_arg (same_arg (same_arg (same_arg (same_arg (same_arg (same_arg (same_arg (same_arg (same_arg (same_arg (same_arg (same_arg (same_arg (same_arg (result_sim R)))))))))))))))) (buildEvent prim deps) (buildEvent prim deps')"
  supply option.ctr_transfer [transfer_rule del]
  unfolding buildEvent_def same_config Let_def by transfer_prover

lemma sim_failed [transfer_rule]: "same_arg (same_arg (same_arg (same_arg (same_arg (rel_fun R R))))) (run_failed prim deps) (run_failed prim deps')"
  unfolding run_failed_def appendFailed_def by transfer_prover

lemma sim_complete [transfer_rule]: "same_arg (same_arg (same_arg (same_arg (same_arg (result_sim R))))) (complete_run prim deps) (complete_run prim deps')"
  unfolding complete_run_def same_config Let_def by transfer_prover

lemma sim_call [transfer_rule]: "same_arg (same_arg (same_arg (same_arg (result_sim R)))) (call_backend prim deps) (call_backend prim deps')"
  unfolding call_backend_def same_config by transfer_prover

lemma sim_start [transfer_rule]: "same_arg (same_arg (same_arg (same_arg (same_arg (result_sim R))))) (start_run prim deps) (start_run prim deps')"
  unfolding start_run_def by transfer_prover

lemma sim_append_denied [transfer_rule]: "same_arg (same_arg (same_arg (same_arg (same_arg (same_arg (same_arg (same_arg (result_sim R)))))))) (appendDenied prim deps) (appendDenied prim deps')"
  unfolding appendDenied_def by transfer_prover

lemma deny_run_if:
  "deny_run prim d pr runID model decision h rb cl now refusal w =
     (case appendDenied prim d pr runID model decision h rb cl now w of (ok, w1) \<Rightarrow>
        (if ok then refusal else writeError 503 ''unavailable'', w1))"
  by (simp add: deny_run_def split: prod.splits bool.splits)

lemma sim_deny [transfer_rule]: "same_arg (same_arg (same_arg (same_arg (same_arg (same_arg (same_arg (same_arg (same_arg (result_sim R))))))))) (deny_run prim deps) (deny_run prim deps')"
  unfolding deny_run_if by transfer_prover

lemma sim_run [transfer_rule]: "same_arg (same_arg (same_arg (same_arg (result_sim R)))) (reserve_and_start prim deps) (reserve_and_start prim deps')"
  unfolding reserve_and_start_def same_config by transfer_prover

lemma sim_known [transfer_rule]: "same_arg (same_arg (same_arg (same_arg (result_sim R)))) (known_model prim deps) (known_model prim deps')"
  unfolding known_model_def same_config Let_def by transfer_prover

lemma sim_unknown [transfer_rule]: "same_arg (same_arg (same_arg (result_sim R))) (unknown_model prim deps) (unknown_model prim deps')"
  unfolding unknown_model_def same_config Let_def by transfer_prover

lemma sim_chat_completions: "same_arg (result_sim R) (handleChatCompletions prim deps) (handleChatCompletions prim deps')"
  unfolding handleChatCompletions_def same_config lookupModel_def by transfer_prover

lemma same_response:
  assumes "R v w" and "handleChatCompletions prim deps request v = (out, v')"
  shows "\<exists>w'. handleChatCompletions prim deps' request w = (out, w') \<and> R v' w'"
  using rel_funD [OF rel_funD [OF sim_chat_completions refl] assms(1), of prim request] assms(2)
  by (cases "handleChatCompletions prim deps' request w") auto

end

text \<open>Recording the calls changes nothing else.\<close>

lemma sim_record_call: "same_arg (result_sim (\<lambda>w s. fst s = w)) f (record_call f mk)"
  by (auto simp: rel_fun_def record_call_def rel_prod_sel split: prod.splits)

lemma sim_quiet: "result_sim (\<lambda>w s. fst s = w) f (quiet f)"
  by (auto simp: rel_fun_def quiet_def rel_prod_sel split: prod.splits)

interpretation recording: server_simulation deps "traced deps" "\<lambda>w s. fst s = w" for deps
  by unfold_locales (simp_all add: sim_record_call sim_quiet)

lemma recorded_run:
  assumes "handleChatCompletions prim deps request w = (out, w')"
  obtains calls where "handleChatCompletions prim (traced deps) request (w, []) = (out, w', calls)"
  using recording.same_response [of "(w, [])" w prim deps request out w'] assms by auto

end
