(* ===== verification/AuditLiveness.thy ===== *)
theory AuditLiveness
  imports AuditRepository
begin

section \<open>Valid events are accepted\<close>

text \<open>
  The checks of the database against those of \<open>Event.Validate\<close>. They differ in one point: \<open>Validate\<close> reads a nil code set
  or count map as empty, while the driver sends it as NULL, which the function refuses. A valid event without such a
  field, whose identifiers are registered, whose principal is known and whose event identifier is new, passes every check of
  \<open>append_audit_event\<close> and its triggers, so that an append fails only for reasons outside the event.
\<close>

text \<open>No code set and no count map of the event is nil.\<close>

definition nothing_nil :: "Event \<Rightarrow> bool" where
  "nothing_nil e \<longleftrightarrow> DecisionReasonCodes e \<noteq> None \<and> PIICategories e \<noteq> None \<and> PIIMatchCounts e \<noteq> None \<and>
     HealthIndicatorCategories e \<noteq> None \<and> SecretCategories e \<noteq> None"

lemma nothing_nil_link [simp]: "nothing_nil (e\<lparr>PreviousEventHash := h\<rparr>) = nothing_nil e"
  by (simp add: nothing_nil_def)

lemma valid_event_state: "event_Validate e \<Longrightarrow> event_state_ok (appendArguments e h)"
proof -
  assume "event_Validate e"
  then have "validEventState (EventType e) (Decision e) (event_Status e)" by (simp add: event_Validate_def)
  then show ?thesis
    by (auto simp: event_state_ok_def appendArguments_def validEventState_def audit_enum_defs split: if_splits)
qed

lemma valid_code_column: "audit_code_set_is_valid v = Some True \<longleftrightarrow> v \<noteq> None \<and> validCodeSet (slice_list v)"
  by (cases v) (auto simp: validCodeSet_iff audit_code_set_is_valid_def)

lemma valid_count_column: "audit_count_map_is_valid v = Some True \<longleftrightarrow> v \<noteq> None \<and> validCountMap (map_entries v)"
  by (cases v) (auto simp: validCountMap_def audit_count_map_is_valid_def maxEventCodes_def int64_le int64_less not_less simp del: list_all_sorted_list)

lemma valid_metadata: "event_Validate e \<Longrightarrow> metadata_ok (appendArguments e h) \<longleftrightarrow> nothing_nil e"
  unfolding event_Validate_def
  by (auto simp add: metadata_ok_def appendArguments_def valid_code_column valid_count_column validOptionalCode_def nothing_nil_def
      split: option.splits)

lemma valid_hash_column: "hash_column (digest_bytes d) \<longleftrightarrow> d \<noteq> zero_digest"
  unfolding hash_column_def by (metis digest_bytes_inject length_digest_bytes zero_digest_bytes)

lemma identifier_not_blank: "identifierPattern s \<Longrightarrow> not_blank s"
  by (cases s) (auto simp: identifierPattern_def not_blank_def char_class_defs)

lemma valid_auth_columns:
  assumes "validAuthEvidence m i"
  shows "case optionalDigestBytes i of None \<Rightarrow> m \<in> {''api_key'', ''workload''} | Some h \<Rightarrow> m = ''oidc'' \<and> hash_column h"
  using assms by (cases i) (auto simp: validAuthEvidence_def validAuthMethod_def audit_enum_defs optionalDigestBytes_def isZeroDigest_def
      valid_hash_column split: if_splits)

lemma valid_optional_columns:
  "validOptionalNonNegative v \<longleftrightarrow> counter_column v"
  "validOptionalDigest d \<Longrightarrow> (case optionalDigestBytes d of None \<Rightarrow> True | Some h \<Rightarrow> hash_column h)"
  by (simp_all add: validOptionalNonNegative_def counter_column_def validOptionalDigest_def optionalDigestBytes_def isZeroDigest_def
      valid_hash_column split: option.splits)

lemma valid_row:
  assumes v: "event_Validate e" and n: "nothing_nil e" and h: "h \<noteq> zero_digest"
  shows "audit_events_check ((appendArguments e h)\<lparr>col_sequence := n\<rparr>)"
proof -
  have parts: "SchemaVersion e = 1" "validAuthEvidence (AuthMethod e) (OIDCIssuerHash e)" "validOptionalDigest (ResponseHMAC e)"
    "\<not> RequestBytes e <s 0" "identifierPattern (RequestedModel e)" "identifierPattern (ResolvedBackend e)"
    "identifierPattern (SoftwareVersion e)" "identifierPattern (ContentHMACKeyID e)"
    "PolicyVersionHash e \<noteq> zero_digest" "RequestHMAC e \<noteq> zero_digest" "DetectorBundleHash e \<noteq> zero_digest" "ConfigHash e \<noteq> zero_digest"
    "counter_column (ResponseBytes e)" "counter_column (InputTokens e)" "counter_column (OutputTokens e)"
    "counter_column (ReservedCostMicros e)" "counter_column (event_ActualCostMicros e)"
    using v unfolding event_Validate_def isZeroDigest_def valid_optional_columns(1) by auto
  have st: "event_state_ok ((appendArguments e h)\<lparr>col_sequence := n\<rparr>)" "metadata_ok ((appendArguments e h)\<lparr>col_sequence := n\<rparr>)"
    using valid_event_state [OF v, of h] valid_metadata [OF v, of h] n by (simp_all add: event_state_ok_def metadata_ok_def)
  have auth: "col_auth_method ((appendArguments e h)\<lparr>col_sequence := n\<rparr>) = AuthMethod e"
    "col_oidc_issuer_hash ((appendArguments e h)\<lparr>col_sequence := n\<rparr>) = optionalDigestBytes (OIDCIssuerHash e)"
    by (simp_all add: appendArguments_def)
  show ?thesis
    unfolding audit_events_check_def
  proof (intro conjI)
    show "case col_oidc_issuer_hash ((appendArguments e h)\<lparr>col_sequence := n\<rparr>) of
        None \<Rightarrow> col_auth_method ((appendArguments e h)\<lparr>col_sequence := n\<rparr>) \<in> {''api_key'', ''workload''}
      | Some x \<Rightarrow> col_auth_method ((appendArguments e h)\<lparr>col_sequence := n\<rparr>) = ''oidc'' \<and> hash_column x"
      using valid_auth_columns [OF parts(2)] unfolding auth .
    show "case col_response_hmac ((appendArguments e h)\<lparr>col_sequence := n\<rparr>) of None \<Rightarrow> True | Some x \<Rightarrow> hash_column x"
      using valid_optional_columns(2) [OF parts(3)] by (simp add: appendArguments_def)
  qed (use st parts h in \<open>simp_all add: appendArguments_def valid_hash_column identifier_not_blank int64_le int64_less\<close>)
qed

definition registered :: "audit_store \<Rightarrow> Event \<Rightarrow> bool" where
  "registered st e \<longleftrightarrow> identifiers_ok st (appendArguments e zero_digest) \<and> PrincipalID e \<in> known_principals st"

lemma sequence_new:
  assumes "holds_chain sha256 st rs" and "length rs < 2 ^ 63 - 1"
  shows "\<not> list_ex (\<lambda>x. col_sequence x = head_sequence st + 1) (audit_events st)"
proof
  have rows: "audit_events st = map row_of rs" and v: "VerifyChain sha256 rs = None" and hd: "head_sequence st = of_nat (length rs)"
    using assms(1) by (simp_all add: holds_chain_def)
  assume "list_ex (\<lambda>x. col_sequence x = head_sequence st + 1) (audit_events st)"
  then obtain r where "r \<in> set rs" "rec_Sequence r = 1 + of_nat (length rs)"
    by (auto simp: rows hd list_ex_iff row_of_def)
  then have "1 + of_nat (length rs) \<in> set (map rec_Sequence rs)" by force
  then obtain i where i: "i < length rs" "1 + of_nat (length rs) = (1 + of_nat i :: int64)" unfolding chain_sequences [OF v] by auto
  then have "sint (of_nat (length rs) :: int64) = sint (of_nat i :: int64)" by simp
  then show False using i(1) assms(2) sint_of_nat [of i] sint_of_nat [of "length rs"] by simp
qed

lemma Append_accepts:
  assumes inv: "holds_chain sha256 st rs" and len: "length rs < 2 ^ 63 - 1" and v: "event_Validate e" and p: "PreviousEventHash e = zero_digest"
    and n: "nothing_nil e" and reg: "registered st e" and new: "EventID e \<notin> col_event_id ` set (audit_events st)"
    and h: "EventHash sha256 (e\<lparr>PreviousEventHash := head_hash rs\<rparr>) = Inr h" "h \<noteq> zero_digest"
  shows "\<exists>st'. Append sha256 True No_fault e st = (Inr (NewAppendReceipt (1 + of_nat (length rs)) h (EventType e)), st') \<and>
    audit_identifiers st' = audit_identifiers st \<and> known_principals st' = known_principals st"
proof -
  define linked where "linked = e\<lparr>PreviousEventHash := head_hash rs\<rparr>"
  have lv: "event_Validate linked" "nothing_nil linked" using v n by (simp_all add: linked_def)
  have hd: "head_sequence st = of_nat (length rs)" "head_event_hash st = digest_bytes (head_hash rs)" using inv by (simp_all add: holds_chain_def)
  have "sint (of_nat (length rs) :: int64) = int (length rs)" using len by (intro sint_of_nat) simp
  then have max: "head_sequence st \<noteq> 9223372036854775807" unfolding hd(1) using len by (auto dest: arg_cong [of _ _ sint])
  define r where "r = appendArguments linked h"
  have cols: "col_previous_event_hash r = head_event_hash st" "col_event_id r = EventID e" "col_principal_id r = PrincipalID e"
    by (simp_all add: r_def appendArguments_def linked_def hd)
  have ids: "identifiers_ok st r" using reg by (simp add: registered_def identifiers_ok_def r_def appendArguments_def linked_def)
  have fresh: "\<not> list_ex (\<lambda>x. col_event_id x = EventID e \<or> col_sequence x = head_sequence st + 1) (audit_events st)"
    using new sequence_new [OF inv len] by (force simp: list_ex_iff)
  have "append_audit_event r st = Inr (head_sequence st + 1, advance_audit_chain_head (r\<lparr>col_sequence := head_sequence st + 1\<rparr>)
      (st\<lparr>audit_events := audit_events st @ [r\<lparr>col_sequence := head_sequence st + 1\<rparr>]\<rparr>))"
    using valid_event_state [OF lv(1), of h] valid_metadata [OF lv(1), of h] valid_row [OF lv h(2), of "head_sequence st + 1"] lv(2) ids fresh max cols reg
    by (simp add: append_audit_event_def insert_audit_event_def serialize_audit_chain_append_def registered_def flip: r_def)
  then show ?thesis
    using v p h(1) hd by (simp add: Append_def lock_audit_chain_head_def Let_def flip: linked_def r_def)
      (simp add: advance_audit_chain_head_def add.commute)
qed

lemma Append_refused:
  assumes "\<And>p h. \<exists>err. append_audit_event (appendArguments (e\<lparr>PreviousEventHash := p\<rparr>) h) st = Inl err"
  shows "Append sha256 pool fault e st = (Inl ErrAppend, st)"
proof -
  have "append_audit_event (appendArguments (e\<lparr>PreviousEventHash := p\<rparr>) h) st \<noteq> Inr x" for p h x
    using assms [of p h] by auto
  then show ?thesis by (simp add: Append_def lock_audit_chain_head_def Let_def split: option.split sum.split)
qed

lemma Append_unregistered:
  assumes "\<not> registered st e"
  shows "Append sha256 pool fault e st = (Inl ErrAppend, st)"
proof (rule Append_refused)
  show "\<exists>err. append_audit_event (appendArguments (e\<lparr>PreviousEventHash := p\<rparr>) h) st = Inl err" for p h
    using assms
    by (cases "insert_audit_event (appendArguments (e\<lparr>PreviousEventHash := p\<rparr>) h) st")
      (auto simp: append_audit_event_def registered_def identifiers_ok_def insert_audit_event_def serialize_audit_chain_append_def
        appendArguments_def split: if_splits)
qed

lemma Append_nil:
  assumes "event_Validate e" and "\<not> nothing_nil e"
  shows "Append sha256 pool fault e st = (Inl ErrAppend, st)"
proof (rule Append_refused)
  show "\<exists>err. append_audit_event (appendArguments (e\<lparr>PreviousEventHash := p\<rparr>) h) st = Inl err" for p h
    using valid_metadata [of "e\<lparr>PreviousEventHash := p\<rparr>" h] assms by (simp add: append_audit_event_def)
qed

subsection \<open>Properties\<close>


lemma sample_event_registered: "registered sample_registered (sample_event [''a''] UTC)"
  by (simp add: registered_def identifiers_ok_def sample_registered_eq appendArguments_def sample_event_def)


end
