(* ===== verification/AuditSchedule.thy ===== *)
theory AuditSchedule
  imports AuditLiveness
begin

section \<open>An audit log that others write to as well\<close>

text \<open>
  The contract \<open>audit_log\<close> for a log that is not the client's own: between two appends of the client other clients append, and
  administrators register identifiers and principals. \<open>shared_audit_log\<close> tells the two sources of entries apart, the repository
  under a schedule provides it: every append has a turn that says what others did to the store before it and what becomes of
  its transaction.
\<close>

subsection \<open>Interleavings\<close>

lemma append_left_shuffle: "ys \<in> shuffles c d \<Longrightarrow> b @ ys \<in> shuffles c (b @ d)"
  by (induction b) (auto intro: Cons_in_shuffles_rightI)

lemma append_right_shuffle: "ys \<in> shuffles c d \<Longrightarrow> a @ ys \<in> shuffles (a @ c) d"
  by (induction a) (auto intro: Cons_in_shuffles_leftI)

lemma shuffle_append: "xs \<in> shuffles a b \<Longrightarrow> ys \<in> shuffles c d \<Longrightarrow> xs @ ys \<in> shuffles (a @ c) (b @ d)"
proof (induction a b arbitrary: xs rule: shuffles.induct)
  case (1 b)
  then show ?case by (simp add: append_left_shuffle)
next
  case (2 a)
  then show ?case using append_right_shuffle [of ys c d xs] by simp
next
  case (3 x a y b)
  then show ?case by (auto simp: Cons_in_shuffles_iff)
qed

subsection \<open>The contract\<close>

text \<open>\<open>foreign\<close> is what others have added so far.\<close>

locale shared_audit_log =
  fixes sound :: "'s \<Rightarrow> bool" and log :: "'s \<Rightarrow> Event list" and foreign :: "'s \<Rightarrow> Event list"
    and append :: "Event \<Rightarrow> 's \<Rightarrow> (repository_error + AppendReceipt) \<times> 's"
  assumes append_sound: "sound s \<Longrightarrow> sound (snd (append e s))"
    and append_stored: "sound s \<Longrightarrow> append e s = (Inr rc, s') \<Longrightarrow> \<exists>os. foreign s' = foreign s @ os \<and> log s' = log s @ os @ [entry e]"
    and append_failed: "sound s \<Longrightarrow> append e s = (Inl err, s') \<Longrightarrow>
      \<exists>os. foreign s' = foreign s @ os \<and> (log s' = log s @ os \<or> log s' = log s @ os @ [entry e])"
    and append_receipt: "sound s \<Longrightarrow> append e s = (Inr rc, s') \<Longrightarrow> AuthorizesBackendCall rc \<longleftrightarrow> EventType e = EventRunStarted"
    and append_valid: "sound s \<Longrightarrow> append e s = (Inr rc, s') \<Longrightarrow> event_Validate e"

text \<open>A log of one's own is a shared log to which nobody else writes.\<close>

sublocale audit_log \<subseteq> own: shared_audit_log sound log "\<lambda>_. []" append
  by unfold_locales (simp_all add: append_sound append_stored append_failed append_receipt append_valid)

subsection \<open>The work of others\<close>

record audit_turn =
  at_others :: "audit_op list"
  at_fault :: tx_fault

text \<open>The store, the turns to come and the entries others have added.\<close>

type_synonym scheduled_audit = "audit_store \<times> (nat \<Rightarrow> audit_turn) \<times> Event list"

definition others_work :: "(bytes \<Rightarrow> digest) \<Rightarrow> audit_op list \<Rightarrow> audit_store \<Rightarrow> audit_store" where
  "others_work sha256 ops st = fold (audit_apply sha256) ops st"

definition entries_since :: "audit_store \<Rightarrow> audit_store \<Rightarrow> Event list" where
  "entries_since st st' = drop (length (stored_entries st)) (stored_entries st')"

definition scheduled_append ::
  "(bytes \<Rightarrow> digest) \<Rightarrow> bool \<Rightarrow> Event \<Rightarrow> scheduled_audit \<Rightarrow> (repository_error + AppendReceipt) \<times> scheduled_audit" where
  "scheduled_append sha256 pool e s =
     (case s of (st, turns, added) \<Rightarrow>
        let st1 = others_work sha256 (at_others (turns 0)) st in
        case Append sha256 pool (at_fault (turns 0)) e st1 of
          (r, st2) \<Rightarrow> (r, st2, turns \<circ> Suc, added @ entries_since st st1))"

lemma audit_apply_ok: "audit_ok sha256 st \<Longrightarrow> audit_ok sha256 (audit_apply sha256 op st)"
  by (cases op) (simp_all add: Append_ok, simp_all add: admin_register_audit_identifier_def audit_ok_def holds_chain_def)

lemma others_work_ok: "audit_ok sha256 st \<Longrightarrow> audit_ok sha256 (others_work sha256 ops st)"
  unfolding others_work_def by (induction ops arbitrary: st) (simp_all add: audit_apply_ok)

lemma others_work_adds: "audit_ok sha256 st \<Longrightarrow> \<exists>new. audit_events (others_work sha256 ops st) = audit_events st @ new"
proof (induction ops arbitrary: st)
  case (Cons op ops)
  obtain new where "audit_events (audit_apply sha256 op st) = audit_events st @ new" using audit_apply_prefix [OF Cons.prems] by blast
  moreover obtain new' where "audit_events (others_work sha256 ops (audit_apply sha256 op st)) = audit_events (audit_apply sha256 op st) @ new'"
    using Cons.IH [OF audit_apply_ok [OF Cons.prems]] by blast
  ultimately show ?case by (simp add: others_work_def)
qed (simp add: others_work_def)

lemma others_work_entries:
  assumes "audit_ok sha256 st"
  shows "stored_entries (others_work sha256 ops st) = stored_entries st @ entries_since st (others_work sha256 ops st)"
  using others_work_adds [OF assms, of ops] by (auto simp: stored_entries_def entries_since_def)

text \<open>Only an administrator extends the register of identifiers.\<close>

lemma Append_registers [simp]:
  assumes "Append sha256 pool fault e st = (r, st')"
  shows "audit_identifiers st' = audit_identifiers st" and "known_principals st' = known_principals st"
proof -
  have "audit_identifiers s' = audit_identifiers st \<and> known_principals s' = known_principals st"
    if "append_audit_event row st = Inr (n, s')" for row n s'
    using that by (auto simp: append_audit_event_def insert_audit_event_def serialize_audit_chain_append_def advance_audit_chain_head_def
        split: if_splits)
  then show "audit_identifiers st' = audit_identifiers st" "known_principals st' = known_principals st"
    using assms by (auto simp: Append_def lock_audit_chain_head_def Let_def split: if_splits option.splits sum.splits)
qed

lemma others_work_registers:
  assumes "Op_Register t x \<notin> set ops" and "(t, x) \<notin> audit_identifiers st"
  shows "(t, x) \<notin> audit_identifiers (others_work sha256 ops st)"
  using assms unfolding others_work_def
proof (induction ops arbitrary: st)
  case (Cons op ops)
  have "(t, x) \<notin> audit_identifiers (audit_apply sha256 op st)"
    using Cons.prems Append_registers(1) [OF prod.collapse [symmetric]]
    by (cases op) (auto simp: admin_register_audit_identifier_def)
  then show ?case using Cons by simp
qed simp

subsection \<open>The repository under a schedule provides the contract\<close>

interpretation scheduled: shared_audit_log "\<lambda>s. audit_ok sha256 (fst s)" "\<lambda>s. stored_entries (fst s)" "\<lambda>s. snd (snd s)"
    "scheduled_append sha256 pool" for sha256 pool
proof
  fix s s' :: scheduled_audit and e rc err
  assume ok: "audit_ok sha256 (fst s)"
  obtain st turns added where s: "s = (st, turns, added)" by (cases s)
  define st1 where "st1 = others_work sha256 (at_others (turns 0)) st"
  have ok1: "audit_ok sha256 st1" using others_work_ok ok by (simp add: st1_def s)
  have app: "scheduled_append sha256 pool e s =
      (fst (Append sha256 pool (at_fault (turns 0)) e st1), snd (Append sha256 pool (at_fault (turns 0)) e st1), turns \<circ> Suc, added @ entries_since st st1)"
    by (simp add: scheduled_append_def s st1_def Let_def case_prod_beta)
  have before: "stored_entries st1 = stored_entries (fst s) @ entries_since st st1"
    using others_work_entries ok by (simp add: st1_def s)
  show "audit_ok sha256 (fst (snd (scheduled_append sha256 pool e s)))" using Append_ok [OF ok1] by (simp add: app)
  have split: "Append sha256 pool (at_fault (turns 0)) e st1 = (r, fst s')" "snd (snd s') = snd (snd s) @ entries_since st st1"
    if "scheduled_append sha256 pool e s = (r, s')" for r
    using that unfolding app by (auto simp: s)
  show "\<exists>os. snd (snd s') = snd (snd s) @ os \<and> stored_entries (fst s') = stored_entries (fst s) @ os @ [entry e]"
    if "scheduled_append sha256 pool e s = (Inr rc, s')"
    using split [OF that] postgres_audit.append_stored [OF ok1] before by (intro exI [of _ "entries_since st st1"]) simp
  show "\<exists>os. snd (snd s') = snd (snd s) @ os \<and>
      (stored_entries (fst s') = stored_entries (fst s) @ os \<or> stored_entries (fst s') = stored_entries (fst s) @ os @ [entry e])"
    if "scheduled_append sha256 pool e s = (Inl err, s')"
    using split [OF that] postgres_audit.append_failed [OF ok1] before by (intro exI [of _ "entries_since st st1"]) fastforce
  show "AuthorizesBackendCall rc \<longleftrightarrow> EventType e = EventRunStarted" "event_Validate e"
    if "scheduled_append sha256 pool e s = (Inr rc, s')"
    using postgres_audit.append_receipt [OF ok1 split(1) [OF that]] postgres_audit.append_valid [OF ok1 split(1) [OF that]] .
qed

text \<open>An append that meets no fault, in a form that can be repeated.\<close>

definition event_ids :: "audit_store \<Rightarrow> string list" where
  "event_ids st = map col_event_id (audit_events st)"

lemma Append_repeatable:
  assumes ok: "audit_ok sha256 st" and len: "length (event_ids st) < 2 ^ 63 - 1" and e: "event_Validate e" "PreviousEventHash e = zero_digest" "nothing_nil e"
    and reg: "registered st e" and new: "EventID e \<notin> set (event_ids st)" and sha: "\<And>b. sha256 b \<noteq> zero_digest"
  obtains rc st' where "Append sha256 True No_fault e st = (Inr rc, st')" "AuthorizesBackendCall rc \<longleftrightarrow> EventType e = EventRunStarted"
    "audit_ok sha256 st'" "event_ids st' = event_ids st @ [EventID e]"
proof -
  obtain rs where inv: "holds_chain sha256 st rs" using ok by (auto simp: audit_ok_def)
  have n: "length rs < 2 ^ 63 - 1" using len inv by (simp add: holds_chain_def event_ids_def)
  obtain h where h: "EventHash sha256 (e\<lparr>PreviousEventHash := head_hash rs\<rparr>) = Inr h" "h \<noteq> zero_digest"
    using e(1) sha by (auto simp: EventHash_Inr_iff)
  have new': "EventID e \<notin> col_event_id ` set (audit_events st)" using new by (simp add: event_ids_def)
  from Append_accepts [OF inv n e reg new' h] obtain st' where
    run: "Append sha256 True No_fault e st = (Inr (NewAppendReceipt (1 + of_nat (length rs)) h (EventType e)), st')" by blast
  have "event_ids st' = event_ids st @ [EventID e]"
    using inv run by (cases rule: Append_cases) (simp_all add: event_ids_def row_of_def appendArguments_def)
  then show thesis
    using that [OF run postgres_audit.append_receipt [OF ok run]] Append_ok [OF ok, of True No_fault e] run by simp
qed

end
