(* ===== verification/Gateway.thy ===== *)
theory Gateway
  imports ServerSimulation AuditSchedule
begin

section \<open>The server on its audit log\<close>

text \<open>
  The HTTP handler composed with an audit log that keeps the contract \<open>shared_audit_log\<close>. \<open>logged\<close> says which entries a list of
  calls leaves in the log: a confirmed append one entry, a failed one at most one. The locale \<open>audited_server\<close> is a server
  whose \<open>Append\<close> is that log and whose other collaborators leave the log alone; it is interpreted on the Postgres
  repository with an arbitrary schedule of other clients' work and of transaction failures.
\<close>

fun logged :: "call list \<Rightarrow> Event list \<Rightarrow> bool" where
  "logged [] es \<longleftrightarrow> es = []"
| "logged (Appended e (Inr rc) # cs) es \<longleftrightarrow> (\<exists>es'. es = entry e # es' \<and> logged cs es')"
| "logged (Appended e (Inl err) # cs) es \<longleftrightarrow> logged cs es \<or> (\<exists>es'. es = entry e # es' \<and> logged cs es')"
| "logged (Authenticated r # cs) es \<longleftrightarrow> logged cs es"
| "logged (Reserved q r # cs) es \<longleftrightarrow> logged cs es"
| "logged (Settled q r # cs) es \<longleftrightarrow> logged cs es"
| "logged (Called q r # cs) es \<longleftrightarrow> logged cs es"

lemma logged_snoc: "logged xs es \<Longrightarrow> logged [c] new \<Longrightarrow> logged (xs @ [c]) (es @ new)"
  by (induction xs es rule: logged.induct) auto

lemma entry_fields:
  "EventType (entry e) = EventType e" "RunID (entry e) = RunID e" "ResponseHMAC (entry e) = ResponseHMAC e"
  by (simp_all add: entry_def canonical_form_def)

locale audited_server = shared_audit_log sound log foreign append
  for sound :: "'s \<Rightarrow> bool" and log foreign append +
  fixes deps :: "'w Dependencies" and aud :: "'w \<Rightarrow> 's"
  assumes appends: "dp_Append deps e w = (r, w') \<Longrightarrow> append e (aud w) = (r, aud w')"
    and auth_apart: "dp_Authenticate deps h w = (a, w') \<Longrightarrow> aud w' = aud w"
    and reserve_apart: "dp_Reserve deps q w = (b, w') \<Longrightarrow> aud w' = aud w"
    and settle_apart: "dp_Settle deps t w = (c, w') \<Longrightarrow> aud w' = aud w"
    and chat_apart: "dp_ChatCompletions deps x w = (d, w') \<Longrightarrow> aud w' = aud w"
    and now_apart: "dp_Now deps w = (u, w') \<Longrightarrow> aud w' = aud w"
    and random_apart: "dp_Random deps w = (v, w') \<Longrightarrow> aud w' = aud w"
begin

definition explained :: "Event list \<Rightarrow> Event list \<Rightarrow> 'w \<times> call list \<Rightarrow> bool" where
  "explained base others s \<longleftrightarrow> sound (aud (fst s)) \<and>
     (\<exists>tail es os. log (aud (fst s)) = base @ tail \<and> foreign (aud (fst s)) = others @ os \<and> tail \<in> shuffles es os \<and> logged (snd s) es)"

lemma record_explained:
  assumes "\<And>w r w'. f x w = (r, w') \<Longrightarrow> aud w' = aud w" and "\<And>r. logged [mk x r] []" and "explained base others s"
  shows "explained base others (snd (record_call f mk x s))"
proof -
  obtain r w' where f: "f x (fst s) = (r, w')" by (rule prod.exhaust)
  then have "record_call f mk x s = (r, w', snd s @ [mk x r])" by (simp add: record_call_def)
  moreover have "logged (snd s @ [mk x r]) es" if "logged (snd s) es" for es using logged_snoc [OF that assms(2)] by simp
  ultimately show ?thesis using assms(1) [OF f] assms(3) by (auto simp: explained_def)
qed

lemma append_explained: "explained base others s \<Longrightarrow> explained base others (snd (record_call (dp_Append deps) Appended e s))"
proof -
  assume ex: "explained base others s"
  then obtain tail es os where s: "sound (aud (fst s))" "log (aud (fst s)) = base @ tail" "foreign (aud (fst s)) = others @ os"
    "tail \<in> shuffles es os" "logged (snd s) es" unfolding explained_def by blast
  obtain r w' where a: "dp_Append deps e (fst s) = (r, w')" by (rule prod.exhaust)
  note app = appends [OF a]
  have sound': "sound (aud w')" using append_sound [OF s(1), of e] app by simp
  have "\<exists>new os'. log (aud w') = log (aud (fst s)) @ os' @ new \<and> foreign (aud w') = foreign (aud (fst s)) @ os' \<and> logged [Appended e r] new"
    using append_stored [OF s(1)] append_failed [OF s(1)] app by (cases r) fastforce+
  then obtain new os' where new: "log (aud w') = base @ tail @ os' @ new" "foreign (aud w') = others @ os @ os'" "logged [Appended e r] new"
    using s(2,3) by auto
  have "tail @ os' @ new \<in> shuffles (es @ new) (os @ os')"
    using shuffle_append [OF s(4), of "os' @ new" new os'] append_left_shuffle [of new new "[]" os'] by simp
  then show ?thesis using sound' new logged_snoc [OF s(5) new(3)] a by (fastforce simp: explained_def record_call_def)
qed

sublocale keeps: server_simulation "traced deps" "traced deps" "\<lambda>s s'. s = s' \<and> explained base others s" for base others
proof -
  have rel: "same_arg (result_sim (\<lambda>s s'. s = s' \<and> explained base others s)) g g"
    if "\<And>x s. explained base others s \<Longrightarrow> explained base others (snd (g x s))" for g :: "'x \<Rightarrow> 'w \<times> call list \<Rightarrow> 'y \<times> 'w \<times> call list"
    using that by (auto simp: rel_fun_def rel_prod_sel)
  have quiet: "result_sim (\<lambda>s s'. s = s' \<and> explained base others s) (quiet f) (quiet f)"
    if "\<And>w r w'. f w = (r, w') \<Longrightarrow> aud w' = aud w" for f :: "'w \<Rightarrow> 'y \<times> 'w"
    using that by (auto simp: rel_fun_def rel_prod_sel quiet_def explained_def split: prod.splits)
  show "server_simulation (traced deps) (traced deps) (\<lambda>s s'. s = s' \<and> explained base others s)"
    by unfold_locales
      (simp_all add: rel quiet append_explained record_explained auth_apart reserve_apart settle_apart chat_apart now_apart random_apart)
qed

lemma run_logged:
  assumes "sound (aud w)" and "handleChatCompletions prim (traced deps) request (w, []) = (out, w', calls)"
  shows "sound (aud w') \<and> (\<exists>tail es os. log (aud w') = log (aud w) @ tail \<and> foreign (aud w') = foreign (aud w) @ os \<and>
    tail \<in> shuffles es os \<and> logged calls es)"
proof -
  have "explained (log (aud w)) (foreign (aud w)) (w, [])" using assms(1) by (simp add: explained_def)
  then have "explained (log (aud w)) (foreign (aud w)) (w', calls)"
    using keeps.same_response [where base = "log (aud w)" and others = "foreign (aud w)" and v = "(w, [])" and w = "(w, [])"] assms(2) by auto
  then show ?thesis by (simp add: explained_def)
qed

end

subsection \<open>On the Postgres repository\<close>

text \<open>The repository under a schedule, put beside collaborators that know nothing of it.\<close>

definition beside :: "('a \<Rightarrow> 'o \<Rightarrow> 'b \<times> 'o) \<Rightarrow> 'a \<Rightarrow> 's \<times> 'o \<Rightarrow> 'b \<times> 's \<times> 'o" where
  "beside f x s = (case f x (snd s) of (r, v) \<Rightarrow> (r, fst s, v))"

definition with_audit ::
  "(Event \<Rightarrow> 's \<Rightarrow> (repository_error + AppendReceipt) \<times> 's) \<Rightarrow> 'o Dependencies \<Rightarrow> ('s \<times> 'o) Dependencies" where
  "with_audit app deps = \<lparr>
     dp_Authenticate = beside (dp_Authenticate deps), dp_Policy = dp_Policy deps, dp_Detect = dp_Detect deps,
     dp_Reserve = beside (dp_Reserve deps), dp_Settle = beside (dp_Settle deps),
     dp_Append = (\<lambda>e s. case app e (fst s) of (r, st) \<Rightarrow> (r, st, snd s)),
     dp_ChatCompletions = beside (dp_ChatCompletions deps), dp_Digester = dp_Digester deps, dp_Models = dp_Models deps,
     dp_MaxRequestBytes = dp_MaxRequestBytes deps, dp_MaxResponseBytes = dp_MaxResponseBytes deps,
     dp_ResolvedBackend = dp_ResolvedBackend deps, dp_ConfigHash = dp_ConfigHash deps,
     dp_Now = beside (\<lambda>_. dp_Now deps) (), dp_BudgetTTL = dp_BudgetTTL deps, dp_Random = beside (\<lambda>_. dp_Random deps) (),
     dp_Version = dp_Version deps\<rparr>"

interpretation gateway: audited_server "\<lambda>s. audit_ok sha256 (fst s)" "\<lambda>s. stored_entries (fst s)" "\<lambda>s. snd (snd s)"
    "scheduled_append sha256 pool" "with_audit (scheduled_append sha256 pool) deps" fst for sha256 pool deps
  by unfold_locales (auto simp: with_audit_def beside_def split: prod.splits)

lemma with_audit_simps [simp]:
  "dp_Authenticate (with_audit app deps) = beside (dp_Authenticate deps)" "dp_Policy (with_audit app deps) = dp_Policy deps"
  "dp_Detect (with_audit app deps) = dp_Detect deps" "dp_Digester (with_audit app deps) = dp_Digester deps"
  "dp_MaxRequestBytes (with_audit app deps) = dp_MaxRequestBytes deps" "dp_Models (with_audit app deps) = dp_Models deps"
  "dp_Append (with_audit app deps) = (\<lambda>e s. case app e (fst s) of (r, st) \<Rightarrow> (r, st, snd s))"
  "dp_Reserve (with_audit app deps) = beside (dp_Reserve deps)" "dp_Settle (with_audit app deps) = beside (dp_Settle deps)"
  "dp_ChatCompletions (with_audit app deps) = beside (dp_ChatCompletions deps)" "dp_MaxResponseBytes (with_audit app deps) = dp_MaxResponseBytes deps"
  "dp_ResolvedBackend (with_audit app deps) = dp_ResolvedBackend deps" "dp_ConfigHash (with_audit app deps) = dp_ConfigHash deps"
  "dp_BudgetTTL (with_audit app deps) = dp_BudgetTTL deps" "dp_Version (with_audit app deps) = dp_Version deps"
  "dp_Now (with_audit app deps) = beside (\<lambda>_. dp_Now deps) ()" "dp_Random (with_audit app deps) = beside (\<lambda>_. dp_Random deps) ()"
  by (simp_all add: with_audit_def)

lemma unregistered_denial:
  assumes "(''model'', m) \<notin> audit_identifiers st" and "Op_Register ''model'' m \<notin> set (at_others (turns 0))"
  shows "\<exists>w'. deny_run prim (with_audit (scheduled_append sha256 pool) deps) pr runID m decision h rb cl now refusal ((st, turns, os), v) =
    (writeError 503 ''unavailable'', w')"
proof -
  let ?d = "with_audit (scheduled_append sha256 pool) deps"
  obtain b s1 where built: "buildEvent prim ?d pr runID EventRunDenied DecisionDeny StatusDenied decision m h None rb None cl
      None None None now ((st, turns, os), v) = (b, s1)" by (rule prod.exhaust)
  have s1: "fst s1 = (st, turns, os)"
    using built by (auto simp: buildEvent_def new_uuid_def beside_def Let_def split: if_splits prod.splits)
  show ?thesis
  proof (cases b)
    case (Inl err)
    then show ?thesis using built by (simp add: deny_run_def appendDenied_def)
  next
    case (Inr e)
    then have "RequestedModel e = m" using buildEvent_fields(6) [OF built [unfolded Inr]] by simp
    then have "\<not> registered (others_work sha256 (at_others (turns 0)) st) e"
      using others_work_registers [OF assms(2,1)] by (simp add: registered_def identifiers_ok_def appendArguments_def)
    then have "\<exists>err s2. scheduled_append sha256 pool e (fst s1) = (Inl err, s2)"
      using Append_unregistered by (auto simp: scheduled_append_def s1 Let_def)
    then show ?thesis using built Inr by (auto simp: deny_run_def appendDenied_def)
  qed
qed

lemma unknown_model_unregistered:
  assumes "in_Method request = ''POST''" and "dp_Authenticate deps (in_Authorization request) v = (Inr pr, v1)"
    and "read_all (dp_MaxRequestBytes deps + 1) (in_Body request) = Some body" and "len64 body \<le>s dp_MaxRequestBytes deps"
    and "ParseChatRequest (pr_parse_float prim) body = Inr chatReq" and "lookupModel deps (cq_Model chatReq) = None"
    and "dp_Detect deps (joinMessageText chatReq) = Inr c" and "(''model'', ''unknown_model'') \<notin> audit_identifiers st"
    and "Op_Register ''model'' ''unknown_model'' \<notin> set (at_others (turns 0))"
  shows "\<exists>w'. handleChatCompletions prim (with_audit (scheduled_append sha256 pool) deps) request ((st, turns, os), v) =
    (writeError 503 ''unavailable'', w')"
proof -
  let ?d = "with_audit (scheduled_append sha256 pool) deps"
  have "\<exists>w'. unknown_model prim ?d pr body chatReq ((st, turns, os), v1) = (writeError 503 ''unavailable'', w')"
    using assms(7) unregistered_denial [OF assms(8), of turns] assms(9)
    by (auto simp: unknown_model_def Let_def new_uuid_def server_now_def beside_def split: prod.splits sum.splits)
  moreover have "\<not> dp_MaxRequestBytes deps <s len64 body" using assms(4) by (simp add: int64_order)
  moreover have "lookupModel ?d = lookupModel deps" by (simp add: lookupModel_def fun_eq_iff)
  ultimately show ?thesis
    using assms(1-6) by (simp add: handleChatCompletions_def beside_def)
qed

text \<open>Turns without other work and without faults, and a schedule in which another client appends an event before the second turn.\<close>

definition calm_audit :: audit_turn where "calm_audit = \<lparr>at_others = [], at_fault = No_fault\<rparr>"

definition busy_audit :: "nat \<Rightarrow> audit_turn" where
  "busy_audit n = (if n = 1 then calm_audit\<lparr>at_others := [Op_Append True No_fault (sample_event [''a''] UTC)]\<rparr> else calm_audit)"

lemma sample_unknown:
  "\<exists>request w'. handleChatCompletions sample_prim (with_audit (scheduled_append sample_sha True) (sample_deps\<lparr>dp_Models := []\<rparr>)) request
     ((sample_registered, busy_audit, []), ()) = (writeError 503 ''unavailable'', w')"
proof -
  obtain body where body: "ParseChatRequest sample_parse body = Inr sample_chat" "length body < 2 ^ 20" using sample_body by blast
  have "len64 body \<le>s 1048576" using small_body(2) [OF body(2)] by (simp add: int64_order)
  note small = this
  show ?thesis
    by (rule exI [of _ "sample_post body"], rule unknown_model_unregistered [where pr = sample_server_principal and ?v1.0 = "()"
        and body = body and chatReq = sample_chat and c = sample_class])
      (use small body(1) small_body(1) [OF body(2)] in
        \<open>simp_all add: sample_post_def sample_deps_def sample_prim_def lookupModel_def sample_registered_eq busy_audit_def calm_audit_def\<close>)
qed

subsection \<open>A run over the repository\<close>

text \<open>The sample collaborators with a random source that counts, so that identifiers differ.\<close>

definition counting_deps :: "nat Dependencies" where
  "counting_deps = \<lparr>
     dp_Authenticate = (\<lambda>h n. (fst (dp_Authenticate sample_deps h ()), n)), dp_Policy = dp_Policy sample_deps, dp_Detect = dp_Detect sample_deps,
     dp_Reserve = (\<lambda>q n. (fst (dp_Reserve sample_deps q ()), n)), dp_Settle = (\<lambda>q n. (fst (dp_Settle sample_deps q ()), n)),
     dp_Append = (\<lambda>e n. (fst (dp_Append sample_deps e ()), n)),
     dp_ChatCompletions = (\<lambda>q n. (fst (dp_ChatCompletions sample_deps q ()), n)), dp_Digester = dp_Digester sample_deps,
     dp_Models = dp_Models sample_deps, dp_MaxRequestBytes = dp_MaxRequestBytes sample_deps,
     dp_MaxResponseBytes = dp_MaxResponseBytes sample_deps, dp_ResolvedBackend = dp_ResolvedBackend sample_deps,
     dp_ConfigHash = dp_ConfigHash sample_deps, dp_Now = (\<lambda>n. (fst (dp_Now sample_deps ()), n)), dp_BudgetTTL = dp_BudgetTTL sample_deps,
     dp_Random = (\<lambda>n. ([char_of n], Suc n)), dp_Version = dp_Version sample_deps\<rparr>"

definition busy_store :: audit_store where
  "busy_store = audit_apply sample_sha (Op_Principal sample_principal) sample_registered"

abbreviation busy_deps :: "(scheduled_audit \<times> nat) Dependencies" where
  "busy_deps \<equiv> with_audit (scheduled_append sample_sha True) counting_deps"

lemma busy_ready: "server_ready sample_prim busy_deps"
  using sample_ready
  by (simp add: server_ready_def config_ok_def with_audit_def counting_deps_def beside_def)

lemma busy_reach: "audit_reach sample_sha busy_store"
  unfolding busy_store_def by (rule audit_step [OF sample_registered_reach])

lemma busy_uuids:
  "newUUID [char_of (1 :: nat)] \<noteq> newUUID [char_of (2 :: nat)]"
  "newUUID [char_of (1 :: nat)] \<noteq> EventID (sample_event [''a''] UTC)"
  "newUUID [char_of (2 :: nat)] \<noteq> EventID (sample_event [''a''] UTC)"
  by code_simp+

lemma busy_contracts:
  "principal_Validate sample_server_principal" "class_ok sample_class" "result_ok sample_result" "identifierPattern ''m1''"
  "sample_digest \<noteq> zero_digest" "decision_ok busy_deps (Evaluate (Some (dp_Policy sample_deps)) q)"
proof -
  have auth: "principal_Validate pr" if "fst (dp_Authenticate sample_deps h w) = Inr pr" for h w pr
    using sample_ready that by (simp add: server_ready_def)
  have chat: "result_ok r" if "fst (dp_ChatCompletions sample_deps q w) = Inr r" for q w r
    using sample_ready that by (simp add: server_ready_def)
  show "principal_Validate sample_server_principal" by (rule auth) (simp add: sample_deps_def)
  show "class_ok sample_class" using sample_ready by (simp add: server_ready_def) (simp add: sample_deps_def)
  show "result_ok sample_result" by (rule chat) (simp add: sample_deps_def)
  show "decision_ok busy_deps (Evaluate (Some (dp_Policy sample_deps)) q)"
    using Evaluate_decision_ok [of busy_deps q] by (simp add: counting_deps_def)
qed (use sample_event_parts sample_digest_nonzero in simp_all)

text \<open>The handler hands over no nil code set and no nil count map, which the database would refuse.\<close>

lemma buildEvent_nothing_nil:
  "buildEvent prim deps pr run ty d st pd m h rh rb sb cl res act ec now w = (Inr e, w') \<Longrightarrow> nothing_nil e"
  by (auto simp: buildEvent_def nothing_nil_def Let_def split: if_splits prod.splits)

text \<open>An event of the run, and its append.\<close>

lemma busy_event:
  obtains e where "buildEvent sample_prim busy_deps sample_server_principal run ty d st pd m h rh rb sb cl res act ec now (s, n) = (Inr e, (s, Suc n))"
    and "EventID e = newUUID [char_of n]" and "PreviousEventHash e = zero_digest" and "nothing_nil e" and "ResolvedBackend e = ''local''"
    and "ContentHMACKeyID e = ''k1''" and "SoftwareVersion e = ''v1.0''"
  by (simp add: buildEvent_def new_uuid_def beside_def counting_deps_def sample_server_principal_def AuthMethodAPIKey_def AuthMethodOIDC_def
      nothing_nil_def digester_KeyID_def Let_def) (simp add: sample_deps_def)

definition busy_registers :: "audit_store \<Rightarrow> bool" where
  "busy_registers st \<longleftrightarrow> audit_ok sample_sha st \<and> audit_identifiers st = audit_identifiers sample_registered \<and>
     known_principals st = insert sample_principal (known_principals sample_registered)"

lemma busy_Append:
  assumes st: "busy_registers st" and e: "event_Validate e" "PreviousEventHash e = zero_digest" "nothing_nil e"
    and "RequestedModel e = ''m1''" "ResolvedBackend e = ''local''" "ContentHMACKeyID e = ''k1''" "SoftwareVersion e = ''v1.0''"
    and "PrincipalID e \<in> insert sample_principal (known_principals sample_registered)"
    and new: "EventID e \<notin> set (event_ids st)" and len: "length (event_ids st) < 100"
  obtains rc st' where "Append sample_sha True No_fault e st = (Inr rc, st')" "AuthorizesBackendCall rc \<longleftrightarrow> EventType e = EventRunStarted"
    "busy_registers st'" "event_ids st' = event_ids st @ [EventID e]"
proof -
  have reg: "registered st e"
    using st assms(5-9) by (simp add: registered_def identifiers_ok_def appendArguments_def busy_registers_def sample_registered_eq)
  have ok: "audit_ok sample_sha st" "length (event_ids st) < 2 ^ 63 - 1" "\<And>b. sample_sha b \<noteq> zero_digest"
    using st len sample_digest_nonzero by (simp_all add: busy_registers_def sample_sha_def)
  show thesis
    by (rule Append_repeatable [OF ok(1,2) e reg new ok(3)]) (use st that in \<open>simp add: busy_registers_def\<close>)
qed

lemma scheduled_calm:
  "at_others (turns 0) = [] \<Longrightarrow> at_fault (turns 0) = No_fault \<Longrightarrow> Append sha256 pool No_fault e st = (r, st') \<Longrightarrow>
   scheduled_append sha256 pool e (st, turns, os) = (r, st', turns \<circ> Suc, os)"
  by (simp add: scheduled_append_def others_work_def entries_since_def)

text \<open>The stages of the run.\<close>

definition busy_rx :: "bytes \<Rightarrow> run_context" where
  "busy_rx body = \<lparr>rx_principal = sample_server_principal, rx_runID = newUUID [char_of (0 :: nat)], rx_route = sample_route,
     rx_decision = Evaluate (Some (dp_Policy sample_deps)) (policy_request sample_server_principal ''chat.completions'' ''m1''),
     rx_requestHMAC = sample_digest, rx_requestBytes = len64 body, rx_classification = sample_class\<rparr>"

definition busy_now :: go_time where
  "busy_now = time_Truncate (time_UTC \<lparr>t_nanos = 63900000000000001000, t_loc = UTC\<rparr>) 1000"

lemma busy_clock: "server_now busy_deps w = (busy_now, w)"
  by (cases w) (simp add: server_now_def beside_def counting_deps_def busy_now_def, simp add: sample_deps_def)

lemma busy_instant: "instant_ok busy_now"
  using server_now_ok [OF busy_ready busy_clock] .

lemma busy_answers:
  "dp_Authenticate busy_deps h w = (Inr sample_server_principal, w)" "dp_Detect busy_deps t = Inr sample_class"
  "dp_Policy busy_deps = dp_Policy sample_deps" "lookupModel busy_deps (cq_Model sample_chat) = Some sample_route"
  "dp_MaxRequestBytes busy_deps = 1048576" "new_uuid busy_deps (s, n) = (newUUID [char_of n], s, Suc n)"
  "dp_ChatCompletions busy_deps q w = (Inr sample_result, w)" "dp_Settle busy_deps x w = (Inr 0, w)" "dp_MaxResponseBytes busy_deps = 4096"
  "digester_Sum (pr_hmac sample_prim) (Some (dp_Digester busy_deps)) b = Inr sample_digest"
  "dp_Append busy_deps e w = (case scheduled_append sample_sha True e (fst w) of (r, st) \<Rightarrow> (r, st, snd w))"
  by (cases w; simp add: beside_def counting_deps_def digester_Sum_def new_uuid_def lookupModel_def;
      simp add: sample_deps_def sample_prim_def sample_chat_def sample_route_def)+

lemma busy_reserve:
  obtains rsv where "dp_Reserve busy_deps q w = (Inr rsv, w)" and "rsv_ID rsv = sample_hold"
  by (cases w; simp add: beside_def counting_deps_def; simp add: sample_deps_def)

lemma busy_prefix:
  assumes "ParseChatRequest sample_parse body = Inr sample_chat" and "length body < 2 ^ 20"
    and "EstimateMaxCostMicros (mr_Price sample_route) (1 + of_nat (length body div 4)) = Inr reserve"
  shows "handleChatCompletions sample_prim busy_deps (sample_post body) (s, 0) =
    start_run sample_prim busy_deps (busy_rx body) sample_chat sample_hold reserve busy_now (s, 1)"
proof -
  have post: "in_Method (sample_post body) = ''POST''" "pr_parse_float sample_prim = sample_parse"
    "in_Body (sample_post body) = \<lparr>st_bytes = body, st_end = Eof\<rparr>" "mr_Name sample_route = ''m1''"
    by (simp_all add: sample_post_def sample_prim_def sample_route_def)
  obtain rsv where rsv: "dp_Reserve busy_deps (reserve_request busy_deps (busy_rx body) reserve) (s, Suc 0) = (Inr rsv, s, Suc 0)"
    "rsv_ID rsv = sample_hold" by (rule busy_reserve)
  have route: "rx_route (busy_rx body) = sample_route" by (simp add: busy_rx_def)
  have "reserve_and_start sample_prim busy_deps (busy_rx body) sample_chat body busy_now (s, Suc 0) =
      start_run sample_prim busy_deps (busy_rx body) sample_chat sample_hold reserve busy_now (s, Suc 0)"
    using assms(3) rsv by (simp add: reserve_and_start_def reserve_request_def route del: with_audit_simps)
  then show ?thesis
    using assms(1) small_body [OF assms(2)] sample_allowed
    by (simp add: handleChatCompletions_def known_model_def busy_answers busy_clock post Let_def busy_rx_def del: with_audit_simps)
qed

lemma busy_call:
  "call_backend sample_prim busy_deps rx sample_chat hold reserve w =
     complete_run sample_prim busy_deps rx hold reserve sample_result busy_now w"
proof -
  have "sint (len64 sample_reply) = int (length sample_reply)"
    unfolding len64_def using sample_reply_length by (intro sint_of_nat) simp
  then have "\<not> 4096 <s len64 sample_reply" using sample_reply_length by (simp add: int64_order)
  then show ?thesis
    by (simp only: call_backend_def busy_clock busy_answers) (simp add: sample_result_def)
qed

lemma started_after:
  assumes "buildEvent prim deps (rx_principal rx) (rx_runID rx) EventRunStarted DecisionAllow StatusStarted (rx_decision rx) (mr_Name (rx_route rx))
      (rx_requestHMAC rx) None (rx_requestBytes rx) None (rx_classification rx) (Some reserve) None None now w = (Inr e, w1)"
    and "dp_Append deps e w1 = (Inr rc, w2)" and "AuthorizesBackendCall rc"
  shows "start_run prim deps rx chatReq hold reserve now w = call_backend prim deps rx chatReq hold reserve w2"
  using assms by (simp add: start_run_def)

lemma completed_after:
  assumes "digester_Sum (pr_hmac prim) (Some (dp_Digester deps)) (cr_RawJSON result) = Inr h"
    and "dp_Settle deps \<lparr>sr_ReservationID = hold, sr_ActualMicros = Some (actual_cost (rx_route rx) reserve (cr_Usage result))\<rparr> w = (Inr a, w1)"
    and "buildEvent prim deps (rx_principal rx) (rx_runID rx) EventRunCompleted DecisionAllow StatusCompleted (rx_decision rx) (mr_Name (rx_route rx))
      (rx_requestHMAC rx) (Some h) (rx_requestBytes rx) (Some (len64 (cr_RawJSON result))) (rx_classification rx) (Some reserve) (Some a) None now w1 = (Inr e, w2)"
    and "dp_Append deps (e\<lparr>InputTokens := Some (us_PromptTokens (cr_Usage result)), OutputTokens := Some (us_CompletionTokens (cr_Usage result))\<rparr>) w2 = (Inr rc, w3)"
  shows "complete_run prim deps rx hold reserve result now w = (\<lparr>out_Status = 200, out_Body = cr_RawJSON result\<rparr>, w3)"
  using assms by (simp add: complete_run_def settle_def)

text \<open>The started event goes in, then another client's, then the completed event.\<close>

lemma busy_rx_event:
  assumes "validEventState ty d st" and "validOptionalDigest rh" and "validOptionalNonNegative sb" and "validOptionalNonNegative res"
    and "validOptionalNonNegative act" and "validOptionalCode ec" and "length body < 2 ^ 20"
  defines "rx \<equiv> busy_rx body"
  obtains e where "buildEvent sample_prim busy_deps (rx_principal rx) (rx_runID rx) ty d st (rx_decision rx) (mr_Name (rx_route rx))
      (rx_requestHMAC rx) rh (rx_requestBytes rx) sb (rx_classification rx) res act ec busy_now (s, n) = (Inr e, (s, Suc n))"
    and "event_Validate e" "EventID e = newUUID [char_of n]" "PreviousEventHash e = zero_digest" "nothing_nil e" "RequestedModel e = ''m1''"
      "ResolvedBackend e = ''local''" "ContentHMACKeyID e = ''k1''" "SoftwareVersion e = ''v1.0''"
      "PrincipalID e \<in> insert sample_principal (known_principals sample_registered)" "EventType e = ty"
proof -
  have bytes: "0 \<le>s len64 body" using assms(7) sint_of_nat [of "length body"] by (simp add: len64_def int64_order)
  have rx: "rx_principal rx = sample_server_principal" "mr_Name (rx_route rx) = ''m1''" "rx_requestHMAC rx = sample_digest"
    "rx_requestBytes rx = len64 body" "rx_classification rx = sample_class"
    "rx_decision rx = Evaluate (Some (dp_Policy sample_deps)) (policy_request sample_server_principal ''chat.completions'' ''m1'')"
    "rx_runID rx = newUUID [char_of (0 :: nat)]" "p_ID sample_server_principal = sample_principal"
    by (simp_all add: rx_def busy_rx_def sample_route_def sample_server_principal_def)
  obtain e where e: "buildEvent sample_prim busy_deps (rx_principal rx) (rx_runID rx) ty d st (rx_decision rx) (mr_Name (rx_route rx))
      (rx_requestHMAC rx) rh (rx_requestBytes rx) sb (rx_classification rx) res act ec busy_now (s, n) = (Inr e, (s, Suc n))"
    "EventID e = newUUID [char_of n]" "PreviousEventHash e = zero_digest" "nothing_nil e" "ResolvedBackend e = ''local''"
    "ContentHMACKeyID e = ''k1''" "SoftwareVersion e = ''v1.0''"
    unfolding rx(1) by (rule busy_event)
  have "event_Validate e"
    by (rule buildEvent_valid [OF e(1) busy_ready])
      (simp_all add: rx assms(1-6) bytes busy_contracts newUUID_pattern busy_instant)
  then show thesis
    using e buildEvent_fields(1,3,6) [OF e(1)] by (intro that [OF e(1)]) (simp_all add: rx)
qed

lemma busy_run:
  "\<exists>request st' turns' os n. handleChatCompletions sample_prim busy_deps request ((busy_store, busy_audit, []), 0) =
     (\<lparr>out_Status = 200, out_Body = sample_reply\<rparr>, ((st', turns', os), n)) \<and> length os = 1"
proof -
  obtain body where body: "ParseChatRequest sample_parse body = Inr sample_chat" "length body < 2 ^ 20" using sample_body by blast
  obtain reserve where est: "EstimateMaxCostMicros (mr_Price sample_route) (1 + of_nat (length body div 4)) = Inr reserve"
    using sample_estimate [OF body(2)] by auto
  have pos: "0 \<le>s reserve" using estimate_positive [OF est] by (simp add: int64_order)
  have reply: "0 \<le>s len64 sample_reply" using sample_reply_length sint_of_nat [of "length sample_reply"] by (simp add: len64_def int64_order)
  let ?rx = "busy_rx body" and ?other = "sample_event [''a''] UTC"
  have store: "busy_registers busy_store" "event_ids busy_store = []"
    using audit_reach_ok [OF busy_reach] by (simp_all add: busy_registers_def event_ids_def busy_store_def sample_registered_eq)
  obtain e1 where b1: "buildEvent sample_prim busy_deps (rx_principal ?rx) (rx_runID ?rx) EventRunStarted DecisionAllow StatusStarted (rx_decision ?rx)
      (mr_Name (rx_route ?rx)) (rx_requestHMAC ?rx) None (rx_requestBytes ?rx) None (rx_classification ?rx) (Some reserve) None None busy_now
      ((busy_store, busy_audit, []), 1) = (Inr e1, (busy_store, busy_audit, []), Suc 1)"
    and e1: "event_Validate e1" "EventID e1 = newUUID [char_of (1 :: nat)]" "PreviousEventHash e1 = zero_digest" "nothing_nil e1" "RequestedModel e1 = ''m1''"
      "ResolvedBackend e1 = ''local''" "ContentHMACKeyID e1 = ''k1''" "SoftwareVersion e1 = ''v1.0''"
      "PrincipalID e1 \<in> insert sample_principal (known_principals sample_registered)" "EventType e1 = EventRunStarted"
    by (rule busy_rx_event [where s = "(busy_store, busy_audit, [])" and n = 1 and rh = None and sb = None and res = "Some reserve" and
          act = None and ec = None, OF event_states(1) _ _ _ _ _ body(2)])
      (use pos in \<open>simp_all add: optional_simps\<close>)
  obtain rc1 st1 where a1: "Append sample_sha True No_fault e1 busy_store = (Inr rc1, st1)" "AuthorizesBackendCall rc1"
    and st1: "busy_registers st1" "event_ids st1 = [newUUID [char_of (1 :: nat)]]"
    by (rule busy_Append [OF store(1) e1(1,3-9)]) (use store(2) e1(2,10) in simp_all)
  obtain rc2 st2 where a2: "Append sample_sha True No_fault ?other st1 = (Inr rc2, st2)"
    and st2: "busy_registers st2" "event_ids st2 = [newUUID [char_of (1 :: nat)], EventID ?other]"
  proof (rule busy_Append [OF st1(1), of ?other])
    show "event_Validate ?other" by (rule sample_event_valid) (code_simp, simp)
    show "EventID ?other \<notin> set (event_ids st1)" using busy_uuids(2) st1(2) by (metis empty_iff empty_set set_ConsD)
  qed (use st1(2) in \<open>auto simp: sample_event_def nothing_nil_def sample_registered_eq\<close>)
  obtain e3 where b3: "buildEvent sample_prim busy_deps (rx_principal ?rx) (rx_runID ?rx) EventRunCompleted DecisionAllow StatusCompleted (rx_decision ?rx)
      (mr_Name (rx_route ?rx)) (rx_requestHMAC ?rx) (Some sample_digest) (rx_requestBytes ?rx) (Some (len64 sample_reply)) (rx_classification ?rx)
      (Some reserve) (Some 0) None busy_now ((st1, busy_audit \<circ> Suc, []), 2) = (Inr e3, (st1, busy_audit \<circ> Suc, []), Suc 2)"
    and e3: "event_Validate e3" "EventID e3 = newUUID [char_of (2 :: nat)]" "PreviousEventHash e3 = zero_digest" "nothing_nil e3" "RequestedModel e3 = ''m1''"
      "ResolvedBackend e3 = ''local''" "ContentHMACKeyID e3 = ''k1''" "SoftwareVersion e3 = ''v1.0''"
      "PrincipalID e3 \<in> insert sample_principal (known_principals sample_registered)" "EventType e3 = EventRunCompleted"
    by (rule busy_rx_event [where s = "(st1, busy_audit \<circ> Suc, [])" and n = 2 and rh = "Some sample_digest" and
          sb = "Some (len64 sample_reply)" and res = "Some reserve" and act = "Some 0" and ec = None, OF event_states(2) _ _ _ _ _ body(2)])
      (use pos reply busy_contracts(5) in \<open>simp_all add: optional_simps\<close>)
  define fin where "fin = e3\<lparr>InputTokens := Some (us_PromptTokens (cr_Usage sample_result)), OutputTokens := Some (us_CompletionTokens (cr_Usage sample_result))\<rparr>"
  have tokens: "0 \<le>s us_PromptTokens (cr_Usage sample_result)" "0 \<le>s us_CompletionTokens (cr_Usage sample_result)"
    by (simp_all add: sample_result_def int64_order)
  have fin: "event_Validate fin" using e3(1) tokens by (simp add: fin_def event_Validate_def optional_simps)
  obtain rc3 st3 where a3: "Append sample_sha True No_fault fin st2 = (Inr rc3, st3)"
    by (rule busy_Append [OF st2(1) fin]) (use e3 st2(2) busy_uuids in \<open>simp_all add: fin_def nothing_nil_def\<close>)
  have turns: "busy_audit 0 = calm_audit" "busy_audit (Suc 0) = calm_audit\<lparr>at_others := [Op_Append True No_fault ?other]\<rparr>"
    "at_others calm_audit = []" "at_fault calm_audit = No_fault" by (simp_all add: busy_audit_def calm_audit_def)
  have first: "dp_Append busy_deps e1 ((busy_store, busy_audit, []), Suc 1) = (Inr rc1, (st1, busy_audit \<circ> Suc, []), 2)"
    unfolding busy_answers using scheduled_calm [of busy_audit sample_sha True e1 busy_store] a1(1) turns by simp
  have second: "dp_Append busy_deps fin ((st1, busy_audit \<circ> Suc, []), Suc 2) =
      (Inr rc3, (st3, busy_audit \<circ> Suc \<circ> Suc, entries_since st1 st2), Suc 2)"
    unfolding busy_answers using a2 a3 turns by (simp add: scheduled_append_def others_work_def)
  have "start_run sample_prim busy_deps ?rx sample_chat sample_hold reserve busy_now ((busy_store, busy_audit, []), 1) =
      (\<lparr>out_Status = 200, out_Body = sample_reply\<rparr>, ((st3, busy_audit \<circ> Suc \<circ> Suc, entries_since st1 st2), Suc 2))"
    unfolding started_after [OF b1 first a1(2)] busy_call
    using completed_after [of sample_prim busy_deps sample_result sample_digest sample_hold ?rx reserve "((st1, busy_audit \<circ> Suc, []), 2)" 0
        "((st1, busy_audit \<circ> Suc, []), 2)" busy_now e3 "((st1, busy_audit \<circ> Suc, []), Suc 2)" rc3] b3 second
    unfolding fin_def by (simp add: busy_answers sample_result_def del: with_audit_simps)
  then have "handleChatCompletions sample_prim busy_deps (sample_post body) ((busy_store, busy_audit, []), 0) =
      (\<lparr>out_Status = 200, out_Body = sample_reply\<rparr>, ((st3, busy_audit \<circ> Suc \<circ> Suc, entries_since st1 st2), Suc 2))"
    unfolding busy_prefix [OF body est] .
  moreover have "length (entries_since st1 st2) = 1"
    using arg_cong [OF st2(2), of length] arg_cong [OF st1(2), of length] by (simp add: entries_since_def stored_entries_def event_ids_def)
  ultimately show ?thesis by blast
qed

subsection \<open>Properties\<close>

text \<open>
  C28. What a request leaves in the audit table. Starting from any reachable audit store, whatever other clients append and
  administrators register between the handler's appends, and whatever transactions fail, the table afterwards is still a verifying
  chain. It has grown by an interleaving of what the others added and of the entries the handler's calls explain: every confirmed
  append and no other but appends whose confirmation was lost. After a 200 response the handler has added exactly two entries, the
  \<open>run_started\<close> and the \<open>run_completed\<close> entry of one run, the second with the digest of the bytes the client received.
\<close>

theorem request_leaves_record:
  assumes "audit_reach sha256 st"
    and "handleChatCompletions prim (with_audit (scheduled_append sha256 pool) deps) request ((st, turns, []), v) = (out, (st', turns', os), v')"
  shows "audit_ok sha256 st' \<and>
    (\<exists>calls tail es. handleChatCompletions prim (traced (with_audit (scheduled_append sha256 pool) deps)) request (((st, turns, []), v), []) =
         (out, ((st', turns', os), v'), calls) \<and> stored_entries st' = stored_entries st @ tail \<and> tail \<in> shuffles es os \<and> logged calls es \<and>
       (out_Status out = 200 \<longrightarrow> (\<exists>start fin h. es = [start, fin] \<and> EventType start = EventRunStarted \<and>
          EventType fin = EventRunCompleted \<and> RunID fin = RunID start \<and> ResponseHMAC fin = Some h \<and>
          digester_Sum (pr_hmac prim) (Some (dp_Digester deps)) (out_Body out) = Inr h)))"
proof -
  let ?d = "with_audit (scheduled_append sha256 pool) deps"
  obtain calls where run: "handleChatCompletions prim (traced ?d) request (((st, turns, []), v), []) = (out, ((st', turns', os), v'), calls)"
    using recorded_run [OF assms(2)] .
  obtain tail es where es: "audit_ok sha256 st'" "stored_entries st' = stored_entries st @ tail" "tail \<in> shuffles es os" "logged calls es"
    using gateway.run_logged [OF _ run] audit_reach_ok [OF assms(1)] by auto
  have "\<exists>start fin h. es = [start, fin] \<and> EventType start = EventRunStarted \<and> EventType fin = EventRunCompleted \<and>
      RunID fin = RunID start \<and> ResponseHMAC fin = Some h \<and> digester_Sum (pr_hmac prim) (Some (dp_Digester deps)) (out_Body out) = Inr h"
    if ok: "out_Status out = 200"
  proof -
    have "chat_trace prim ?d request calls out" using chat_completions_traced [OF run] by simp
    from this ok show ?thesis
    proof (rule chat_trace_success)
      fix pr chatReq rx reserve rsv rest
      assume c: "calls = Authenticated (Inr pr) # Reserved (reserve_request ?d rx reserve) (Inr rsv) # rest"
        and st: "started prim ?d rx chatReq (rsv_ID rsv) reserve rest out"
      show ?thesis
        using st ok es(4) unfolding c started_def backend_called_def delivered_def by (elim exE conjE) (fastforce simp: entry_fields)
    qed
  qed
  then show ?thesis using run es by blast
qed

theorem request_leaves_record_witness:
  "\<exists>request st' turns' os n tail start fin. handleChatCompletions sample_prim busy_deps request ((busy_store, busy_audit, []), 0) =
     (\<lparr>out_Status = 200, out_Body = sample_reply\<rparr>, ((st', turns', os), n)) \<and> audit_ok sample_sha st' \<and> length os = 1 \<and>
     stored_entries st' = stored_entries busy_store @ tail \<and> tail \<in> shuffles [start, fin] os \<and>
     EventType start = EventRunStarted \<and> EventType fin = EventRunCompleted"
proof -
  obtain request st' turns' os n where run: "handleChatCompletions sample_prim busy_deps request ((busy_store, busy_audit, []), 0) =
     (\<lparr>out_Status = 200, out_Body = sample_reply\<rparr>, ((st', turns', os), n))" "length os = 1" using busy_run by blast
  from request_leaves_record [OF busy_reach run(1)] run show ?thesis by fastforce
qed

text \<open>
  Unknown models are told apart from forbidden ones. The handler records the denial of an unknown model under the name
  \<open>unknown_model\<close>. Unless an administrator has registered that name as a model, before or at that moment, the audit store refuses the event and the client
  sees 503, whereas a forbidden but configured model gives 403: the status reveals which names are configured.
\<close>

theorem unknown_model_unavailable:
  assumes "in_Method request = ''POST''" and "dp_Authenticate deps (in_Authorization request) v = (Inr pr, v1)"
    and "read_all (dp_MaxRequestBytes deps + 1) (in_Body request) = Some body" and "len64 body \<le>s dp_MaxRequestBytes deps"
    and "ParseChatRequest (pr_parse_float prim) body = Inr chatReq" and "lookupModel deps (cq_Model chatReq) = None"
    and "dp_Detect deps (joinMessageText chatReq) = Inr c" and "(''model'', ''unknown_model'') \<notin> audit_identifiers st"
    and "Op_Register ''model'' ''unknown_model'' \<notin> set (at_others (turns 0))"
  shows "\<exists>w'. handleChatCompletions prim (with_audit (scheduled_append sha256 pool) deps) request ((st, turns, os), v) =
    (writeError 503 ''unavailable'', w')"
  using assms by (rule unknown_model_unregistered)

theorem unknown_model_unavailable_witness:
  "\<exists>request w'. handleChatCompletions sample_prim (with_audit (scheduled_append sample_sha True) (sample_deps\<lparr>dp_Models := []\<rparr>)) request
     ((sample_registered, busy_audit, []), ()) = (writeError 503 ''unavailable'', w')"
proof -
  obtain body where body: "ParseChatRequest sample_parse body = Inr sample_chat" "length body < 2 ^ 20" using sample_body by blast
  have small: "len64 body \<le>s 1048576" using small_body(2) [OF body(2)] by (simp add: int64_order)
  show ?thesis
    by (rule exI [of _ "sample_post body"], rule unknown_model_unavailable [where pr = sample_server_principal and ?v1.0 = "()"
        and body = body and chatReq = sample_chat and c = sample_class])
      (use small body(1) small_body(1) [OF body(2)] in
        \<open>simp_all add: sample_post_def sample_deps_def sample_prim_def lookupModel_def sample_registered_eq busy_audit_def calm_audit_def\<close>)
qed

end
