(* ===== verification/BudgetContract.thy ===== *)
theory BudgetContract
  imports BudgetService
begin

section \<open>The contract of the budget service\<close>

text \<open>
  What the request handler relies on when it reserves and settles, as the locale \<open>budget_contract\<close>, and the modelled service with
  its store as a provider of it. The provider works under a schedule: every call has a turn that says what other clients did to the
  tables before it, how much time went by, what became of the request and the reply on the wire, and which identifier the database draws.
\<close>

locale budget_contract =
  fixes sound :: "'s \<Rightarrow> bool" and later :: "'s \<Rightarrow> 's \<Rightarrow> bool" and reliable :: "'s \<Rightarrow> bool"
    and granted :: "'s \<Rightarrow> ReserveRequest \<Rightarrow> string \<Rightarrow> bool" and charged :: "'s \<Rightarrow> string \<Rightarrow> int64 \<Rightarrow> bool"
    and closed :: "'s \<Rightarrow> string \<Rightarrow> bool"
    and reserve :: "ReserveRequest \<Rightarrow> 's \<Rightarrow> (budget_error + Reservation) \<times> 's"
    and settle :: "SettleRequest \<Rightarrow> 's \<Rightarrow> (budget_error + int64) \<times> 's"
  assumes reserve_later: "sound s \<Longrightarrow> sound (snd (reserve q s)) \<and> later s (snd (reserve q s))"
    and settle_later: "sound s \<Longrightarrow> sound (snd (settle x s)) \<and> later s (snd (settle x s))"
    and later_reliable: "later s s' \<Longrightarrow> reliable s \<Longrightarrow> reliable s'"
    and later_granted: "later s s' \<Longrightarrow> granted s q i \<Longrightarrow> granted s' q i"
    and later_charged: "later s s' \<Longrightarrow> charged s i a \<Longrightarrow> charged s' i a"
    and later_closed: "later s s' \<Longrightarrow> closed s i \<Longrightarrow> closed s' i"
    and reserve_granted: "sound s \<Longrightarrow> reserve q s = (Inr r, s') \<Longrightarrow> granted s' q (rsv_ID r)"
    and settle_charged: "sound s \<Longrightarrow> settle x s = (Inr a, s') \<Longrightarrow> charged s' (sr_ReservationID x) a"
    and settle_closed: "sound s \<Longrightarrow> reliable s \<Longrightarrow> granted s q i \<Longrightarrow> 0 \<le>s a \<Longrightarrow>
      closed (snd (settle \<lparr>sr_ReservationID = i, sr_ActualMicros = Some a\<rparr> s)) i"
begin

text \<open>A reservation that is granted and then settled with a non-negative amount is not left open.\<close>

lemma reserve_then_settle:
  assumes "sound s" and "reliable s" and "reserve q s = (Inr r, s1)" and "0 \<le>s a"
    and "settle \<lparr>sr_ReservationID = rsv_ID r, sr_ActualMicros = Some a\<rparr> s1 = (res, s2)"
  shows "closed s2 (rsv_ID r) \<and> granted s2 q (rsv_ID r) \<and> (\<forall>x. res = Inr x \<longrightarrow> charged s2 (rsv_ID r) x)"
proof -
  note first = reserve_later [OF assms(1), of q, unfolded assms(3) snd_conv]
  note g = reserve_granted [OF assms(1,3)]
  have "later s1 s2" using settle_later [OF conjunct1 [OF first]] assms(5) by (metis snd_conv)
  then show ?thesis
    using settle_closed [OF conjunct1 [OF first] later_reliable [OF conjunct2 [OF first] assms(2)] g assms(4)] assms(5)
      later_granted g settle_charged [OF conjunct1 [OF first]] by force
qed

end

subsection \<open>A schedule\<close>

record budget_turn =
  bt_others :: "(nat \<times> budget_event) list"
  bt_wait :: nat
  bt_delivery :: delivery
  bt_id :: string
  bt_wall :: int

type_synonym scheduled_budget = "int \<times> budget_store \<times> (nat \<Rightarrow> budget_turn)"

fun other_work :: "(nat \<times> budget_event) list \<Rightarrow> int \<times> budget_store \<Rightarrow> int \<times> budget_store" where
  "other_work [] s = s"
| "other_work ((wait, ev) # evs) (t, st) = other_work evs (t + int wait, budget_apply utc_calendar (t + int wait) ev st)"

definition at_turn :: "(budget_turn \<Rightarrow> int \<Rightarrow> budget_store \<Rightarrow> 'a \<times> budget_store) \<Rightarrow> scheduled_budget \<Rightarrow> 'a \<times> scheduled_budget" where
  "at_turn call s =
     (case s of (c, st, turns) \<Rightarrow>
        case other_work (bt_others (turns 0)) (c, st) of (c1, st1) \<Rightarrow>
          let t = c1 + int (bt_wait (turns 0)) in
          case call (turns 0) t st1 of (r, st2) \<Rightarrow> (r, t, st2, turns \<circ> Suc))"

definition scheduled_reserve :: "bool \<Rightarrow> ReserveRequest \<Rightarrow> scheduled_budget \<Rightarrow> (budget_error + Reservation) \<times> scheduled_budget" where
  "scheduled_reserve pool q = at_turn (\<lambda>b t. Reserve utc_calendar pool (bt_delivery b) t (bt_id b) (bt_wall b) q)"

definition scheduled_settle :: "bool \<Rightarrow> SettleRequest \<Rightarrow> scheduled_budget \<Rightarrow> (budget_error + int64) \<times> scheduled_budget" where
  "scheduled_settle pool x = at_turn (\<lambda>b t. Settle utc_calendar pool (bt_delivery b) t x)"

subsection \<open>Rows are kept\<close>

text \<open>A reservation stays in the table with its principal, run, model and maximum, and does not change once it is closed.\<close>

definition row_kept :: "spend_reservation \<Rightarrow> spend_reservation \<Rightarrow> bool" where
  "row_kept r r' \<longleftrightarrow> principal_id r' = principal_id r \<and> run_id r' = run_id r \<and> model_name r' = model_name r \<and>
     reserved_max_micros r' = reserved_max_micros r \<and> (state r \<noteq> ''reserved'' \<longrightarrow> r' = r)"

definition rows_kept :: "budget_store \<Rightarrow> budget_store \<Rightarrow> bool" where
  "rows_kept st st' \<longleftrightarrow> (\<forall>i r. find_reservation i st = Some r \<longrightarrow> (\<exists>r'. find_reservation i st' = Some r' \<and> row_kept r r'))"

lemma rows_kept_refl: "rows_kept st st"
  by (simp add: rows_kept_def row_kept_def)

lemma rows_kept_trans:
  assumes "rows_kept st st1" and "rows_kept st1 st2"
  shows "rows_kept st st2"
  unfolding rows_kept_def
proof (intro allI impI)
  fix i r assume "find_reservation i st = Some r"
  with assms(1) obtain r1 where r1: "find_reservation i st1 = Some r1" "row_kept r r1" unfolding rows_kept_def by blast
  with assms(2) obtain r2 where r2: "find_reservation i st2 = Some r2" "row_kept r1 r2" unfolding rows_kept_def by blast
  from r1(2) r2(2) have "row_kept r r2" by (auto simp: row_kept_def)
  with r2(1) show "\<exists>r'. find_reservation i st2 = Some r' \<and> row_kept r r'" by blast
qed

lemma rows_move_kept: "rows_move t st st' \<Longrightarrow> rows_kept st st'"
  unfolding rows_move_def rows_kept_def row_moves_def row_kept_def settled_row_def expired_row_def by fastforce

lemma reach_apply_kept:
  assumes "budget_reach utc_calendar c st" and "c \<le> t"
  shows "budget_reach utc_calendar t (budget_apply utc_calendar t ev st) \<and> rows_kept st (budget_apply utc_calendar t ev st)"
  using reach_step [OF assms] budget_apply_rows_move [OF utc_calendar_ok reach_ledger [OF utc_calendar_ok assms(1)] assms(2)]
  by (blast intro: rows_move_kept)

lemma other_work_kept:
  "other_work evs (c, st) = (c', st') \<Longrightarrow> budget_reach utc_calendar c st \<Longrightarrow>
     budget_reach utc_calendar c' st' \<and> c \<le> c' \<and> rows_kept st st'"
proof (induction evs arbitrary: c st)
  case Nil
  then show ?case by (simp add: rows_kept_refl)
next
  case (Cons e evs)
  obtain wait ev where e: "e = (wait, ev)" by (cases e)
  note step = reach_apply_kept [OF Cons.prems(2), of "c + int wait" ev]
  from Cons.IH [of "c + int wait" "budget_apply utc_calendar (c + int wait) ev st"] step Cons.prems(1) show ?case
    by (auto simp: e intro: rows_kept_trans)
qed

subsection \<open>The service provides the contract\<close>

text \<open>A call is one more event: \<open>at_turn\<close> keeps the rows and the reachability of the store.\<close>

lemma at_turn_kept:
  assumes "at_turn call (c, st, turns) = (r, c', st', turns')" and "budget_reach utc_calendar c st"
    and call: "\<And>b t s. snd (call b t s) = budget_apply utc_calendar t (ev b) s"
  shows "budget_reach utc_calendar c' st' \<and> c \<le> c' \<and> rows_kept st st' \<and> turns' = turns \<circ> Suc"
proof -
  obtain c1 st1 where others: "other_work (bt_others (turns 0)) (c, st) = (c1, st1)" by fastforce
  note before = other_work_kept [OF others assms(2)]
  from assms(1) others have c': "c' = c1 + int (bt_wait (turns 0))" and turns: "turns' = turns \<circ> Suc"
    and st': "st' = budget_apply utc_calendar c' (ev (turns 0)) st1"
    using call [of "turns 0" "c1 + int (bt_wait (turns 0))" st1] by (auto simp: at_turn_def Let_def split: prod.splits)
  show ?thesis
    using reach_apply_kept [of c1 st1 c' "ev (turns 0)"] before c' turns st' by (auto intro: rows_kept_trans)
qed

definition budget_sound :: "scheduled_budget \<Rightarrow> bool" where
  "budget_sound s \<longleftrightarrow> (case s of (c, st, turns) \<Rightarrow> budget_reach utc_calendar c st)"

definition budget_later :: "scheduled_budget \<Rightarrow> scheduled_budget \<Rightarrow> bool" where
  "budget_later s s' \<longleftrightarrow> (case (s, s') of ((c, st, turns), (c', st', turns')) \<Rightarrow>
     c \<le> c' \<and> rows_kept st st' \<and> (\<forall>n. \<exists>m. turns' n = turns m))"

definition budget_reliable :: "bool \<Rightarrow> scheduled_budget \<Rightarrow> bool" where
  "budget_reliable pool s \<longleftrightarrow> pool \<and> (\<forall>n. bt_delivery (snd (snd s) n) = Delivered)"

definition budget_granted :: "scheduled_budget \<Rightarrow> ReserveRequest \<Rightarrow> string \<Rightarrow> bool" where
  "budget_granted s q i \<longleftrightarrow> uuidPattern i \<and> (\<exists>r. find_reservation i (fst (snd s)) = Some r \<and> principal_id r = rr_PrincipalID q \<and>
     run_id r = rr_RunID q \<and> model_name r = rr_ModelName q \<and> reserved_max_micros r = sint (rr_ReservedMaxMicros q))"

definition budget_charged :: "scheduled_budget \<Rightarrow> string \<Rightarrow> int64 \<Rightarrow> bool" where
  "budget_charged s i a \<longleftrightarrow> (\<exists>r. find_reservation i (fst (snd s)) = Some r \<and> state r = ''settled'' \<and>
     settled_actual_micros r = Some (sint a) \<and> 0 \<le> sint a \<and> sint a \<le> reserved_max_micros r)"

definition budget_closed :: "scheduled_budget \<Rightarrow> string \<Rightarrow> bool" where
  "budget_closed s i \<longleftrightarrow> (\<exists>r. find_reservation i (fst (snd s)) = Some r \<and> state r \<noteq> ''reserved'')"

lemma Reserve_adds_row:
  assumes "ledger_ok utc_calendar c st" and "c \<le> t" and "Reserve utc_calendar pool d t i wall q st = (Inr r, st')"
  shows "uuidPattern (rsv_ID r) \<and> find_reservation (rsv_ID r) st' = Some (new_row t i (rr_PrincipalID q) (rr_RunID q) (rr_ModelName q)
    (sint (rr_ReservedMaxMicros q)) (sint (ttlSeconds (rr_TTL q))))"
proof -
  from assms(3) have pd: "pool" "d = Delivered" by (auto simp: Reserve_def query_def Let_def split: if_splits delivery.splits)
  have i: "uuidPattern i"
  proof (rule ccontr)
    assume "\<not> uuidPattern i"
    moreover have "j = i" if "reserve_budget utc_calendar t i p run m a ttl st = Inr (j, s)" for j s p run m a ttl
      using that unfolding reserve_budget_eq [OF utc_calendar_ok assms(1,2)] by auto
    ultimately show False
      using assms(3) by (fastforce simp: pd Reserve_def Let_def query_def split: if_splits sum.splits prod.splits)
  qed
  then have r: "rsv_ID r = i" and new: "unused i (rr_RunID q) st"
    and st': "spend_reservations st' = spend_reservations st @
        [new_row t i (rr_PrincipalID q) (rr_RunID q) (rr_ModelName q) (sint (rr_ReservedMaxMicros q)) (sint (ttlSeconds (rr_TTL q)))]"
    using assms(3) pd by (auto simp: Reserve_delivered [OF utc_calendar_ok assms(1,2) i])
  have "find (\<lambda>r. reservation_id r = i) (spend_reservations st) = None"
    using new by (auto simp: find_None_iff unused_def)
  then show ?thesis
    using i unfolding find_reservation_def st' r by (simp add: find_append new_row_def)
qed

lemma Settle_charges_row:
  assumes led: "ledger_ok utc_calendar c st" and t: "c \<le> t" and run: "Settle utc_calendar pool d t x st = (Inr a, st')"
  obtains r where "find_reservation (sr_ReservationID x) st' = Some r" "state r = ''settled''"
    "settled_actual_micros r = Some (sint a)" "0 \<le> sint a" "sint a \<le> reserved_max_micros r"
proof -
  let ?i = "sr_ReservationID x"
  from run have pd: "pool" "d = Delivered" and i: "uuidPattern ?i"
    and arg: "case sr_ActualMicros x of None \<Rightarrow> True | Some a \<Rightarrow> 0 \<le>s a"
    by (auto simp: Settle_def query_def int64_order split: if_splits delivery.splits option.splits)
  from run obtain y s where sql: "settle_budget utc_calendar t ?i (map_option sint (sr_ActualMicros x)) st = Inr (y, s)"
    by (auto simp: Settle_def query_def pd split: if_splits sum.splits prod.splits)
  obtain r where r: "find_reservation ?i st = Some r" "state r = ''reserved''"
    using sql by (auto simp: settle_budget_def split: if_splits option.splits)
  obtain st'' b where run': "Settle utc_calendar True Delivered t \<lparr>sr_ReservationID = ?i, sr_ActualMicros = sr_ActualMicros x\<rparr> st = (Inr b, st'')"
    and b: "0 \<le> sint b" "sint b \<le> reserved_max_micros r"
    and rows: "spend_reservations st'' = update_rows ?i (settled_row (sint b) t) (spend_reservations st)"
    using Settle_delivered [OF utc_calendar_ok led t i r arg] by metis
  have same: "b = a" "st'' = st'" using run run' pd by (cases x; simp)+
  have "find_reservation ?i st' = Some (settled_row (sint a) t r)"
    using find_update_rows [where f = "settled_row (sint a) t" and i = ?i and j = ?i and st = st' and rows = "spend_reservations st"]
      r(1) rows same by (simp add: find_reservation_def)
  then show thesis by (rule that) (use b same in simp_all)
qed

lemma Settle_closes_row:
  assumes led: "ledger_ok utc_calendar c st" and t: "c \<le> t" and i: "uuidPattern i" and r: "find_reservation i st = Some r" and a: "0 \<le>s a"
    and run: "Settle utc_calendar True Delivered t \<lparr>sr_ReservationID = i, sr_ActualMicros = Some a\<rparr> st = (res, st')"
  shows "\<exists>r'. find_reservation i st' = Some r' \<and> state r' \<noteq> ''reserved''"
proof (cases "state r = ''reserved''")
  case True
  obtain x st1 where "Settle utc_calendar True Delivered t \<lparr>sr_ReservationID = i, sr_ActualMicros = Some a\<rparr> st = (Inr x, st1)"
    using Settle_delivered [OF utc_calendar_ok led t i r True, of "Some a"] a by (metis option.case(2))
  then have "Settle utc_calendar True Delivered t \<lparr>sr_ReservationID = i, sr_ActualMicros = Some a\<rparr> st = (Inr x, st')" using run by simp
  from Settle_charges_row [OF led t this] obtain r' where "find_reservation i st' = Some r'" "state r' = ''settled''"
    unfolding SettleRequest.select_convs .
  then show ?thesis by simp
next
  case False
  then show ?thesis using Settle_closed [OF i r False] run r by (metis snd_conv)
qed


lemma at_turn_sound_later:
  assumes "budget_sound s" and "\<And>b t s. snd (call b t s) = budget_apply utc_calendar t (ev b) s"
  shows "budget_sound (snd (at_turn call s)) \<and> budget_later s (snd (at_turn call s))"
proof -
  obtain c st turns where s: "s = (c, st, turns)" by (cases s)
  obtain r c' st' turns' where run: "at_turn call (c, st, turns) = (r, c', st', turns')" by (metis prod_cases4)
  show ?thesis
    using at_turn_kept [OF run _ assms(2)] assms(1) by (auto simp: s run budget_sound_def budget_later_def)
qed

text \<open>The state in which the call of a turn runs.\<close>

lemma at_turn_call:
  assumes "at_turn call (c, st, turns) = (r, c', st', turns')" and "budget_reach utc_calendar c st"
  obtains c1 st1 where "call (turns 0) c' st1 = (r, st')" "ledger_ok utc_calendar c1 st1" "c1 \<le> c'" "rows_kept st st1"
proof -
  obtain c1 st1 where others: "other_work (bt_others (turns 0)) (c, st) = (c1, st1)" by fastforce
  note before = other_work_kept [OF others assms(2)]
  show thesis
    by (rule that [of st1 c1])
      (use assms(1) others before reach_ledger [OF utc_calendar_ok] in \<open>auto simp: at_turn_def Let_def split: prod.splits\<close>)
qed

interpretation scheduled_service: budget_contract budget_sound budget_later "budget_reliable pool" budget_granted budget_charged budget_closed
  "scheduled_reserve pool" "scheduled_settle pool" for pool
proof
  fix s s' :: scheduled_budget and q x i a r
  obtain c st turns where s: "s = (c, st, turns)" by (cases s)
  obtain c' st' turns' where s': "s' = (c', st', turns')" by (cases s')
  show "budget_sound s \<Longrightarrow> budget_sound (snd (scheduled_reserve pool q s)) \<and> budget_later s (snd (scheduled_reserve pool q s))"
    unfolding scheduled_reserve_def
    by (rule at_turn_sound_later [where ev = "\<lambda>b. Ev_Reserve pool (bt_delivery b) (bt_id b) (bt_wall b) q"]) simp_all
  show "budget_sound s \<Longrightarrow> budget_sound (snd (scheduled_settle pool x s)) \<and> budget_later s (snd (scheduled_settle pool x s))"
    unfolding scheduled_settle_def by (rule at_turn_sound_later [where ev = "\<lambda>b. Ev_Settle pool (bt_delivery b) x"]) simp_all
  show "budget_later s s' \<Longrightarrow> budget_reliable pool s \<Longrightarrow> budget_reliable pool s'"
    by (auto simp: s s' budget_later_def budget_reliable_def) metis
  show "budget_later s s' \<Longrightarrow> budget_granted s q i \<Longrightarrow> budget_granted s' q i"
    by (fastforce simp: s s' budget_later_def budget_granted_def rows_kept_def row_kept_def)
  show "budget_later s s' \<Longrightarrow> budget_charged s i a \<Longrightarrow> budget_charged s' i a"
    by (fastforce simp: s s' budget_later_def budget_charged_def rows_kept_def row_kept_def)
  show "budget_later s s' \<Longrightarrow> budget_closed s i \<Longrightarrow> budget_closed s' i"
    by (fastforce simp: s s' budget_later_def budget_closed_def rows_kept_def row_kept_def)
  show "budget_granted s' q (rsv_ID r)" if "budget_sound s" "scheduled_reserve pool q s = (Inr r, s')"
  proof -
    from that have reach: "budget_reach utc_calendar c st" by (simp add: s budget_sound_def)
    from at_turn_call [OF that(2) [unfolded scheduled_reserve_def s s'] reach] obtain c1 st1 where
      "Reserve utc_calendar pool (bt_delivery (turns 0)) c' (bt_id (turns 0)) (bt_wall (turns 0)) q st1 = (Inr r, st')"
      "ledger_ok utc_calendar c1 st1" "c1 \<le> c'" .
    from Reserve_adds_row [OF this(2,3,1)] show ?thesis by (simp add: s' budget_granted_def new_row_def)
  qed
  show "budget_charged s' (sr_ReservationID x) a" if "budget_sound s" "scheduled_settle pool x s = (Inr a, s')"
  proof -
    from that have reach: "budget_reach utc_calendar c st" by (simp add: s budget_sound_def)
    from at_turn_call [OF that(2) [unfolded scheduled_settle_def s s'] reach] obtain c1 st1 where
      "Settle utc_calendar pool (bt_delivery (turns 0)) c' x st1 = (Inr a, st')" "ledger_ok utc_calendar c1 st1" "c1 \<le> c'" .
    from Settle_charges_row [OF this(2,3,1)] show ?thesis unfolding budget_charged_def s' fst_conv snd_conv by metis
  qed
  show "budget_closed (snd (scheduled_settle pool \<lparr>sr_ReservationID = i, sr_ActualMicros = Some a\<rparr> s)) i"
    if "budget_sound s" "budget_reliable pool s" "budget_granted s q i" "0 \<le>s a"
  proof -
    from that have reach: "budget_reach utc_calendar c st" and pd: "pool" "bt_delivery (turns 0) = Delivered"
      by (simp_all add: s budget_sound_def budget_reliable_def)
    obtain res c2 st2 turns2 where run: "scheduled_settle pool \<lparr>sr_ReservationID = i, sr_ActualMicros = Some a\<rparr> s = (res, c2, st2, turns2)"
      by (metis prod_cases4)
    from at_turn_call [OF run [unfolded scheduled_settle_def s] reach] obtain c1 st1 where
      settle: "Settle utc_calendar pool (bt_delivery (turns 0)) c2 \<lparr>sr_ReservationID = i, sr_ActualMicros = Some a\<rparr> st1 = (res, st2)"
      and led: "ledger_ok utc_calendar c1 st1" "c1 \<le> c2" and kept: "rows_kept st st1" .
    from that(3) kept obtain r1 where row: "uuidPattern i" "find_reservation i st1 = Some r1"
      unfolding budget_granted_def rows_kept_def s fst_conv snd_conv by blast
    have "\<exists>r. find_reservation i st2 = Some r \<and> state r \<noteq> ''reserved''"
      using Settle_closes_row [OF led row that(4)] settle pd by simp
    then show ?thesis unfolding run budget_closed_def fst_conv snd_conv .
  qed
qed

end
