(* ===== verification/Spending.thy ===== *)
theory Spending
  imports Gateway BudgetContract
begin

section \<open>The server on its budget\<close>

text \<open>
  The HTTP handler composed with a budget service that keeps the contract \<open>budget_contract\<close>. \<open>explained\<close> reads the calls of a request
  against the state of the service: what was granted is there, what was settled is charged, and what was granted and settled
  afterwards is closed. The locale \<open>budgeted_server\<close> is a server whose \<open>Reserve\<close> and \<open>Settle\<close> are that service and whose other
  collaborators leave it alone; it is interpreted on the modelled service under an arbitrary schedule.
\<close>

definition granted_in :: "string \<Rightarrow> call list \<Rightarrow> bool" where
  "granted_in i calls \<longleftrightarrow> (\<exists>q rsv. Reserved q (Inr rsv) \<in> set calls \<and> rsv_ID rsv = i)"

text \<open>A settlement with a non-negative amount stands somewhere after the reservation was granted.\<close>

fun settles :: "string \<Rightarrow> call \<Rightarrow> bool" where
  "settles i (Settled x r) \<longleftrightarrow> sr_ReservationID x = i \<and> (\<exists>a. sr_ActualMicros x = Some a \<and> 0 \<le>s a)"
| "settles i _ \<longleftrightarrow> False"

definition settled_after :: "string \<Rightarrow> call list \<Rightarrow> bool" where
  "settled_after i calls \<longleftrightarrow> (\<exists>pre c post. calls = pre @ c # post \<and> granted_in i pre \<and> settles i c)"

lemma granted_in_snoc: "granted_in i (calls @ [c]) \<longleftrightarrow> granted_in i calls \<or> granted_in i [c]"
  by (auto simp: granted_in_def)

lemma settled_after_snoc: "settled_after i (calls @ [c]) \<longleftrightarrow> settled_after i calls \<or> (granted_in i calls \<and> settles i c)"
proof -
  have "settled_after i (calls @ [c]) \<longleftrightarrow> (\<exists>pre d post. calls @ [c] = pre @ d # post \<and> granted_in i pre \<and> settles i d)"
    by (simp add: settled_after_def)
  also have "\<dots> \<longleftrightarrow> settled_after i calls \<or> (granted_in i calls \<and> settles i c)"
  proof (intro iffI)
    assume "\<exists>pre d post. calls @ [c] = pre @ d # post \<and> granted_in i pre \<and> settles i d"
    then obtain pre d post where split: "calls @ [c] = pre @ d # post" and g: "granted_in i pre" "settles i d" by blast
    show "settled_after i calls \<or> (granted_in i calls \<and> settles i c)"
    proof (cases post rule: rev_cases)
      case Nil
      then show ?thesis using split g by auto
    next
      case (snoc post' e)
      then have "calls = pre @ d # post'" using split by auto
      then show ?thesis using g unfolding settled_after_def by blast
    qed
  next
    assume "settled_after i calls \<or> (granted_in i calls \<and> settles i c)"
    then show "\<exists>pre d post. calls @ [c] = pre @ d # post \<and> granted_in i pre \<and> settles i d"
      unfolding settled_after_def by fastforce
  qed
  finally show ?thesis .
qed

locale budgeted_server = budget_contract sound later reliable granted charged closed reserve settle_up
  for sound :: "'s \<Rightarrow> bool" and later reliable granted charged closed reserve settle_up +
  fixes deps :: "'w Dependencies" and bud :: "'w \<Rightarrow> 's"
  assumes later_refl: "later s s"
    and reserves: "dp_Reserve deps q w = (b, w') \<Longrightarrow> reserve q (bud w) = (b, bud w')"
    and settlements: "dp_Settle deps t w = (c, w') \<Longrightarrow> settle_up t (bud w) = (c, bud w')"
    and auth_apart: "dp_Authenticate deps h w = (a, w') \<Longrightarrow> bud w' = bud w"
    and append_apart: "dp_Append deps e w = (r, w') \<Longrightarrow> bud w' = bud w"
    and chat_apart: "dp_ChatCompletions deps x w = (d, w') \<Longrightarrow> bud w' = bud w"
    and now_apart: "dp_Now deps w = (u, w') \<Longrightarrow> bud w' = bud w"
    and random_apart: "dp_Random deps w = (v, w') \<Longrightarrow> bud w' = bud w"
begin

definition explained :: "bool \<Rightarrow> 'w \<times> call list \<Rightarrow> bool" where
  "explained trusted s \<longleftrightarrow> sound (bud (fst s)) \<and> (trusted \<longrightarrow> reliable (bud (fst s))) \<and>
     (\<forall>q rsv. Reserved q (Inr rsv) \<in> set (snd s) \<longrightarrow> granted (bud (fst s)) q (rsv_ID rsv)) \<and>
     (\<forall>x a. Settled x (Inr a) \<in> set (snd s) \<longrightarrow> charged (bud (fst s)) (sr_ReservationID x) a) \<and>
     (trusted \<longrightarrow> (\<forall>i. settled_after i (snd s) \<longrightarrow> closed (bud (fst s)) i))"

lemma explained_step:
  assumes ex: "explained trusted s" and snd: "sound (bud w')" and later: "later (bud (fst s)) (bud w')"
    and granted: "\<And>q rsv. c = Reserved q (Inr rsv) \<Longrightarrow> granted (bud w') q (rsv_ID rsv)"
    and charged: "\<And>x a. c = Settled x (Inr a) \<Longrightarrow> charged (bud w') (sr_ReservationID x) a"
    and closed: "\<And>i. trusted \<Longrightarrow> granted_in i (snd s) \<Longrightarrow> settles i c \<Longrightarrow> closed (bud w') i"
  shows "explained trusted (w', snd s @ [c])"
  using ex later_reliable [OF later] later_granted [OF later] later_charged [OF later] later_closed [OF later] assms(2,4-6)
  unfolding explained_def by (auto simp: settled_after_snoc)

lemma record_apart:
  assumes "\<And>w r w'. f x w = (r, w') \<Longrightarrow> bud w' = bud w" and "\<And>r q rsv. mk x r \<noteq> Reserved q (Inr rsv)"
    and "\<And>r y a. mk x r \<noteq> Settled y a" and ex: "explained trusted s"
  shows "explained trusted (snd (record_call f mk x s))"
proof -
  obtain r w' where f: "f x (fst s) = (r, w')" by (rule prod.exhaust)
  have "\<not> settles i (mk x r)" for i using assms(3) by (cases "mk x r") auto
  then have "explained trusted (w', snd s @ [mk x r])"
    using assms(1) [OF f] assms(2,3) ex by (intro explained_step [OF ex]) (auto simp: explained_def later_refl)
  then show ?thesis by (simp add: record_call_def f)
qed

lemma reserve_explained: "explained trusted s \<Longrightarrow> explained trusted (snd (record_call (dp_Reserve deps) Reserved q s))"
proof -
  assume ex: "explained trusted s"
  obtain r w' where f: "dp_Reserve deps q (fst s) = (r, w')" by (rule prod.exhaust)
  note run = reserves [OF f]
  have ok: "sound (bud (fst s))" using ex by (simp add: explained_def)
  have "explained trusted (w', snd s @ [Reserved q r])"
    using reserve_later [OF ok, of q] reserve_granted [OF ok, of q] run by (intro explained_step [OF ex]) auto
  then show ?thesis by (simp add: record_call_def f)
qed

lemma settle_explained: "explained trusted s \<Longrightarrow> explained trusted (snd (record_call (dp_Settle deps) Settled x s))"
proof -
  assume ex: "explained trusted s"
  obtain r w' where f: "dp_Settle deps x (fst s) = (r, w')" by (rule prod.exhaust)
  note run = settlements [OF f]
  have ok: "sound (bud (fst s))" using ex by (simp add: explained_def)
  have "closed (bud w') i" if t: "trusted" and g: "granted_in i (snd s)" and c: "settles i (Settled x r)" for i
  proof -
    from g ex obtain q where "granted (bud (fst s)) q i" by (auto simp: granted_in_def explained_def)
    moreover obtain a where "x = \<lparr>sr_ReservationID = i, sr_ActualMicros = Some a\<rparr>" "0 \<le>s a" using c by (cases x) auto
    ultimately show ?thesis using settle_closed [OF ok] ex t run by (fastforce simp: explained_def)
  qed
  then have "explained trusted (w', snd s @ [Settled x r])"
    using settle_later [OF ok, of x] settle_charged [OF ok, of x] run by (intro explained_step [OF ex]) auto
  then show ?thesis by (simp add: record_call_def f)
qed

sublocale keeps: server_simulation "traced deps" "traced deps" "\<lambda>s s'. s = s' \<and> explained trusted s" for trusted
proof -
  have rel: "same_arg (result_sim (\<lambda>s s'. s = s' \<and> explained trusted s)) g g"
    if "\<And>x s. explained trusted s \<Longrightarrow> explained trusted (snd (g x s))" for g :: "'x \<Rightarrow> 'w \<times> call list \<Rightarrow> 'y \<times> 'w \<times> call list"
    using that by (auto simp: rel_fun_def rel_prod_sel)
  have quiet: "result_sim (\<lambda>s s'. s = s' \<and> explained trusted s) (quiet f) (quiet f)"
    if "\<And>w r w'. f w = (r, w') \<Longrightarrow> bud w' = bud w" for f :: "'w \<Rightarrow> 'y \<times> 'w"
    using that by (auto simp: rel_fun_def rel_prod_sel quiet_def explained_def split: prod.splits)
  show "server_simulation (traced deps) (traced deps) (\<lambda>s s'. s = s' \<and> explained trusted s)"
    by unfold_locales
      (simp_all add: rel quiet reserve_explained settle_explained record_apart auth_apart append_apart chat_apart now_apart random_apart)
qed

lemma run_explained:
  assumes "sound (bud w)" and "handleChatCompletions prim (traced deps) request (w, []) = (out, w', calls)"
  shows "explained (reliable (bud w)) (w', calls)"
proof -
  have "explained (reliable (bud w)) (w, [])" using assms(1) by (simp add: explained_def settled_after_def)
  then show ?thesis
    using keeps.same_response [where trusted = "reliable (bud w)" and v = "(w, [])" and w = "(w, [])"] assms(2) by auto
qed

end


subsection \<open>On the modelled service\<close>

definition with_budget :: "bool \<Rightarrow> 'o Dependencies \<Rightarrow> (scheduled_budget \<times> 'o) Dependencies" where
  "with_budget pool deps = \<lparr>
     dp_Authenticate = beside (dp_Authenticate deps), dp_Policy = dp_Policy deps, dp_Detect = dp_Detect deps,
     dp_Reserve = (\<lambda>q s. case scheduled_reserve pool q (fst s) of (r, b) \<Rightarrow> (r, b, snd s)),
     dp_Settle = (\<lambda>x s. case scheduled_settle pool x (fst s) of (r, b) \<Rightarrow> (r, b, snd s)),
     dp_Append = beside (dp_Append deps), dp_ChatCompletions = beside (dp_ChatCompletions deps), dp_Digester = dp_Digester deps,
     dp_Models = dp_Models deps, dp_MaxRequestBytes = dp_MaxRequestBytes deps, dp_MaxResponseBytes = dp_MaxResponseBytes deps,
     dp_ResolvedBackend = dp_ResolvedBackend deps, dp_ConfigHash = dp_ConfigHash deps,
     dp_Now = beside (\<lambda>_. dp_Now deps) (), dp_BudgetTTL = dp_BudgetTTL deps, dp_Random = beside (\<lambda>_. dp_Random deps) (),
     dp_Version = dp_Version deps\<rparr>"

lemma budget_later_refl: "budget_later s s"
  by (auto simp: budget_later_def rows_kept_refl split: prod.split)

interpretation spending: budgeted_server budget_sound budget_later "budget_reliable pool" budget_granted budget_charged budget_closed
    "scheduled_reserve pool" "scheduled_settle pool" "with_budget pool deps" fst for pool deps
  by unfold_locales (auto simp: with_budget_def beside_def budget_later_refl split: prod.splits)

text \<open>A granted reservation is settled later in the same run.\<close>

lemma settles_in:
  assumes "\<exists>a r. filter is_settle rest = [Settled \<lparr>sr_ReservationID = i, sr_ActualMicros = Some a\<rparr> r] \<and> 0 \<le>s a \<and> a \<le>s m"
    and "granted_in i pre"
  shows "settled_after i (pre @ rest)"
proof -
  from assms(1) obtain a r where f: "filter is_settle rest = [Settled \<lparr>sr_ReservationID = i, sr_ActualMicros = Some a\<rparr> r]" and a: "0 \<le>s a"
    by blast
  then have "Settled \<lparr>sr_ReservationID = i, sr_ActualMicros = Some a\<rparr> r \<in> set (filter is_settle rest)" by simp
  then obtain us vs where "rest = us @ Settled \<lparr>sr_ReservationID = i, sr_ActualMicros = Some a\<rparr> r # vs"
    by (auto simp: in_set_conv_decomp)
  moreover have "granted_in i (pre @ us)" using assms(2) by (auto simp: granted_in_def)
  ultimately show ?thesis
    unfolding settled_after_def using a by (intro exI [of _ "pre @ us"] exI [of _ "Settled \<lparr>sr_ReservationID = i, sr_ActualMicros = Some a\<rparr> r"] exI [of _ vs]) simp
qed

lemma chat_trace_settles:
  assumes "chat_trace prim deps request calls out" and "Reserved q (Inr rsv) \<in> set calls"
  shows "settled_after (rsv_ID rsv) calls"
proof -
  have first: "settled_after (rsv_ID x) (Authenticated (Inr pr) # Reserved q' (Inr x) # rest)"
    if "\<exists>a r. filter is_settle rest = [Settled \<lparr>sr_ReservationID = rsv_ID x, sr_ActualMicros = Some a\<rparr> r] \<and> 0 \<le>s a \<and> a \<le>s m"
    for pr q' x rest m
    using settles_in [OF that, of "[Authenticated (Inr pr), Reserved q' (Inr x)]"] by (auto simp: granted_in_def)
  from assms(1) show ?thesis
  proof cases
    case (stopped pr chatReq rx reserve x rest)
    have "Reserved q (Inr rsv) \<notin> set rest" using stopped(4) by (auto simp: stopped_early_def)
    then have "x = rsv" using assms(2) stopped(1) by auto
    moreover have "\<exists>a r. filter is_settle rest = [Settled \<lparr>sr_ReservationID = rsv_ID x, sr_ActualMicros = Some a\<rparr> r] \<and> 0 \<le>s a \<and> a \<le>s 0"
      using stopped_early_calls(2) [OF stopped(4)] by fastforce
    ultimately show ?thesis using first stopped(1) by simp
  next
    case (called pr chatReq rx reserve x rest)
    have "Reserved q (Inr rsv) \<notin> set rest"
      using called(4) by (fastforce simp: started_def backend_called_def accounted_def)
    then have "x = rsv" using assms(2) called(1) by auto
    then show ?thesis using first [OF started_calls [OF called(4)]] called(1) by simp
  next
    case (denied pr model rest)
    then show ?thesis using denial_filters [OF denied(2)] assms(2) by auto
  next
    case (over_budget pr chatReq rx reserve rest)
    then show ?thesis using denial_filters [OF over_budget(3)] assms(2) by auto
  qed (use assms(2) in auto)
qed

subsection \<open>A sample run\<close>

text \<open>A funded caller, a schedule in which nothing goes wrong, and a request that is answered.\<close>

definition rich_store :: budget_store where
  "rich_store = budget_apply utc_calendar sample_time (Ev_SetBudget sample_principal 9223372036854775807 9223372036854775807)
     (budget_apply utc_calendar sample_time (Ev_Status sample_principal ''active'') empty_store)"

definition calm_turn :: budget_turn where
  "calm_turn = \<lparr>bt_others = [], bt_wait = 0, bt_delivery = Delivered, bt_id = sample_hold, bt_wall = 0\<rparr>"

lemma rich_reach: "budget_reach utc_calendar sample_time rich_store"
  unfolding rich_store_def by (intro reach_step [where t = sample_time and t' = sample_time, OF _ order_refl] reach_empty)

definition rich_account :: budget_account where
  "rich_account = sample_account\<lparr>daily_limit_micros := 9223372036854775807, monthly_limit_micros := 9223372036854775807\<rparr>"

lemma rich_store_eq:
  "rich_store = \<lparr>principal_status = [sample_principal \<mapsto> ''active''], budget_accounts = [sample_principal \<mapsto> rich_account], spend_reservations = []\<rparr>"
  using utc_now [of sample_time]
  by (simp add: rich_store_def rich_account_def sample_account_def empty_store_def admin_set_budget_def update_account_def
      account_in_bigint_def in_bigint_def account_check_def)

lemma rich_roll: "budget_roll_periods utc_calendar rich_account sample_time = rich_account"
  using utc_now [of sample_time] by (simp add: budget_roll_periods_def rich_account_def sample_account_def)

definition rich_request :: "int64 \<Rightarrow> ReserveRequest" where
  "rich_request reserve = \<lparr>rr_PrincipalID = sample_principal, rr_RunID = newUUID [], rr_ModelName = ''m1'', rr_ReservedMaxMicros = reserve,
     rr_TTL = 120000000000\<rparr>"

lemma rich_ttl: "ttlSeconds 120000000000 = 120"
  by code_simp

lemma rich_request_ok:
  assumes "0 <s reserve"
  shows "reserve_request_ok (rich_request reserve)"
proof -
  have "uuidPattern sample_principal"
    by (simp add: sample_principal_def uuidPattern_def char_class_defs pattern_defs)
  moreover have "budget_modelPattern ''m1''" using sample_patterns(4) by (simp add: reserve_request_ok_def sample_reserve_def)
  ultimately show ?thesis
    using newUUID_pattern [of "[]"] assms by (simp add: reserve_request_ok_def rich_request_def rich_ttl int64_order)
qed

lemma rich_reserve:
  assumes "0 <s reserve"
  shows "\<exists>rsv s1. scheduled_reserve True (rich_request reserve) (sample_time, rich_store, \<lambda>_. calm_turn) = (Inr rsv, s1)"
proof -
  have "\<exists>rsv s. Reserve utc_calendar True Delivered sample_time sample_hold 0 (rich_request reserve) rich_store = (Inr rsv, s)"
    unfolding Reserve_delivered [OF utc_calendar_ok reach_ledger [OF utc_calendar_ok rich_reach] order_refl sample_patterns(3)]
    using rich_request_ok [OF assms] sint_in_range [of reserve] rich_roll
    by (simp add: rich_store_eq rich_request_def fits_def unused_def rich_account_def sample_account_def)
  then show ?thesis by (auto simp: scheduled_reserve_def at_turn_def calm_turn_def Let_def)
qed

lemma calm_settle:
  assumes "scheduled_reserve True q (sample_time, rich_store, \<lambda>_. calm_turn) = (Inr rsv, s1)" and "0 \<le>s a"
  shows "\<exists>x s2. scheduled_settle True \<lparr>sr_ReservationID = rsv_ID rsv, sr_ActualMicros = Some a\<rparr> s1 = (Inr x, s2)"
proof -
  obtain t st where s1: "s1 = (t, st, \<lambda>_. calm_turn)"
    and res: "Reserve utc_calendar True Delivered sample_time sample_hold 0 q rich_store = (Inr rsv, st)" and t: "t = sample_time"
    using assms(1) by (auto simp: scheduled_reserve_def at_turn_def calm_turn_def Let_def o_def split: prod.splits)
  note led = reach_ledger [OF utc_calendar_ok rich_reach]
  have led': "ledger_ok utc_calendar sample_time st"
    using budget_apply_ledger [OF utc_calendar_ok led order_refl, of "Ev_Reserve True Delivered sample_hold 0 q"] res by simp
  have row: "uuidPattern (rsv_ID rsv)" "find_reservation (rsv_ID rsv) st = Some (new_row sample_time sample_hold (rr_PrincipalID q) (rr_RunID q)
      (rr_ModelName q) (sint (rr_ReservedMaxMicros q)) (sint (ttlSeconds (rr_TTL q))))"
    using Reserve_adds_row [OF led order_refl res] by simp_all
  obtain x st2 where "Settle utc_calendar True Delivered sample_time \<lparr>sr_ReservationID = rsv_ID rsv, sr_ActualMicros = Some a\<rparr> st = (Inr x, st2)"
    by (rule Settle_delivered [OF utc_calendar_ok led' order_refl row, of "Some a"]) (use assms(2) in \<open>simp_all add: new_row_def\<close>)
  then show ?thesis by (simp add: s1 t scheduled_settle_def at_turn_def calm_turn_def Let_def)
qed

lemma rich_run:
  "\<exists>request s'. handleChatCompletions sample_prim (with_budget True sample_deps) request ((sample_time, rich_store, \<lambda>_. calm_turn), ()) =
     (\<lparr>out_Status = 200, out_Body = sample_reply\<rparr>, s')"
proof -
  obtain body where body: "ParseChatRequest sample_parse body = Inr sample_chat" "length body < 2 ^ 20" using sample_body by blast
  obtain reserve where est: "EstimateMaxCostMicros (mr_Price sample_route) (1 + of_nat (length body div 4)) = Inr reserve"
    using sample_estimate [OF body(2)] by auto
  have "sint (len64 sample_reply) = int (length sample_reply)"
    unfolding len64_def using sample_reply_length by (intro sint_of_nat) simp
  then have small: "\<not> 4096 <s len64 sample_reply"
    using sample_reply_length by (simp add: int64_order)
  have pos: "0 <s reserve" by (rule estimate_positive [OF est])
  obtain rsv s1 where res: "scheduled_reserve True (rich_request reserve) (sample_time, rich_store, \<lambda>_. calm_turn) = (Inr rsv, s1)"
    using rich_reserve [OF pos] by blast
  define cost where "cost = actual_cost sample_route reserve (cr_Usage sample_result)"
  have "0 \<le>s cost" unfolding cost_def using actual_cost_range [of reserve] pos by (simp add: int64_order)
  from calm_settle [OF res this] obtain x s2 where
    paid: "scheduled_settle True \<lparr>sr_ReservationID = rsv_ID rsv, sr_ActualMicros = Some cost\<rparr> s1 = (Inr x, s2)" by blast
  have "\<exists>s'. handleChatCompletions sample_prim (with_budget True sample_deps) (sample_post body) ((sample_time, rich_store, \<lambda>_. calm_turn), ()) =
     (\<lparr>out_Status = 200, out_Body = sample_reply\<rparr>, s')"
    using body(1) small_body [OF body(2)] est small sample_allowed sample_receipt res [unfolded rich_request_def] paid [unfolded cost_def]
    by (cases s2) (simp add: handler_defs with_budget_def beside_def sample_deps_def sample_prim_def sample_post_def sample_chat_def sample_result_def
        sample_route_def sample_server_principal_def AuthMethodAPIKey_def AuthMethodOIDC_def Let_def)
  then show ?thesis by blast
qed

subsection \<open>Properties\<close>

text \<open>
  C6. What a request costs. With the modelled budget service behind the handler, under any schedule of other clients' work, waiting
  times and lost requests or replies, the store stays one that the service can reach, so that no budget is overspent. Every
  reservation the request was granted is in the table for its run, principal and amount, and when no message is lost it is not left
  open. After a 200 response it is settled, for the amount that the \<open>run_completed\<close> event of the run records.
\<close>

theorem request_settles_budget:
  assumes "budget_reach utc_calendar c st"
    and "handleChatCompletions prim (with_budget pool deps) request ((c, st, turns), v) = (out, (c', st', turns'), v')"
  shows "budget_reach utc_calendar c' st' \<and>
    (\<exists>calls. handleChatCompletions prim (traced (with_budget pool deps)) request (((c, st, turns), v), []) = (out, ((c', st', turns'), v'), calls) \<and>
      (\<forall>q rsv. Reserved q (Inr rsv) \<in> set calls \<longrightarrow>
         (\<exists>r. find_reservation (rsv_ID rsv) st' = Some r \<and> run_id r = rr_RunID q \<and> principal_id r = rr_PrincipalID q \<and>
            reserved_max_micros r = sint (rr_ReservedMaxMicros q) \<and>
            (pool \<and> (\<forall>n. bt_delivery (turns n) = Delivered) \<longrightarrow> state r \<noteq> ''reserved''))) \<and>
      (out_Status out = 200 \<longrightarrow> (\<exists>fin rc r i a. last calls = Appended fin (Inr rc) \<and> EventType fin = EventRunCompleted \<and>
         find_reservation i st' = Some r \<and> run_id r = RunID fin \<and> principal_id r = PrincipalID fin \<and> state r = ''settled'' \<and>
         event_ActualCostMicros fin = Some a \<and> settled_actual_micros r = Some (sint a) \<and> sint a \<le> reserved_max_micros r)))"
proof -
  let ?d = "with_budget pool deps"
  obtain calls where run: "handleChatCompletions prim (traced ?d) request (((c, st, turns), v), []) = (out, ((c', st', turns'), v'), calls)"
    using recorded_run [OF assms(2)] .
  have trace: "chat_trace prim ?d request calls out" using chat_completions_traced [OF run] by simp
  define trusted where "trusted = budget_reliable pool (c, st, turns)"
  have "spending.explained pool trusted (((c', st', turns'), v'), calls)"
    using spending.run_explained [OF _ run] assms(1) by (simp add: trusted_def budget_sound_def)
  then have reach: "budget_reach utc_calendar c' st'"
    and granted: "\<And>q rsv. Reserved q (Inr rsv) \<in> set calls \<Longrightarrow> budget_granted (c', st', turns') q (rsv_ID rsv)"
    and charged: "\<And>x a. Settled x (Inr a) \<in> set calls \<Longrightarrow> budget_charged (c', st', turns') (sr_ReservationID x) a"
    and closed: "\<And>i. trusted \<Longrightarrow> settled_after i calls \<Longrightarrow> budget_closed (c', st', turns') i"
    unfolding spending.explained_def by (simp_all add: budget_sound_def)
  have rows: "\<exists>r. find_reservation (rsv_ID rsv) st' = Some r \<and> run_id r = rr_RunID q \<and> principal_id r = rr_PrincipalID q \<and>
      reserved_max_micros r = sint (rr_ReservedMaxMicros q) \<and> (pool \<and> (\<forall>n. bt_delivery (turns n) = Delivered) \<longrightarrow> state r \<noteq> ''reserved'')"
    if c: "Reserved q (Inr rsv) \<in> set calls" for q rsv
    using granted [OF c] closed [OF _ chat_trace_settles [OF trace c]]
    by (auto simp: budget_granted_def budget_closed_def trusted_def budget_reliable_def)
  have success: "\<exists>fin rc r i a. last calls = Appended fin (Inr rc) \<and> EventType fin = EventRunCompleted \<and>
      find_reservation i st' = Some r \<and> run_id r = RunID fin \<and> principal_id r = PrincipalID fin \<and> state r = ''settled'' \<and>
      event_ActualCostMicros fin = Some a \<and> settled_actual_micros r = Some (sint a) \<and> sint a \<le> reserved_max_micros r"
    if ok: "out_Status out = 200"
    using trace ok
  proof (rule chat_trace_success)
    fix pr chatReq rx reserve rsv rest
    assume c: "calls = Authenticated (Inr pr) # Reserved (reserve_request ?d rx reserve) (Inr rsv) # rest"
      and st: "started prim ?d rx chatReq (rsv_ID rsv) reserve rest out"
    from st ok obtain pre x a fin rc where rest: "rest = pre @ [Settled \<lparr>sr_ReservationID = rsv_ID rsv, sr_ActualMicros = x\<rparr> (Inr a), Appended fin (Inr rc)]"
      and fin: "EventType fin = EventRunCompleted" "RunID fin = rx_runID rx" "PrincipalID fin = p_ID (rx_principal rx)"
        "event_ActualCostMicros fin = Some a"
      unfolding started_def backend_called_def delivered_def by fastforce
    have "budget_granted (c', st', turns') (reserve_request ?d rx reserve) (rsv_ID rsv)" using granted c by simp
    moreover have "budget_charged (c', st', turns') (rsv_ID rsv) a" using charged [of "\<lparr>sr_ReservationID = rsv_ID rsv, sr_ActualMicros = x\<rparr>" a] c rest by simp
    ultimately show ?thesis using c rest fin
      by (auto simp: budget_granted_def budget_charged_def reserve_request_def)
  qed
  show ?thesis using reach run rows success by blast
qed

theorem request_settles_budget_witness:
  "\<exists>request c' st' turns' r. handleChatCompletions sample_prim (with_budget True sample_deps) request ((sample_time, rich_store, \<lambda>_. calm_turn), ()) =
     (\<lparr>out_Status = 200, out_Body = sample_reply\<rparr>, ((c', st', turns'), ())) \<and> r \<in> set (spend_reservations st') \<and> state r = ''settled'' \<and>
     budget_reach utc_calendar c' st'"
proof -
  obtain request s' where run: "handleChatCompletions sample_prim (with_budget True sample_deps) request ((sample_time, rich_store, \<lambda>_. calm_turn), ()) =
     (\<lparr>out_Status = 200, out_Body = sample_reply\<rparr>, s')" using rich_run by blast
  obtain c' st' turns' where s': "s' = ((c', st', turns'), ())" by (cases s'; cases "fst s'") auto
  from request_settles_budget [OF rich_reach run [unfolded s']] obtain i r where
    r: "find_reservation i st' = Some r" "state r = ''settled''" and reach: "budget_reach utc_calendar c' st'" by fastforce
  from find_reservation_Some [OF r(1)] r(2) reach show ?thesis using run unfolding s' by blast
qed

end
