(* ===== verification/Config.thy ===== *)
theory Config
  imports Backend Price
begin

section \<open>Configuration\<close>

text \<open>
  \<open>internal/config\<close>: the configuration record, \<open>Validate\<close> with its checks in the order of the code, and the redacted
  text forms. A check gives the error it reports or \<^const>\<open>None\<close>, and \<open>first_error\<close> is the sequence of early returns.
  Decoding YAML is done by a library; \<open>url.Parse\<close> is a parameter.
\<close>

record SecretRef =
  ref_File :: string
  ref_Env :: string

record ServerConfig =
  cfg_ListenAddress :: string
  cfg_MaxRequestBytes :: int64
  cfg_MaxResponseBytes :: int64
  cfg_CertificateFile :: string
  cfg_PrivateKey :: SecretRef

record OIDCConfig =
  cfg_Issuer :: string
  cfg_Audience :: string
  cfg_JWKSURL :: string
  cfg_JWKSCacheTTLSeconds :: int64
  cfg_GroupClaim :: string

record BackendSettings =
  cfg_BaseURL :: string
  cfg_Credential :: "SecretRef option"
  cfg_AllowInsecure :: bool

record ModelConfig =
  mc_Name :: string
  mc_BackendModel :: string
  mc_InputCost :: int64
  mc_OutputCost :: int64
  mc_MaxOutputTokens :: int64

record Config =
  cfg_Version :: int64
  cfg_Server :: ServerConfig
  cfg_DSN :: SecretRef
  cfg_OIDC :: OIDCConfig
  cfg_ContentHMAC :: SecretRef
  cfg_CheckpointSigning :: SecretRef
  cfg_Backend :: BackendSettings
  cfg_Models :: "ModelConfig list"

record FieldError =
  fe_Field :: string
  fe_Problem :: string

definition fieldError_text :: "FieldError \<Rightarrow> string" where
  "fieldError_text err = ''configuration field \"'' @ fe_Field err @ ''\" '' @ fe_Problem err"

definition required :: "string \<Rightarrow> FieldError" where
  "required name = \<lparr>fe_Field = name, fe_Problem = ''is required''\<rparr>"

definition invalid :: "string \<Rightarrow> string \<Rightarrow> FieldError" where
  "invalid name problem = \<lparr>fe_Field = name, fe_Problem = problem\<rparr>"

definition guard :: "bool \<Rightarrow> FieldError \<Rightarrow> FieldError option" where
  "guard c err = (if c then Some err else None)"

fun first_error :: "FieldError option list \<Rightarrow> FieldError option" where
  "first_error [] = None"
| "first_error (c # cs) = (case c of Some err \<Rightarrow> Some err | None \<Rightarrow> first_error cs)"

subsection \<open>Redacted text\<close>

definition ref_String :: "SecretRef \<Rightarrow> string" where
  "ref_String ref =
     (if \<not> blank (ref_File ref) then ''<secret-ref:file>''
      else if \<not> blank (ref_Env ref) then ''<secret-ref:env>''
      else ''<secret-ref:unset>'')"

definition config_String :: "Config \<Rightarrow> string" where
  "config_String cfg =
     ''Config{version:'' @ int_digits (sint (cfg_Version cfg)) @ '' models:'' @ nat_digits (length (cfg_Models cfg)) @ ''}''"

subsection \<open>Validation\<close>

definition oidcGroupClaimNamePattern :: "string \<Rightarrow> bool" where [pattern_defs]:
  "oidcGroupClaimNamePattern = bounded_pattern (\<lambda>c. is_lower c \<or> is_upper c \<or> c = CHR ''_'')
     (\<lambda>c. is_alnum c \<or> c \<in> {CHR ''_'', CHR ''.'', CHR ''/'', CHR ''-''}) 63"

definition validateSecretRef :: "string \<Rightarrow> SecretRef \<Rightarrow> bool \<Rightarrow> FieldError option" where
  "validateSecretRef name ref requiredRef =
     (let hasFile = \<not> blank (ref_File ref); hasEnv = \<not> blank (ref_Env ref) in
      if hasFile \<and> hasEnv then Some (invalid name ''must reference exactly one of file or env'')
      else if requiredRef \<and> \<not> hasFile \<and> \<not> hasEnv then Some (required name)
      else None)"

definition https_url :: "(string \<Rightarrow> url option) \<Rightarrow> string \<Rightarrow> string \<Rightarrow> FieldError option" where
  "https_url url_parse name raw =
     (case url_parse raw of
        None \<Rightarrow> Some (invalid name ''must be an absolute HTTPS URL'')
      | Some parsed \<Rightarrow>
          if url_Hostname parsed = [] \<or> \<not> has_prefix raw ''https://'' then Some (invalid name ''must be an absolute HTTPS URL'')
          else if url_has_User parsed \<or> url_RawQuery parsed \<noteq> [] \<or> url_Fragment parsed \<noteq> []
          then Some (invalid name ''must not contain credentials, a query, or a fragment'')
          else None)"

definition validateOIDCIssuer :: "(string \<Rightarrow> url option) \<Rightarrow> string \<Rightarrow> FieldError option" where
  "validateOIDCIssuer url_parse issuer = https_url url_parse ''auth.oidc.issuer'' issuer"

definition validateOIDCJWKSURL :: "(string \<Rightarrow> url option) \<Rightarrow> string \<Rightarrow> FieldError option" where
  "validateOIDCJWKSURL url_parse raw = https_url url_parse ''auth.oidc.jwks_url'' raw"

definition isLoopbackHost :: "string \<Rightarrow> bool" where
  "isLoopbackHost host \<longleftrightarrow> host = ''localhost'' \<or> host = ''127.0.0.1'' \<or> host = ''::1''"

definition validateBackendURL :: "(string \<Rightarrow> url option) \<Rightarrow> BackendSettings \<Rightarrow> FieldError option" where
  "validateBackendURL url_parse backend =
     (case url_parse (cfg_BaseURL backend) of
        None \<Rightarrow> Some (invalid ''backend.base_url'' ''must be an absolute HTTP or HTTPS URL'')
      | Some parsed \<Rightarrow>
          if url_Hostname parsed = [] then Some (invalid ''backend.base_url'' ''must be an absolute HTTP or HTTPS URL'')
          else if url_has_User parsed \<or> url_RawQuery parsed \<noteq> [] \<or> url_Fragment parsed \<noteq> []
          then Some (invalid ''backend.base_url'' ''must not contain credentials, a query, or a fragment'')
          else if has_prefix (cfg_BaseURL backend) ''https://'' then None
          else if has_prefix (cfg_BaseURL backend) ''http://'' then
            (if cfg_AllowInsecure backend \<or> isLoopbackHost (url_Hostname parsed) then None
             else Some (invalid ''backend.base_url'' ''requires HTTPS unless loopback or allow_insecure is true''))
          else Some (invalid ''backend.base_url'' ''must use lowercase HTTP or HTTPS''))"

definition model_prefix :: "nat \<Rightarrow> string" where
  "model_prefix index = ''models['' @ nat_digits index @ '']''"

text \<open>The loop over the models, with the index and the names seen so far.\<close>

fun validate_models :: "nat \<Rightarrow> string set \<Rightarrow> ModelConfig list \<Rightarrow> FieldError option" where
  "validate_models index modelNames [] = None"
| "validate_models index modelNames (model # models) =
     (case first_error
         [guard (blank (mc_Name model)) (required (model_prefix index @ ''.name'')),
          guard (mc_Name model \<in> modelNames) (invalid (model_prefix index @ ''.name'') ''must be unique''),
          guard (blank (mc_BackendModel model)) (required (model_prefix index @ ''.backend_model'')),
          guard (mc_InputCost model \<le>s 0) (required (model_prefix index @ ''.input_cost_micros_per_million_tokens'')),
          guard (mc_OutputCost model \<le>s 0) (required (model_prefix index @ ''.output_cost_micros_per_million_tokens'')),
          guard (mc_MaxOutputTokens model \<le>s 0) (required (model_prefix index @ ''.max_output_tokens''))] of
        Some err \<Rightarrow> Some err
      | None \<Rightarrow> validate_models (index + 1) (insert (mc_Name model) modelNames) models)"

definition config_Validate :: "(string \<Rightarrow> url option) \<Rightarrow> Config \<Rightarrow> FieldError option" where
  "config_Validate url_parse cfg = first_error
     [guard (cfg_Version cfg \<noteq> 1) (invalid ''version'' ''must equal 1''),
      guard (blank (cfg_ListenAddress (cfg_Server cfg))) (required ''server.listen_address''),
      guard (cfg_MaxRequestBytes (cfg_Server cfg) \<le>s 0) (required ''server.max_request_bytes''),
      guard (cfg_MaxResponseBytes (cfg_Server cfg) \<le>s 0) (required ''server.max_response_bytes''),
      guard (blank (cfg_CertificateFile (cfg_Server cfg))) (required ''server.tls.certificate_file''),
      validateSecretRef ''server.tls.private_key'' (cfg_PrivateKey (cfg_Server cfg)) True,
      validateSecretRef ''database.dsn'' (cfg_DSN cfg) True,
      guard (blank (cfg_Issuer (cfg_OIDC cfg))) (required ''auth.oidc.issuer''),
      validateOIDCIssuer url_parse (cfg_Issuer (cfg_OIDC cfg)),
      guard (blank (cfg_Audience (cfg_OIDC cfg))) (required ''auth.oidc.audience''),
      guard (blank (cfg_JWKSURL (cfg_OIDC cfg))) (required ''auth.oidc.jwks_url''),
      validateOIDCJWKSURL url_parse (cfg_JWKSURL (cfg_OIDC cfg)),
      guard (cfg_JWKSCacheTTLSeconds (cfg_OIDC cfg) \<le>s 0 \<or> 86400 <s cfg_JWKSCacheTTLSeconds (cfg_OIDC cfg))
        (invalid ''auth.oidc.jwks_cache_ttl_seconds'' ''must be between 1 and 86400''),
      guard (blank (cfg_GroupClaim (cfg_OIDC cfg))) (required ''auth.oidc.group_claim''),
      guard (\<not> oidcGroupClaimNamePattern (cfg_GroupClaim (cfg_OIDC cfg))) (invalid ''auth.oidc.group_claim'' ''must be a bounded claim name''),
      validateSecretRef ''keys.content_hmac'' (cfg_ContentHMAC cfg) True,
      validateSecretRef ''keys.checkpoint_signing'' (cfg_CheckpointSigning cfg) True,
      (case cfg_Credential (cfg_Backend cfg) of None \<Rightarrow> None | Some ref \<Rightarrow> validateSecretRef ''backend.credential'' ref True),
      guard (blank (cfg_BaseURL (cfg_Backend cfg))) (required ''backend.base_url''),
      validateBackendURL url_parse (cfg_Backend cfg),
      guard (length (cfg_Models cfg) = 0) (required ''models''),
      validate_models 0 {} (cfg_Models cfg)]"

subsection \<open>Loading\<close>

text \<open>
  The YAML decoder is a parameter: the first \<open>Decode\<close> fails or gives a configuration and the position after it, and the second
  \<open>Decode\<close>, asked at that position, ends with \<open>io.EOF\<close> or not.
\<close>

datatype load_error = Decode_failed | Extra_document | Validation_failed FieldError

definition Load ::
  "(string \<Rightarrow> url option) \<Rightarrow> ('r \<Rightarrow> (Config \<times> 'r) option) \<Rightarrow> ('r \<Rightarrow> bool) \<Rightarrow> 'r \<Rightarrow> load_error + Config" where
  "Load url_parse yaml_decode yaml_eof reader =
     (case yaml_decode reader of
        None \<Rightarrow> Inl Decode_failed
      | Some (cfg, rest) \<Rightarrow>
          if \<not> yaml_eof rest then Inl Extra_document
          else case config_Validate url_parse cfg of
              Some err \<Rightarrow> Inl (Validation_failed err)
            | None \<Rightarrow> Inr cfg)"

definition load_error_text :: "load_error \<Rightarrow> string \<Rightarrow> string" where
  "load_error_text err decoder_text =
     (case err of
        Decode_failed \<Rightarrow> ''decode configuration: '' @ decoder_text
      | Extra_document \<Rightarrow> ''decode configuration: exactly one YAML document is required''
      | Validation_failed e \<Rightarrow> ''validate configuration: '' @ fieldError_text e)"

subsection \<open>What an accepted configuration guarantees\<close>

lemma Load_Inr: "Load url_parse yaml_decode yaml_eof reader = Inr cfg \<longleftrightarrow>
   (\<exists>rest. yaml_decode reader = Some (cfg, rest) \<and> yaml_eof rest) \<and> config_Validate url_parse cfg = None"
  by (auto simp: Load_def split: option.splits)

lemma guard_None [simp]: "guard c err = None \<longleftrightarrow> \<not> c"
  by (simp add: guard_def)

lemma early_return_None: "(case c of Some err \<Rightarrow> Some err | None \<Rightarrow> rest) = None \<longleftrightarrow> c = None \<and> rest = None"
  by (cases c) simp_all

lemma first_error_None: "first_error cs = None \<longleftrightarrow> list_all (\<lambda>c. c = None) cs"
  by (induction cs) (simp_all add: early_return_None)

definition secret_given :: "SecretRef \<Rightarrow> bool" where
  "secret_given ref \<longleftrightarrow> blank (ref_File ref) \<noteq> blank (ref_Env ref)"

lemma validateSecretRef_None: "validateSecretRef name ref True = None \<longleftrightarrow> secret_given ref"
  by (auto simp: validateSecretRef_def secret_given_def Let_def)

definition model_ok :: "ModelConfig \<Rightarrow> bool" where
  "model_ok m \<longleftrightarrow> \<not> blank (mc_Name m) \<and> \<not> blank (mc_BackendModel m) \<and> 0 <s mc_InputCost m \<and> 0 <s mc_OutputCost m \<and> 0 <s mc_MaxOutputTokens m"

lemma validate_models_None:
  "validate_models i names ms = None \<longleftrightarrow>
     list_all model_ok ms \<and> distinct (map mc_Name ms) \<and> set (map mc_Name ms) \<inter> names = {}"
  by (induction ms arbitrary: i names)
    (auto simp: early_return_None first_error_None model_ok_def int64_order not_le simp del: first_error.simps)

definition plain_url :: "(string \<Rightarrow> url option) \<Rightarrow> string \<Rightarrow> bool" where
  "plain_url url_parse raw = (case url_parse raw of None \<Rightarrow> False
     | Some u \<Rightarrow> url_Hostname u \<noteq> [] \<and> \<not> url_has_User u \<and> url_RawQuery u = [] \<and> url_Fragment u = [])"

lemma https_url_None: "https_url url_parse name raw = None \<longleftrightarrow> plain_url url_parse raw \<and> has_prefix raw ''https://''"
  by (auto simp: https_url_def plain_url_def split: option.splits)

definition backend_url_ok :: "(string \<Rightarrow> url option) \<Rightarrow> BackendSettings \<Rightarrow> bool" where
  "backend_url_ok url_parse b \<longleftrightarrow> plain_url url_parse (cfg_BaseURL b) \<and>
     (has_prefix (cfg_BaseURL b) ''https://'' \<or>
      has_prefix (cfg_BaseURL b) ''http://'' \<and>
        (cfg_AllowInsecure b \<or> (\<exists>u. url_parse (cfg_BaseURL b) = Some u \<and> loopback (url_Hostname u))))"

lemma validateBackendURL_None: "validateBackendURL url_parse b = None \<longleftrightarrow> backend_url_ok url_parse b"
  by (auto simp: validateBackendURL_def backend_url_ok_def plain_url_def isLoopbackHost_def loopback_def split: option.splits)

text \<open>The contract of version 1, without an order of the checks.\<close>

definition settings_ok :: "(string \<Rightarrow> url option) \<Rightarrow> Config \<Rightarrow> bool" where
  "settings_ok url_parse cfg \<longleftrightarrow>
     cfg_Version cfg = 1 \<and> \<not> blank (cfg_ListenAddress (cfg_Server cfg)) \<and>
     0 <s cfg_MaxRequestBytes (cfg_Server cfg) \<and> 0 <s cfg_MaxResponseBytes (cfg_Server cfg) \<and>
     \<not> blank (cfg_CertificateFile (cfg_Server cfg)) \<and>
     list_all secret_given [cfg_PrivateKey (cfg_Server cfg), cfg_DSN cfg, cfg_ContentHMAC cfg, cfg_CheckpointSigning cfg] \<and>
     (case cfg_Credential (cfg_Backend cfg) of None \<Rightarrow> True | Some ref \<Rightarrow> secret_given ref) \<and>
     list_all (\<lambda>u. \<not> blank u \<and> plain_url url_parse u \<and> has_prefix u ''https://'') [cfg_Issuer (cfg_OIDC cfg), cfg_JWKSURL (cfg_OIDC cfg)] \<and>
     \<not> blank (cfg_Audience (cfg_OIDC cfg)) \<and>
     1 \<le> sint (cfg_JWKSCacheTTLSeconds (cfg_OIDC cfg)) \<and> sint (cfg_JWKSCacheTTLSeconds (cfg_OIDC cfg)) \<le> 86400 \<and>
     \<not> blank (cfg_GroupClaim (cfg_OIDC cfg)) \<and> oidcGroupClaimNamePattern (cfg_GroupClaim (cfg_OIDC cfg)) \<and>
     \<not> blank (cfg_BaseURL (cfg_Backend cfg)) \<and> backend_url_ok url_parse (cfg_Backend cfg) \<and>
     cfg_Models cfg \<noteq> [] \<and> list_all model_ok (cfg_Models cfg) \<and> distinct (map mc_Name (cfg_Models cfg))"

text \<open>
  \<open>Validate\<close> accepts exactly the configurations that meet every requirement of version 1: no requirement hides behind an
  earlier one.
\<close>

lemma config_Validate_None: "config_Validate url_parse cfg = None \<longleftrightarrow> settings_ok url_parse cfg"
  unfolding config_Validate_def first_error_None
  by (simp add: settings_ok_def validateSecretRef_None validateOIDCIssuer_def validateOIDCJWKSURL_def https_url_None validateBackendURL_None
      validate_models_None int64_order not_le not_less split: option.split) auto

text \<open>
  A backend address the configuration accepts is accepted by the backend client: the two validators, written separately,
  agree, for any positive timeout. The only assumption is that a parsed address with a host name has a host.
\<close>

lemma accepted_backend_constructs:
  assumes "config_Validate url_parse cfg = None" and "0 <s timeout" and "\<And>raw u. url_parse raw = Some u \<Longrightarrow> url_Host u = [] \<Longrightarrow> url_Hostname u = []"
  shows "\<exists>client. NewClient url_parse \<lparr>bc_BaseURL = cfg_BaseURL (cfg_Backend cfg), bc_Credential = credential, bc_Timeout = timeout,
      bc_MaxResponseBytes = cfg_MaxResponseBytes (cfg_Server cfg), bc_AllowInsecure = cfg_AllowInsecure (cfg_Backend cfg)\<rparr> = Inr client"
proof -
  have ok: "settings_ok url_parse cfg" using assms(1) by (simp add: config_Validate_None)
  then have url: "backend_url_ok url_parse (cfg_Backend cfg)" and size: "0 <s cfg_MaxResponseBytes (cfg_Server cfg)"
    by (simp_all add: settings_ok_def)
  from url obtain u where u: "url_parse (cfg_BaseURL (cfg_Backend cfg)) = Some u" "url_Hostname u \<noteq> []" "\<not> url_has_User u"
      "url_RawQuery u = []" "url_Fragment u = []"
    and scheme: "has_prefix (cfg_BaseURL (cfg_Backend cfg)) ''https://'' \<or> has_prefix (cfg_BaseURL (cfg_Backend cfg)) ''http://'' \<and>
      (cfg_AllowInsecure (cfg_Backend cfg) \<or> loopback (url_Hostname u))"
    by (auto simp: backend_url_ok_def plain_url_def split: option.splits)
  have "url_Host u \<noteq> []" using assms(3) [OF u(1)] u(2) by blast
  then have "validateBaseURL url_parse (cfg_BaseURL (cfg_Backend cfg)) (cfg_AllowInsecure (cfg_Backend cfg))"
    using u scheme by (auto simp: validateBaseURL_def)
  then show ?thesis using assms(2) size by (simp add: NewClient_def int64_order not_le)
qed

definition sample_url_parse :: "string \<Rightarrow> url option" where
  "sample_url_parse raw = Some \<lparr>url_Host = ''h'', url_Hostname = ''h'', url_has_User = False, url_RawQuery = [], url_Fragment = []\<rparr>"

definition sample_config :: "string \<Rightarrow> Config" where
  "sample_config name = (let ref = \<lparr>ref_File = ''f'', ref_Env = []\<rparr> in
     \<lparr>cfg_Version = 1, cfg_Server = \<lparr>cfg_ListenAddress = '':8443'', cfg_MaxRequestBytes = 1048576, cfg_MaxResponseBytes = 1048576,
        cfg_CertificateFile = ''c'', cfg_PrivateKey = ref\<rparr>, cfg_DSN = ref,
      cfg_OIDC = \<lparr>cfg_Issuer = ''https://h'', cfg_Audience = ''a'', cfg_JWKSURL = ''https://h'', cfg_JWKSCacheTTLSeconds = 300,
        cfg_GroupClaim = ''groups''\<rparr>, cfg_ContentHMAC = ref, cfg_CheckpointSigning = ref,
      cfg_Backend = \<lparr>cfg_BaseURL = ''https://h'', cfg_Credential = None, cfg_AllowInsecure = False\<rparr>,
      cfg_Models = [\<lparr>mc_Name = name, mc_BackendModel = ''b'', mc_InputCost = 1, mc_OutputCost = 1, mc_MaxOutputTokens = 1\<rparr>]\<rparr>)"

lemma sample_config_accepted: "\<not> blank name \<Longrightarrow> config_Validate sample_url_parse (sample_config name) = None"
  by (simp add: config_Validate_None settings_ok_def sample_config_def Let_def secret_given_def plain_url_def sample_url_parse_def
      has_prefix_def backend_url_ok_def model_ok_def int64_order oidcGroupClaimNamePattern_def char_class_defs)

end
