(* ===== verification/Base64.thy ===== *)
theory Base64
  imports Encoding
begin

section \<open>Padded Base64\<close>

text \<open>
  \<open>base64.URLEncoding\<close> and \<open>base64.StdEncoding\<close>. The standard alphabet differs from the URL alphabet in two characters. The
  main lemma is that decoding gives back what was encoded.
\<close>

definition b64_decode_padded :: "string \<Rightarrow> bytes option" where
  "b64_decode_padded s =
     (let t = filter (\<lambda>c. c \<noteq> CHR 0x0A \<and> c \<noteq> CHR 0x0D) s in
      if length t mod 4 \<noteq> 0 then None
      else if t = [] then Some []
      else if drop (length t - 2) t = ''=='' then b64_quanta (take (length t - 2) t)
      else if last t = CHR ''='' then b64_quanta (butlast t)
      else b64_quanta t)"

definition b64_padding :: "bytes \<Rightarrow> string" where
  "b64_padding bs = replicate ((3 - length bs mod 3) mod 3) (CHR ''='')"

definition std_of_url :: "char \<Rightarrow> char" where
  "std_of_url c = (if c = CHR ''-'' then CHR ''+'' else if c = CHR ''_'' then CHR ''/'' else c)"

definition url_of_std :: "char \<Rightarrow> char" where
  "url_of_std c = (if c = CHR ''+'' then CHR ''-'' else if c = CHR ''/'' then CHR ''_'' else c)"

definition b64std_encode :: "bytes \<Rightarrow> string" where
  "b64std_encode bs = map std_of_url (b64_encode bs) @ b64_padding bs"

definition b64std_decode :: "string \<Rightarrow> bytes option" where
  "b64std_decode s = (if CHR ''-'' \<in> set s \<or> CHR ''_'' \<in> set s then None else b64_decode_padded (map url_of_std s))"

lemma length_b64_encode:
  "length (b64_encode bs) = 4 * (length bs div 3) + (if length bs mod 3 = 0 then 0 else length bs mod 3 + 1)"
proof (induction bs rule: b64_encode.induct)
  case (4 a b c r)
  have "length (a # b # c # r) = length r + 3" by simp
  then have "length (a # b # c # r) mod 3 = length r mod 3" "length (a # b # c # r) div 3 = length r div 3 + 1"
    by (simp_all only: mod_add_self2 div_add_self2 numeral_neq_zero not_False_eq_True)
  moreover have "length (b64_encode (a # b # c # r)) = 4 + length (b64_encode r)" by simp
  ultimately show ?case using 4 by (simp only: distrib_left)
qed simp_all

lemma b64_alphabet: "n < 64 \<Longrightarrow> is_alnum (b64_char n) \<or> b64_char n = CHR ''-'' \<or> b64_char n = CHR ''_''"
  using b64_index_char [of n] by (auto simp: b64_index_def is_alnum_def split: if_splits)

lemma b64_encode_alphabet: "list_all (\<lambda>c. is_alnum c \<or> c = CHR ''-'' \<or> c = CHR ''_'') (b64_encode bs)"
  by (induction bs rule: b64_encode.induct) (simp_all add: b64_alphabet)

lemma b64_decode_padded_encode: "b64_decode_padded (b64_encode bs @ b64_padding bs) = Some bs"
proof -
  let ?e = "b64_encode bs"
  have plain: "c \<noteq> CHR 0x0A \<and> c \<noteq> CHR 0x0D \<and> c \<noteq> CHR ''=''" if "c \<in> set ?e" for c
    using that b64_encode_alphabet [of bs] by (auto simp: list_all_iff char_class_defs)
  have t: "filter (\<lambda>c. c \<noteq> CHR 0x0A \<and> c \<noteq> CHR 0x0D) (?e @ b64_padding bs) = ?e @ b64_padding bs"
    using plain by (auto simp: filter_id_conv b64_padding_def)
  have last: "?e = [] \<or> last ?e \<noteq> CHR ''=''" using plain by (cases ?e rule: rev_cases) auto
  have m: "length bs mod 3 = 0 \<or> length bs mod 3 = 1 \<or> length bs mod 3 = 2" by linarith
  have ends: "drop (length ?e - 2) ?e \<noteq> ''==''"
  proof
    assume "drop (length ?e - 2) ?e = ''==''"
    then have "CHR ''='' \<in> set ?e" by (metis in_set_dropD list.set_intros(1))
    then show False using plain by blast
  qed
  from m show ?thesis
  proof (elim disjE)
    assume z: "length bs mod 3 = 0"
    then have p: "b64_padding bs = []" and l: "length ?e mod 4 = 0" using length_b64_encode [of bs] by (simp_all add: b64_padding_def)
    show ?thesis using t last ends l b64_quanta_encode [of bs] unfolding b64_decode_padded_def p t [unfolded p] Let_def by (cases "?e = []") simp_all
  next
    assume z: "length bs mod 3 = 1"
    have p: "b64_padding bs = ''==''" unfolding b64_padding_def z by (simp add: numeral_2_eq_2)
    have l: "length (?e @ ''=='') mod 4 = 0" using length_b64_encode [of bs] z by simp
    have d: "drop (length (?e @ ''=='') - 2) (?e @ ''=='') = ''==''" "take (length (?e @ ''=='') - 2) (?e @ ''=='') = ?e" by simp_all
    show ?thesis using b64_quanta_encode [of bs] unfolding b64_decode_padded_def p t [unfolded p] Let_def d l by simp
  next
    assume z: "length bs mod 3 = 2"
    have p: "b64_padding bs = ''=''" unfolding b64_padding_def z by simp
    have l: "length (?e @ ''='') mod 4 = 0" using length_b64_encode [of bs] z by simp
    have ne: "?e \<noteq> []" using length_b64_encode [of bs] z by auto
    then have "drop (length (?e @ ''='') - 2) (?e @ ''='') = [last ?e, CHR ''='']" by (cases ?e rule: rev_cases) simp_all
    then have d: "drop (length (?e @ ''='') - 2) (?e @ ''='') \<noteq> ''==''" using last ne by simp
    show ?thesis using b64_quanta_encode [of bs] d l unfolding b64_decode_padded_def p t [unfolded p] Let_def by (simp del: length_append)
  qed
qed

lemma b64std_decode_encode: "b64std_decode (b64std_encode bs) = Some bs"
proof -
  have "url_of_std (std_of_url c) = c" if "c \<in> set (b64_encode bs)" for c
  proof -
    have "is_alnum c \<or> c = CHR ''-'' \<or> c = CHR ''_''" using that b64_encode_alphabet [of bs] by (auto simp: list_all_iff)
    then have "c \<noteq> CHR ''+''" "c \<noteq> CHR ''/''" by (auto simp: char_class_defs)
    then show ?thesis by (simp add: url_of_std_def std_of_url_def)
  qed
  then have "map url_of_std (map std_of_url (b64_encode bs)) = b64_encode bs" by (simp add: map_idI)
  moreover have "map url_of_std (b64_padding bs) = b64_padding bs" by (simp add: b64_padding_def url_of_std_def)
  ultimately have "map url_of_std (b64std_encode bs) = b64_encode bs @ b64_padding bs" by (simp add: b64std_encode_def)
  moreover have "CHR ''-'' \<notin> set (b64std_encode bs)" "CHR ''_'' \<notin> set (b64std_encode bs)"
    by (auto simp: b64std_encode_def b64_padding_def std_of_url_def)
  ultimately show ?thesis using b64_decode_padded_encode by (simp add: b64std_decode_def)
qed

interpretation b64std: text_codec b64std_encode b64std_decode
  by unfold_locales (rule b64std_decode_encode)

end
