(* ===== verification/Jwks.thy ===== *)
theory Jwks
  imports ApiKeys Backend Base64 "HOL-Library.Finite_Map"
begin

section \<open>Key sets\<close>

text \<open>
  The first half of \<open>internal/auth/jwks.go\<close> read from below: decoding of key components, single keys and key sets, the
  validation of the key-set address, and \<open>fetch\<close> on what the transport delivers. An RSA key is its modulus and exponent, an EC
  key its affine coordinates on P-256.
\<close>

datatype public_key = RSA nat int64 | EC nat nat

datatype jwk_error = ErrUnsupportedJWK | ErrInvalidJWK

definition maxJWKSBodyBytes :: int64 where "maxJWKSBodyBytes = 1048576"
definition maxJWKSKeys :: nat where "maxJWKSKeys = 64"
definition minRSAModulusBytes :: nat where "minRSAModulusBytes = 256"
definition maxRSAModulusBytes :: nat where "maxRSAModulusBytes = 512"

record jwkDocument =
  jwk_Kty :: string
  jwk_Kid :: string
  jwk_Alg :: string
  jwk_Use :: string
  jwk_N :: string
  jwk_E :: string
  jwk_Crv :: string
  jwk_X :: string
  jwk_Y :: string

record jwksDocument =
  jwks_Keys :: "jwkDocument cells"

subsection \<open>Components\<close>

definition decodeJWKBase64 :: "string \<Rightarrow> nat \<Rightarrow> bytes option" where
  "decodeJWKBase64 val maxLen =
     (if val = [] then None
      else case (case b64_decode val of Some raw \<Rightarrow> Some raw | None \<Rightarrow> b64_decode_padded val) of
          None \<Rightarrow> None
        | Some raw \<Rightarrow> if length raw = 0 \<or> maxLen < length raw then None else Some raw)"

text \<open>\<open>big.Int.SetBytes\<close>.\<close>

definition big_endian :: "bytes \<Rightarrow> nat" where
  "big_endian bs = foldl (\<lambda>n b. n * 256 + of_char b) 0 bs"

text \<open>\<open>elliptic.P256().IsOnCurve\<close>: reduced coordinates with $y^2 = x^3 - 3x + b$.\<close>

definition p256_p :: nat where
  "p256_p = 0xFFFFFFFF00000001000000000000000000000000FFFFFFFFFFFFFFFFFFFFFFFF"

definition p256_b :: nat where
  "p256_b = 0x5AC635D8AA3A93E7B3EBBD55769886BC651D06B0CC53B0F63BCE3C3E27D2604B"

definition on_p256 :: "nat \<Rightarrow> nat \<Rightarrow> bool" where
  "on_p256 x y \<longleftrightarrow> x < p256_p \<and> y < p256_p \<and> (y ^ 2 + 3 * x) mod p256_p = (x ^ 3 + p256_b) mod p256_p"

definition parse_exponent :: "bytes \<Rightarrow> int64 option" where
  "parse_exponent exponentBytes =
     (let n = big_endian exponentBytes in
      if 2 ^ 63 \<le> n then None
      else let e = of_nat n :: int64 in if e <s 3 \<or> n mod 2 = 0 then None else Some e)"

definition parseJWK :: "jwkDocument \<Rightarrow> jwk_error + public_key" where
  "parseJWK key =
     (if jwk_Kty key = ''RSA'' then
        if jwk_Alg key \<noteq> [] \<and> jwk_Alg key \<noteq> ''RS256'' then Inl ErrUnsupportedJWK
        else case decodeJWKBase64 (jwk_N key) maxRSAModulusBytes of
            None \<Rightarrow> Inl ErrInvalidJWK
          | Some modulus \<Rightarrow>
              if length modulus < minRSAModulusBytes then Inl ErrInvalidJWK
              else case decodeJWKBase64 (jwk_E key) 8 of
                  None \<Rightarrow> Inl ErrInvalidJWK
                | Some exponentBytes \<Rightarrow>
                    case parse_exponent exponentBytes of
                      None \<Rightarrow> Inl ErrInvalidJWK
                    | Some exponent \<Rightarrow> Inr (RSA (big_endian modulus) exponent)
      else if jwk_Kty key = ''EC'' then
        if jwk_Alg key \<noteq> [] \<and> jwk_Alg key \<noteq> ''ES256'' then Inl ErrUnsupportedJWK
        else if jwk_Crv key \<noteq> ''P-256'' then Inl ErrUnsupportedJWK
        else case decodeJWKBase64 (jwk_X key) 32 of
            None \<Rightarrow> Inl ErrInvalidJWK
          | Some x \<Rightarrow>
              case decodeJWKBase64 (jwk_Y key) 32 of
                None \<Rightarrow> Inl ErrInvalidJWK
              | Some y \<Rightarrow>
                  if \<not> on_p256 (big_endian x) (big_endian y) then Inl ErrInvalidJWK
                  else Inr (EC (big_endian x) (big_endian y))
      else Inl ErrUnsupportedJWK)"

subsection \<open>Key sets\<close>

type_synonym key_set = "(string, public_key) fmap"

text \<open>The loop of \<open>parseJWKS\<close>.\<close>

fun collect_keys :: "jwkDocument list \<Rightarrow> key_set \<Rightarrow> key_set option" where
  "collect_keys [] keys = Some keys"
| "collect_keys (key # rest) keys =
     (if jwk_Kid key = [] \<or> 128 < length (jwk_Kid key) then None
      else if jwk_Use key \<noteq> [] \<and> jwk_Use key \<noteq> ''sig'' then collect_keys rest keys
      else if fmlookup keys (jwk_Kid key) \<noteq> None then None
      else case parseJWK key of
          Inl ErrUnsupportedJWK \<Rightarrow> collect_keys rest keys
        | Inl ErrInvalidJWK \<Rightarrow> None
        | Inr publicKey \<Rightarrow> collect_keys rest (fmupd (jwk_Kid key) publicKey keys))"

definition zero_jwk :: jwkDocument where
  "zero_jwk = \<lparr>jwk_Kty = [], jwk_Kid = [], jwk_Alg = [], jwk_Use = [], jwk_N = [], jwk_E = [], jwk_Crv = [], jwk_X = [], jwk_Y = []\<rparr>"

definition jwk_fields :: "(string \<times> jwkDocument decoder) list" where
  "jwk_fields =
     [(''kty'', field decode_string jwk_Kty (\<lambda>f. jwk_Kty_update f)), (''kid'', field decode_string jwk_Kid (\<lambda>f. jwk_Kid_update f)),
      (''alg'', field decode_string jwk_Alg (\<lambda>f. jwk_Alg_update f)), (''use'', field decode_string jwk_Use (\<lambda>f. jwk_Use_update f)),
      (''n'', field decode_string jwk_N (\<lambda>f. jwk_N_update f)), (''e'', field decode_string jwk_E (\<lambda>f. jwk_E_update f)),
      (''crv'', field decode_string jwk_Crv (\<lambda>f. jwk_Crv_update f)), (''x'', field decode_string jwk_X (\<lambda>f. jwk_X_update f)),
      (''y'', field decode_string jwk_Y (\<lambda>f. jwk_Y_update f))]"

definition jwks_fields :: "(string \<times> jwksDocument decoder) list" where
  "jwks_fields = [(''keys'', field (decode_slice (decode_struct False jwk_fields) zero_jwk) jwks_Keys (\<lambda>f. jwks_Keys_update f))]"

definition parseJWKS :: "bytes \<Rightarrow> key_set option" where
  "parseJWKS body =
     (case Option.bind (unmarshal_value body) (\<lambda>v. decode_struct False jwks_fields ([], v) \<lparr>jwks_Keys = ([], 0)\<rparr>) of
        None \<Rightarrow> None
      | Some document \<Rightarrow>
          if maxJWKSKeys < length (shown (jwks_Keys document)) then None
          else collect_keys (shown (jwks_Keys document)) fmempty)"

definition validateJWKSURL :: "(string \<Rightarrow> url option) \<Rightarrow> string \<Rightarrow> bool" where
  "validateJWKSURL url_parse raw =
     (case url_parse raw of
        None \<Rightarrow> False
      | Some parsed \<Rightarrow>
          if url_Hostname parsed = [] then False
          else if url_has_User parsed \<or> url_RawQuery parsed \<noteq> [] \<or> url_Fragment parsed \<noteq> [] then False
          else if has_prefix raw ''https://'' then True
          else if has_prefix raw ''http://'' then loopback (url_Hostname parsed)
          else False)"

text \<open>What the transport delivers for the key-set address; redirects are failures.\<close>

datatype fetch_reply = Fetch_failed | Fetch_replied int stream

definition jwks_fetch :: "fetch_reply \<Rightarrow> auth_error + key_set" where
  "jwks_fetch reply =
     (case reply of
        Fetch_failed \<Rightarrow> Inl ErrAuthenticationUnavailable
      | Fetch_replied status stream \<Rightarrow>
          if status \<noteq> 200 then Inl ErrAuthenticationUnavailable
          else case read_all (maxJWKSBodyBytes + 1) stream of
              None \<Rightarrow> Inl ErrAuthenticationUnavailable
            | Some body \<Rightarrow>
                if length body = 0 \<or> maxJWKSBodyBytes <s len64 body then Inl ErrAuthenticationUnavailable
                else case parseJWKS body of None \<Rightarrow> Inl ErrAuthenticationUnavailable | Some keys \<Rightarrow> Inr keys)"

subsection \<open>What a key set contains\<close>

definition acceptable_key :: "public_key \<Rightarrow> bool" where
  "acceptable_key k = (case k of RSA n e \<Rightarrow> n < 2 ^ 4096 \<and> 3 \<le> sint e \<and> odd (sint e) | EC x y \<Rightarrow> on_p256 x y)"

lemma big_endian_snoc: "big_endian (bs @ [b]) = big_endian bs * 256 + of_char b"
  by (simp add: big_endian_def)

lemma big_endian_bound: "big_endian bs < 256 ^ length bs"
proof (induction bs rule: rev_induct)
  case (snoc b bs)
  have less: "of_char b < (256 :: nat)" by simp
  define P :: nat where "P = 256 ^ length bs"
  have "big_endian bs * 256 + of_char b < P * 256" using snoc less unfolding P_def [symmetric] by linarith
  then show ?case by (simp add: big_endian_snoc P_def mult.commute)
qed (simp add: big_endian_def)

lemma decodeJWKBase64_length: "decodeJWKBase64 v n = Some raw \<Longrightarrow> 0 < length raw \<and> length raw \<le> n"
  by (auto simp: decodeJWKBase64_def split: if_splits option.splits)

lemma parse_exponent_Some:
  assumes "parse_exponent b = Some e"
  shows "3 \<le> sint e \<and> odd (sint e)"
proof -
  have n: "big_endian b < 2 ^ 63" and e: "e = of_nat (big_endian b)" and c: "\<not> e <s 3" "odd (big_endian b)"
    using assms by (auto simp: parse_exponent_def Let_def split: if_splits)
  have "sint e = int (big_endian b)" unfolding e using sint_word_of_int [of "int (big_endian b)"] n by simp
  then show ?thesis using c by (simp add: int64_order)
qed

lemma parseJWK_acceptable:
  assumes "parseJWK d = Inr k"
  shows "acceptable_key k"
proof (cases k)
  case (RSA n e)
  then obtain m b where m: "decodeJWKBase64 (jwk_N d) maxRSAModulusBytes = Some m" "n = big_endian m" and e: "parse_exponent b = Some e"
    using assms by (auto simp: parseJWK_def split: if_splits option.splits)
  have "length m \<le> 512" using decodeJWKBase64_length [OF m(1)] by (simp add: maxRSAModulusBytes_def)
  then have "(256 :: nat) ^ length m \<le> 256 ^ 512" by (intro power_increasing) simp_all
  also have "(256 :: nat) ^ 512 = 2 ^ 4096" using power_mult [of "2 :: nat" 8 512] by simp
  finally have "n < 2 ^ 4096" using big_endian_bound [of m] m(2) by linarith
  then show ?thesis using RSA parse_exponent_Some [OF e] by (simp add: acceptable_key_def)
next
  case (EC x y)
  then show ?thesis using assms by (auto simp: parseJWK_def acceptable_key_def split: if_splits option.splits)
qed

lemma collect_keys_Some:
  assumes "collect_keys docs keys = Some out" and "fmlookup out kid = Some k"
  shows "fmlookup keys kid = Some k \<or> (\<exists>d \<in> set docs. jwk_Kid d = kid \<and> jwk_Use d \<in> {[], ''sig''} \<and> parseJWK d = Inr k) \<and> 0 < length kid \<and> length kid \<le> 128"
  using assms
proof (induction docs keys rule: collect_keys.induct)
  case (2 key rest keys)
  then show ?case by (auto split: if_splits sum.splits jwk_error.splits)
qed simp

lemma collect_keys_size: "collect_keys docs keys = Some out \<Longrightarrow> size (fmdom out) \<le> size (fmdom keys) + length docs"
proof (induction docs keys rule: collect_keys.induct)
  case (2 key rest keys)
  have up: "size (fmdom (fmupd (jwk_Kid key) k keys)) \<le> Suc (size (fmdom keys))" for k
    by (simp add: card_insert_if)
  show ?case
    using "2.prems" "2.IH" up by (fastforce split: if_splits sum.splits jwk_error.splits)
qed simp

lemma jwks_fetch_Inr:
  assumes "jwks_fetch reply = Inr keys"
  shows "\<exists>stream. reply = Fetch_replied 200 stream" and "size (fmdom keys) \<le> 64"
    and "fmlookup keys kid = Some k \<Longrightarrow> 0 < length kid \<and> length kid \<le> 128 \<and> acceptable_key k"
proof -
  from assms obtain stream body and doc :: jwksDocument where r: "reply = Fetch_replied 200 stream" and doc: "\<not> maxJWKSKeys < length (shown (jwks_Keys doc))"
    "collect_keys (shown (jwks_Keys doc)) fmempty = Some keys"
    by (auto simp: jwks_fetch_def parseJWKS_def split: fetch_reply.splits if_splits option.splits)
  show "\<exists>stream. reply = Fetch_replied 200 stream" using r by blast
  show "size (fmdom keys) \<le> 64" using collect_keys_size [OF doc(2)] doc(1) by (simp add: maxJWKSKeys_def)
  show "0 < length kid \<and> length kid \<le> 128 \<and> acceptable_key k" if "fmlookup keys kid = Some k"
    using collect_keys_Some [OF doc(2) that] parseJWK_acceptable by auto
qed

subsection \<open>Properties\<close>

text \<open>
  What a fetched key set can contain. A key set is taken over only from a reply with status 200 and a body of at most 1 MiB; it
  has at most 64 keys, each under an identifier of 1 to 128 bytes, and each key is an RSA key with an odd exponent of at least 3
  and a modulus of at most 4096 bits or a point on P-256. Everything else is an unavailable authentication service.
\<close>

theorem fetched_keys_acceptable:
  assumes "jwks_fetch reply = Inr keys"
  shows "(\<exists>stream. reply = Fetch_replied 200 stream) \<and> size (fmdom keys) \<le> 64 \<and>
    (\<forall>kid k. fmlookup keys kid = Some k \<longrightarrow> 0 < length kid \<and> length kid \<le> 128 \<and> acceptable_key k)"
  using jwks_fetch_Inr [OF assms] by blast

definition sample_jwks :: bytes where
  "sample_jwks = marshal (JObject [(''keys'', JArray [])])"

theorem fetched_keys_acceptable_witness:
  "jwks_fetch (Fetch_replied 200 \<lparr>st_bytes = sample_jwks, st_end = Eof\<rparr>) = Inr fmempty \<and> size (fmdom (fmempty :: key_set)) \<le> 64"
proof -
  have len: "length sample_jwks = 11" by (simp add: sample_jwks_def json_string_plain)
  have "unmarshal_value sample_jwks = Some (value_of (JObject [(''keys'', JArray [])]))"
    unfolding sample_jwks_def by (rule read_marshal(1)) (simp_all add: utf8_size_def maxNestingDepth_def)
  then have "parseJWKS sample_jwks = Some fmempty"
    by (simp add: parseJWKS_def decode_struct_def jwks_fields_def find_field_def field_def decode_slice_def shown_def maxJWKSKeys_def)
  moreover have "read_all (maxJWKSBodyBytes + 1) \<lparr>st_bytes = sample_jwks, st_end = Eof\<rparr> = Some sample_jwks"
    using len by (simp add: read_all_def maxJWKSBodyBytes_def int64_order)
  ultimately have run: "jwks_fetch (Fetch_replied 200 \<lparr>st_bytes = sample_jwks, st_end = Eof\<rparr>) = Inr fmempty"
    using len by (simp add: jwks_fetch_def len64_def maxJWKSBodyBytes_def int64_order)
  show ?thesis using fetched_keys_acceptable [OF run] run by blast
qed

text \<open>
  The lower bound on the modulus counts bytes of the encoding, leading zeros included, and not bits of the number: the comment
  promises 2048 bits, but a modulus of four bits is accepted.
\<close>

lemma short_modulus_accepted:
  "parseJWK (zero_jwk\<lparr>jwk_Kty := ''RSA'', jwk_N := b64_encode (replicate 255 (CHR 0x00) @ [CHR 0x0F]), jwk_E := b64_encode [CHR 0x03]\<rparr>) =
   Inr (RSA 15 3)"
proof -
  have dec: "decodeJWKBase64 (b64_encode bs) n = Some bs" if "0 < length bs" "length bs \<le> n" for bs n
  proof -
    have "b64_encode bs \<noteq> []" using that(1) by (cases bs rule: b64_encode.cases) auto
    then show ?thesis using that by (simp add: decodeJWKBase64_def)
  qed
  have zeros: "big_endian (replicate n (CHR 0x00) @ [b]) = of_char b" for n b
    by (induction n) (simp_all add: big_endian_def)
  show ?thesis
    using dec [of "[CHR 0x03]" 8] dec [of "replicate 255 (CHR 0x00) @ [CHR 0x0F]" 512] zeros [of 255 "CHR 0x0F"] zeros [of 0 "CHR 0x03"]
    by (simp add: parseJWK_def maxRSAModulusBytes_def minRSAModulusBytes_def parse_exponent_def int64_order zero_jwk_def Let_def
        del: b64_encode.simps)
qed

end
