(* ===== verification/JwksCache.thy ===== *)
theory JwksCache
  imports Jwks
begin

section \<open>The key-set cache\<close>

text \<open>
  \<open>JWKSCache\<close> of \<open>internal/auth/jwks.go\<close> under concurrent callers. The code between taking and releasing the mutex is one
  function of the cache (\<open>enter\<close>, \<open>force_done\<close>, \<open>ttl_done\<close>); the calls of \<open>PublicKey\<close> are threads with a program counter, and
  \<open>work_step\<close> lets any of them run its next section. A channel is a number, \<open>make\<close> takes the next one, \<open>close\<close> adds it to
  the closed ones. The clock never runs backwards; it is read inside the sections. What a fetch delivers is chosen when its
  thread takes the mutex again. The time at which a call started and the history of key sets and claims are
  bookkeeping of the model: no section reads them.
\<close>

subsection \<open>State\<close>

record JWKSCache =
  jc_ttl :: int64
  jc_keys :: key_set
  jc_fetchedAt :: int
  jc_hasCache :: bool
  jc_generation :: "64 word"
  jc_forceClaimedGen :: "64 word"
  jc_forceWait :: "nat option"
  jc_ttlWait :: "nat option"

definition NewJWKSCache :: "(string \<Rightarrow> url option) \<Rightarrow> string \<Rightarrow> int64 \<Rightarrow> bool \<Rightarrow> auth_error + JWKSCache" where
  "NewJWKSCache url_parse url ttl has_clock =
     (if ttl \<le>s 0 \<or> \<not> has_clock then Inl ErrAuthenticationUnavailable
      else if \<not> validateJWKSURL url_parse url then Inl ErrAuthenticationUnavailable
      else Inr \<lparr>jc_ttl = ttl, jc_keys = fmempty, jc_fetchedAt = 0, jc_hasCache = False, jc_generation = 0,
        jc_forceClaimedGen = 0, jc_forceWait = None, jc_ttlWait = None\<rparr>)"

text \<open>\<open>Time.Sub\<close> on instants in nanoseconds: the difference, saturated at the range of a duration.\<close>

definition time_Sub :: "int \<Rightarrow> int \<Rightarrow> int64" where
  "time_Sub t u = word_of_int (max (- (2 ^ 63)) (min (2 ^ 63 - 1) (t - u)))"

datatype program_counter =
    Enter
  | Waiting nat
  | Forcing nat "64 word" int
  | Refreshing nat "64 word"
  | Returned "auth_error + public_key"

record key_call =
  call_kid :: string
  call_pc :: program_counter
  call_started :: int

datatype cache_event = Claimed nat | Loaded int key_set | Fetched int key_set

record system =
  sys_cache :: JWKSCache
  sys_clock :: int
  sys_made :: nat
  sys_closed :: "nat set"
  sys_calls :: "key_call list"
  sys_history :: "cache_event list"

subsection \<open>Sections under the mutex\<close>

datatype entry_outcome = Answer "auth_error + public_key" | Wait nat | Force "64 word" int | Refresh "64 word"

text \<open>From the top of the loop to the first unlock; \<open>chan\<close> is the channel \<open>make\<close> would return.\<close>

definition enter :: "nat \<Rightarrow> int \<Rightarrow> string \<Rightarrow> JWKSCache \<Rightarrow> entry_outcome \<times> JWKSCache" where
  "enter chan now kid cache =
     (let fresh = jc_hasCache cache \<and> time_Sub now (jc_fetchedAt cache) <s jc_ttl cache in
      if fresh then
        case fmlookup (jc_keys cache) kid of
          Some key \<Rightarrow> (Answer (Inr key), cache)
        | None \<Rightarrow>
            if jc_forceClaimedGen cache = jc_generation cache then
              case jc_forceWait cache of
                Some wait \<Rightarrow> (Wait wait, cache)
              | None \<Rightarrow> (Answer (Inl ErrUnauthenticated), cache)
            else (Force (jc_generation cache) (jc_fetchedAt cache),
                  cache\<lparr>jc_forceWait := Some chan, jc_forceClaimedGen := jc_generation cache\<rparr>)
      else
        case jc_ttlWait cache of
          Some wait \<Rightarrow> (Wait wait, cache)
        | None \<Rightarrow> (Refresh (jc_generation cache), cache\<lparr>jc_ttlWait := Some chan\<rparr>))"

definition answer :: "string \<Rightarrow> key_set \<Rightarrow> auth_error + public_key" where
  "answer kid keys = (case fmlookup keys kid of Some key \<Rightarrow> Inr key | None \<Rightarrow> Inl ErrUnauthenticated)"

text \<open>After the fetch of a forced refresh.\<close>

definition force_done ::
  "string \<Rightarrow> 64 word \<Rightarrow> int \<Rightarrow> auth_error + key_set \<Rightarrow> JWKSCache \<Rightarrow> (auth_error + public_key) \<times> JWKSCache" where
  "force_done kid claimedGen claimedFetchedAt fetched cache =
     (let cache = cache\<lparr>jc_forceWait := None\<rparr> in
      case fetched of
        Inl fetchErr \<Rightarrow> (Inl fetchErr, cache)
      | Inr keys \<Rightarrow>
          let cache = (if jc_generation cache = claimedGen \<and> jc_fetchedAt cache = claimedFetchedAt
                       then cache\<lparr>jc_keys := keys\<rparr> else cache)
          in (answer kid (jc_keys cache), cache))"

text \<open>After the fetch of a refresh of a stale or empty cache.\<close>

definition ttl_done ::
  "string \<Rightarrow> 64 word \<Rightarrow> int \<Rightarrow> auth_error + key_set \<Rightarrow> JWKSCache \<Rightarrow> (auth_error + public_key) \<times> JWKSCache" where
  "ttl_done kid priorGen now fetched cache =
     (let cache = cache\<lparr>jc_ttlWait := None\<rparr> in
      case fetched of
        Inl fetchErr \<Rightarrow> (Inl fetchErr, cache)
      | Inr keys \<Rightarrow>
          let cache = (if jc_generation cache = priorGen then
                 let cache = cache\<lparr>jc_keys := keys, jc_fetchedAt := now, jc_hasCache := True, jc_generation := priorGen + 1\<rparr>
                 in if fmlookup (jc_keys cache) kid = None then cache\<lparr>jc_forceClaimedGen := jc_generation cache\<rparr> else cache
               else cache)
          in (answer kid (jc_keys cache), cache))"

subsection \<open>Calls\<close>

text \<open>A call of \<open>PublicKey\<close>, up to the loop.\<close>

definition new_call :: "bool \<Rightarrow> string \<Rightarrow> int \<Rightarrow> key_call" where
  "new_call usable kid now =
     \<lparr>call_kid = kid, call_pc = (if \<not> usable \<or> kid = [] \<or> 128 < length kid then Returned (Inl ErrAuthenticationUnavailable) else Enter),
      call_started = now\<rparr>"

abbreviation pc_of :: "system \<Rightarrow> nat \<Rightarrow> program_counter" where
  "pc_of s i \<equiv> call_pc (sys_calls s ! i)"

abbreviation kid_of :: "system \<Rightarrow> nat \<Rightarrow> string" where
  "kid_of s i \<equiv> call_kid (sys_calls s ! i)"

definition set_pc :: "nat \<Rightarrow> program_counter \<Rightarrow> system \<Rightarrow> system" where
  "set_pc i pc s = s\<lparr>sys_calls := (sys_calls s)[i := (sys_calls s ! i)\<lparr>call_pc := pc\<rparr>]\<rparr>"

definition run_enter :: "nat \<Rightarrow> system \<Rightarrow> system" where
  "run_enter i s =
     (case enter (sys_made s) (sys_clock s) (kid_of s i) (sys_cache s) of
        (Answer r, cache) \<Rightarrow> set_pc i (Returned r) (s\<lparr>sys_cache := cache\<rparr>)
      | (Wait wait, cache) \<Rightarrow> set_pc i (Waiting wait) (s\<lparr>sys_cache := cache\<rparr>)
      | (Force gen at, cache) \<Rightarrow> set_pc i (Forcing (sys_made s) gen at)
          (s\<lparr>sys_cache := cache, sys_made := sys_made s + 1, sys_history := sys_history s @ [Claimed i]\<rparr>)
      | (Refresh gen, cache) \<Rightarrow> set_pc i (Refreshing (sys_made s) gen) (s\<lparr>sys_cache := cache, sys_made := sys_made s + 1\<rparr>))"

definition run_force :: "nat \<Rightarrow> nat \<Rightarrow> 64 word \<Rightarrow> int \<Rightarrow> auth_error + key_set \<Rightarrow> system \<Rightarrow> system" where
  "run_force i wait gen at fetched s =
     (case force_done (kid_of s i) gen at fetched (sys_cache s) of
        (r, cache) \<Rightarrow> set_pc i (Returned r) (s\<lparr>sys_cache := cache, sys_closed := insert wait (sys_closed s),
          sys_history := sys_history s @ (case fetched of Inl err \<Rightarrow> [] | Inr keys \<Rightarrow> [Fetched (sys_clock s) keys])\<rparr>))"

definition run_ttl :: "nat \<Rightarrow> nat \<Rightarrow> 64 word \<Rightarrow> auth_error + key_set \<Rightarrow> system \<Rightarrow> system" where
  "run_ttl i wait gen fetched s =
     (case ttl_done (kid_of s i) gen (sys_clock s) fetched (sys_cache s) of
        (r, cache) \<Rightarrow> set_pc i (Returned r) (s\<lparr>sys_cache := cache, sys_closed := insert wait (sys_closed s),
          sys_history := sys_history s @ (case fetched of Inl err \<Rightarrow> [] | Inr keys \<Rightarrow> [Loaded (sys_clock s) keys])\<rparr>))"

text \<open>One step of one call, and the end of a wait (\<open>waitFor\<close>) because the request's context is done.\<close>

inductive work_step :: "system \<Rightarrow> system \<Rightarrow> bool" where
  at_lock: "i < length (sys_calls s) \<Longrightarrow> pc_of s i = Enter \<Longrightarrow> work_step s (run_enter i s)"
| wake: "i < length (sys_calls s) \<Longrightarrow> pc_of s i = Waiting wait \<Longrightarrow> wait \<in> sys_closed s \<Longrightarrow> work_step s (set_pc i Enter s)"
| force_reply: "i < length (sys_calls s) \<Longrightarrow> pc_of s i = Forcing wait gen at \<Longrightarrow>
    work_step s (run_force i wait gen at (jwks_fetch reply) s)"
| ttl_reply: "i < length (sys_calls s) \<Longrightarrow> pc_of s i = Refreshing wait gen \<Longrightarrow>
    work_step s (run_ttl i wait gen (jwks_fetch reply) s)"

inductive cancel_step :: "system \<Rightarrow> system \<Rightarrow> bool" where
  give_up: "i < length (sys_calls s) \<Longrightarrow> pc_of s i = Waiting wait \<Longrightarrow>
    cancel_step s (set_pc i (Returned (Inl ErrAuthenticationUnavailable)) s)"

inductive cache_reach :: "JWKSCache \<Rightarrow> system \<Rightarrow> bool" for cache where
  start: "cache_reach cache \<lparr>sys_cache = cache, sys_clock = now, sys_made = 0, sys_closed = {}, sys_calls = [], sys_history = []\<rparr>"
| tick: "cache_reach cache s \<Longrightarrow> sys_clock s \<le> now \<Longrightarrow> cache_reach cache (s\<lparr>sys_clock := now\<rparr>)"
| arrive: "cache_reach cache s \<Longrightarrow> cache_reach cache (s\<lparr>sys_calls := sys_calls s @ [new_call usable kid (sys_clock s)]\<rparr>)"
| work: "cache_reach cache s \<Longrightarrow> work_step s s' \<Longrightarrow> cache_reach cache s'"
| cancel: "cache_reach cache s \<Longrightarrow> cancel_step s s' \<Longrightarrow> cache_reach cache s'"

lemma set_pc_simps [simp]:
  "sys_cache (set_pc i pc s) = sys_cache s" "sys_clock (set_pc i pc s) = sys_clock s" "sys_made (set_pc i pc s) = sys_made s"
  "sys_closed (set_pc i pc s) = sys_closed s" "sys_history (set_pc i pc s) = sys_history s"
  "length (sys_calls (set_pc i pc s)) = length (sys_calls s)"
  by (simp_all add: set_pc_def)

lemma call_set_pc [simp]:
  "i < length (sys_calls s) \<Longrightarrow> sys_calls (set_pc i pc s) ! j = (if j = i then (sys_calls s ! i)\<lparr>call_pc := pc\<rparr> else sys_calls s ! j)"
  by (simp add: set_pc_def nth_list_update)

subsection \<open>Channels\<close>

text \<open>The channel a thread will close.\<close>

definition channel_of :: "program_counter \<Rightarrow> nat option" where
  "channel_of pc = (case pc of Forcing wait gen at \<Rightarrow> Some wait | Refreshing wait gen \<Rightarrow> Some wait | _ \<Rightarrow> None)"

lemma channel_of_simps [simp]:
  "channel_of Enter = None" "channel_of (Waiting w) = None" "channel_of (Forcing w g f) = Some w"
  "channel_of (Refreshing w g) = Some w" "channel_of (Returned r) = None"
  by (simp_all add: channel_of_def)

text \<open>The program counters as a total function; beyond the calls there is nothing to do.\<close>

definition pcs :: "system \<Rightarrow> nat \<Rightarrow> program_counter" where
  "pcs s i = (if i < length (sys_calls s) then pc_of s i else Returned (Inl ErrUnauthenticated))"

lemma pcs_set_pc [simp]: "i < length (sys_calls s) \<Longrightarrow> pcs (set_pc i pc s) = (pcs s)(i := pc)"
  by (auto simp: pcs_def fun_eq_iff)

lemma pcs_eqs [simp]:
  "pcs (s\<lparr>sys_cache := c\<rparr>) = pcs s" "pcs (s\<lparr>sys_made := m\<rparr>) = pcs s" "pcs (s\<lparr>sys_closed := k\<rparr>) = pcs s"
  "pcs (s\<lparr>sys_history := h\<rparr>) = pcs s" "pcs (s\<lparr>sys_clock := t\<rparr>) = pcs s"
  by (simp_all add: pcs_def fun_eq_iff)

text \<open>
  Channels in use are open and belong to one thread each; whoever waits, waits for a closed channel or for a thread that will
  close it; the waiting points the cache shows belong to running fetches, and only one thread refreshes, for the current
  generation.
\<close>

definition channels_ok :: "(nat \<Rightarrow> program_counter) \<Rightarrow> JWKSCache \<Rightarrow> nat \<Rightarrow> nat set \<Rightarrow> bool" where
  "channels_ok pc cache made closed \<longleftrightarrow>
     (\<forall>i w. channel_of (pc i) = Some w \<longrightarrow> w < made \<and> w \<notin> closed) \<and>
     (\<forall>i j w. channel_of (pc i) = Some w \<longrightarrow> channel_of (pc j) = Some w \<longrightarrow> i = j) \<and>
     (\<forall>i w. pc i = Waiting w \<longrightarrow> w \<in> closed \<or> (\<exists>j. channel_of (pc j) = Some w)) \<and>
     (\<forall>w. jc_forceWait cache = Some w \<longrightarrow> (\<exists>i g f. pc i = Forcing w g f)) \<and>
     (\<forall>w. jc_ttlWait cache = Some w \<longrightarrow> (\<exists>i g. pc i = Refreshing w g)) \<and>
     (\<forall>i w g. pc i = Refreshing w g \<longrightarrow> jc_ttlWait cache = Some w \<and> g = jc_generation cache) \<and>
     (\<forall>w \<in> closed. w < made)"

lemma channels_okI:
  assumes "\<And>i w. channel_of (pc i) = Some w \<Longrightarrow> w < made \<and> w \<notin> closed"
    and "\<And>i j w. channel_of (pc i) = Some w \<Longrightarrow> channel_of (pc j) = Some w \<Longrightarrow> i = j"
    and "\<And>i w. pc i = Waiting w \<Longrightarrow> w \<in> closed \<or> (\<exists>j. channel_of (pc j) = Some w)"
    and "\<And>w. jc_forceWait cache = Some w \<Longrightarrow> \<exists>i g f. pc i = Forcing w g f"
    and "\<And>w. jc_ttlWait cache = Some w \<Longrightarrow> \<exists>i g. pc i = Refreshing w g"
    and "\<And>i w g. pc i = Refreshing w g \<Longrightarrow> jc_ttlWait cache = Some w \<and> g = jc_generation cache"
    and "\<And>w. w \<in> closed \<Longrightarrow> w < made"
  shows "channels_ok pc cache made closed"
  using assms unfolding channels_ok_def by blast

lemma channels_okD:
  assumes "channels_ok pc cache made closed"
  shows "channel_of (pc i) = Some w \<Longrightarrow> w < made" and "channel_of (pc i) = Some w \<Longrightarrow> w \<notin> closed"
    and "channel_of (pc i) = Some w \<Longrightarrow> channel_of (pc j) = Some w \<Longrightarrow> i = j"
    and "pc i = Waiting w \<Longrightarrow> w \<in> closed \<or> (\<exists>j. channel_of (pc j) = Some w)"
    and "jc_forceWait cache = Some w \<Longrightarrow> \<exists>i g f. pc i = Forcing w g f"
    and "jc_ttlWait cache = Some w \<Longrightarrow> \<exists>i g. pc i = Refreshing w g"
    and "pc i = Refreshing w g \<Longrightarrow> jc_ttlWait cache = Some w \<and> g = jc_generation cache"
    and "w \<in> closed \<Longrightarrow> w < made"
  using assms unfolding channels_ok_def by blast+

text \<open>A thread without a channel moves to a place without one.\<close>

lemma channels_idle:
  assumes "channels_ok pc cache made closed" and "channel_of (pc i) = None" and "channel_of q = None"
    and "\<And>w. q = Waiting w \<Longrightarrow> w \<in> closed \<or> (\<exists>j. channel_of (pc j) = Some w)"
  shows "channels_ok (pc(i := q)) cache made closed"
proof -
  have keep: "channel_of ((pc(i := q)) j) = channel_of (pc j)" for j using assms(2,3) by simp
  have refreshing: "(pc(i := q)) j = Refreshing w g \<longleftrightarrow> pc j = Refreshing w g"
    and forcing: "(pc(i := q)) j = Forcing w g f \<longleftrightarrow> pc j = Forcing w g f" for j w g f using assms(2,3) by auto
  show ?thesis
    unfolding channels_ok_def keep refreshing forcing
    using assms(1,4) unfolding channels_ok_def by (auto split: if_splits)
qed

text \<open>A thread starts a fetch with a new channel.\<close>

lemma channels_begin:
  assumes "channels_ok pc cache made closed" and "channel_of (pc i) = None" and "channel_of q = Some made"
    and "jc_generation cache' = jc_generation cache"
    and "(\<exists>g f. q = Forcing made g f) \<and> jc_forceWait cache' = Some made \<and> jc_ttlWait cache' = jc_ttlWait cache \<or>
      q = Refreshing made (jc_generation cache) \<and> jc_ttlWait cache = None \<and> jc_ttlWait cache' = Some made \<and>
      jc_forceWait cache' = jc_forceWait cache"
  shows "channels_ok (pc(i := q)) cache' (made + 1) closed"
proof (rule channels_okI)
  note D = channels_okD [OF assms(1)]
  have old: "w < made" "j \<noteq> i" if "channel_of (pc j) = Some w" for j w using that D(1) assms(2) by auto
  have live: "\<exists>j. channel_of ((pc(i := q)) j) = Some w" if "\<exists>j. channel_of (pc j) = Some w" for w using that old(2) by auto
  show "w < made + 1 \<and> w \<notin> closed" if "channel_of ((pc(i := q)) j) = Some w" for j w
    using that D(2,8) old(1) assms(3) by (cases "j = i") (auto, fastforce)
  show "j = k" if "channel_of ((pc(i := q)) j) = Some w" "channel_of ((pc(i := q)) k) = Some w" for j k w
    using that D(3) old(1) assms(3) by (cases "j = i"; cases "k = i") auto
  show "w \<in> closed \<or> (\<exists>j. channel_of ((pc(i := q)) j) = Some w)" if "(pc(i := q)) j = Waiting w" for j w
  proof -
    have "pc j = Waiting w" using that assms(3) by (cases "j = i") auto
    then show ?thesis using D(4) live by blast
  qed
  show "\<exists>j g f. (pc(i := q)) j = Forcing w g f" if "jc_forceWait cache' = Some w" for w
    using that assms(5) D(5) old(2) by (metis channel_of_simps(3) fun_upd_other fun_upd_same option.inject)
  show "\<exists>j g. (pc(i := q)) j = Refreshing w g" if "jc_ttlWait cache' = Some w" for w
    using that assms(5) D(6) old(2) by (metis channel_of_simps(4) fun_upd_other fun_upd_same option.inject)
  show "jc_ttlWait cache' = Some w \<and> g = jc_generation cache'" if "(pc(i := q)) j = Refreshing w g" for j w g
    using that assms(4,5) D(7) by (cases "j = i") auto
  show "w < made + 1" if "w \<in> closed" for w using D(8) [OF that] by simp
qed

text \<open>A thread ends its fetch and closes its channel.\<close>

lemma channels_end:
  assumes "channels_ok pc cache made closed" and "channel_of (pc i) = Some w"
    and "(\<exists>g f. pc i = Forcing w g f) \<and> jc_forceWait cache' = None \<and> jc_ttlWait cache' = jc_ttlWait cache \<and>
        jc_generation cache' = jc_generation cache \<or>
      (\<exists>g. pc i = Refreshing w g) \<and> jc_forceWait cache' = jc_forceWait cache \<and> jc_ttlWait cache' = None"
  shows "channels_ok (pc(i := Returned r)) cache' made (insert w closed)"
proof (rule channels_okI)
  note D = channels_okD [OF assms(1)]
  have other: "j \<noteq> i" if "channel_of (pc j) = Some v" "v \<noteq> w" for j v using that assms(2) by auto
  have live: "\<exists>j. channel_of ((pc(i := Returned r)) j) = Some v" if "\<exists>j. channel_of (pc j) = Some v" "v \<noteq> w" for v
    using that other by auto
  show "v < made \<and> v \<notin> insert w closed" if "channel_of ((pc(i := Returned r)) j) = Some v" for j v
    using that D(1,2) D(3) [OF assms(2)] by (cases "j = i") auto
  show "j = k" if "channel_of ((pc(i := Returned r)) j) = Some v" "channel_of ((pc(i := Returned r)) k) = Some v" for j k v
    using that D(3) by (cases "j = i"; cases "k = i") auto
  show "v \<in> insert w closed \<or> (\<exists>j. channel_of ((pc(i := Returned r)) j) = Some v)" if "(pc(i := Returned r)) j = Waiting v" for j v
  proof -
    have "pc j = Waiting v" using that by (cases "j = i") auto
    then show ?thesis using D(4) live by blast
  qed
  show "\<exists>j g f. (pc(i := Returned r)) j = Forcing v g f" if "jc_forceWait cache' = Some v" for v
  proof -
    from that assms(3) have "jc_forceWait cache = Some v" and i: "\<exists>g. pc i = Refreshing w g" by auto
    then obtain j g f where "pc j = Forcing v g f" using D(5) by blast
    with i show ?thesis by (intro exI [of _ j] exI [of _ g] exI [of _ f]) auto
  qed
  show "\<exists>j g. (pc(i := Returned r)) j = Refreshing v g" if "jc_ttlWait cache' = Some v" for v
  proof -
    from that assms(3) have "jc_ttlWait cache = Some v" and i: "\<exists>g f. pc i = Forcing w g f" by auto
    then obtain j g where "pc j = Refreshing v g" using D(6) by blast
    with i show ?thesis by (intro exI [of _ j] exI [of _ g]) auto
  qed
  show "jc_ttlWait cache' = Some v \<and> g = jc_generation cache'" if "(pc(i := Returned r)) j = Refreshing v g" for j v g
  proof -
    have j: "j \<noteq> i" "pc j = Refreshing v g" using that by (auto split: if_splits)
    have "\<not> (\<exists>h. pc i = Refreshing w h)" using j D(3) [of j v i] D(7) [of j v g] D(7) [of i w] by auto
    then show ?thesis using assms(3) D(7) [OF j(2)] by simp
  qed
  show "v < made" if "v \<in> insert w closed" for v using that D(1) [OF assms(2)] D(8) by auto
qed

text \<open>What the sections do to the waiting points.\<close>

lemma enter_cases:
  assumes "enter chan now kid cache = (e, cache')"
  obtains (answer) r where "e = Answer r" "cache' = cache"
  | (wait) w where "e = Wait w" "cache' = cache" "jc_forceWait cache = Some w \<or> jc_ttlWait cache = Some w"
  | (force) "e = Force (jc_generation cache) (jc_fetchedAt cache)" "jc_forceClaimedGen cache \<noteq> jc_generation cache" "jc_hasCache cache"
      "cache' = cache\<lparr>jc_forceWait := Some chan, jc_forceClaimedGen := jc_generation cache\<rparr>"
  | (refresh) "e = Refresh (jc_generation cache)" "jc_ttlWait cache = None" "cache' = cache\<lparr>jc_ttlWait := Some chan\<rparr>"
proof -
  let ?fresh = "jc_hasCache cache \<and> time_Sub now (jc_fetchedAt cache) <s jc_ttl cache"
  consider "?fresh" "fmlookup (jc_keys cache) kid \<noteq> None"
    | "?fresh" "fmlookup (jc_keys cache) kid = None" "jc_forceClaimedGen cache = jc_generation cache" "jc_forceWait cache = None"
    | w where "?fresh" "fmlookup (jc_keys cache) kid = None" "jc_forceClaimedGen cache = jc_generation cache" "jc_forceWait cache = Some w"
    | "?fresh" "fmlookup (jc_keys cache) kid = None" "jc_forceClaimedGen cache \<noteq> jc_generation cache"
    | w where "\<not> ?fresh" "jc_ttlWait cache = Some w" | "\<not> ?fresh" "jc_ttlWait cache = None"
    by fastforce
  then show thesis
  proof cases
    case 1
    then show thesis using assms answer by (auto simp: enter_def)
  next
    case 2
    then show thesis using assms answer by (auto simp: enter_def)
  next
    case (3 w)
    then show thesis using assms wait [of w] by (auto simp: enter_def)
  next
    case 4
    then show thesis using assms force by (auto simp: enter_def)
  next
    case (5 w)
    then show thesis using assms wait [of w] unfolding enter_def Let_def if_not_P [OF 5(1)] by simp
  next
    case 6
    then show thesis using assms refresh unfolding enter_def Let_def if_not_P [OF 6(1)] by simp
  qed
qed

abbreviation channels_hold :: "system \<Rightarrow> bool" where
  "channels_hold s \<equiv> channels_ok (pcs s) (sys_cache s) (sys_made s) (sys_closed s)"

lemma channels_enter:
  assumes "channels_hold s" and "i < length (sys_calls s)" and "pc_of s i = Enter"
  shows "channels_hold (run_enter i s)"
proof -
  have pc: "channel_of (pcs s i) = None" using assms(2,3) by (simp add: pcs_def)
  obtain e cache' where run: "enter (sys_made s) (sys_clock s) (kid_of s i) (sys_cache s) = (e, cache')" by (rule prod.exhaust)
  from run show ?thesis
  proof (cases rule: enter_cases)
    case (answer r)
    then show ?thesis using assms run channels_idle [OF assms(1) pc, of "Returned r"] by (simp add: run_enter_def)
  next
    case (wait w)
    have "\<exists>j. channel_of (pcs s j) = Some w" using wait(3) channels_okD(5,6) [OF assms(1)] by (metis channel_of_simps(3,4))
    then show ?thesis using assms run wait(1,2) channels_idle [OF assms(1) pc, of "Waiting w"] by (simp add: run_enter_def)
  next
    case force
    then show ?thesis using assms run channels_begin [OF assms(1) pc, of "Forcing (sys_made s) (jc_generation (sys_cache s)) (jc_fetchedAt (sys_cache s))" cache']
      by (simp add: run_enter_def)
  next
    case refresh
    then show ?thesis using assms run channels_begin [OF assms(1) pc, of "Refreshing (sys_made s) (jc_generation (sys_cache s))" cache']
      by (simp add: run_enter_def)
  qed
qed

lemma channels_work:
  assumes "work_step s s'" and "channels_hold s"
  shows "channels_hold s'"
  using assms(1)
proof cases
  case (at_lock i)
  then show ?thesis using channels_enter [OF assms(2)] by simp
next
  case (wake i w)
  then show ?thesis using channels_idle [OF assms(2), of i Enter] by (simp add: pcs_def)
next
  case (force_reply i w gen at reply)
  have pc: "pcs s i = Forcing w gen at" using force_reply by (simp add: pcs_def)
  obtain r cache' where run: "force_done (kid_of s i) gen at (jwks_fetch reply) (sys_cache s) = (r, cache')" by (rule prod.exhaust)
  then have "jc_forceWait cache' = None" "jc_ttlWait cache' = jc_ttlWait (sys_cache s)" "jc_generation cache' = jc_generation (sys_cache s)"
    by (auto simp: force_done_def Let_def split: sum.splits if_splits)
  then show ?thesis using channels_end [OF assms(2), of i w cache' r] force_reply pc run by (simp add: run_force_def)
next
  case (ttl_reply i w gen reply)
  have pc: "pcs s i = Refreshing w gen" using ttl_reply by (simp add: pcs_def)
  obtain r cache' where run: "ttl_done (kid_of s i) gen (sys_clock s) (jwks_fetch reply) (sys_cache s) = (r, cache')" by (rule prod.exhaust)
  then have "jc_ttlWait cache' = None" "jc_forceWait cache' = jc_forceWait (sys_cache s)"
    by (auto simp: ttl_done_def Let_def split: sum.splits if_splits)
  then show ?thesis using channels_end [OF assms(2), of i w cache' r] ttl_reply pc run by (simp add: run_ttl_def)
qed

lemma channels_cancel:
  assumes "cancel_step s s'" and "channels_hold s"
  shows "channels_hold s'"
  using assms(1)
proof cases
  case (give_up i w)
  then show ?thesis using channels_idle [OF assms(2), of i "Returned r" for r] by (simp add: pcs_def)
qed

lemma channels_reach:
  assumes "cache_reach cache s" and "jc_forceWait cache = None" and "jc_ttlWait cache = None"
  shows "channels_hold s"
  using assms(1)
proof induction
  case (start now)
  then show ?case using assms(2,3) by (simp add: channels_ok_def pcs_def)
next
  case (arrive s usable kid)
  let ?call = "new_call usable kid (sys_clock s)" and ?n = "length (sys_calls s)"
  have "pcs (s\<lparr>sys_calls := sys_calls s @ [?call]\<rparr>) = (pcs s)(?n := call_pc ?call)"
    by (auto simp: pcs_def fun_eq_iff nth_append)
  moreover have "channel_of (pcs s ?n) = None" "channel_of (call_pc ?call) = None" "call_pc ?call \<noteq> Waiting w" for w
    by (simp_all add: pcs_def new_call_def)
  ultimately show ?case using channels_idle [OF arrive.IH, of ?n "call_pc ?call"] by (simp add: fun_upd_def)
next
  case (work s s')
  then show ?case using channels_work by blast
next
  case (cancel s s')
  then show ?case using channels_cancel by blast
qed simp

subsection \<open>Every call returns\<close>

text \<open>
  Threads that have not returned, and how far each is from its next wait or fetch. Ending a fetch may wake many threads, but it
  ends one call for good.
\<close>

definition running :: "program_counter \<Rightarrow> nat" where
  "running pc = (case pc of Returned r \<Rightarrow> 0 | _ \<Rightarrow> 1)"

definition distance :: "nat set \<Rightarrow> program_counter \<Rightarrow> nat" where
  "distance closed pc = (case pc of Enter \<Rightarrow> 1 | Waiting w \<Rightarrow> if w \<in> closed then 2 else 0 | _ \<Rightarrow> 0)"

definition work_left :: "system \<Rightarrow> (nat \<times> nat)" where
  "work_left s = ((\<Sum>c\<leftarrow>sys_calls s. running (call_pc c)), (\<Sum>c\<leftarrow>sys_calls s. distance (sys_closed s) (call_pc c)))"

lemma sum_list_update_nat:
  fixes f :: "'a \<Rightarrow> nat"
  assumes "i < length xs"
  shows "(\<Sum>x\<leftarrow>xs[i := y]. f x) + f (xs ! i) = (\<Sum>x\<leftarrow>xs. f x) + f y"
  using assms by (induction xs arbitrary: i) (auto split: nat.splits)

lemma work_left_returned:
  assumes "i < length (sys_calls s)" and "running (pc_of s i) = 1" and "sys_calls s1 = sys_calls s"
  shows "(work_left (set_pc i (Returned r) s1), work_left s) \<in> less_than <*lex*> less_than"
  using sum_list_update_nat [OF assms(1), of "\<lambda>c. running (call_pc c)" "(sys_calls s ! i)\<lparr>call_pc := Returned r\<rparr>"] assms
  by (simp add: work_left_def set_pc_def running_def)

lemma work_left_moved:
  assumes "i < length (sys_calls s)" and "running (pc_of s i) = running pc" and "distance (sys_closed s) pc < distance (sys_closed s) (pc_of s i)"
    and "sys_calls s1 = sys_calls s" "sys_closed s1 = sys_closed s"
  shows "(work_left (set_pc i pc s1), work_left s) \<in> less_than <*lex*> less_than"
  using sum_list_update_nat [OF assms(1), of "\<lambda>c. running (call_pc c)" "(sys_calls s ! i)\<lparr>call_pc := pc\<rparr>"]
    sum_list_update_nat [OF assms(1), of "\<lambda>c. distance (sys_closed s) (call_pc c)" "(sys_calls s ! i)\<lparr>call_pc := pc\<rparr>"] assms
  by (simp add: work_left_def set_pc_def)

lemma work_decreases:
  assumes "work_step s s'" and "channels_hold s"
  shows "(work_left s', work_left s) \<in> less_than <*lex*> less_than"
  using assms(1)
proof cases
  case (at_lock i)
  note moved = work_left_moved [OF at_lock(2)] and returned = work_left_returned [OF at_lock(2)]
  obtain e cache' where run: "enter (sys_made s) (sys_clock s) (kid_of s i) (sys_cache s) = (e, cache')" by (rule prod.exhaust)
  from run show ?thesis
  proof (cases rule: enter_cases)
    case (wait w)
    have "\<exists>j. channel_of (pcs s j) = Some w" using wait(3) channels_okD(5,6) [OF assms(2)] by (metis channel_of_simps(3,4))
    then have "w \<notin> sys_closed s" using channels_okD(2) [OF assms(2)] by blast
    then show ?thesis using at_lock run wait(1,2) moved [of "Waiting w"] by (simp add: run_enter_def running_def distance_def)
  qed (use at_lock run moved returned in \<open>simp_all add: run_enter_def running_def distance_def\<close>)
next
  case (wake i w)
  then show ?thesis using work_left_moved [OF wake(2), of Enter s] by (simp add: running_def distance_def)
next
  case (force_reply i w gen at reply)
  then show ?thesis using work_left_returned [OF force_reply(2)] by (simp add: running_def run_force_def split: prod.split)
next
  case (ttl_reply i w gen reply)
  then show ?thesis using work_left_returned [OF ttl_reply(2)] by (simp add: running_def run_ttl_def split: prod.split)
qed

lemma cancel_decreases:
  assumes "cancel_step s s'"
  shows "(work_left s', work_left s) \<in> less_than <*lex*> less_than"
  using assms
proof cases
  case (give_up i w)
  then show ?thesis using work_left_returned [OF give_up(2)] by (simp add: running_def)
qed

text \<open>A step of a call after any time has passed. The measure does not look at the clock.\<close>

definition later_step :: "system \<Rightarrow> system \<Rightarrow> bool" where
  "later_step s s' \<longleftrightarrow>
     (\<exists>now. sys_clock s \<le> now \<and> (work_step (s\<lparr>sys_clock := now\<rparr>) s' \<or> cancel_step (s\<lparr>sys_clock := now\<rparr>) s'))"

lemma later_decreases:
  assumes "later_step s s'" and "channels_hold s"
  shows "(work_left s', work_left s) \<in> less_than <*lex*> less_than"
proof -
  obtain now where step: "work_step (s\<lparr>sys_clock := now\<rparr>) s' \<or> cancel_step (s\<lparr>sys_clock := now\<rparr>) s'"
    using assms(1) by (auto simp: later_step_def)
  have "work_left (s\<lparr>sys_clock := now\<rparr>) = work_left s" "channels_hold (s\<lparr>sys_clock := now\<rparr>)"
    using assms(2) by (simp_all add: work_left_def pcs_def)
  then show ?thesis using step work_decreases [of "s\<lparr>sys_clock := now\<rparr>" s'] cancel_decreases [of "s\<lparr>sys_clock := now\<rparr>" s'] by auto
qed

lemma later_reach: "cache_reach cache s \<Longrightarrow> later_step s s' \<Longrightarrow> cache_reach cache s'"
  unfolding later_step_def using cache_reach.tick cache_reach.work cache_reach.cancel by blast

text \<open>A thread that has not returned can move, or it waits for a thread that can.\<close>

lemma work_enabled:
  assumes "channels_hold s" and "i < length (sys_calls s)" and "\<not> (\<exists>r. pc_of s i = Returned r)"
  shows "\<exists>s'. work_step s s'"
proof -
  have fetching: "\<exists>s'. work_step s s'" if "channel_of (pcs s j) = Some w" for j w
    using that by (cases "j < length (sys_calls s)"; cases "pc_of s j") (auto simp: pcs_def intro: force_reply ttl_reply)
  show ?thesis
  proof (cases "pc_of s i")
    case Enter
    then show ?thesis using at_lock [OF assms(2)] by blast
  next
    case (Waiting w)
    then have "w \<in> sys_closed s \<or> (\<exists>j. channel_of (pcs s j) = Some w)"
      using channels_okD(4) [OF assms(1), of i w] assms(2) by (simp add: pcs_def)
    then show ?thesis using wake [OF assms(2) Waiting] fetching by blast
  qed (use fetching [of i] assms(2,3) in \<open>auto simp: pcs_def\<close>)
qed

subsection \<open>Where keys come from\<close>

definition from_issuer :: "cache_event list \<Rightarrow> int \<Rightarrow> key_set \<Rightarrow> bool" where
  "from_issuer h at keys \<longleftrightarrow> Loaded at keys \<in> set h \<or> Fetched at keys \<in> set h"

lemma from_issuer_append [simp]: "from_issuer (h @ h') at keys \<longleftrightarrow> from_issuer h at keys \<or> from_issuer h' at keys"
  by (auto simp: from_issuer_def)

lemma from_issuer_simps [simp]:
  "\<not> from_issuer [] at keys" "\<not> from_issuer [Claimed i] at keys"
  "from_issuer [Loaded t ks] at keys \<longleftrightarrow> at = t \<and> keys = ks" "from_issuer [Fetched t ks] at keys \<longleftrightarrow> at = t \<and> keys = ks"
  by (auto simp: from_issuer_def)

definition fresh_key :: "int64 \<Rightarrow> cache_event list \<Rightarrow> key_call \<Rightarrow> public_key \<Rightarrow> bool" where
  "fresh_key ttl h call key \<longleftrightarrow>
     (\<exists>at keys. from_issuer h at keys \<and> fmlookup keys (call_kid call) = Some key \<and> call_started call - at < sint ttl)"

definition history_ok :: "int \<Rightarrow> cache_event list \<Rightarrow> bool" where
  "history_ok now h \<longleftrightarrow> (\<forall>at keys. from_issuer h at keys \<longrightarrow> at \<le> now \<and> (\<exists>reply. jwks_fetch reply = Inr keys))"

text \<open>The keys in the cache were served no earlier than the time the cache notes for them.\<close>

definition cache_ok :: "int64 \<Rightarrow> int \<Rightarrow> cache_event list \<Rightarrow> JWKSCache \<Rightarrow> bool" where
  "cache_ok ttl now h cache \<longleftrightarrow> jc_ttl cache = ttl \<and>
     (jc_hasCache cache \<longrightarrow> jc_fetchedAt cache \<le> now \<and> (\<exists>at \<ge> jc_fetchedAt cache. from_issuer h at (jc_keys cache)))"

text \<open>A forced refresh either still sees the generation it started in, or a generation loaded after its call began.\<close>

definition call_ok :: "int64 \<Rightarrow> int \<Rightarrow> cache_event list \<Rightarrow> JWKSCache \<Rightarrow> key_call \<Rightarrow> bool" where
  "call_ok ttl now h cache call \<longleftrightarrow> call_started call \<le> now \<and>
     (case call_pc call of
        Forcing w gen at \<Rightarrow> jc_hasCache cache \<and>
          (jc_generation cache = gen \<and> jc_fetchedAt cache = at \<or> call_started call \<le> jc_fetchedAt cache)
      | Returned (Inr key) \<Rightarrow> fresh_key ttl h call key
      | _ \<Rightarrow> True)"

definition keys_ok :: "int64 \<Rightarrow> system \<Rightarrow> bool" where
  "keys_ok ttl s \<longleftrightarrow> history_ok (sys_clock s) (sys_history s) \<and> cache_ok ttl (sys_clock s) (sys_history s) (sys_cache s) \<and>
     list_all (call_ok ttl (sys_clock s) (sys_history s) (sys_cache s)) (sys_calls s)"

lemma call_ok_mono:
  assumes "call_ok ttl now h cache call" and "now \<le> now'"
    and "jc_generation cache' = jc_generation cache \<and> jc_fetchedAt cache' = jc_fetchedAt cache \<and> jc_hasCache cache' = jc_hasCache cache \<or>
      jc_hasCache cache' \<and> now \<le> jc_fetchedAt cache'"
  shows "call_ok ttl now' (h @ h') cache' call"
  using assms unfolding call_ok_def fresh_key_def from_issuer_append
  by (cases "call_pc call") (auto split: sum.splits)

lemma list_all_update:
  assumes "list_all P xs" and "P y"
  shows "list_all P (xs[i := y])"
  using assms set_update_subset_insert [of xs i y] by (auto simp: list_all_iff)

lemma sint_time_Sub: "0 \<le> t - u \<Longrightarrow> sint (time_Sub t u) = min (2 ^ 63 - 1) (t - u)"
  unfolding time_Sub_def using sint_word_of_int [of "max (- (2 ^ 63)) (min (2 ^ 63 - 1) (t - u))"] by (simp add: max_def min_def)

lemma fresh_age: "time_Sub now u <s ttl \<Longrightarrow> u \<le> now \<Longrightarrow> now - u < sint ttl"
  using sint_time_Sub [of now u] sint_le_max [of ttl] by (auto simp: int64_order min_def split: if_splits)

lemma enter_answer:
  "enter chan now kid cache = (Answer (Inr key), cache') \<Longrightarrow>
     jc_hasCache cache \<and> time_Sub now (jc_fetchedAt cache) <s jc_ttl cache \<and> fmlookup (jc_keys cache) kid = Some key"
  by (auto simp: enter_def Let_def split: if_splits option.splits)

lemma keys_set_pc:
  assumes "keys_ok ttl s" and "call_ok ttl (sys_clock s) (sys_history s) (sys_cache s) ((sys_calls s ! i)\<lparr>call_pc := pc\<rparr>)"
  shows "keys_ok ttl (set_pc i pc s)"
  using assms list_all_update by (auto simp: keys_ok_def set_pc_def)

lemma keys_ok_call:
  "keys_ok ttl s \<Longrightarrow> i < length (sys_calls s) \<Longrightarrow> call_ok ttl (sys_clock s) (sys_history s) (sys_cache s) (sys_calls s ! i)"
  by (simp add: keys_ok_def list_all_length)

text \<open>A section that leaves the generation and the keys alone.\<close>

lemma keys_same_generation:
  assumes "keys_ok ttl s" and "jc_generation cache' = jc_generation (sys_cache s)" "jc_fetchedAt cache' = jc_fetchedAt (sys_cache s)"
    "jc_hasCache cache' = jc_hasCache (sys_cache s)" "jc_ttl cache' = jc_ttl (sys_cache s)"
    and "jc_keys cache' = jc_keys (sys_cache s) \<or> (\<exists>keys. jc_keys cache' = keys \<and> h = [Fetched (sys_clock s) keys])"
    and "h = [] \<or> (\<exists>i. h = [Claimed i]) \<or> (\<exists>keys reply. h = [Fetched (sys_clock s) keys] \<and> jwks_fetch reply = Inr keys)"
  shows "keys_ok ttl (s\<lparr>sys_cache := cache', sys_history := sys_history s @ h\<rparr>)"
proof -
  let ?t = "sys_clock s" and ?h = "sys_history s @ h"
  have hist: "history_ok ?t ?h" using assms(1,7) by (auto simp: keys_ok_def history_ok_def)
  have cache: "cache_ok ttl ?t ?h cache'" using assms by (auto simp: keys_ok_def cache_ok_def)
  have "call_ok ttl ?t ?h cache' c" if "call_ok ttl ?t (sys_history s) (sys_cache s) c" for c
    using call_ok_mono [OF that] assms(2-4) by simp
  then have "list_all (call_ok ttl ?t ?h cache') (sys_calls s)" using assms(1) by (auto simp: keys_ok_def list_all_iff)
  with hist cache show ?thesis by (simp add: keys_ok_def)
qed

lemma keys_enter:
  assumes "keys_ok ttl s" and "i < length (sys_calls s)" and "pc_of s i = Enter"
  shows "keys_ok ttl (run_enter i s)"
proof -
  obtain e cache' where run: "enter (sys_made s) (sys_clock s) (kid_of s i) (sys_cache s) = (e, cache')" by (rule prod.exhaust)
  have started: "call_started (sys_calls s ! i) \<le> sys_clock s" using keys_ok_call [OF assms(1,2)] by (simp add: call_ok_def)
  note same = keys_same_generation [OF assms(1)]
  from run show ?thesis
  proof (cases rule: enter_cases)
    case (answer r)
    have "fresh_key ttl (sys_history s) ((sys_calls s ! i)\<lparr>call_pc := Returned r\<rparr>) key" if "r = Inr key" for key
    proof -
      from run answer that have hit: "jc_hasCache (sys_cache s)" "time_Sub (sys_clock s) (jc_fetchedAt (sys_cache s)) <s jc_ttl (sys_cache s)"
        "fmlookup (jc_keys (sys_cache s)) (kid_of s i) = Some key" using enter_answer by blast+
      with assms(1) obtain at where "jc_fetchedAt (sys_cache s) \<le> at" "from_issuer (sys_history s) at (jc_keys (sys_cache s))"
        "sys_clock s - jc_fetchedAt (sys_cache s) < sint ttl" using fresh_age by (auto simp: keys_ok_def cache_ok_def)
      with hit(3) started show ?thesis unfolding fresh_key_def by (intro exI [of _ at] exI [of _ "jc_keys (sys_cache s)"]) simp
    qed
    then show ?thesis using assms run answer started
      by (auto simp: run_enter_def call_ok_def intro!: keys_set_pc split: sum.splits)
  next
    case (wait w)
    then show ?thesis using assms run started by (auto simp: run_enter_def call_ok_def intro!: keys_set_pc)
  next
    case force
    have "keys_ok ttl (s\<lparr>sys_cache := cache', sys_made := sys_made s + 1, sys_history := sys_history s @ [Claimed i]\<rparr>)"
      using same [of cache' "[Claimed i]"] force(4) by (simp add: keys_ok_def)
    then show ?thesis using run force started by (auto simp: run_enter_def call_ok_def intro!: keys_set_pc)
  next
    case refresh
    have "keys_ok ttl (s\<lparr>sys_cache := cache', sys_made := sys_made s + 1, sys_history := sys_history s\<rparr>)"
      using same [of cache' "[]"] refresh(3) by (simp add: keys_ok_def)
    then show ?thesis using run refresh started by (auto simp: run_enter_def call_ok_def intro!: keys_set_pc)
  qed
qed

lemma answer_Inr: "answer kid keys = Inr key \<longleftrightarrow> fmlookup keys kid = Some key"
  by (simp add: answer_def split: option.splits)

lemma keys_force:
  assumes "keys_ok ttl s" and "0 < sint ttl" and "i < length (sys_calls s)" and "pc_of s i = Forcing w gen at"
  shows "keys_ok ttl (run_force i w gen at (jwks_fetch reply) s)"
proof -
  obtain r cache' where run: "force_done (kid_of s i) gen at (jwks_fetch reply) (sys_cache s) = (r, cache')" by (rule prod.exhaust)
  let ?h = "case jwks_fetch reply of Inl err \<Rightarrow> [] | Inr keys \<Rightarrow> [Fetched (sys_clock s) keys]"
  have call: "call_started (sys_calls s ! i) \<le> sys_clock s" "jc_hasCache (sys_cache s)"
    "jc_generation (sys_cache s) = gen \<and> jc_fetchedAt (sys_cache s) = at \<or> call_started (sys_calls s ! i) \<le> jc_fetchedAt (sys_cache s)"
    using keys_ok_call [OF assms(1,3)] assms(4) by (simp_all add: call_ok_def)
  have same: "keys_ok ttl (s\<lparr>sys_cache := cache', sys_history := sys_history s @ ?h\<rparr>)"
    by (rule keys_same_generation [OF assms(1)]) (use run in \<open>auto simp: force_done_def Let_def split: sum.splits if_splits\<close>)
  have "fresh_key ttl (sys_history s @ ?h) ((sys_calls s ! i)\<lparr>call_pc := Returned r\<rparr>) key" if "r = Inr key" for key
  proof -
    from that run obtain keys where keys: "jwks_fetch reply = Inr keys" "fmlookup (jc_keys cache') (kid_of s i) = Some key"
      and c': "cache' = sys_cache s\<lparr>jc_forceWait := None, jc_keys := keys\<rparr> \<or>
        cache' = sys_cache s\<lparr>jc_forceWait := None\<rparr> \<and> \<not> (jc_generation (sys_cache s) = gen \<and> jc_fetchedAt (sys_cache s) = at)"
      by (auto simp: force_done_def Let_def answer_Inr split: sum.splits if_splits)
    have "\<exists>t. from_issuer (sys_history s @ ?h) t (jc_keys cache') \<and> call_started (sys_calls s ! i) \<le> t"
      using c'
    proof
      assume "cache' = sys_cache s\<lparr>jc_forceWait := None, jc_keys := keys\<rparr>"
      then show ?thesis using keys(1) call(1) by auto
    next
      assume "cache' = sys_cache s\<lparr>jc_forceWait := None\<rparr> \<and> \<not> (jc_generation (sys_cache s) = gen \<and> jc_fetchedAt (sys_cache s) = at)"
      then show ?thesis using call assms(1) by (auto simp: keys_ok_def cache_ok_def)
    qed
    then show ?thesis using keys(2) assms(2) unfolding fresh_key_def by (fastforce simp del: from_issuer_append)
  qed
  then have "call_ok ttl (sys_clock s) (sys_history s @ ?h) cache' ((sys_calls s ! i)\<lparr>call_pc := Returned r\<rparr>)"
    using call(1) by (auto simp: call_ok_def split: sum.splits)
  then show ?thesis using keys_set_pc [OF same, of "Returned r" i] run by (simp add: run_force_def keys_ok_def set_pc_def)
qed

lemma keys_ttl:
  assumes "keys_ok ttl s" and "0 < sint ttl" and "i < length (sys_calls s)" and "pc_of s i = Refreshing w gen" and "channels_hold s"
  shows "keys_ok ttl (run_ttl i w gen (jwks_fetch reply) s)"
proof (cases "jwks_fetch reply")
  case (Inl err)
  have "keys_ok ttl (s\<lparr>sys_cache := sys_cache s\<lparr>jc_ttlWait := None\<rparr>, sys_history := sys_history s @ []\<rparr>)"
    by (rule keys_same_generation [OF assms(1)]) simp_all
  from keys_set_pc [OF this, of "Returned (Inl err)" i] keys_ok_call [OF assms(1,3)] show ?thesis
    using Inl by (simp add: run_ttl_def ttl_done_def keys_ok_def set_pc_def call_ok_def)
next
  case (Inr keys)
  let ?t = "sys_clock s" and ?h = "sys_history s @ [Loaded (sys_clock s) keys]"
  have gen: "jc_generation (sys_cache s) = gen" using channels_okD(7) [OF assms(5), of i w gen] assms(3,4) by (simp add: pcs_def)
  obtain r cache' where run: "ttl_done (kid_of s i) gen ?t (Inr keys) (sys_cache s) = (r, cache')" by (rule prod.exhaust)
  then have c': "jc_keys cache' = keys" "jc_fetchedAt cache' = ?t" "jc_hasCache cache'" "jc_ttl cache' = jc_ttl (sys_cache s)"
    "r = answer (kid_of s i) keys" using gen by (auto simp: ttl_done_def Let_def split: if_splits)
  have hist: "history_ok ?t ?h" using assms(1) Inr by (auto simp: keys_ok_def history_ok_def)
  have cache: "cache_ok ttl ?t ?h cache'" using assms(1) c' by (auto simp: keys_ok_def cache_ok_def)
  have "call_ok ttl ?t ?h cache' c" if "call_ok ttl ?t (sys_history s) (sys_cache s) c" for c
    using call_ok_mono [OF that] c' by simp
  then have calls: "list_all (call_ok ttl ?t ?h cache') (sys_calls s)" using assms(1) by (auto simp: keys_ok_def list_all_iff)
  have started: "call_started (sys_calls s ! i) \<le> ?t" using keys_ok_call [OF assms(1,3)] by (simp add: call_ok_def)
  have "fresh_key ttl ?h ((sys_calls s ! i)\<lparr>call_pc := Returned r\<rparr>) key" if "r = Inr key" for key
    using that c'(5) started assms(2) unfolding fresh_key_def by (intro exI [of _ ?t] exI [of _ keys]) (simp add: answer_Inr)
  then have "call_ok ttl ?t ?h cache' ((sys_calls s ! i)\<lparr>call_pc := Returned r\<rparr>)"
    using started by (auto simp: call_ok_def split: sum.splits)
  then show ?thesis using hist cache list_all_update [OF calls] run Inr by (simp add: run_ttl_def keys_ok_def set_pc_def)
qed

lemma keys_reach:
  assumes "cache_reach cache s" and "jc_forceWait cache = None" "jc_ttlWait cache = None" "\<not> jc_hasCache cache" "0 <s jc_ttl cache"
  shows "keys_ok (jc_ttl cache) s"
  using assms(1)
proof induction
  case (start now)
  then show ?case using assms(4) by (simp add: keys_ok_def history_ok_def cache_ok_def)
next
  case (tick s now)
  have "call_ok (jc_ttl cache) now (sys_history s) (sys_cache s) c" if "call_ok (jc_ttl cache) (sys_clock s) (sys_history s) (sys_cache s) c" for c
    using call_ok_mono [OF that tick.hyps(2), of "sys_cache s" "[]"] by simp
  then show ?case using tick by (auto simp: keys_ok_def history_ok_def cache_ok_def list_all_iff) (meson order_trans)+
next
  case (arrive s usable kid)
  then show ?case by (simp add: keys_ok_def call_ok_def new_call_def)
next
  case (work s s')
  note ch = channels_reach [OF work.hyps(1) assms(2,3)]
  have ttl: "0 < sint (jc_ttl cache)" using assms(5) by (simp add: int64_order)
  from work.hyps(2) show ?case
  proof cases
    case (wake i w)
    then show ?thesis using keys_set_pc [OF work.IH, of Enter i] keys_ok_call [OF work.IH] by (simp add: call_ok_def)
  qed (use work.IH ttl ch keys_enter keys_force keys_ttl in blast)+
next
  case (cancel s s')
  from cancel.hyps(2) show ?case
  proof cases
    case (give_up i w)
    then show ?thesis using keys_set_pc [OF cancel.IH, of _ i] keys_ok_call [OF cancel.IH] by (simp add: call_ok_def)
  qed
qed

subsection \<open>Claims\<close>

definition spaced :: "cache_event list \<Rightarrow> bool" where
  "spaced h \<longleftrightarrow> (\<forall>xs i ys j zs. h = xs @ Claimed i # ys @ Claimed j # zs \<longrightarrow> (\<exists>at keys. Loaded at keys \<in> set ys))"

definition reloaded :: "cache_event list \<Rightarrow> bool" where
  "reloaded h \<longleftrightarrow> (\<forall>xs i ys. h = xs @ Claimed i # ys \<longrightarrow> (\<exists>at keys. Loaded at keys \<in> set ys))"

lemma spaced_snoc: "spaced h \<Longrightarrow> (\<And>i. e = Claimed i \<Longrightarrow> reloaded h) \<Longrightarrow> spaced (h @ [e])"
  unfolding spaced_def
proof (intro allI impI)
  fix xs i ys j zs
  assume old: "\<forall>xs i ys j zs. h = xs @ Claimed i # ys @ Claimed j # zs \<longrightarrow> (\<exists>at keys. Loaded at keys \<in> set ys)"
    and new: "\<And>i. e = Claimed i \<Longrightarrow> reloaded h" and eq: "h @ [e] = xs @ Claimed i # ys @ Claimed j # zs"
  show "\<exists>at keys. Loaded at keys \<in> set ys"
  proof (cases zs rule: rev_cases)
    case Nil
    then have "e = Claimed j" "h = xs @ Claimed i # ys" using eq by (auto dest: arg_cong [of _ _ butlast] arg_cong [of _ _ last])
    then show ?thesis using new unfolding reloaded_def by blast
  next
    case (snoc vs v)
    then have "h = xs @ Claimed i # ys @ Claimed j # vs" using eq by simp
    then show ?thesis using old by blast
  qed
qed

lemma reloaded_snoc: "reloaded h \<Longrightarrow> (\<And>i. e \<noteq> Claimed i) \<Longrightarrow> reloaded (h @ [e])"
  unfolding reloaded_def
proof (intro allI impI)
  fix xs i ys
  assume old: "\<forall>xs i ys. h = xs @ Claimed i # ys \<longrightarrow> (\<exists>at keys. Loaded at keys \<in> set ys)"
    and new: "\<And>i. e \<noteq> Claimed i" and eq: "h @ [e] = xs @ Claimed i # ys"
  show "\<exists>at keys. Loaded at keys \<in> set ys"
  proof (cases ys rule: rev_cases)
    case (snoc vs v)
    then have "h = xs @ Claimed i # vs" using eq by simp
    then show ?thesis using old snoc by fastforce
  qed (use new eq in auto)
qed

lemma reloaded_Loaded [simp]: "reloaded (h @ [Loaded t keys])"
  unfolding reloaded_def
proof (intro allI impI)
  fix xs i ys
  assume "h @ [Loaded t keys] = xs @ Claimed i # ys"
  then show "\<exists>at keys. Loaded at keys \<in> set ys" by (cases ys rule: rev_cases) auto
qed

definition claims_ok :: "system \<Rightarrow> bool" where
  "claims_ok s \<longleftrightarrow> spaced (sys_history s) \<and>
     (jc_forceClaimedGen (sys_cache s) \<noteq> jc_generation (sys_cache s) \<longrightarrow> reloaded (sys_history s))"

lemma claims_work:
  assumes "work_step s s'" and "claims_ok s"
  shows "claims_ok s'"
  using assms(1)
proof cases
  case (at_lock i)
  obtain e cache' where run: "enter (sys_made s) (sys_clock s) (kid_of s i) (sys_cache s) = (e, cache')" by (rule prod.exhaust)
  from run show ?thesis
  proof (cases rule: enter_cases)
    case force
    then have "spaced (sys_history s @ [Claimed i])" using assms(2) spaced_snoc by (auto simp: claims_ok_def)
    then show ?thesis using at_lock(1) run force by (simp add: claims_ok_def run_enter_def)
  qed (use at_lock(1) assms(2) run in \<open>simp_all add: claims_ok_def run_enter_def\<close>)
next
  case (force_reply i w gen at reply)
  obtain r cache' where run: "force_done (kid_of s i) gen at (jwks_fetch reply) (sys_cache s) = (r, cache')" by (rule prod.exhaust)
  then have "jc_forceClaimedGen cache' = jc_forceClaimedGen (sys_cache s)" "jc_generation cache' = jc_generation (sys_cache s)"
    by (auto simp: force_done_def Let_def split: sum.splits if_splits)
  then show ?thesis using force_reply(1) assms(2) run spaced_snoc reloaded_snoc
    by (cases "jwks_fetch reply") (auto simp: claims_ok_def run_force_def)
next
  case (ttl_reply i w gen reply)
  obtain r cache' where run: "ttl_done (kid_of s i) gen (sys_clock s) (jwks_fetch reply) (sys_cache s) = (r, cache')" by (rule prod.exhaust)
  then have "jwks_fetch reply = Inl err \<Longrightarrow> cache' = sys_cache s\<lparr>jc_ttlWait := None\<rparr>" for err by (auto simp: ttl_done_def Let_def)
  then show ?thesis using ttl_reply(1) assms(2) run spaced_snoc
    by (cases "jwks_fetch reply") (auto simp: claims_ok_def run_ttl_def)
qed (use assms(2) in \<open>simp add: claims_ok_def\<close>)

lemma claims_reach:
  assumes "cache_reach cache s" and "jc_forceClaimedGen cache = jc_generation cache"
  shows "claims_ok s"
  using assms(1)
proof induction
  case (start now)
  then show ?case using assms(2) by (simp add: claims_ok_def spaced_def)
next
  case (work s s')
  then show ?case using claims_work by blast
next
  case (cancel s s')
  from cancel.hyps(2) show ?case by cases (use cancel.IH in \<open>simp add: claims_ok_def\<close>)
qed (simp_all add: claims_ok_def)

lemma NewJWKSCache_Inr:
  assumes "NewJWKSCache url_parse url ttl has_clock = Inr cache"
  shows "jc_ttl cache = ttl" "0 <s jc_ttl cache" "\<not> jc_hasCache cache" "jc_forceWait cache = None" "jc_ttlWait cache = None"
    "jc_forceClaimedGen cache = jc_generation cache"
  using assms by (auto simp: NewJWKSCache_def int64_order split: if_splits)

subsection \<open>Sample runs\<close>

text \<open>A schedule as a list of actions, so that runs can be computed.\<close>

datatype action = Tick int | Arrive string | Lock nat | Reply nat fetch_reply

definition perform :: "action \<Rightarrow> system \<Rightarrow> system option" where
  "perform a s = (case a of
       Tick now \<Rightarrow> if sys_clock s \<le> now then Some (s\<lparr>sys_clock := now\<rparr>) else None
     | Arrive kid \<Rightarrow> Some (s\<lparr>sys_calls := sys_calls s @ [new_call True kid (sys_clock s)]\<rparr>)
     | Lock i \<Rightarrow> if i < length (sys_calls s) \<and> pc_of s i = Enter then Some (run_enter i s) else None
     | Reply i reply \<Rightarrow>
         if i < length (sys_calls s) then
           case pc_of s i of
             Forcing w g f \<Rightarrow> Some (run_force i w g f (jwks_fetch reply) s)
           | Refreshing w g \<Rightarrow> Some (run_ttl i w g (jwks_fetch reply) s)
           | _ \<Rightarrow> None
         else None)"

fun schedule :: "action list \<Rightarrow> system \<Rightarrow> system option" where
  "schedule [] s = Some s"
| "schedule (a # as) s = (case perform a s of None \<Rightarrow> None | Some s' \<Rightarrow> schedule as s')"

lemma perform_reach:
  assumes "cache_reach cache s" and "perform a s = Some s'"
  shows "cache_reach cache s'"
proof (cases a)
  case (Tick now)
  then show ?thesis using assms cache_reach.tick by (auto simp: perform_def split: if_splits)
next
  case (Arrive kid)
  then show ?thesis using assms cache_reach.arrive by (auto simp: perform_def)
next
  case (Lock i)
  then show ?thesis using assms cache_reach.work work_step.at_lock by (auto simp: perform_def split: if_splits)
next
  case (Reply i reply)
  then show ?thesis using assms by (auto simp: perform_def split: if_splits program_counter.splits
      intro: cache_reach.work work_step.force_reply work_step.ttl_reply)
qed

lemma schedule_reach: "cache_reach cache s \<Longrightarrow> schedule as s = Some s' \<Longrightarrow> cache_reach cache s'"
  by (induction as s rule: schedule.induct) (auto split: option.splits intro: perform_reach)

text \<open>A key set with one key, the point of P-256 with first coordinate zero.\<close>

definition sample_key :: public_key where
  "sample_key = EC 0 0x66485C780E2F83D72433BD5D84A06BB6541C2AF31DAE871728BF856A174F93F4"

definition sample_key_json :: json where
  "sample_key_json = JObject [(''keys'', JArray [JObject [(''kty'', JString ''EC''), (''kid'', JString ''k1''), (''crv'', JString ''P-256''),
     (''x'', JString ''AA''), (''y'', JString ''ZkhceA4vg9ckM71dhKBrtlQcKvMdrocXKL-FahdPk_Q'')]])]"

definition sample_reply :: fetch_reply where
  "sample_reply = Fetch_replied 200 \<lparr>st_bytes = marshal sample_key_json, st_end = Eof\<rparr>"

lemma sample_point:
  "parseJWK (zero_jwk\<lparr>jwk_Kty := ''EC'', jwk_Kid := ''k1'', jwk_Crv := ''P-256'', jwk_X := ''AA'',
     jwk_Y := ''ZkhceA4vg9ckM71dhKBrtlQcKvMdrocXKL-FahdPk_Q''\<rparr>) = Inr sample_key"
  by (simp add: parseJWK_def zero_jwk_def decodeJWKBase64_def b64_decode_def b64_index_def char_class_defs big_endian_def
      on_p256_def p256_p_def p256_b_def sample_key_def)

lemma sample_fetch: "jwks_fetch sample_reply = Inr (fmupd ''k1'' sample_key fmempty)"
proof -
  have len: "length (marshal sample_key_json) = 107" unfolding sample_key_json_def by (simp add: json_string_plain)
  have "unmarshal_value (marshal sample_key_json) = Some (value_of sample_key_json)"
    unfolding sample_key_json_def by (rule read_marshal(1)) (simp_all add: utf8_size_def maxNestingDepth_def)
  moreover have "decode_struct False jwks_fields ([], value_of sample_key_json) \<lparr>jwks_Keys = ([], 0)\<rparr> =
      Some \<lparr>jwks_Keys = ([zero_jwk\<lparr>jwk_Kty := ''EC'', jwk_Kid := ''k1'', jwk_Crv := ''P-256'', jwk_X := ''AA'',
        jwk_Y := ''ZkhceA4vg9ckM71dhKBrtlQcKvMdrocXKL-FahdPk_Q''\<rparr>], 1)\<rparr>"
    by (simp add: sample_key_json_def decode_struct_def jwks_fields_def jwk_fields_def find_field_def field_def decode_slice_def
      decode_string_def)
  ultimately have "parseJWKS (marshal sample_key_json) = Some (fmupd ''k1'' sample_key fmempty)"
    using sample_point by (simp add: parseJWKS_def shown_def maxJWKSKeys_def) (simp add: zero_jwk_def)
  moreover have "read_all (maxJWKSBodyBytes + 1) \<lparr>st_bytes = marshal sample_key_json, st_end = Eof\<rparr> = Some (marshal sample_key_json)"
    using len by (simp add: read_all_def maxJWKSBodyBytes_def int64_order)
  ultimately show ?thesis using len by (simp add: sample_reply_def jwks_fetch_def len64_def maxJWKSBodyBytes_def int64_order)
qed

definition sample_cache :: JWKSCache where
  "sample_cache = \<lparr>jc_ttl = 10, jc_keys = fmempty, jc_fetchedAt = 0, jc_hasCache = False, jc_generation = 0,
     jc_forceClaimedGen = 0, jc_forceWait = None, jc_ttlWait = None\<rparr>"

definition sample_start :: system where
  "sample_start = \<lparr>sys_cache = sample_cache, sys_clock = 0, sys_made = 0, sys_closed = {}, sys_calls = [], sys_history = []\<rparr>"

lemma sample_start_reach: "cache_reach sample_cache sample_start"
  unfolding sample_start_def by (rule cache_reach.start)

definition local_url :: "string \<Rightarrow> url option" where
  "local_url raw = Some \<lparr>url_Host = ''h'', url_Hostname = ''h'', url_has_User = False, url_RawQuery = [], url_Fragment = []\<rparr>"

lemma sample_cache_new: "NewJWKSCache local_url ''https://h'' 10 True = Inr sample_cache"
  by (simp add: NewJWKSCache_def validateJWKSURL_def local_url_def has_prefix_def sample_cache_def int64_order)

lemmas run_defs = perform_def run_enter_def run_force_def run_ttl_def enter_def force_done_def ttl_done_def answer_def set_pc_def
  new_call_def time_Sub_def int64_order sample_start_def sample_cache_def

text \<open>One call on an empty cache.\<close>

lemma sample_hit:
  "\<exists>s. schedule [Arrive ''k1'', Lock 0, Reply 0 sample_reply] sample_start = Some s \<and>
     sys_calls s = [\<lparr>call_kid = ''k1'', call_pc = Returned (Inr sample_key), call_started = 0\<rparr>] \<and>
     sys_history s = [Loaded 0 (fmupd ''k1'' sample_key fmempty)]"
  by (simp add: run_defs sample_fetch)

text \<open>
  Two forced refreshes in flight. The call numbered 1 forces a refresh and its fetch is slow; meanwhile the cache goes stale, is
  reloaded, and call 3 forces a refresh in the new generation. The end of call 1 removes the waiting point of call 3.
\<close>

definition overlap :: "action list" where
  "overlap = [Arrive ''k1'', Lock 0, Reply 0 sample_reply, Arrive ''k2'', Lock 1, Tick 20, Arrive ''k1'', Lock 2, Reply 2 sample_reply,
     Arrive ''k2'', Lock 3, Reply 1 Fetch_failed, Arrive ''k2'', Lock 4]"

lemma sample_overlap:
  "\<exists>s. schedule overlap sample_start = Some s \<and> length (sys_calls s) = 5 \<and> pc_of s 3 = Forcing 3 2 20 \<and>
     pc_of s 4 = Returned (Inl ErrUnauthenticated) \<and> sys_closed s = {0, 1, 2} \<and>
     sys_history s = [Loaded 0 (fmupd ''k1'' sample_key fmempty), Claimed 1, Loaded 20 (fmupd ''k1'' sample_key fmempty), Claimed 3]"
  by (simp add: overlap_def run_defs sample_fetch jwks_fetch_def [of Fetch_failed]) auto

lemma sample_overlap_clock:
  "\<exists>s. schedule overlap sample_start = Some s \<and> length (sys_calls s) = 5 \<and> pc_of s 3 = Forcing 3 2 20 \<and> sys_clock s = 20"
  by (simp add: overlap_def run_defs sample_fetch jwks_fetch_def [of Fetch_failed])

subsection \<open>Properties\<close>

text \<open>
  C31. A key handed out is one the issuer served, and served recently. Whatever calls run concurrently and however long their
  fetches take, a key that \<open>PublicKey\<close> returns for an identifier stood under that identifier in a key set the issuer served, it
  is an acceptable key, and that set was taken over during the call or less than the time to live before the call began: a key
  the issuer has withdrawn for that long is not accepted any more.
\<close>

theorem returned_key_fresh:
  assumes "NewJWKSCache url_parse url ttl has_clock = Inr cache" and "cache_reach cache s"
    and "i < length (sys_calls s)" and "pc_of s i = Returned (Inr key)"
  shows "acceptable_key key \<and> (\<exists>at keys. from_issuer (sys_history s) at keys \<and> fmlookup keys (kid_of s i) = Some key \<and>
    (\<exists>reply. jwks_fetch reply = Inr keys) \<and> at \<le> sys_clock s \<and> call_started (sys_calls s ! i) - at < sint ttl)"
proof -
  note new = NewJWKSCache_Inr [OF assms(1)]
  have ok: "keys_ok ttl s" using keys_reach [OF assms(2) new(4,5,3,2)] new(1) by simp
  then obtain at keys where k: "from_issuer (sys_history s) at keys" "fmlookup keys (kid_of s i) = Some key"
      "call_started (sys_calls s ! i) - at < sint ttl"
    using keys_ok_call [OF _ assms(3)] assms(4) unfolding call_ok_def fresh_key_def by fastforce
  then obtain reply where "jwks_fetch reply = Inr keys" "at \<le> sys_clock s" using ok by (auto simp: keys_ok_def history_ok_def)
  with k show ?thesis using jwks_fetch_Inr(3) by blast
qed

text \<open>
  C32. Limits on traffic to the issuer. Between two forced refreshes there is always a regular reload, so that requests with
  unknown key identifiers cannot be turned into a stream of fetches; at most one call reloads a stale cache at a time; and a
  channel is closed only by the call that made it and only once, so that no \<open>close\<close> panics.
\<close>

theorem refreshes_limited:
  assumes "NewJWKSCache url_parse url ttl has_clock = Inr cache" and "cache_reach cache s"
  shows "(\<forall>xs i ys j zs. sys_history s = xs @ Claimed i # ys @ Claimed j # zs \<longrightarrow> (\<exists>at keys. Loaded at keys \<in> set ys)) \<and>
    (\<forall>i < length (sys_calls s). \<forall>j < length (sys_calls s). \<forall>v w g h. pc_of s i = Refreshing v g \<longrightarrow> pc_of s j = Refreshing w h \<longrightarrow> i = j) \<and>
    (\<forall>i < length (sys_calls s). \<forall>j < length (sys_calls s). \<forall>w. channel_of (pc_of s i) = Some w \<longrightarrow>
       w \<notin> sys_closed s \<and> (channel_of (pc_of s j) = Some w \<longrightarrow> i = j))"
proof -
  note new = NewJWKSCache_Inr [OF assms(1)]
  have ch: "channels_hold s" using channels_reach [OF assms(2) new(4,5)] .
  note D = channels_okD [OF ch, unfolded pcs_def]
  have "spaced (sys_history s)" using claims_reach [OF assms(2) new(6)] by (simp add: claims_ok_def)
  moreover have "i = j" if "i < length (sys_calls s)" "j < length (sys_calls s)" "pc_of s i = Refreshing v g" "pc_of s j = Refreshing w h" for i j v w g h
    using that D(7) [of i v g] D(7) [of j w h] D(3) [of i v j] by simp
  moreover have "w \<notin> sys_closed s \<and> (channel_of (pc_of s j) = Some w \<longrightarrow> i = j)"
    if "i < length (sys_calls s)" "j < length (sys_calls s)" "channel_of (pc_of s i) = Some w" for i j w
    using that D(2) [of i w] D(3) [of i w j] by simp
  ultimately show ?thesis unfolding spaced_def by blast
qed

text \<open>
  C33. Every call returns. As long as some call has not returned, a call can make a step, without any help from cancellation;
  and without new calls there is no infinite sequence of steps, however much time passes before each of them: no call waits
  forever and none spins, provided every fetch is eventually answered or fails. A cache that goes stale while a call is at
  work does not send the call round the loop for ever.
\<close>

theorem calls_return:
  assumes "NewJWKSCache url_parse url ttl has_clock = Inr cache"
  shows "wf {(s', s). cache_reach cache s \<and> later_step s s'} \<and>
    (\<forall>s. cache_reach cache s \<longrightarrow> (\<exists>s'. work_step s s') \<or> (\<forall>call \<in> set (sys_calls s). \<exists>r. call_pc call = Returned r))"
proof -
  note new = NewJWKSCache_Inr [OF assms]
  have ch: "channels_hold s" if "cache_reach cache s" for s using channels_reach [OF that new(4,5)] .
  have "{(s', s). cache_reach cache s \<and> later_step s s'} \<subseteq> inv_image (less_than <*lex*> less_than) work_left"
    using later_decreases [OF _ ch] by auto
  then have "wf {(s', s). cache_reach cache s \<and> later_step s s'}"
    by (rule wf_subset [rotated]) auto
  moreover have "(\<exists>s'. work_step s s') \<or> (\<forall>call \<in> set (sys_calls s). \<exists>r. call_pc call = Returned r)" if "cache_reach cache s" for s
    using work_enabled [OF ch [OF that]] by (metis in_set_conv_nth)
  ultimately show ?thesis by blast
qed

theorem returned_key_fresh_witness:
  "\<exists>s. schedule [Arrive ''k1'', Lock 0, Reply 0 sample_reply] sample_start = Some s \<and> pc_of s 0 = Returned (Inr sample_key) \<and>
     acceptable_key sample_key \<and> (\<exists>at keys. from_issuer (sys_history s) at keys \<and> fmlookup keys ''k1'' = Some sample_key \<and> 0 - at < 10)"
proof -
  obtain s where s: "schedule [Arrive ''k1'', Lock 0, Reply 0 sample_reply] sample_start = Some s"
    "sys_calls s = [\<lparr>call_kid = ''k1'', call_pc = Returned (Inr sample_key), call_started = 0\<rparr>]" using sample_hit by blast
  have "0 < length (sys_calls s)" and pc: "pc_of s 0 = Returned (Inr sample_key)" using s(2) by simp_all
  note fresh = returned_key_fresh [OF sample_cache_new schedule_reach [OF sample_start_reach s(1)] this]
  obtain at keys where k: "from_issuer (sys_history s) at keys" "fmlookup keys (kid_of s 0) = Some sample_key"
    "call_started (sys_calls s ! 0) - at < sint (10 :: int64)" using conjunct2 [OF fresh] by blast
  have "from_issuer (sys_history s) at keys \<and> fmlookup keys ''k1'' = Some sample_key \<and> 0 - at < 10" using k s(2) by simp
  then show ?thesis using s(1) pc conjunct1 [OF fresh] by blast
qed

theorem refreshes_limited_witness:
  "\<exists>s. schedule overlap sample_start = Some s \<and> channel_of (pc_of s 3) = Some 3 \<and> 3 \<notin> sys_closed s \<and>
     (\<exists>ys. sys_history s = [Loaded 0 (fmupd ''k1'' sample_key fmempty)] @ Claimed 1 # ys @ Claimed 3 # [] \<and> (\<exists>at keys. Loaded at keys \<in> set ys))"
proof -
  obtain s where s: "schedule overlap sample_start = Some s" "length (sys_calls s) = 5" "pc_of s 3 = Forcing 3 2 20"
    and h: "sys_history s = [Loaded 0 (fmupd ''k1'' sample_key fmempty)] @ Claimed 1 # [Loaded 20 (fmupd ''k1'' sample_key fmempty)] @ Claimed 3 # []"
    using sample_overlap by auto
  note limited = refreshes_limited [OF sample_cache_new schedule_reach [OF sample_start_reach s(1)]]
  have "\<exists>at keys. Loaded at keys \<in> set [Loaded 20 (fmupd ''k1'' sample_key fmempty)]"
    using conjunct1 [OF limited, rule_format, OF h] .
  then have "\<exists>ys. sys_history s = [Loaded 0 (fmupd ''k1'' sample_key fmempty)] @ Claimed 1 # ys @ Claimed 3 # [] \<and>
      (\<exists>at keys. Loaded at keys \<in> set ys)" using h by blast
  moreover have "3 \<notin> sys_closed s" using conjunct2 [OF conjunct2 [OF limited], rule_format, of 3 3 3] s(2,3) by simp
  ultimately show ?thesis using s by simp
qed

theorem calls_return_witness:
  "wf {(s', s). cache_reach sample_cache s \<and> later_step s s'} \<and>
   (\<exists>s s'. schedule overlap sample_start = Some s \<and> pc_of s 3 = Forcing 3 2 20 \<and> work_step s s') \<and>
   (\<exists>s s'. schedule overlap sample_start = Some s \<and> later_step s s' \<and> sys_clock s' = 1000 \<and> sys_clock s = 20)"
proof -
  obtain s where s: "schedule overlap sample_start = Some s" "length (sys_calls s) = 5" "pc_of s 3 = Forcing 3 2 20" "sys_clock s = 20"
    using sample_overlap_clock by blast
  have "sys_calls s ! 3 \<in> set (sys_calls s)" "\<not> (\<exists>r. call_pc (sys_calls s ! 3) = Returned r)" using s by auto
  then have "\<exists>s'. work_step s s'"
    using calls_return [OF sample_cache_new] schedule_reach [OF sample_start_reach s(1)] by blast
  moreover have "later_step s (run_force 3 3 2 20 (jwks_fetch Fetch_failed) (s\<lparr>sys_clock := 1000\<rparr>))"
    unfolding later_step_def using work_step.force_reply [of 3 "s\<lparr>sys_clock := 1000\<rparr>" 3 2 20 Fetch_failed] s
    by (intro exI [of _ 1000]) simp
  moreover have "sys_clock (run_force 3 3 2 20 (jwks_fetch Fetch_failed) (s\<lparr>sys_clock := 1000\<rparr>)) = 1000"
    by (simp add: run_force_def split: prod.split)
  ultimately show ?thesis using calls_return [OF sample_cache_new] s by blast
qed

text \<open>
  The claim of a later generation can be lost. In the run above call 4 is refused as unauthenticated although a forced refresh
  for the same key identifier is still in flight: the code means it to wait for that refresh.
\<close>

lemma overlapping_refreshes_refuse:
  "\<exists>s. schedule overlap sample_start = Some s \<and> cache_reach sample_cache s \<and> kid_of s 3 = kid_of s 4 \<and> pc_of s 3 = Forcing 3 2 20 \<and>
     jc_generation (sys_cache s) = 2 \<and> pc_of s 4 = Returned (Inl ErrUnauthenticated)"
proof -
  have "\<exists>s. schedule overlap sample_start = Some s \<and> kid_of s 3 = kid_of s 4 \<and> pc_of s 3 = Forcing 3 2 20 \<and>
     jc_generation (sys_cache s) = 2 \<and> pc_of s 4 = Returned (Inl ErrUnauthenticated)"
    by (simp add: overlap_def run_defs sample_fetch jwks_fetch_def [of Fetch_failed])
  then show ?thesis using schedule_reach [OF sample_start_reach] by blast
qed

end
