(* ===== verification/Oidc.thy ===== *)
theory Oidc
  imports Jwks AuditStore
begin

section \<open>OIDC bearer tokens\<close>

text \<open>
  \<open>internal/auth/oidc.go\<close>, \<open>LookupOIDCPrincipal\<close> of \<open>repository.go\<close>, the principals table of \<open>migrations/000002\<close> and the
  procedure of \<open>000011\<close>. Parsing and verifying a token is the work of the JWT library: \<open>ParseWithClaims\<close> and \<open>GetSubject\<close> are
  parameters, and \<open>jwt_contract\<close> says what the documentation of the library promises of a token it declares valid. The key
  provider, the principal store and the logger are the interfaces of the source; \<open>oidc_store\<close> is what the
  authenticator needs of the store.
\<close>

definition maxOIDCSubjectBytes :: nat where "maxOIDCSubjectBytes = 256"
definition maxBearerTokenBytes :: nat where "maxBearerTokenBytes = 8192"

definition oidcGroupClaimPattern :: "string \<Rightarrow> bool" where [pattern_defs]:
  "oidcGroupClaimPattern = bounded_pattern (\<lambda>c. is_lower c \<or> is_upper c \<or> c = CHR ''_'')
     (\<lambda>c. is_alnum c \<or> c \<in> {CHR ''_'', CHR ''.'', CHR ''/'', CHR ''-''}) 63"

subsection \<open>The principals table\<close>

record principal_row =
  prn_id :: string
  prn_issuer :: "string option"
  prn_external_subject :: "string option"
  prn_status :: string

text \<open>Identifiers are generated by the database; the index over issuer and subject refuses a second row for a pair.\<close>

definition admin_create_principal :: "string \<Rightarrow> string option \<Rightarrow> string option \<Rightarrow> principal_row list \<Rightarrow> sql_error + principal_row list" where
  "admin_create_principal created_id p_issuer p_external_subject rows =
     (if (case p_issuer of None \<Rightarrow> True | Some v \<Rightarrow> \<not> not_blank v) then Inl (Raised ''issuer is required'')
      else if (case p_external_subject of None \<Rightarrow> True | Some v \<Rightarrow> \<not> not_blank v) then Inl (Raised ''external subject is required'')
      else if list_ex (\<lambda>r. prn_id r = created_id \<or> prn_issuer r = p_issuer \<and> prn_external_subject r = p_external_subject) rows
      then Inl Constraint_violation
      else Inr (rows @ [\<lparr>prn_id = created_id, prn_issuer = p_issuer, prn_external_subject = p_external_subject, prn_status = ''active''\<rparr>]))"

definition lookup_oidc_principal :: "string \<Rightarrow> string \<Rightarrow> principal_row list \<Rightarrow> (string \<times> bool) option" where
  "lookup_oidc_principal p_issuer p_external_subject rows =
     (if \<not> not_blank p_issuer \<or> 512 < char_length p_issuer \<or> \<not> not_blank p_external_subject \<or> 256 < char_length p_external_subject \<or>
         CHR 0x0A \<in> set p_issuer \<or> CHR 0x0D \<in> set p_issuer \<or> CHR 0x0A \<in> set p_external_subject \<or> CHR 0x0D \<in> set p_external_subject
      then None
      else map_option (\<lambda>r. (prn_id r, prn_status r = ''active''))
        (find (\<lambda>r. prn_issuer r = Some p_issuer \<and> prn_external_subject r = Some p_external_subject) rows))"

subsection \<open>Principal store\<close>

datatype oidc_store_error = ErrOIDCPrincipalNotFound | ErrPrincipalStoreUnavailable

record OIDCPrincipalRecord =
  or_ID :: string
  or_Active :: bool

definition has_line_or_nul :: "string \<Rightarrow> bool" where
  "has_line_or_nul s \<longleftrightarrow> list_ex (\<lambda>c. c = CHR 0x0D \<or> c = CHR 0x0A \<or> c = CHR 0x00) s"

text \<open>The server refuses parameters that are not UTF-8.\<close>

definition LookupOIDCPrincipal :: "bool \<Rightarrow> delivery \<Rightarrow> string \<Rightarrow> string \<Rightarrow> principal_row list \<Rightarrow> oidc_store_error + OIDCPrincipalRecord" where
  "LookupOIDCPrincipal pool d issuer subject rows =
     (if \<not> pool \<or> issuer = [] \<or> subject = [] \<or> 512 < length issuer \<or> maxOIDCSubjectBytes < length subject
      then Inl ErrPrincipalStoreUnavailable
      else if has_line_or_nul issuer \<or> has_line_or_nul subject then Inl ErrPrincipalStoreUnavailable
      else if d \<noteq> Delivered \<or> \<not> utf8_valid issuer \<or> \<not> utf8_valid subject then Inl ErrPrincipalStoreUnavailable
      else case lookup_oidc_principal issuer subject rows of
          None \<Rightarrow> Inl ErrOIDCPrincipalNotFound
        | Some (i, active) \<Rightarrow>
            if \<not> uuidPattern i then Inl ErrPrincipalStoreUnavailable else Inr \<lparr>or_ID = i, or_Active = active\<rparr>)"

subsection \<open>Claims\<close>

text \<open>The dynamic types a claim can have, as far as the source tells them apart.\<close>

datatype claim = Claim_nil | Claim_string string | Claim_strings "string list" | Claim_list "claim list" | Claim_other

type_synonym claims = "string \<rightharpoonup> claim"

fun string_items :: "claim list \<Rightarrow> string list option" where
  "string_items [] = Some []"
| "string_items (item # rest) =
     (case item of
        Claim_string s \<Rightarrow> (case string_items rest of None \<Rightarrow> None | Some out \<Rightarrow> Some (s # out))
      | _ \<Rightarrow> None)"

definition extractOIDCGroups :: "claims \<Rightarrow> string \<Rightarrow> string list option" where
  "extractOIDCGroups claims claimName =
     (case claims claimName of
        None \<Rightarrow> Some []
      | Some Claim_nil \<Rightarrow> Some []
      | Some (Claim_string s) \<Rightarrow> if s = [] then Some [] else Some [s]
      | Some (Claim_strings ss) \<Rightarrow> Some ss
      | Some (Claim_list items) \<Rightarrow> string_items items
      | Some Claim_other \<Rightarrow> None)"

subsection \<open>Authenticator\<close>

record jwt_token =
  tok_alg :: "string option"
  tok_kid :: "string option"
  tok_Method :: "string option"

record jwt_options =
  jo_ValidMethods :: "string list"
  jo_IssuedAt :: bool
  jo_ExpirationRequired :: bool
  jo_Issuer :: string
  jo_Audience :: string
  jo_Leeway :: int64
  jo_Now :: int

record OIDCAuthenticator =
  oa_issuer :: string
  oa_issuerHash :: digest
  oa_audience :: string
  oa_groupClaim :: string
  oa_leeway :: int64

text \<open>\<open>wired\<close>: the key provider, the store, the logger and the clock are given.\<close>

definition NewOIDCAuthenticator ::
  "(bytes \<Rightarrow> digest) \<Rightarrow> bool \<Rightarrow> string \<Rightarrow> string \<Rightarrow> string \<Rightarrow> int64 \<Rightarrow> auth_error + OIDCAuthenticator" where
  "NewOIDCAuthenticator sha256 wired issuer audience groupClaim leeway =
     (if issuer = [] \<or> audience = [] \<or> groupClaim = [] \<or> \<not> wired then Inl ErrAuthenticationUnavailable
      else if \<not> oidcGroupClaimPattern groupClaim then Inl ErrAuthenticationUnavailable
      else if leeway <s 0 \<or> 120000000000 <s leeway then Inl ErrAuthenticationUnavailable
      else Inr \<lparr>oa_issuer = issuer, oa_issuerHash = sha256 issuer, oa_audience = audience, oa_groupClaim = groupClaim,
        oa_leeway = leeway\<rparr>)"

text \<open>The function that selects the key; a missing or non-string header entry reads as the empty string.\<close>

definition key_function :: "(string \<Rightarrow> 's \<Rightarrow> (auth_error + public_key) \<times> 's) \<Rightarrow> jwt_token option \<Rightarrow> 's \<Rightarrow> (auth_error + public_key) \<times> 's" where
  "key_function publicKey token s =
     (case token of
        None \<Rightarrow> (Inl ErrUnauthenticated, s)
      | Some tok \<Rightarrow>
          let alg = (case tok_alg tok of None \<Rightarrow> [] | Some a \<Rightarrow> a); kid = (case tok_kid tok of None \<Rightarrow> [] | Some k \<Rightarrow> k) in
          if alg \<noteq> ''RS256'' \<and> alg \<noteq> ''ES256'' then (Inl ErrUnauthenticated, s)
          else if tok_Method tok \<noteq> Some alg then (Inl ErrUnauthenticated, s)
          else if kid = [] \<or> 128 < length kid then (Inl ErrUnauthenticated, s)
          else publicKey kid s)"

definition parser_options :: "OIDCAuthenticator \<Rightarrow> int \<Rightarrow> jwt_options" where
  "parser_options au now = \<lparr>jo_ValidMethods = [''RS256'', ''ES256''], jo_IssuedAt = True, jo_ExpirationRequired = True,
     jo_Issuer = oa_issuer au, jo_Audience = oa_audience au, jo_Leeway = oa_leeway au, jo_Now = now\<rparr>"

type_synonym 's jwt_parser = "jwt_options \<Rightarrow> string \<Rightarrow> (jwt_token option \<Rightarrow> 's \<Rightarrow> (auth_error + public_key) \<times> 's) \<Rightarrow> 's \<Rightarrow>
  (bool + bool \<times> claims) \<times> 's"

text \<open>
  A failed parse tells whether its error wraps \<open>ErrAuthenticationUnavailable\<close>, a successful one gives the \<open>Valid\<close> flag and the
  claims. The parser threads the state of the key provider.
\<close>

definition AuthenticateOIDC ::
  "'s jwt_parser \<Rightarrow> (claims \<Rightarrow> string option) \<Rightarrow> bool \<Rightarrow> (string \<Rightarrow> 's \<Rightarrow> (auth_error + public_key) \<times> 's) \<Rightarrow>
   (string \<Rightarrow> string \<Rightarrow> 's \<Rightarrow> oidc_store_error + OIDCPrincipalRecord) \<Rightarrow> (string \<Rightarrow> bool) \<Rightarrow> int \<Rightarrow> OIDCAuthenticator \<Rightarrow>
   string \<Rightarrow> 's \<Rightarrow> (auth_error + Principal) \<times> 's" where
  "AuthenticateOIDC parse getSubject wired publicKey lookup logged now au bearer s =
     (if \<not> wired then (Inl ErrAuthenticationUnavailable, s)
      else if bearer = [] \<or> maxBearerTokenBytes < length bearer \<or> length (filter (\<lambda>c. c = CHR ''.'') bearer) \<noteq> 2
      then (Inl ErrUnauthenticated, s)
      else case parse (parser_options au now) bearer (key_function publicKey) s of
          (Inl unavailable, s1) \<Rightarrow> (Inl (if unavailable then ErrAuthenticationUnavailable else ErrUnauthenticated), s1)
        | (Inr (valid, claims), s1) \<Rightarrow>
            (if \<not> valid then Inl ErrUnauthenticated
             else case getSubject claims of
                 None \<Rightarrow> Inl ErrUnauthenticated
               | Some subject \<Rightarrow>
                   if subject = [] \<or> maxOIDCSubjectBytes < length subject \<or> has_line_or_nul subject then Inl ErrUnauthenticated
                   else case extractOIDCGroups claims (oa_groupClaim au) of
                       None \<Rightarrow> Inl ErrUnauthenticated
                     | Some groups \<Rightarrow>
                         case normalizeOIDCGroups (Some groups) of
                           None \<Rightarrow> Inl ErrUnauthenticated
                         | Some normalizedGroups \<Rightarrow>
                             case lookup (oa_issuer au) subject s1 of
                               Inl ErrOIDCPrincipalNotFound \<Rightarrow> Inl ErrUnauthenticated
                             | Inl ErrPrincipalStoreUnavailable \<Rightarrow> Inl ErrAuthenticationUnavailable
                             | Inr rcd \<Rightarrow>
                                 if \<not> or_Active rcd \<or> \<not> uuidPattern (or_ID rcd) then Inl ErrUnauthenticated
                                 else let pr = \<lparr>p_ID = or_ID rcd, p_AuthMethod = AuthMethodOIDC, p_APIKeyIDPrefix = [],
                                        p_Groups = Some normalizedGroups, p_OIDCIssuerHash = oa_issuerHash au\<rparr> in
                                   if \<not> principal_Validate pr then Inl ErrUnauthenticated
                                   else if \<not> logged (p_ID pr) then Inl ErrAuthenticationUnavailable
                                   else Inr pr, s1))"

subsection \<open>When authentication succeeds\<close>

definition oidc_principal :: "OIDCAuthenticator \<Rightarrow> string \<Rightarrow> string list \<Rightarrow> Principal" where
  "oidc_principal au i groups = \<lparr>p_ID = i, p_AuthMethod = AuthMethodOIDC, p_APIKeyIDPrefix = [], p_Groups = Some groups,
     p_OIDCIssuerHash = oa_issuerHash au\<rparr>"

lemma AuthenticateOIDC_Inr_iff:
  "AuthenticateOIDC parse getSubject wired publicKey lookup logged now au bearer s = (Inr pr, s') \<longleftrightarrow>
   wired \<and> bearer \<noteq> [] \<and> length bearer \<le> 8192 \<and> length (filter (\<lambda>c. c = CHR ''.'') bearer) = 2 \<and>
   (\<exists>claims subject groups normalized rcd.
     parse (parser_options au now) bearer (key_function publicKey) s = (Inr (True, claims), s') \<and>
     getSubject claims = Some subject \<and> subject \<noteq> [] \<and> length subject \<le> 256 \<and> \<not> has_line_or_nul subject \<and>
     extractOIDCGroups claims (oa_groupClaim au) = Some groups \<and> normalizeOIDCGroups (Some groups) = Some normalized \<and>
     lookup (oa_issuer au) subject s' = Inr rcd \<and> or_Active rcd \<and> uuidPattern (or_ID rcd) \<and>
     pr = oidc_principal au (or_ID rcd) normalized \<and> principal_Validate pr \<and> logged (p_ID pr))"
  unfolding AuthenticateOIDC_def oidc_principal_def Let_def maxBearerTokenBytes_def maxOIDCSubjectBytes_def
  by (auto simp: not_less split: if_splits prod.splits sum.splits option.splits oidc_store_error.splits)

text \<open>What the key function accepts.\<close>

lemma key_function_Inr:
  "key_function publicKey token s = (Inr key, s') \<longleftrightarrow>
   (\<exists>tok alg kid. token = Some tok \<and> tok_alg tok = Some alg \<and> alg \<in> {''RS256'', ''ES256''} \<and> tok_Method tok = Some alg \<and>
      tok_kid tok = Some kid \<and> kid \<noteq> [] \<and> length kid \<le> 128 \<and> publicKey kid s = (Inr key, s'))"
  by (auto simp: key_function_def Let_def not_less split: option.splits if_splits)

subsection \<open>What the JWT library promises\<close>

record jwt_view =
  jv_header :: "string \<Rightarrow> jwt_token option"
  jv_claims :: "string \<Rightarrow> claims option"
  jv_signed :: "string \<Rightarrow> public_key \<Rightarrow> string \<Rightarrow> bool"
  jv_exp :: "claims \<Rightarrow> int option"
  jv_iat :: "claims \<Rightarrow> int option"
  jv_iss :: "claims \<Rightarrow> string option"
  jv_aud :: "claims \<Rightarrow> string list"

text \<open>
  A token declared valid has its signature verified under the key the key function gave for its header, with one of the allowed
  methods, and its registered claims checked as the options demand.
\<close>

definition claims_checked :: "jwt_view \<Rightarrow> jwt_options \<Rightarrow> claims \<Rightarrow> bool" where
  "claims_checked view opts claims \<longleftrightarrow>
     (case jv_exp view claims of None \<Rightarrow> \<not> jo_ExpirationRequired opts | Some t \<Rightarrow> jo_Now opts < t + sint (jo_Leeway opts)) \<and>
     (case jv_iat view claims of None \<Rightarrow> True | Some t \<Rightarrow> jo_IssuedAt opts \<longrightarrow> t - sint (jo_Leeway opts) \<le> jo_Now opts) \<and>
     jv_iss view claims = Some (jo_Issuer opts) \<and> jo_Audience opts \<in> set (jv_aud view claims)"

definition jwt_contract :: "jwt_view \<Rightarrow> 's jwt_parser \<Rightarrow> bool" where
  "jwt_contract view parse \<longleftrightarrow>
     (\<forall>opts bearer keyfunc s claims s'. parse opts bearer keyfunc s = (Inr (True, claims), s') \<longrightarrow>
        (\<exists>tok key alg. jv_header view bearer = Some tok \<and> jv_claims view bearer = Some claims \<and> keyfunc (Some tok) s = (Inr key, s') \<and>
           tok_Method tok = Some alg \<and> alg \<in> set (jo_ValidMethods opts) \<and> jv_signed view alg key bearer \<and> claims_checked view opts claims))"

subsection \<open>The contract of the principal store\<close>

locale oidc_store =
  fixes active :: "'s \<Rightarrow> string \<Rightarrow> string \<Rightarrow> string \<Rightarrow> bool"
    and lookup :: "string \<Rightarrow> string \<Rightarrow> 's \<Rightarrow> oidc_store_error + OIDCPrincipalRecord"
  assumes lookup_active: "lookup issuer subject s = Inr r \<Longrightarrow> or_Active r \<Longrightarrow> active s issuer subject (or_ID r)"
begin

lemma authenticated:
  assumes "AuthenticateOIDC parse getSubject wired publicKey lookup logged now au bearer s = (Inr pr, s')" and "jwt_contract view parse"
  shows "\<exists>claims subject groups tok alg kid key. jv_claims view bearer = Some claims \<and> getSubject claims = Some subject \<and>
    extractOIDCGroups claims (oa_groupClaim au) = Some groups \<and> normalizeOIDCGroups (Some groups) = p_Groups pr \<and>
    active s' (oa_issuer au) subject (p_ID pr) \<and> p_OIDCIssuerHash pr = oa_issuerHash au \<and> principal_Validate pr \<and> logged (p_ID pr) \<and>
    jv_header view bearer = Some tok \<and> tok_alg tok = Some alg \<and> alg \<in> {''RS256'', ''ES256''} \<and> tok_kid tok = Some kid \<and>
    publicKey kid s = (Inr key, s') \<and> jv_signed view alg key bearer \<and> claims_checked view (parser_options au now) claims"
proof -
  from assms(1) obtain claims subject groups normalized rcd where
      p: "parse (parser_options au now) bearer (key_function publicKey) s = (Inr (True, claims), s')"
      and c: "getSubject claims = Some subject" "extractOIDCGroups claims (oa_groupClaim au) = Some groups"
        "normalizeOIDCGroups (Some groups) = Some normalized"
      and l: "lookup (oa_issuer au) subject s' = Inr rcd" "or_Active rcd" "pr = oidc_principal au (or_ID rcd) normalized"
        "principal_Validate pr" "logged (p_ID pr)"
    unfolding AuthenticateOIDC_Inr_iff by blast
  from p assms(2) obtain tok key alg where t: "jv_header view bearer = Some tok" "jv_claims view bearer = Some claims"
      "key_function publicKey (Some tok) s = (Inr key, s')" "tok_Method tok = Some alg" "jv_signed view alg key bearer"
      "claims_checked view (parser_options au now) claims"
    unfolding jwt_contract_def by blast
  from t(3,4) obtain kid where k: "tok_alg tok = Some alg" "alg \<in> {''RS256'', ''ES256''}" "tok_kid tok = Some kid"
      "publicKey kid s = (Inr key, s')"
    unfolding key_function_Inr by auto
  have "active s' (oa_issuer au) subject (p_ID pr)" using lookup_active [OF l(1,2)] l(3) by (simp add: oidc_principal_def)
  moreover have "p_Groups pr = Some normalized" "p_OIDCIssuerHash pr = oa_issuerHash au" using l(3) by (simp_all add: oidc_principal_def)
  ultimately show ?thesis using c l(4,5) t(1,2,5,6) k by metis
qed

end

definition active_principal :: "principal_row list \<Rightarrow> string \<Rightarrow> string \<Rightarrow> string \<Rightarrow> bool" where
  "active_principal rows issuer subject i \<longleftrightarrow>
     (\<exists>r \<in> set rows. prn_issuer r = Some issuer \<and> prn_external_subject r = Some subject \<and> prn_status r = ''active'' \<and> prn_id r = i)"

lemma LookupOIDCPrincipal_active:
  "LookupOIDCPrincipal pool d issuer subject rows = Inr r \<Longrightarrow> or_Active r \<Longrightarrow> active_principal rows issuer subject (or_ID r)"
  by (fastforce simp: LookupOIDCPrincipal_def lookup_oidc_principal_def active_principal_def find_Some_iff split: if_splits option.splits)

interpretation postgres_principals: oidc_store "\<lambda>s. active_principal (rows s)" "\<lambda>issuer subject s. LookupOIDCPrincipal pool d issuer subject (rows s)" for rows pool d
  by unfold_locales (rule LookupOIDCPrincipal_active)

subsection \<open>One principal per identity\<close>

definition principals_ok :: "principal_row list \<Rightarrow> bool" where
  "principals_ok rows \<longleftrightarrow> distinct (map prn_id rows) \<and>
     (\<forall>r \<in> set rows. \<forall>q \<in> set rows. prn_issuer r \<noteq> None \<and> prn_issuer r = prn_issuer q \<and> prn_external_subject r = prn_external_subject q \<longrightarrow> r = q)"

lemma admin_create_principal_ok:
  assumes "principals_ok rows" and "admin_create_principal i issuer subject rows = Inr rows'"
  shows "principals_ok rows'"
proof -
  from assms(2) have new: "\<not> list_ex (\<lambda>r. prn_id r = i \<or> prn_issuer r = issuer \<and> prn_external_subject r = subject) rows"
    and rows': "rows' = rows @ [\<lparr>prn_id = i, prn_issuer = issuer, prn_external_subject = subject, prn_status = ''active''\<rparr>]"
    by (auto simp: admin_create_principal_def split: if_splits)
  then show ?thesis using assms(1) by (fastforce simp: principals_ok_def list_ex_iff)
qed

lemma active_principal_unique:
  "principals_ok rows \<Longrightarrow> active_principal rows issuer subject i \<Longrightarrow> active_principal rows issuer subject j \<Longrightarrow> i = j"
  unfolding principals_ok_def active_principal_def by (metis option.distinct(1))

subsection \<open>Properties\<close>

text \<open>
  C34. A token authenticates only as itself. When the JWT library keeps its documented promises, \<open>AuthenticateOIDC\<close> returns a
  principal only for a token signed, with RS256 or ES256 as its header says, under the key the provider gave for the key
  identifier of that header; whose claims name the configured issuer and audience and have not expired; and whose subject the
  principals table maps to that one active principal. The groups are the normalized group claim and nothing else, the principal
  passes validation, and its use was logged.
\<close>

theorem oidc_authentication_sound:
  assumes "AuthenticateOIDC parse getSubject wired publicKey (\<lambda>issuer subject s. LookupOIDCPrincipal pool d issuer subject (rows s))
      logged now au bearer s = (Inr pr, s')"
    and "jwt_contract view parse" and "principals_ok (rows s')"
  shows "\<exists>claims subject groups tok alg kid key. jv_claims view bearer = Some claims \<and> getSubject claims = Some subject \<and>
    extractOIDCGroups claims (oa_groupClaim au) = Some groups \<and> normalizeOIDCGroups (Some groups) = p_Groups pr \<and>
    {i. active_principal (rows s') (oa_issuer au) subject i} = {p_ID pr} \<and> p_OIDCIssuerHash pr = oa_issuerHash au \<and>
    principal_Validate pr \<and> logged (p_ID pr) \<and>
    jv_header view bearer = Some tok \<and> tok_alg tok = Some alg \<and> alg \<in> {''RS256'', ''ES256''} \<and> tok_kid tok = Some kid \<and>
    publicKey kid s = (Inr key, s') \<and> jv_signed view alg key bearer \<and>
    (\<exists>t. jv_exp view claims = Some t \<and> now < t + sint (oa_leeway au)) \<and>
    jv_iss view claims = Some (oa_issuer au) \<and> oa_audience au \<in> set (jv_aud view claims)"
proof -
  from postgres_principals.authenticated [OF assms(1,2)] obtain claims subject groups tok alg kid key where
    c: "jv_claims view bearer = Some claims" "getSubject claims = Some subject"
      "extractOIDCGroups claims (oa_groupClaim au) = Some groups" "normalizeOIDCGroups (Some groups) = p_Groups pr"
    and act: "active_principal (rows s') (oa_issuer au) subject (p_ID pr)"
    and pr: "p_OIDCIssuerHash pr = oa_issuerHash au" "principal_Validate pr" "logged (p_ID pr)"
    and t: "jv_header view bearer = Some tok" "tok_alg tok = Some alg" "alg \<in> {''RS256'', ''ES256''}" "tok_kid tok = Some kid"
      "publicKey kid s = (Inr key, s')" "jv_signed view alg key bearer"
    and chk: "claims_checked view (parser_options au now) claims" by blast
  have one: "{i. active_principal (rows s') (oa_issuer au) subject i} = {p_ID pr}"
    using act active_principal_unique [OF assms(3)] by blast
  have "\<exists>t. jv_exp view claims = Some t \<and> now < t + sint (oa_leeway au)" "jv_iss view claims = Some (oa_issuer au)"
    "oa_audience au \<in> set (jv_aud view claims)"
    using chk by (auto simp: claims_checked_def parser_options_def split: option.splits)
  with c one pr t show ?thesis by blast
qed

text \<open>A library that knows one token.\<close>

definition sample_token :: jwt_token where
  "sample_token = \<lparr>tok_alg = Some ''ES256'', tok_kid = Some ''k1'', tok_Method = Some ''ES256''\<rparr>"

definition sample_claims :: claims where
  "sample_claims = [''sub'' \<mapsto> Claim_string ''u1'', ''groups'' \<mapsto> Claim_list [Claim_string ''b'', Claim_string ''a'', Claim_string ''b'']]"

definition sample_view :: jwt_view where
  "sample_view = \<lparr>jv_header = (\<lambda>b. Some sample_token), jv_claims = (\<lambda>b. Some sample_claims), jv_signed = (\<lambda>alg key b. key = EC 0 0),
     jv_exp = (\<lambda>c. Some 100), jv_iat = (\<lambda>c. None), jv_iss = (\<lambda>c. Some ''https://h''), jv_aud = (\<lambda>c. [''aud''])\<rparr>"

definition sample_jwt :: "unit jwt_parser" where
  "sample_jwt opts bearer keyfunc s =
     (case keyfunc (Some sample_token) s of
        (Inr key, s') \<Rightarrow>
          (if ''ES256'' \<in> set (jo_ValidMethods opts) \<and> key = EC 0 0 \<and> claims_checked sample_view opts sample_claims
           then Inr (True, sample_claims) else Inl False, s')
      | (Inl err, s') \<Rightarrow> (Inl (err = ErrAuthenticationUnavailable), s'))"

lemma sample_jwt_contract: "jwt_contract sample_view sample_jwt"
  by (auto simp: jwt_contract_def sample_jwt_def sample_view_def sample_token_def split: prod.splits sum.splits if_splits)

definition sample_subject :: "claims \<Rightarrow> string option" where
  "sample_subject c = (case c ''sub'' of Some (Claim_string s) \<Rightarrow> Some s | Some _ \<Rightarrow> None | None \<Rightarrow> Some [])"

definition sample_oidc_id :: string where "sample_oidc_id = ''00000000-0000-0000-0000-000000000001''"

definition sample_principals :: "principal_row list" where
  "sample_principals = [\<lparr>prn_id = sample_oidc_id, prn_issuer = Some ''https://h'', prn_external_subject = Some ''u1'', prn_status = ''active''\<rparr>]"

definition sample_authenticator :: OIDCAuthenticator where
  "sample_authenticator = \<lparr>oa_issuer = ''https://h'', oa_issuerHash = sample_digest, oa_audience = ''aud'',
     oa_groupClaim = ''groups'', oa_leeway = 0\<rparr>"

lemma sample_login:
  "AuthenticateOIDC sample_jwt sample_subject True (\<lambda>kid s. (Inr (EC 0 0), s))
     (\<lambda>issuer subject s. LookupOIDCPrincipal True Delivered issuer subject sample_principals) (\<lambda>p. True) 50 sample_authenticator ''h.p.s'' () =
   (Inr (oidc_principal sample_authenticator sample_oidc_id [''a'', ''b'']), ())"
proof -
  have groups: "normalizeOIDCGroups (Some [''b'', ''a'', ''b'']) = Some [''a'', ''b'']" by code_simp
  have sorted: "validOIDCGroups (Some [''a'', ''b''])" by code_simp
  have uuid: "uuidPattern sample_oidc_id" by code_simp
  have "LookupOIDCPrincipal True Delivered ''https://h'' ''u1'' sample_principals = Inr \<lparr>or_ID = sample_oidc_id, or_Active = True\<rparr>"
    using uuid by (simp add: LookupOIDCPrincipal_def lookup_oidc_principal_def sample_principals_def has_line_or_nul_def maxOIDCSubjectBytes_def
        not_blank_def char_length_def utf8_size_def)
  then show ?thesis
    unfolding AuthenticateOIDC_Inr_iff using groups sorted uuid sample_digest_nonzero
    by (simp add: sample_jwt_def key_function_def sample_token_def parser_options_def sample_authenticator_def claims_checked_def sample_view_def
        sample_claims_def sample_subject_def has_line_or_nul_def extractOIDCGroups_def oidc_principal_def principal_Validate_def
        AuthMethodAPIKey_def AuthMethodOIDC_def)
qed

theorem oidc_authentication_sound_witness:
  "\<exists>subject. {i. active_principal sample_principals ''https://h'' subject i} = {sample_oidc_id} \<and>
     principal_Validate (oidc_principal sample_authenticator sample_oidc_id [''a'', ''b''])"
proof -
  have "principals_ok sample_principals" by (simp add: principals_ok_def sample_principals_def)
  from oidc_authentication_sound [OF sample_login sample_jwt_contract this] obtain subject where
    "{i. active_principal sample_principals (oa_issuer sample_authenticator) subject i} =
       {p_ID (oidc_principal sample_authenticator sample_oidc_id [''a'', ''b''])}"
    "principal_Validate (oidc_principal sample_authenticator sample_oidc_id [''a'', ''b''])" by blast
  then show ?thesis by (auto simp: sample_authenticator_def oidc_principal_def)
qed

end
