(* ===== verification/Writer.thy ===== *)
theory Writer
  imports Json
begin

section \<open>Writers and encoders\<close>

text \<open>
  \<open>io.Writer\<close> and \<open>json.Encoder\<close> of the standard library, as the logger and the command line use them. A \<open>sink\<close> holds what it
  has taken and the outcomes of the writes to come: \<open>None\<close>, and after the end of the list, takes everything; \<open>Some k\<close> takes \<open>k\<close>
  bytes and reports an error. An encoder writes a value and a line feed in one write and refuses everything after a write has
  failed.
\<close>

record sink =
  sk_bytes :: bytes
  sk_faults :: "nat option list"

definition sink_Write :: "bytes \<Rightarrow> sink \<Rightarrow> bool \<times> sink" where
  "sink_Write b w =
     (case sk_faults w of
        [] \<Rightarrow> (True, w\<lparr>sk_bytes := sk_bytes w @ b\<rparr>)
      | None # fs \<Rightarrow> (True, \<lparr>sk_bytes = sk_bytes w @ b, sk_faults = fs\<rparr>)
      | Some k # fs \<Rightarrow> (False, \<lparr>sk_bytes = sk_bytes w @ take k b, sk_faults = fs\<rparr>))"

record encoder =
  en_sink :: sink
  en_failed :: bool

definition NewEncoder :: "sink \<Rightarrow> encoder" where
  "NewEncoder w = \<lparr>en_sink = w, en_failed = False\<rparr>"

definition json_line :: "json \<Rightarrow> bytes" where
  "json_line v = marshal v @ [CHR 0x0A]"

definition Encode :: "json \<Rightarrow> encoder \<Rightarrow> bool \<times> encoder" where
  "Encode v e =
     (if en_failed e then (False, e)
      else case sink_Write (json_line v) (en_sink e) of (ok, w) \<Rightarrow> (ok, \<lparr>en_sink = w, en_failed = \<not> ok\<rparr>))"

text \<open>\<open>json.NewEncoder(w).Encode(v)\<close>\<close>

definition encode_line :: "json \<Rightarrow> sink \<Rightarrow> bool \<times> sink" where
  "encode_line v w = (case Encode v (NewEncoder w) of (ok, e) \<Rightarrow> (ok, en_sink e))"

text \<open>\<open>fmt.Fprintln(w, message)\<close> with the result ignored.\<close>

definition println :: "string \<Rightarrow> sink \<Rightarrow> sink" where
  "println message w = snd (sink_Write (message @ [CHR 0x0A]) w)"

lemma sink_Write_cases:
  obtains (taken) w' where "sink_Write b w = (True, w')" "sk_bytes w' = sk_bytes w @ b"
  | (refused) k w' where "sink_Write b w = (False, w')" "sk_bytes w' = sk_bytes w @ take k b"
proof (cases "sk_faults w")
  case Nil
  then show thesis by (intro taken [of "w\<lparr>sk_bytes := sk_bytes w @ b\<rparr>"]) (simp_all add: sink_Write_def)
next
  case (Cons f fs)
  show thesis
  proof (cases f)
    case None
    then show thesis using Cons by (intro taken [of "\<lparr>sk_bytes = sk_bytes w @ b, sk_faults = fs\<rparr>"]) (simp_all add: sink_Write_def)
  next
    case (Some k)
    then show thesis using Cons by (intro refused [of "\<lparr>sk_bytes = sk_bytes w @ take k b, sk_faults = fs\<rparr>" k]) (simp_all add: sink_Write_def)
  qed
qed

lemma sink_Write_healthy: "sk_faults w = [] \<Longrightarrow> sink_Write b w = (True, w\<lparr>sk_bytes := sk_bytes w @ b\<rparr>)"
  by (simp add: sink_Write_def)

lemma encode_line_eq: "encode_line v w = sink_Write (json_line v) w"
  by (simp add: encode_line_def Encode_def NewEncoder_def split: prod.split)

text \<open>An encoded value holds no line feed: strings are written with escapes.\<close>

lemma json_plain_no_newline: "json_plain s \<Longrightarrow> CHR 0x0A \<notin> set s"
  by (auto simp: list_all_iff)

end
