(* ===== verification/SafeLog.thy ===== *)
theory SafeLog
  imports Writer Auth AuditEvent
begin

section \<open>Safe logger\<close>

text \<open>
  \<open>internal/safelog/logger.go\<close>. The logger writes one JSON line per call from a closed set of shapes. A call holds the mutex
  while it writes, so that concurrent calls are a sequence of calls in the order in which they took it; the time stamp is an
  argument. The pointer to a logger and the encoder in it may be nil.
\<close>


definition authorizationErrorCodes :: "string list" where
  "authorizationErrorCodes = [''missing_credentials'', ''invalid_credentials'', ''policy_denied'', ''budget_denied'', ''internal_failure'']"

definition backendErrorCodes :: "string list" where
  "backendErrorCodes = [''timeout'', ''unavailable'', ''invalid_response'', ''response_too_large'', ''usage_invalid'']"

definition log_principalIDPattern :: "string \<Rightarrow> bool" where
  "log_principalIDPattern = uuidPattern"

definition keyIDPrefixPattern :: "string \<Rightarrow> bool" where
  "keyIDPrefixPattern s \<longleftrightarrow> length s = 8 \<and> list_all is_lower_hex s"

record Logger =
  lg_encoder :: "encoder option"

record errorEvent =
  ee_Timestamp :: string
  ee_Event :: string
  ee_Code :: string

record authenticationSuccessEvent =
  se_Timestamp :: string
  se_Event :: string
  se_AuthMethod :: string
  se_PrincipalID :: string
  se_KeyIDPrefix :: string

definition NewLogger :: "sink option \<Rightarrow> Logger" where
  "NewLogger output = \<lparr>lg_encoder = map_option NewEncoder output\<rparr>"

definition errorEvent_json :: "errorEvent \<Rightarrow> json" where
  "errorEvent_json e = JObject [(''timestamp'', JString (ee_Timestamp e)), (''event'', JString (ee_Event e)), (''code'', JString (ee_Code e))]"

definition successEvent_json :: "authenticationSuccessEvent \<Rightarrow> json" where
  "successEvent_json e = JObject ([(''timestamp'', JString (se_Timestamp e)), (''event'', JString (se_Event e)),
     (''auth_method'', JString (se_AuthMethod e)), (''principal_id'', JString (se_PrincipalID e))] @
     (if se_KeyIDPrefix e = [] then [] else [(''key_id_prefix'', JString (se_KeyIDPrefix e))]))"

text \<open>The result is whether the call returned no error; the error is always \<open>ErrWrite\<close>.\<close>

definition log_json :: "json \<Rightarrow> Logger option \<Rightarrow> bool \<times> Logger option" where
  "log_json v logger =
     (case logger of
        None \<Rightarrow> (False, None)
      | Some lg \<Rightarrow>
          case lg_encoder lg of
            None \<Rightarrow> (False, logger)
          | Some e \<Rightarrow> (case Encode v e of (ok, e') \<Rightarrow> (ok, Some \<lparr>lg_encoder = Some e'\<rparr>)))"

definition log_write :: "errorEvent \<Rightarrow> Logger option \<Rightarrow> bool \<times> Logger option" where
  "log_write event = log_json (errorEvent_json event)"

definition writeAuthenticationSuccess :: "authenticationSuccessEvent \<Rightarrow> Logger option \<Rightarrow> bool \<times> Logger option" where
  "writeAuthenticationSuccess event = log_json (successEvent_json event)"

definition normalizeAuthorizationCode :: "string \<Rightarrow> string" where
  "normalizeAuthorizationCode code =
     (if code \<in> set authorizationErrorCodes then code else ''unknown'')"

definition normalizeBackendCode :: "string \<Rightarrow> string" where
  "normalizeBackendCode code =
     (if code \<in> set backendErrorCodes then code else ''unknown'')"

definition AuthorizationFailure :: "go_time \<Rightarrow> string \<Rightarrow> Logger option \<Rightarrow> bool \<times> Logger option" where
  "AuthorizationFailure now code = log_write \<lparr>ee_Timestamp = format_rfc3339nano (time_UTC now), ee_Event = ''authorization_failure'',
     ee_Code = normalizeAuthorizationCode code\<rparr>"

definition BackendFailure :: "go_time \<Rightarrow> string \<Rightarrow> Logger option \<Rightarrow> bool \<times> Logger option" where
  "BackendFailure now code = log_write \<lparr>ee_Timestamp = format_rfc3339nano (time_UTC now), ee_Event = ''backend_failure'',
     ee_Code = normalizeBackendCode code\<rparr>"

definition APIKeyAuthenticationSuccess :: "go_time \<Rightarrow> string \<Rightarrow> string \<Rightarrow> Logger option \<Rightarrow> bool \<times> Logger option" where
  "APIKeyAuthenticationSuccess now principalID keyIDPrefix logger =
     (if \<not> log_principalIDPattern principalID \<or> \<not> keyIDPrefixPattern keyIDPrefix then (False, logger)
      else writeAuthenticationSuccess \<lparr>se_Timestamp = format_rfc3339nano (time_UTC now), se_Event = ''authentication_success'',
        se_AuthMethod = ''api_key'', se_PrincipalID = principalID, se_KeyIDPrefix = keyIDPrefix\<rparr> logger)"

definition OIDCAuthenticationSuccess :: "go_time \<Rightarrow> string \<Rightarrow> Logger option \<Rightarrow> bool \<times> Logger option" where
  "OIDCAuthenticationSuccess now principalID logger =
     (if \<not> log_principalIDPattern principalID then (False, logger)
      else writeAuthenticationSuccess \<lparr>se_Timestamp = format_rfc3339nano (time_UTC now), se_Event = ''authentication_success'',
        se_AuthMethod = ''oidc'', se_PrincipalID = principalID, se_KeyIDPrefix = []\<rparr> logger)"

subsection \<open>Sequences of calls\<close>

datatype log_request =
    Authorization_failure string
  | Backend_failure string
  | APIKey_success string string
  | OIDC_success string

fun log_call :: "go_time \<Rightarrow> log_request \<Rightarrow> Logger option \<Rightarrow> bool \<times> Logger option" where
  "log_call now (Authorization_failure code) = AuthorizationFailure now code"
| "log_call now (Backend_failure code) = BackendFailure now code"
| "log_call now (APIKey_success principalID keyIDPrefix) = APIKeyAuthenticationSuccess now principalID keyIDPrefix"
| "log_call now (OIDC_success principalID) = OIDCAuthenticationSuccess now principalID"

fun log_calls :: "(go_time \<times> log_request) list \<Rightarrow> Logger option \<Rightarrow> bool list \<times> Logger option" where
  "log_calls [] logger = ([], logger)"
| "log_calls ((now, c) # cs) logger =
     (case log_call now c logger of (ok, logger') \<Rightarrow> (case log_calls cs logger' of (oks, logger'') \<Rightarrow> (ok # oks, logger'')))"

subsection \<open>The log\<close>

text \<open>The lines the schema allows: a time, and otherwise only constants, identifiers of principals and prefixes of key identifiers.\<close>

definition time_text :: "string \<Rightarrow> bool" where
  "time_text s \<longleftrightarrow> (\<exists>t. s = format_rfc3339nano t)"

inductive_set schema_lines :: "bytes set" where
  authorization: "time_text ts \<Longrightarrow> code \<in> set (''unknown'' # authorizationErrorCodes) \<Longrightarrow>
    marshal (JObject [(''timestamp'', JString ts), (''event'', JString ''authorization_failure''), (''code'', JString code)]) \<in> schema_lines"
| backend: "time_text ts \<Longrightarrow> code \<in> set (''unknown'' # backendErrorCodes) \<Longrightarrow>
    marshal (JObject [(''timestamp'', JString ts), (''event'', JString ''backend_failure''), (''code'', JString code)]) \<in> schema_lines"
| api_key: "time_text ts \<Longrightarrow> uuidPattern p \<Longrightarrow> keyIDPrefixPattern k \<Longrightarrow>
    marshal (JObject [(''timestamp'', JString ts), (''event'', JString ''authentication_success''), (''auth_method'', JString ''api_key''),
      (''principal_id'', JString p), (''key_id_prefix'', JString k)]) \<in> schema_lines"
| oidc: "time_text ts \<Longrightarrow> uuidPattern p \<Longrightarrow>
    marshal (JObject [(''timestamp'', JString ts), (''event'', JString ''authentication_success''), (''auth_method'', JString ''oidc''),
      (''principal_id'', JString p)]) \<in> schema_lines"

definition log_lines :: "bytes list \<Rightarrow> bytes" where
  "log_lines ls = concat (map (\<lambda>l. l @ [CHR 0x0A]) ls)"

lemma log_lines_simps [simp]: "log_lines [] = []" "log_lines (l # ls) = l @ CHR 0x0A # log_lines ls"
  by (simp_all add: log_lines_def)

lemma time_text_plain: "time_text s \<Longrightarrow> json_plain s"
  using time_plain by (auto simp: time_text_def)

lemma prefix_plain: "keyIDPrefixPattern k \<Longrightarrow> json_plain k"
  by (auto simp: keyIDPrefixPattern_def list_all_iff)

lemma json_string_line: "json_plain s \<Longrightarrow> CHR 0x0A \<notin> set (json_string s)"
  by (simp add: json_string_plain json_plain_no_newline)

lemma schema_line_free: "l \<in> schema_lines \<Longrightarrow> CHR 0x0A \<notin> set l"
proof (induction rule: schema_lines.induct)
  case (authorization ts code)
  then have "json_plain code" by (auto simp: authorizationErrorCodes_def)
  then show ?case using json_string_line time_text_plain [OF authorization(1)] by simp
next
  case (backend ts code)
  then have "json_plain code" by (auto simp: backendErrorCodes_def)
  then show ?case using json_string_line time_text_plain [OF backend(1)] by simp
next
  case (api_key ts p k)
  then show ?case using json_string_line time_text_plain [OF api_key(1)] uuidPattern_plain prefix_plain by simp
next
  case (oidc ts p)
  then show ?case using json_string_line time_text_plain [OF oidc(1)] uuidPattern_plain by simp
qed

text \<open>What one call does to a logger with an encoder.\<close>

lemma log_json_cases:
  assumes "lg_encoder lg = Some e"
  obtains (silent) "log_json v (Some lg) = (False, Some lg)" "en_failed e"
  | (taken) e' where "log_json v (Some lg) = (True, Some \<lparr>lg_encoder = Some e'\<rparr>)" "\<not> en_failed e" "\<not> en_failed e'"
      "sk_bytes (en_sink e') = sk_bytes (en_sink e) @ marshal v @ [CHR 0x0A]"
  | (failed) e' k where "log_json v (Some lg) = (False, Some \<lparr>lg_encoder = Some e'\<rparr>)" "\<not> en_failed e" "en_failed e'"
      "sk_bytes (en_sink e') = sk_bytes (en_sink e) @ take k (marshal v @ [CHR 0x0A])"
proof (cases "en_failed e")
  case True
  then show thesis using assms by (intro silent) (simp_all add: log_json_def Encode_def)
next
  case False
  show thesis
  proof (cases rule: sink_Write_cases [of "json_line v" "en_sink e"])
    case (taken w')
    then show thesis using assms False
      by (intro that(2) [of "\<lparr>en_sink = w', en_failed = False\<rparr>"]) (simp_all add: log_json_def Encode_def json_line_def)
  next
    case (refused k w')
    then show thesis using assms False
      by (intro that(3) [of "\<lparr>en_sink = w', en_failed = True\<rparr>" k]) (simp_all add: log_json_def Encode_def json_line_def)
  qed
qed

lemma log_call_schema:
  obtains (refused) "\<And>logger. log_call now c logger = (False, logger)"
  | (line) v where "\<And>logger. log_call now c logger = log_json v logger" "marshal v \<in> schema_lines"
proof (cases c)
  case (Authorization_failure code)
  let ?v = "JObject [(''timestamp'', JString (format_rfc3339nano (time_UTC now))), (''event'', JString ''authorization_failure''),
    (''code'', JString (normalizeAuthorizationCode code))]"
  have "marshal ?v \<in> schema_lines"
    by (rule schema_lines.authorization) (auto simp: time_text_def normalizeAuthorizationCode_def)
  then show thesis using Authorization_failure
    by (intro line [of ?v]) (simp_all add: AuthorizationFailure_def log_write_def errorEvent_json_def)
next
  case (Backend_failure code)
  let ?v = "JObject [(''timestamp'', JString (format_rfc3339nano (time_UTC now))), (''event'', JString ''backend_failure''),
    (''code'', JString (normalizeBackendCode code))]"
  have "marshal ?v \<in> schema_lines"
    by (rule schema_lines.backend) (auto simp: time_text_def normalizeBackendCode_def)
  then show thesis using Backend_failure
    by (intro line [of ?v]) (simp_all add: BackendFailure_def log_write_def errorEvent_json_def)
next
  case (APIKey_success p k)
  let ?v = "JObject [(''timestamp'', JString (format_rfc3339nano (time_UTC now))), (''event'', JString ''authentication_success''),
    (''auth_method'', JString ''api_key''), (''principal_id'', JString p), (''key_id_prefix'', JString k)]"
  show thesis
  proof (cases "uuidPattern p \<and> keyIDPrefixPattern k")
    case True
    then have "marshal ?v \<in> schema_lines" by (intro schema_lines.api_key) (auto simp: time_text_def)
    moreover have "k \<noteq> []" using True by (auto simp: keyIDPrefixPattern_def)
    ultimately show thesis using APIKey_success True
      by (intro line [of ?v]) (simp_all add: APIKeyAuthenticationSuccess_def log_principalIDPattern_def writeAuthenticationSuccess_def successEvent_json_def)
  next
    case False
    then show thesis using APIKey_success by (intro refused) (auto simp: APIKeyAuthenticationSuccess_def log_principalIDPattern_def)
  qed
next
  case (OIDC_success p)
  let ?v = "JObject [(''timestamp'', JString (format_rfc3339nano (time_UTC now))), (''event'', JString ''authentication_success''),
    (''auth_method'', JString ''oidc''), (''principal_id'', JString p)]"
  show thesis
  proof (cases "uuidPattern p")
    case True
    then have "marshal ?v \<in> schema_lines" by (intro schema_lines.oidc) (auto simp: time_text_def)
    then show thesis using OIDC_success True
      by (intro line [of ?v]) (simp_all add: OIDCAuthenticationSuccess_def log_principalIDPattern_def writeAuthenticationSuccess_def successEvent_json_def)
  next
    case False
    then show thesis using OIDC_success by (intro refused) (auto simp: OIDCAuthenticationSuccess_def log_principalIDPattern_def)
  qed
qed

text \<open>What a sequence of calls leaves behind an encoder: whole lines, and after a failed write the beginning of one more.\<close>

definition schema_output :: "bytes \<Rightarrow> bool list \<Rightarrow> bool \<Rightarrow> bytes \<Rightarrow> bool" where
  "schema_output before oks failed after \<longleftrightarrow>
     (\<exists>lines rest. after = before @ log_lines lines @ rest \<and> set lines \<subseteq> schema_lines \<and> length lines = length (filter id oks) \<and>
        (rest = [] \<or> failed \<and> (\<exists>l \<in> schema_lines. \<exists>k. rest = take k (l @ [CHR 0x0A]))))"

lemma schema_output_False [simp]: "schema_output b (False # oks) failed a = schema_output b oks failed a"
  by (simp add: schema_output_def)

lemma log_calls_silent:
  assumes "lg_encoder lg = Some e" "en_failed e"
  shows "\<exists>oks. log_calls cs (Some lg) = (oks, Some lg) \<and> filter id oks = []"
proof (induction cs)
  case (Cons tc cs)
  obtain now c where tc: "tc = (now, c)" by (cases tc)
  have "log_call now c (Some lg) = (False, Some lg)"
    by (rule log_call_schema [of now c]) (use assms in \<open>simp_all add: log_json_def Encode_def\<close>)
  then show ?case using Cons tc by auto
qed simp

lemma log_calls_output:
  assumes "lg_encoder lg = Some e"
  shows "\<exists>oks e'. log_calls cs (Some lg) = (oks, Some \<lparr>lg_encoder = Some e'\<rparr>) \<and>
    schema_output (sk_bytes (en_sink e)) oks (en_failed e') (sk_bytes (en_sink e'))"
  using assms
proof (induction cs arbitrary: lg e)
  case Nil
  then have "lg = \<lparr>lg_encoder = Some e\<rparr>" by (cases lg) simp
  then show ?case by (auto simp: schema_output_def intro!: exI [of _ "[]"])
next
  case (Cons tc cs)
  obtain now c where tc: "tc = (now, c)" by (cases tc)
  show ?case
  proof (cases rule: log_call_schema [of now c])
    case refused
    with Cons.IH [OF Cons.prems] show ?thesis by (auto simp: tc)
  next
    case (line v)
    from Cons.prems show ?thesis
    proof (cases rule: log_json_cases [where v = v, consumes 1])
      case silent
      with log_calls_silent [OF Cons.prems, of cs] obtain oks where "log_calls cs (Some lg) = (oks, Some lg)" "filter id oks = []" by blast
      then have "log_calls (tc # cs) (Some lg) = (False # oks, Some lg)" "filter id oks = []" using line silent by (simp_all add: tc)
      then show ?thesis using Cons.prems by (cases lg) (auto simp: schema_output_def intro!: exI [of _ "[]"])
    next
      case (taken e1)
      from Cons.IH [of "\<lparr>lg_encoder = Some e1\<rparr>" e1] obtain oks e' where
        run: "log_calls cs (Some \<lparr>lg_encoder = Some e1\<rparr>) = (oks, Some \<lparr>lg_encoder = Some e'\<rparr>)"
        and out: "schema_output (sk_bytes (en_sink e1)) oks (en_failed e') (sk_bytes (en_sink e'))" by auto
      from out obtain lines rest where
        ih: "sk_bytes (en_sink e') = sk_bytes (en_sink e1) @ log_lines lines @ rest" "set lines \<subseteq> schema_lines"
          "length lines = length (filter id oks)"
          "rest = [] \<or> en_failed e' \<and> (\<exists>l \<in> schema_lines. \<exists>k. rest = take k (l @ [CHR 0x0A]))"
        unfolding schema_output_def by blast
      have "log_calls (tc # cs) (Some lg) = (True # oks, Some \<lparr>lg_encoder = Some e'\<rparr>)" using run line taken by (simp add: tc)
      moreover have "schema_output (sk_bytes (en_sink e)) (True # oks) (en_failed e') (sk_bytes (en_sink e'))"
        unfolding schema_output_def using ih taken(4) line(2) by (intro exI [of _ "marshal v # lines"] exI [of _ rest]) simp
      ultimately show ?thesis by blast
    next
      case (failed e1 k)
      from log_calls_silent [of "\<lparr>lg_encoder = Some e1\<rparr>" e1 cs] failed(3) obtain oks where
        "log_calls cs (Some \<lparr>lg_encoder = Some e1\<rparr>) = (oks, Some \<lparr>lg_encoder = Some e1\<rparr>)" "filter id oks = []" by auto
      then have "log_calls (tc # cs) (Some lg) = (False # oks, Some \<lparr>lg_encoder = Some e1\<rparr>)" "filter id (False # oks) = []"
        using line failed by (simp_all add: tc)
      moreover have "schema_output (sk_bytes (en_sink e)) (False # oks) (en_failed e1) (sk_bytes (en_sink e1))"
        unfolding schema_output_def using calculation(2) failed(3,4) line(2)
        by (intro exI [of _ "[]"] exI [of _ "take k (marshal v @ [CHR 0x0A])"]) auto
      ultimately show ?thesis by blast
    qed
  qed
qed

subsection \<open>Properties\<close>

text \<open>
  C37. The log never carries content. Whatever a new logger is asked to record and whenever the writer under it fails, what has
  been written is a sequence of whole lines, one for each call that reported success, and after a failure at most the beginning of
  one more. Every line is one of the fixed shapes: a time, constants, one of ten codes or \<open>unknown\<close>, a principal identifier of
  hexadecimal digits and eight digits of a key identifier. Nothing else a caller passes reaches the log, and no line can be split.
\<close>

theorem log_follows_schema:
  assumes "log_calls cs (Some (NewLogger (Some w))) = (oks, logger)"
  shows "\<exists>e lines rest. logger = Some \<lparr>lg_encoder = Some e\<rparr> \<and> sk_bytes (en_sink e) = sk_bytes w @ log_lines lines @ rest \<and>
    length lines = length (filter id oks) \<and> set lines \<subseteq> schema_lines \<and> (\<forall>l \<in> set lines. CHR 0x0A \<notin> set l) \<and>
    (rest = [] \<or> en_failed e \<and> (\<exists>l \<in> schema_lines. \<exists>k. rest = take k (l @ [CHR 0x0A])))"
proof -
  have "lg_encoder (NewLogger (Some w)) = Some (NewEncoder w)" by (simp add: NewLogger_def)
  from log_calls_output [OF this, of cs] assms obtain e where "logger = Some \<lparr>lg_encoder = Some e\<rparr>"
    and "schema_output (sk_bytes w) oks (en_failed e) (sk_bytes (en_sink e))" by (auto simp: NewEncoder_def)
  then show ?thesis using schema_line_free unfolding schema_output_def by blast
qed

theorem log_follows_schema_witness:
  "\<exists>e lines rest. log_calls [(\<lparr>t_nanos = 0, t_loc = UTC\<rparr>, Backend_failure ''secret prompt'')]
      (Some (NewLogger (Some \<lparr>sk_bytes = [], sk_faults = []\<rparr>))) = ([True], Some \<lparr>lg_encoder = Some e\<rparr>) \<and>
    sk_bytes (en_sink e) = log_lines lines @ rest \<and> length lines = 1 \<and> set lines \<subseteq> schema_lines"
proof -
  obtain logger where run: "log_calls [(\<lparr>t_nanos = 0, t_loc = UTC\<rparr>, Backend_failure ''secret prompt'')]
      (Some (NewLogger (Some \<lparr>sk_bytes = [], sk_faults = []\<rparr>))) = ([True], logger)"
    by (simp add: NewLogger_def BackendFailure_def log_write_def log_json_def Encode_def NewEncoder_def sink_Write_def)
  from log_follows_schema [OF run] run show ?thesis by auto
qed

text \<open>
  An authenticator calls the logger only with a principal it has validated, so that the patterns refuse nothing: the call fails
  only when the line cannot be written.
\<close>

lemma validated_principal_logged:
  assumes "principal_Validate pr" and "lg_encoder lg = Some e" "\<not> en_failed e" "sk_faults (en_sink e) = []"
  shows "p_AuthMethod pr = AuthMethodAPIKey \<Longrightarrow> fst (APIKeyAuthenticationSuccess now (p_ID pr) (p_APIKeyIDPrefix pr) (Some lg))"
    and "p_AuthMethod pr = AuthMethodOIDC \<Longrightarrow> fst (OIDCAuthenticationSuccess now (p_ID pr) (Some lg))"
  using assms
  by (auto simp: principal_Validate_def APIKeyAuthenticationSuccess_def OIDCAuthenticationSuccess_def log_principalIDPattern_def
      keyIDPrefixPattern_def apiKeyPrefixPattern_def writeAuthenticationSuccess_def log_json_def Encode_def sink_Write_healthy
      split: if_splits)


end
