(* ===== verification/AuditSigner.thy ===== *)
theory AuditSigner
  imports AuditRepository
begin

section \<open>Signed checkpoints\<close>

text \<open>
  \<open>internal/audit/signer.go\<close>, the checkpoint part of \<open>internal/audit/repository.go\<close> and of
  \<open>migrations/000009\<close>: the signer and the verification key, the canonical payload that is signed, and
  storing and loading checkpoints. Ed25519 is a parameter: \<open>keyFromSeed\<close>, \<open>ed_sign\<close> and \<open>ed_verify\<close> are
  \<open>ed25519.NewKeyFromSeed\<close>, \<open>Sign\<close> and \<open>Verify\<close>. A context is alive or done, or nil.
\<close>

definition checkpointSigningDomain :: bytes where
  "checkpointSigningDomain = ''compliantai:audit-checkpoint:v1'' @ [CHR 0x00]"

datatype checkpoint_error = ErrCheckpointSigning | ErrCheckpointVerification | ErrCheckpointStore | ErrCheckpointRead

record Checkpoint =
  cp_SchemaVersion :: int64
  cp_Sequence :: int64
  cp_ChainHeadHash :: digest
  cp_SigningKeyID :: string
  cp_CreatedAt :: go_time
  cp_Signature :: bytes

record Ed25519Signer =
  sg_privateKey :: bytes
  sg_keyID :: string
  sg_initialized :: bool

record CheckpointVerificationKey =
  vk_publicKey :: bytes
  vk_keyID :: string
  vk_initialized :: bool

datatype go_context = Nil_context | Done_context | Live_context

subsection \<open>Keys\<close>

definition NewEd25519Signer :: "(bytes \<Rightarrow> bytes) \<Rightarrow> string \<Rightarrow> bytes \<Rightarrow> checkpoint_error + Ed25519Signer" where
  "NewEd25519Signer keyFromSeed keyID privateKey =
     (if \<not> identifierPattern keyID \<or> length privateKey \<noteq> 64 then Inl ErrCheckpointSigning
      else if keyFromSeed (take 32 privateKey) \<noteq> privateKey then Inl ErrCheckpointSigning
      else Inr \<lparr>sg_privateKey = privateKey, sg_keyID = keyID, sg_initialized = True\<rparr>)"

definition signer_KeyID :: "Ed25519Signer option \<Rightarrow> string" where
  "signer_KeyID signer = (case signer of None \<Rightarrow> [] | Some s \<Rightarrow> if \<not> sg_initialized s then [] else sg_keyID s)"

definition signer_Destroy :: "Ed25519Signer option \<Rightarrow> Ed25519Signer option" where
  "signer_Destroy signer =
     (case signer of
        None \<Rightarrow> None
      | Some s \<Rightarrow> Some \<lparr>sg_privateKey = replicate (length (sg_privateKey s)) (CHR 0x00), sg_keyID = [], sg_initialized = False\<rparr>)"

definition signer_Sign :: "(bytes \<Rightarrow> bytes \<Rightarrow> bytes) \<Rightarrow> Ed25519Signer option \<Rightarrow> go_context \<Rightarrow> bytes \<Rightarrow> checkpoint_error + bytes" where
  "signer_Sign ed_sign signer ctx payload =
     (case signer of
        None \<Rightarrow> Inl ErrCheckpointSigning
      | Some s \<Rightarrow>
          if \<not> sg_initialized s \<or> ctx = Nil_context then Inl ErrCheckpointSigning
          else if ctx = Done_context then Inl ErrCheckpointSigning
          else Inr (ed_sign (sg_privateKey s) (checkpointSigningDomain @ payload)))"

text \<open>The fixed marker that \<open>String\<close> and \<open>Format\<close> print in place of the key.\<close>

definition signer_String :: "Ed25519Signer \<Rightarrow> string" where
  "signer_String s = ''<checkpoint-signer>''"

definition NewCheckpointVerificationKey :: "string \<Rightarrow> bytes \<Rightarrow> checkpoint_error + CheckpointVerificationKey" where
  "NewCheckpointVerificationKey keyID publicKey =
     (if \<not> identifierPattern keyID \<or> length publicKey \<noteq> 32 then Inl ErrCheckpointVerification
      else Inr \<lparr>vk_publicKey = publicKey, vk_keyID = keyID, vk_initialized = True\<rparr>)"

subsection \<open>Payload, signing, verification\<close>

definition checkpoint_json :: "Checkpoint \<Rightarrow> json" where
  "checkpoint_json c = JObject [
     (''schema_version'', json_int64 (cp_SchemaVersion c)),
     (''sequence'', json_int64 (cp_Sequence c)),
     (''chain_head_hash'', JString (digest_String (cp_ChainHeadHash c))),
     (''signing_key_id'', JString (cp_SigningKeyID c)),
     (''created_at'', JString (format_rfc3339nano (cp_CreatedAt c)))]"

definition canonicalCheckpointPayload :: "Checkpoint \<Rightarrow> checkpoint_error + bytes" where
  "canonicalCheckpointPayload checkpoint =
     (if cp_SchemaVersion checkpoint \<noteq> 1 \<or>
         cp_Sequence checkpoint \<le>s 0 \<or>
         cp_ChainHeadHash checkpoint = zero_digest \<or>
         \<not> identifierPattern (cp_SigningKeyID checkpoint) \<or>
         time_IsZero (cp_CreatedAt checkpoint) \<or>
         \<not> time_is_UTC (cp_CreatedAt checkpoint) \<or>
         time_Year (cp_CreatedAt checkpoint) < 1 \<or>
         time_Year (cp_CreatedAt checkpoint) > 9999 \<or>
         time_Nanosecond (cp_CreatedAt checkpoint) mod 1000 \<noteq> 0
      then Inl ErrCheckpointSigning
      else Inr (marshal (checkpoint_json checkpoint)))"

definition CreateCheckpoint ::
  "(bytes \<Rightarrow> bytes \<Rightarrow> bytes) \<Rightarrow> go_context \<Rightarrow> int64 \<Rightarrow> digest \<Rightarrow> go_time \<Rightarrow> Ed25519Signer option \<Rightarrow> checkpoint_error + Checkpoint" where
  "CreateCheckpoint ed_sign ctx sequence chainHeadHash createdAt signer =
     (if signer = None then Inl ErrCheckpointSigning
      else let checkpoint = \<lparr>cp_SchemaVersion = 1, cp_Sequence = sequence, cp_ChainHeadHash = chainHeadHash,
                 cp_SigningKeyID = signer_KeyID signer, cp_CreatedAt = createdAt, cp_Signature = []\<rparr> in
        case canonicalCheckpointPayload checkpoint of
          Inl _ \<Rightarrow> Inl ErrCheckpointSigning
        | Inr payload \<Rightarrow>
            case signer_Sign ed_sign signer ctx payload of
              Inl _ \<Rightarrow> Inl ErrCheckpointSigning
            | Inr signature \<Rightarrow>
                if length signature \<noteq> 64 then Inl ErrCheckpointSigning
                else Inr (checkpoint\<lparr>cp_Signature := signature\<rparr>))"

definition VerifyCheckpoint :: "(bytes \<Rightarrow> bytes \<Rightarrow> bytes \<Rightarrow> bool) \<Rightarrow> Checkpoint \<Rightarrow> CheckpointVerificationKey \<Rightarrow> checkpoint_error option" where
  "VerifyCheckpoint ed_verify checkpoint key =
     (if \<not> vk_initialized key \<or> cp_SigningKeyID checkpoint \<noteq> vk_keyID key \<or> length (cp_Signature checkpoint) \<noteq> 64
      then Some ErrCheckpointVerification
      else case canonicalCheckpointPayload checkpoint of
          Inl _ \<Rightarrow> Some ErrCheckpointVerification
        | Inr payload \<Rightarrow>
            if \<not> ed_verify (vk_publicKey key) (checkpointSigningDomain @ payload) (cp_Signature checkpoint)
            then Some ErrCheckpointVerification else None)"

subsection \<open>Stored checkpoints\<close>

record checkpoint_row =
  ck_sequence :: int64
  ck_chain_head_hash :: bytes
  ck_signing_key_id :: string
  ck_signature :: bytes
  ck_created_at :: int

text \<open>The first and the one past the last microsecond of the years 1 to 9999.\<close>

definition timestamp_first :: int where "timestamp_first = 0"
definition timestamp_limit :: int where "timestamp_limit = day_origin (days_before_year 10000)"

definition get_audit_chain_head :: "audit_store \<Rightarrow> sql_error + int64 \<times> bytes" where
  "get_audit_chain_head st =
     (if head_sequence st \<le>s 0 \<or> length (head_event_hash st) \<noteq> 32 then Inl (Raised ''audit checkpoint unavailable'')
      else Inr (head_sequence st, head_event_hash st))"

definition store_audit_checkpoint :: "audit_store \<Rightarrow> checkpoint_row \<Rightarrow> checkpoint_row list \<Rightarrow> sql_error + checkpoint_row list" where
  "store_audit_checkpoint st c cks =
     (if ck_sequence c \<le>s 0 \<or> length (ck_chain_head_hash c) \<noteq> 32 \<or> ck_chain_head_hash c = zero_hash \<or>
         \<not> identifierPattern (ck_signing_key_id c) \<or> length (ck_signature c) \<noteq> 64 \<or>
         ck_created_at c < timestamp_first \<or> timestamp_limit \<le> ck_created_at c
      then Inl (Raised ''invalid audit checkpoint'')
      else if \<not> list_ex (\<lambda>row. col_sequence row = ck_sequence c \<and> col_event_hash row = ck_chain_head_hash c) (audit_events st)
        then Inl (Raised ''invalid audit checkpoint'')
      else if list_ex (\<lambda>x. ck_sequence x = ck_sequence c) cks then Inl (Raised ''invalid audit checkpoint'')
      else Inr (cks @ [c]))"

record ChainHead =
  ch_Sequence :: int64
  ch_EventHash :: digest

definition repository_ChainHead :: "bool \<Rightarrow> audit_store \<Rightarrow> checkpoint_error + ChainHead" where
  "repository_ChainHead pool st =
     (if \<not> pool then Inl ErrCheckpointRead
      else case get_audit_chain_head st of
          Inl _ \<Rightarrow> Inl ErrCheckpointRead
        | Inr (sequence, rawHash) \<Rightarrow>
            case digestFromBytes rawHash of
              None \<Rightarrow> Inl ErrCheckpointRead
            | Some d \<Rightarrow>
                if sequence \<le>s 0 \<or> d = zero_digest then Inl ErrCheckpointRead
                else Inr \<lparr>ch_Sequence = sequence, ch_EventHash = d\<rparr>)"

definition StoreCheckpoint :: "bool \<Rightarrow> Checkpoint \<Rightarrow> audit_store \<Rightarrow> checkpoint_row list \<Rightarrow> checkpoint_error + checkpoint_row list" where
  "StoreCheckpoint pool checkpoint st cks =
     (if \<not> pool \<or> length (cp_Signature checkpoint) \<noteq> 64 then Inl ErrCheckpointStore
      else case canonicalCheckpointPayload checkpoint of
          Inl _ \<Rightarrow> Inl ErrCheckpointStore
        | Inr _ \<Rightarrow>
            if cp_ChainHeadHash checkpoint = zero_digest then Inl ErrCheckpointStore
            else case store_audit_checkpoint st \<lparr>ck_sequence = cp_Sequence checkpoint,
                   ck_chain_head_hash = digest_bytes (cp_ChainHeadHash checkpoint),
                   ck_signing_key_id = cp_SigningKeyID checkpoint, ck_signature = cp_Signature checkpoint,
                   ck_created_at = t_nanos (cp_CreatedAt checkpoint) div 1000\<rparr> cks of
                Inl _ \<Rightarrow> Inl ErrCheckpointStore
              | Inr cks' \<Rightarrow> Inr cks')"

definition LoadCheckpoint :: "bool \<Rightarrow> int64 \<Rightarrow> checkpoint_row list \<Rightarrow> checkpoint_error + Checkpoint" where
  "LoadCheckpoint pool sequence cks =
     (if \<not> pool \<or> sequence \<le>s 0 then Inl ErrCheckpointRead
      else case find (\<lambda>c. ck_sequence c = sequence) cks of
          None \<Rightarrow> Inl ErrCheckpointRead
        | Some row \<Rightarrow>
            case digestFromBytes (ck_chain_head_hash row) of
              None \<Rightarrow> Inl ErrCheckpointRead
            | Some d \<Rightarrow>
                if d = zero_digest \<or> length (ck_signature row) \<noteq> 64 then Inl ErrCheckpointRead
                else let checkpoint = \<lparr>cp_SchemaVersion = 1, cp_Sequence = ck_sequence row, cp_ChainHeadHash = d,
                       cp_SigningKeyID = ck_signing_key_id row,
                       cp_CreatedAt = \<lparr>t_nanos = ck_created_at row * 1000, t_loc = UTC\<rparr>,
                       cp_Signature = ck_signature row\<rparr> in
                  case canonicalCheckpointPayload checkpoint of
                    Inl _ \<Rightarrow> Inl ErrCheckpointRead
                  | Inr _ \<Rightarrow> Inr checkpoint)"

subsection \<open>The payload determines the checkpoint\<close>

lemma canonicalCheckpointPayload_Inr:
  "canonicalCheckpointPayload c = Inr b \<Longrightarrow>
   b = marshal (checkpoint_json c) \<and> all_plain (checkpoint_json c) \<and> cp_SchemaVersion c = 1 \<and> time_is_UTC (cp_CreatedAt c) \<and>
   t_nanos (cp_CreatedAt c) mod 1000000000 mod 1000 = 0 \<and> 0 <s cp_Sequence c \<and> cp_ChainHeadHash c \<noteq> zero_digest"
  by (auto simp: canonicalCheckpointPayload_def checkpoint_json_def digest_String_plain time_plain identifierPattern_plain
      json_int64_def time_Nanosecond_def nanos_per_second_def int64_less int64_le split: if_splits)

lemma time_UTC_id: "time_is_UTC t \<Longrightarrow> time_UTC t = t"
  by (cases t) (simp add: time_is_UTC_def time_UTC_def)

lemma canonicalCheckpointPayload_inject:
  assumes "canonicalCheckpointPayload c = Inr b" and "canonicalCheckpointPayload d = Inr b"
  shows "d = c\<lparr>cp_Signature := cp_Signature d\<rparr>"
proof -
  note c = canonicalCheckpointPayload_Inr [OF assms(1)] and d = canonicalCheckpointPayload_Inr [OF assms(2)]
  have "checkpoint_json c = checkpoint_json d" using c d by (metis marshal_inject)
  moreover have "cp_CreatedAt c = cp_CreatedAt d" if "format_rfc3339nano (cp_CreatedAt c) = format_rfc3339nano (cp_CreatedAt d)"
    using that c d format_UTC_inject [of "cp_CreatedAt c" "cp_CreatedAt d"] by (simp add: time_UTC_id)
  ultimately show ?thesis by (cases c; cases d) (simp add: checkpoint_json_def)
qed

lemma CreateCheckpoint_Inr:
  assumes "CreateCheckpoint ed_sign ctx sequence h t signer = Inr c"
  obtains s payload where "signer = Some s" and "sg_initialized s" and "ctx = Live_context"
    and "canonicalCheckpointPayload c = Inr payload" and "cp_SigningKeyID c = sg_keyID s"
    and "cp_Signature c = ed_sign (sg_privateKey s) (checkpointSigningDomain @ payload)" and "length (cp_Signature c) = 64"
    and "cp_Sequence c = sequence" and "cp_ChainHeadHash c = h" and "cp_CreatedAt c = t"
proof -
  from assms obtain s where s: "signer = Some s" by (cases signer) (simp_all add: CreateCheckpoint_def)
  define c0 where "c0 = \<lparr>cp_SchemaVersion = 1, cp_Sequence = sequence, cp_ChainHeadHash = h,
    cp_SigningKeyID = signer_KeyID signer, cp_CreatedAt = t, cp_Signature = []\<rparr>"
  from assms obtain payload signature where p: "canonicalCheckpointPayload c0 = Inr payload"
    and sig: "signer_Sign ed_sign signer ctx payload = Inr signature" "length signature = 64"
    and c: "c = c0\<lparr>cp_Signature := signature\<rparr>"
    unfolding CreateCheckpoint_def Let_def c0_def [symmetric] by (auto simp: s split: sum.splits if_splits)
  have "canonicalCheckpointPayload c = canonicalCheckpointPayload c0"
    by (simp add: c canonicalCheckpointPayload_def checkpoint_json_def)
  then have payload: "canonicalCheckpointPayload c = Inr payload" using p by simp
  have live: "sg_initialized s" "ctx = Live_context" and sg: "signature = ed_sign (sg_privateKey s) (checkpointSigningDomain @ payload)"
    using sig(1) s by (cases ctx; simp add: signer_Sign_def split: if_splits)+
  show thesis
    by (rule that [OF s live payload]) (use sig sg live in \<open>simp_all add: c c0_def signer_KeyID_def s\<close>)
qed

lemma VerifyCheckpoint_None:
  "VerifyCheckpoint ed_verify c k = None \<longleftrightarrow>
   vk_initialized k \<and> cp_SigningKeyID c = vk_keyID k \<and> length (cp_Signature c) = 64 \<and>
   (\<exists>payload. canonicalCheckpointPayload c = Inr payload \<and>
      ed_verify (vk_publicKey k) (checkpointSigningDomain @ payload) (cp_Signature c))"
  by (auto simp: VerifyCheckpoint_def split: sum.splits)

subsection \<open>Properties\<close>

text \<open>A signature scheme for the witnesses: the message padded to the size of a signature.\<close>

definition toy_sign :: "bytes \<Rightarrow> bytes \<Rightarrow> bytes" where
  "toy_sign key m = take 64 (m @ replicate 64 (CHR 0x01))"

definition toy_verify :: "bytes \<Rightarrow> bytes \<Rightarrow> bytes \<Rightarrow> bool" where
  "toy_verify key m s \<longleftrightarrow> s = toy_sign key m"

definition sample_signer :: Ed25519Signer where
  "sample_signer = \<lparr>sg_privateKey = [], sg_keyID = ''k1'', sg_initialized = True\<rparr>"

definition sample_vkey :: CheckpointVerificationKey where
  "sample_vkey = \<lparr>vk_publicKey = [], vk_keyID = ''k1'', vk_initialized = True\<rparr>"

definition sample_instant :: go_time where
  "sample_instant = \<lparr>t_nanos = 63900000000000001000, t_loc = UTC\<rparr>"

definition sample_checkpoint :: Checkpoint where
  "sample_checkpoint = (let c = \<lparr>cp_SchemaVersion = 1, cp_Sequence = 1, cp_ChainHeadHash = sample_digest,
     cp_SigningKeyID = ''k1'', cp_CreatedAt = sample_instant, cp_Signature = []\<rparr>
   in c\<lparr>cp_Signature := toy_sign [] (checkpointSigningDomain @ marshal (checkpoint_json c))\<rparr>)"

lemma sample_checkpoint_payload:
  "canonicalCheckpointPayload \<lparr>cp_SchemaVersion = 1, cp_Sequence = 1, cp_ChainHeadHash = sample_digest,
     cp_SigningKeyID = ''k1'', cp_CreatedAt = sample_instant, cp_Signature = x\<rparr> =
   Inr (marshal (checkpoint_json \<lparr>cp_SchemaVersion = 1, cp_Sequence = 1, cp_ChainHeadHash = sample_digest,
     cp_SigningKeyID = ''k1'', cp_CreatedAt = sample_instant, cp_Signature = []\<rparr>))"
  using sample_event_parts(6,12) sample_event_parts(14) [of UTC]
  by (simp add: canonicalCheckpointPayload_def sample_instant_def time_IsZero_def time_is_UTC_def int64_le checkpoint_json_def)

lemma sample_checkpoint_created:
  "CreateCheckpoint toy_sign Live_context 1 sample_digest sample_instant (Some sample_signer) = Inr sample_checkpoint"
  by (simp add: CreateCheckpoint_def sample_checkpoint_payload signer_KeyID_def sample_signer_def signer_Sign_def
      sample_checkpoint_def Let_def toy_sign_def)

text \<open>
  A created checkpoint verifies. If signatures of the signer's private key verify under the public
  key, then every checkpoint \<open>CreateCheckpoint\<close> returns carries the given chain position, hash and
  time, and is accepted by \<open>VerifyCheckpoint\<close> under the key of the same identity.
\<close>

lemma created_checkpoint_verifies:
  assumes "CreateCheckpoint ed_sign ctx sequence h t (Some s) = Inr c"
    and "vk_initialized k" and "vk_keyID k = sg_keyID s"
    and "\<And>m. ed_verify (vk_publicKey k) m (ed_sign (sg_privateKey s) m)"
  shows "VerifyCheckpoint ed_verify c k = None \<and> cp_Sequence c = sequence \<and> cp_ChainHeadHash c = h \<and> cp_CreatedAt c = t"
  using assms(1) by (rule CreateCheckpoint_Inr) (use assms(2-4) in \<open>auto simp: VerifyCheckpoint_None\<close>)

text \<open>
  Storing and loading a checkpoint is lossless. A checkpoint the repository stores comes back from
  \<open>LoadCheckpoint\<close> exactly as it was signed, so its signature still verifies; and one is stored only
  for a hash that the audit table holds at that sequence number.
\<close>

lemma stored_checkpoint_loads:
  assumes "StoreCheckpoint True c st cks = Inr cks'"
  shows "LoadCheckpoint True (cp_Sequence c) cks' = Inr c \<and>
    (\<exists>row\<in>set (audit_events st). col_sequence row = cp_Sequence c \<and> col_event_hash row = digest_bytes (cp_ChainHeadHash c))"
proof -
  from assms obtain b where b: "canonicalCheckpointPayload c = Inr b" and len: "length (cp_Signature c) = 64"
    and nz: "cp_ChainHeadHash c \<noteq> zero_digest"
    and run: "store_audit_checkpoint st \<lparr>ck_sequence = cp_Sequence c, ck_chain_head_hash = digest_bytes (cp_ChainHeadHash c),
        ck_signing_key_id = cp_SigningKeyID c, ck_signature = cp_Signature c,
        ck_created_at = t_nanos (cp_CreatedAt c) div 1000\<rparr> cks = Inr cks'"
    by (auto simp: StoreCheckpoint_def split: sum.splits if_splits)
  note p = canonicalCheckpointPayload_Inr [OF b]
  have "t_nanos (cp_CreatedAt c) mod 1000 = 0"
    using p mod_mod_cancel [of 1000 1000000000 "t_nanos (cp_CreatedAt c)"] by simp
  then have "t_nanos (cp_CreatedAt c) div 1000 * 1000 = t_nanos (cp_CreatedAt c)"
    using div_mult_mod_eq [of "t_nanos (cp_CreatedAt c)" 1000] by simp
  then have t: "\<lparr>t_nanos = t_nanos (cp_CreatedAt c) div 1000 * 1000, t_loc = UTC\<rparr> = cp_CreatedAt c"
    using p by (cases "cp_CreatedAt c") (simp add: time_is_UTC_def)
  have new: "find (\<lambda>x. ck_sequence x = cp_Sequence c) cks = None"
    and cks': "cks' = cks @ [\<lparr>ck_sequence = cp_Sequence c, ck_chain_head_hash = digest_bytes (cp_ChainHeadHash c),
        ck_signing_key_id = cp_SigningKeyID c, ck_signature = cp_Signature c,
        ck_created_at = t_nanos (cp_CreatedAt c) div 1000\<rparr>]"
    and row: "\<exists>row\<in>set (audit_events st). col_sequence row = cp_Sequence c \<and> col_event_hash row = digest_bytes (cp_ChainHeadHash c)"
    using run by (auto simp: store_audit_checkpoint_def list_ex_iff find_None_iff split: if_splits)
  have whole: "\<lparr>cp_SchemaVersion = 1, cp_Sequence = cp_Sequence c, cp_ChainHeadHash = cp_ChainHeadHash c,
      cp_SigningKeyID = cp_SigningKeyID c, cp_CreatedAt = cp_CreatedAt c, cp_Signature = cp_Signature c\<rparr> = c"
    using p by (cases c) simp
  have pos: "\<not> cp_Sequence c \<le>s 0" using p by (simp add: int64_less int64_le)
  have "LoadCheckpoint True (cp_Sequence c) cks' = Inr c"
    unfolding LoadCheckpoint_def Let_def cks' find_append new using pos nz len b by (simp add: t whole)
  then show ?thesis using row by blast
qed

lemma sample_checkpoint_stored: "\<exists>cks'. StoreCheckpoint True sample_checkpoint sample_stored [] = Inr cks'"
proof -
  have row: "audit_events sample_stored = [row_of \<lparr>rec_Sequence = 1, rec_Event = sample_event [''a''] UTC, rec_EventHash = sample_digest\<rparr>]"
    by (simp add: sample_stored_def sample_append)
  have limit: "63900000000000001 < timestamp_limit" unfolding timestamp_limit_def by code_simp
  define x where "x = toy_sign [] (checkpointSigningDomain @ marshal (checkpoint_json \<lparr>cp_SchemaVersion = 1, cp_Sequence = 1,
      cp_ChainHeadHash = sample_digest, cp_SigningKeyID = ''k1'', cp_CreatedAt = sample_instant, cp_Signature = []\<rparr>))"
  have cp: "sample_checkpoint = \<lparr>cp_SchemaVersion = 1, cp_Sequence = 1, cp_ChainHeadHash = sample_digest,
      cp_SigningKeyID = ''k1'', cp_CreatedAt = sample_instant, cp_Signature = x\<rparr>"
    by (simp add: sample_checkpoint_def Let_def x_def)
  have sig: "length x = 64" by (simp add: x_def toy_sign_def)
  have nz: "digest_bytes sample_digest \<noteq> zero_hash" using sample_hash_column by (simp add: hash_column_def)
  show ?thesis
    using sig limit sample_event_parts(6) nz unfolding cp
    by (simp add: StoreCheckpoint_def sample_checkpoint_payload [unfolded sample_instant_def] store_audit_checkpoint_def row
        row_of_def appendArguments_def sample_instant_def timestamp_first_def int64_le)
qed

end
