(* ===== verification/Files.thy ===== *)
theory Files
  imports GoText
begin

section \<open>Files\<close>

text \<open>
  The file system as the command line sees it: what stands at a path. A regular file has a mode and a content that may fail while
  it is read; everything else that opens is refused by the mode check, and symbolic links and files that may not be opened are
  refused by the open. \<open>write_plan\<close> says which steps of writing a new file fail; \<open>wp_write\<close> is the number of bytes after which
  writing fails, if it does.
\<close>

datatype node = Regular "32 word" stream | Special | Symbolic_link | Unopenable

type_synonym file_system = "string \<rightharpoonup> node"

definition mode_Perm :: "32 word \<Rightarrow> 32 word" where
  "mode_Perm mode = mode AND 511"

record write_plan =
  wp_create :: bool
  wp_umask :: "32 word"
  wp_write :: "nat option"
  wp_sync :: bool
  wp_close :: bool
  wp_remove :: bool

text \<open>Opening for reading without following a link, and the check that the file is regular.\<close>

definition openRegularFileNoFollow :: "string \<Rightarrow> file_system \<Rightarrow> (32 word \<times> stream) option" where
  "openRegularFileNoFollow path fs = (case fs path of Some (Regular mode content) \<Rightarrow> Some (mode, content) | _ \<Rightarrow> None)"

text \<open>\<open>io.ReadAll(io.LimitReader(file, maximum+1))\<close> and the check of the length.\<close>

definition read_bounded :: "int64 \<Rightarrow> stream \<Rightarrow> bytes option" where
  "read_bounded maximum content =
     (case read_all (maximum + 1) content of None \<Rightarrow> None | Some b \<Rightarrow> if maximum <s len64 b then None else Some b)"

definition readBoundedRegularFileWithMode :: "string \<Rightarrow> int64 \<Rightarrow> 32 word \<Rightarrow> file_system \<Rightarrow> bytes option" where
  "readBoundedRegularFileWithMode path maximumBytes requiredMode fs =
     (case openRegularFileNoFollow path fs of
        None \<Rightarrow> None
      | Some (mode, content) \<Rightarrow>
          if requiredMode \<noteq> 0 \<and> mode_Perm mode \<noteq> requiredMode then None else read_bounded maximumBytes content)"

definition readBoundedRegularFile :: "string \<Rightarrow> int64 \<Rightarrow> file_system \<Rightarrow> bytes option" where
  "readBoundedRegularFile path maximumBytes = readBoundedRegularFileWithMode path maximumBytes 0"

definition maximumDSNBytes :: int64 where "maximumDSNBytes = 16384"

definition readSecretFile :: "string \<Rightarrow> file_system \<Rightarrow> bytes option" where
  "readSecretFile path fs =
     (case readBoundedRegularFileWithMode path maximumDSNBytes 384 fs of
        None \<Rightarrow> None
      | Some secret \<Rightarrow>
          let secret =
            (if secret \<noteq> [] \<and> last secret = CHR 0x0A then
               let secret = butlast secret in if secret \<noteq> [] \<and> last secret = CHR 0x0D then butlast secret else secret
             else secret) in
          if secret = [] \<or> list_ex (\<lambda>c. c = CHR 0x0D \<or> c = CHR 0x0A \<or> c = CHR 0x00) secret then None else Some secret)"

text \<open>The file is created exclusively with mode 0600 under the mask of the process and removed again when anything fails.\<close>

definition writeExclusiveFile :: "write_plan \<Rightarrow> string \<Rightarrow> bytes \<Rightarrow> file_system \<Rightarrow> bool \<times> file_system" where
  "writeExclusiveFile plan path content fs =
     (if fs path \<noteq> None \<or> \<not> wp_create plan then (False, fs)
      else let
        created = (\<lambda>b. fs(path \<mapsto> Regular (384 AND NOT (wp_umask plan)) \<lparr>st_bytes = b, st_end = Eof\<rparr>));
        failed = (\<lambda>b. (False, if wp_remove plan then fs else created b))
      in case wp_write plan of
           Some k \<Rightarrow> failed (take k content)
         | None \<Rightarrow> if \<not> wp_sync plan then failed content else if \<not> wp_close plan then failed content else (True, created content))"

lemma read_bounded_length: "read_bounded maximum content = Some b \<Longrightarrow> len64 b \<le>s maximum"
  by (auto simp: read_bounded_def int64_le int64_less split: option.splits if_splits)

lemma writeExclusiveFile_True:
  assumes "writeExclusiveFile plan path content fs = (True, fs')"
  shows "fs path = None" "fs' = fs(path \<mapsto> Regular (384 AND NOT (wp_umask plan)) \<lparr>st_bytes = content, st_end = Eof\<rparr>)"
  using assms by (auto simp: writeExclusiveFile_def Let_def split: if_splits option.splits)

text \<open>Whatever fails, no file that was there is touched, and a new one is private to its owner.\<close>

lemma new_file_private: "mode_Perm (384 AND NOT (umask :: 32 word)) AND 63 = 0"
proof -
  have "mode_Perm (384 AND NOT umask) AND 63 = (384 AND (511 AND 63)) AND NOT umask" unfolding mode_Perm_def by (simp only: ac_simps)
  also have "\<dots> = 0" by simp
  finally show ?thesis .
qed

lemma writeExclusiveFile_keeps:
  "snd (writeExclusiveFile plan path content fs) = fs \<or>
   fs path = None \<and> (\<exists>b. snd (writeExclusiveFile plan path content fs) =
     fs(path \<mapsto> Regular (384 AND NOT (wp_umask plan)) \<lparr>st_bytes = b, st_end = Eof\<rparr>))"
  by (auto simp: writeExclusiveFile_def Let_def split: option.split)

lemma read_bounded_small:
  assumes "0 \<le> sint n" "sint n < 2 ^ 62" "length b \<le> nat (sint n)"
  shows "read_bounded n \<lparr>st_bytes = b, st_end = Eof\<rparr> = Some b"
proof -
  have n1: "sint (n + 1) = sint n + 1" using assms(1,2) by (simp add: sint_add_in_range)
  have "unat (n + 1) = nat (sint n + 1)" using n1 assms(1) unat_nat_sint [of "n + 1"] by simp
  then have "\<not> unat (n + 1) \<le> length b" "\<not> n + 1 \<le>s 0" using assms n1 by (auto simp: int64_le)
  moreover have "sint (of_nat (length b) :: int64) = int (length b)" using assms by (intro sint_of_nat) (simp add: le_nat_iff)
  then have "\<not> n <s len64 b" using assms(1,3) by (simp add: len64_def int64_less)
  ultimately show ?thesis by (simp add: read_bounded_def read_all_def)
qed

end
