(* ===== verification/AuditKeyFiles.thy ===== *)
theory AuditKeyFiles
  imports AuditSigner Files
begin

section \<open>Key files\<close>

text \<open>
  The loaders of \<open>internal/audit/signer.go\<close>. \<open>pem.Decode\<close> and the ASN.1 parsers of \<open>crypto/x509\<close> are parameters: \<open>pem_decode\<close> gives
  the first block and what follows it, the parsers the kind of key and the bytes of an Ed25519 key.
\<close>

record pem_block =
  pb_Type :: string
  pb_Headers :: "(string \<times> string) list"
  pb_Bytes :: bytes

datatype parsed_key = Ed25519_key bytes | Other_key

definition maximumPEMBytes :: int64 where "maximumPEMBytes = 16384"

text \<open>The block of a file that starts with the given line and holds one block of that type and nothing else.\<close>

definition single_block :: "(bytes \<Rightarrow> (pem_block \<times> bytes) option) \<Rightarrow> string \<Rightarrow> bytes \<Rightarrow> bytes option" where
  "single_block pem_decode kind encoded =
     (if \<not> has_prefix encoded (''-----BEGIN '' @ kind @ ''-----'' @ [CHR 0x0A]) then None
      else case pem_decode encoded of
          None \<Rightarrow> None
        | Some (block, remaining) \<Rightarrow>
            if pb_Type block \<noteq> kind \<or> pb_Headers block \<noteq> [] \<or> remaining \<noteq> [] then None else Some (pb_Bytes block))"

definition LoadEd25519SignerFile ::
  "(bytes \<Rightarrow> bytes) \<Rightarrow> (bytes \<Rightarrow> (pem_block \<times> bytes) option) \<Rightarrow> (bytes \<Rightarrow> parsed_key option) \<Rightarrow> string \<Rightarrow> string \<Rightarrow> file_system \<Rightarrow>
   checkpoint_error + Ed25519Signer" where
  "LoadEd25519SignerFile keyFromSeed pem_decode parse_pkcs8 keyID path fs =
     (case openRegularFileNoFollow path fs of
        None \<Rightarrow> Inl ErrCheckpointSigning
      | Some (mode, content) \<Rightarrow>
          if mode_Perm mode AND 63 \<noteq> 0 then Inl ErrCheckpointSigning
          else case read_bounded maximumPEMBytes content of
              None \<Rightarrow> Inl ErrCheckpointSigning
            | Some encoded \<Rightarrow>
                case single_block pem_decode ''PRIVATE KEY'' encoded of
                  None \<Rightarrow> Inl ErrCheckpointSigning
                | Some der \<Rightarrow>
                    case parse_pkcs8 der of
                      Some (Ed25519_key privateKey) \<Rightarrow> NewEd25519Signer keyFromSeed keyID privateKey
                    | _ \<Rightarrow> Inl ErrCheckpointSigning)"

definition LoadCheckpointVerificationKeyFile ::
  "(bytes \<Rightarrow> (pem_block \<times> bytes) option) \<Rightarrow> (bytes \<Rightarrow> parsed_key option) \<Rightarrow> string \<Rightarrow> string \<Rightarrow> file_system \<Rightarrow>
   checkpoint_error + CheckpointVerificationKey" where
  "LoadCheckpointVerificationKeyFile pem_decode parse_pkix keyID path fs =
     (case openRegularFileNoFollow path fs of
        None \<Rightarrow> Inl ErrCheckpointVerification
      | Some (_, content) \<Rightarrow>
          case read_bounded maximumPEMBytes content of
            None \<Rightarrow> Inl ErrCheckpointVerification
          | Some encoded \<Rightarrow>
              case single_block pem_decode ''PUBLIC KEY'' encoded of
                None \<Rightarrow> Inl ErrCheckpointVerification
              | Some der \<Rightarrow>
                  case parse_pkix der of
                    Some (Ed25519_key publicKey) \<Rightarrow> NewCheckpointVerificationKey keyID publicKey
                  | _ \<Rightarrow> Inl ErrCheckpointVerification)"

text \<open>A signer is loaded only from a regular file that nobody but its owner can read or write.\<close>

lemma LoadEd25519SignerFile_Inr:
  assumes "LoadEd25519SignerFile keyFromSeed pem_decode parse_pkcs8 keyID path fs = Inr s"
  obtains mode content where "fs path = Some (Regular mode content)" "mode_Perm mode AND 63 = 0" "sg_keyID s = keyID" "sg_initialized s"
    "identifierPattern keyID" "length (sg_privateKey s) = 64"
  using assms
  by (auto simp: LoadEd25519SignerFile_def openRegularFileNoFollow_def NewEd25519Signer_def
      split: option.splits node.splits if_splits parsed_key.splits)

lemma LoadCheckpointVerificationKeyFile_Inr:
  assumes "LoadCheckpointVerificationKeyFile pem_decode parse_pkix keyID path fs = Inr key"
  shows "vk_initialized key" "vk_keyID key = keyID"
  using assms
  by (auto simp: LoadCheckpointVerificationKeyFile_def NewCheckpointVerificationKey_def
      split: option.splits prod.splits if_splits parsed_key.splits)

end
