(* ===== verification/TimeText.thy ===== *)
theory TimeText
  imports GoTime "HOL-Library.Monad_Syntax"
begin

section \<open>Reading instants\<close>

text \<open>
  \<open>time.Parse(time.RFC3339Nano, s)\<close> where it is followed by the check that the location is UTC, which holds exactly for texts that
  end in \<open>Z\<close>. As in the library the hour may have one digit, the fraction may follow a comma and may have any number of digits,
  of which nine count, and the day is checked against the month. \<open>parse_utc\<close> adds the check that formatting the result gives the
  text back.
\<close>

definition getnum :: "bool \<Rightarrow> string \<Rightarrow> (nat \<times> string) option" where
  "getnum fixed s =
     (case s of
        [] \<Rightarrow> None
      | a # r \<Rightarrow>
          if \<not> is_digit a then None
          else case r of
              b # q \<Rightarrow> if is_digit b then Some (digits_value [a, b], q) else if fixed then None else Some (digits_value [a], r)
            | [] \<Rightarrow> if fixed then None else Some (digits_value [a], r))"

definition year_part :: "string \<Rightarrow> (nat \<times> string) option" where
  "year_part s = (if length s < 4 \<or> \<not> list_all is_digit (take 4 s) then None else Some (digits_value (take 4 s), drop 4 s))"

definition literal :: "char \<Rightarrow> string \<Rightarrow> string option" where
  "literal c s = (case s of [] \<Rightarrow> None | d # r \<Rightarrow> if d = c then Some r else None)"

definition fraction_value :: "string \<Rightarrow> nat" where
  "fraction_value s = digits_value (take 9 (s @ replicate 9 (CHR ''0'')))"

definition fraction_part :: "string \<Rightarrow> nat \<times> string" where
  "fraction_part s =
     (case s of
        p # d # r \<Rightarrow>
          if (p = CHR ''.'' \<or> p = CHR '','') \<and> is_digit d
          then (fraction_value (takeWhile is_digit (d # r)), dropWhile is_digit (d # r)) else (0, s)
      | _ \<Rightarrow> (0, s))"

definition days_in_month :: "int \<Rightarrow> nat \<Rightarrow> int" where
  "days_in_month y m = days_before_month y (Suc m) - days_before_month y m"

definition parse_rfc3339_utc :: "string \<Rightarrow> go_time option" where
  "parse_rfc3339_utc s0 = do {
     (year, s1) \<leftarrow> year_part s0;
     s2 \<leftarrow> literal (CHR ''-'') s1;
     (month, s3) \<leftarrow> getnum True s2;
     s4 \<leftarrow> literal (CHR ''-'') s3;
     (day, s5) \<leftarrow> getnum True s4;
     s6 \<leftarrow> literal (CHR ''T'') s5;
     (hour, s7) \<leftarrow> getnum False s6;
     s8 \<leftarrow> literal (CHR '':'') s7;
     (minute, s9) \<leftarrow> getnum True s8;
     s10 \<leftarrow> literal (CHR '':'') s9;
     (second, s11) \<leftarrow> getnum True s10;
     let (nsec, s12) = fraction_part s11;
     s13 \<leftarrow> literal (CHR ''Z'') s12;
     if s13 \<noteq> [] \<or> month < 1 \<or> 12 < month \<or> 24 \<le> hour \<or> 60 \<le> minute \<or> 60 \<le> second \<or> day < 1 \<or> days_in_month (int year) month < int day
     then None
     else Some \<lparr>t_nanos = day_of_civil (int year, month, int day) * nanos_per_day +
            int ((hour * 60 + minute) * 60 + second) * nanos_per_second + int nsec, t_loc = UTC\<rparr>
   }"

definition parse_utc :: "string \<Rightarrow> go_time option" where
  "parse_utc s = (case parse_rfc3339_utc s of None \<Rightarrow> None | Some t \<Rightarrow> if format_rfc3339nano t = s then Some t else None)"

lemma parse_rfc3339_utc_UTC: "parse_rfc3339_utc s = Some t \<Longrightarrow> t_loc t = UTC"
  by (auto simp: parse_rfc3339_utc_def Let_def split: prod.splits if_splits Option.bind_splits)

lemma parse_utc_Some: "parse_utc s = Some t \<Longrightarrow> format_rfc3339nano t = s \<and> t_loc t = UTC"
  by (auto simp: parse_utc_def split: option.splits if_splits dest: parse_rfc3339_utc_UTC)

lemma trim_zeros_pad: "\<exists>k. trim_zeros s @ replicate k (CHR ''0'') = s"
proof -
  have "rev s = takeWhile (\<lambda>c. c = CHR ''0'') (rev s) @ dropWhile (\<lambda>c. c = CHR ''0'') (rev s)" by simp
  then have "s = trim_zeros s @ rev (takeWhile (\<lambda>c. c = CHR ''0'') (rev s))"
    unfolding trim_zeros_def by (metis rev_append rev_rev_ident)
  moreover have "rev (takeWhile (\<lambda>c. c = CHR ''0'') (rev s)) = replicate (length (takeWhile (\<lambda>c. c = CHR ''0'') (rev s))) (CHR ''0'')"
    by (rule replicate_eqI) (auto dest: set_takeWhileD)
  ultimately show ?thesis by metis
qed

lemma fraction_value_text:
  assumes "0 \<le> n" "n < 1000000000"
  shows "int (fraction_value (trim_zeros (fixed_digits 9 (nat n)))) = n"
proof -
  obtain k where k: "trim_zeros (fixed_digits 9 (nat n)) @ replicate k (CHR ''0'') = fixed_digits 9 (nat n)" using trim_zeros_pad by blast
  have len: "length (trim_zeros (fixed_digits 9 (nat n))) + k = 9" using arg_cong [OF k, of length] by simp
  then have "replicate 9 (CHR ''0'') = replicate k (CHR ''0'') @ replicate (9 - k) (CHR ''0'')" by (metis le_add2 replicate_add le_add_diff_inverse)
  then have "take 9 (trim_zeros (fixed_digits 9 (nat n)) @ replicate 9 (CHR ''0'')) = fixed_digits 9 (nat n)"
    using k by (metis append.assoc append_eq_conv_conj length_fixed_digits)
  then show ?thesis using assms by (simp add: fraction_value_def digits_value_fixed)
qed

lemma two_digits:
  assumes "n < 100"
  shows "fixed_digits 2 n = [digit_char (n div 10), digit_char (n mod 10)]" "is_digit (digit_char (n div 10))" "is_digit (digit_char (n mod 10))"
  using assms by (simp_all add: numeral_2_eq_2 is_digit_digit_char)

lemma getnum_fixed: "n < 100 \<Longrightarrow> getnum fixed (fixed_digits 2 n @ r) = Some (n, r)"
  using digits_value_fixed [of 2 n] by (simp add: getnum_def two_digits)

lemma getnum_time: "0 \<le> a \<Longrightarrow> a < 100 \<Longrightarrow> getnum fixed (fixed_digits 2 (nat a) @ r) = Some (nat a, r)"
  by (simp add: getnum_fixed nat_less_iff)

lemma year_part_fixed: "0 \<le> y \<Longrightarrow> y \<le> 9999 \<Longrightarrow> year_part (year_text y @ r) = Some (nat y, r)"
  using fixed_digits_digits [of 4 "nat y"] digits_value_fixed [of 4 "nat y"] by (simp add: year_part_def year_text_def Let_def nat_less_iff)

lemma trim_zeros_digits: "list_all is_digit s \<Longrightarrow> list_all is_digit (trim_zeros s)"
  using trim_zeros_pad [of s] by (metis list_all_append)

lemma fraction_part_text:
  assumes "0 \<le> n" "n < 1000000000"
  shows "fraction_part (fraction_text n @ CHR ''Z'' # r) = (nat n, CHR ''Z'' # r)"
proof (cases "n = 0")
  case True
  have "\<not> is_digit (CHR ''Z'')" by (simp add: char_class_defs)
  with True show ?thesis by (cases r) (simp_all add: fraction_text_def fraction_part_def)
next
  case False
  let ?s = "trim_zeros (fixed_digits 9 (nat n))"
  have digits: "list_all is_digit ?s" by (rule trim_zeros_digits [OF fixed_digits_digits])
  have val: "int (fraction_value ?s) = n" by (rule fraction_value_text [OF assms])
  have "fraction_value [] = 0" by (simp add: fraction_value_def digits_value_def eval_nat_numeral)
  then have "?s \<noteq> []" using val False by auto
  then obtain d q where s: "?s = d # q" by (cases ?s) auto
  have z: "\<not> is_digit (CHR ''Z'')" by (simp add: char_class_defs)
  have "takeWhile is_digit (?s @ CHR ''Z'' # r) = ?s" "dropWhile is_digit (?s @ CHR ''Z'' # r) = CHR ''Z'' # r"
    using digits z by (simp_all add: list_all_iff takeWhile_append2 dropWhile_append2)
  moreover have "is_digit d" using digits s by simp
  ultimately show ?thesis using val False s by (simp add: fraction_text_def fraction_part_def)
qed

lemma read_fields:
  assumes "0 \<le> y" "y \<le> 9999" "1 \<le> m" "m \<le> 12" "1 \<le> dd" "dd \<le> days_in_month y m" "dd < 100" "0 \<le> h" "h < 24" "0 \<le> mi" "mi < 60"
    "0 \<le> se" "se < 60" "0 \<le> n" "n < 1000000000"
  shows "parse_rfc3339_utc (year_text y @ CHR ''-'' # fixed_digits 2 m @ CHR ''-'' # fixed_digits 2 (nat dd) @ CHR ''T'' #
      fixed_digits 2 (nat h) @ CHR '':'' # fixed_digits 2 (nat mi) @ CHR '':'' # fixed_digits 2 (nat se) @ fraction_text n @ ''Z'') =
    Some \<lparr>t_nanos = day_of_civil (y, m, dd) * nanos_per_day + ((h * 60 + mi) * 60 + se) * nanos_per_second + n, t_loc = UTC\<rparr>"
  using assms
  by (simp add: parse_rfc3339_utc_def literal_def year_part_fixed getnum_fixed getnum_time fraction_part_text not_le nat_less_iff)

lemma civil_day_in_month: "civil_of_day d = (y, m, dd) \<Longrightarrow> dd \<le> days_in_month y m"
  using civil_of_day_ranges(7) [of d y m dd] day_of_civil_of_day [of d] by (simp add: days_in_month_def day_of_civil_def)

lemma parse_rfc3339_format:
  assumes "0 \<le> time_Year (time_UTC t)" and "time_Year (time_UTC t) \<le> 9999"
  shows "parse_rfc3339_utc (format_rfc3339nano t) = Some \<lparr>t_nanos = t_nanos t, t_loc = UTC\<rparr>"
proof -
  define n d s where "n = t_nanos t" and "d = n div nanos_per_day" and "s = n div nanos_per_second mod 86400"
  obtain y m dd where civ: "civil_of_day d = (y, m, dd)" by (cases "civil_of_day d")
  note r = civil_of_day_ranges [OF civ]
  have y: "0 \<le> y" "y \<le> 9999" using assms r(1) by (simp_all add: time_Year_def time_UTC_def d_def n_def)
  have s: "0 \<le> s" "s < 86400" by (simp_all add: s_def)
  have h: "0 \<le> s div 3600" "s div 3600 < 24" using s by (simp_all add: pos_imp_zdiv_nonneg_iff)
  have ms: "0 \<le> s div 60 mod 60" "s div 60 mod 60 < 60" "0 \<le> s mod 60" "s mod 60 < 60" by simp_all
  have ns: "0 \<le> n mod nanos_per_second" "n mod nanos_per_second < 1000000000" by (simp_all add: nanos_per_second_def)
  have md: "dd < 100" using r by simp
  have "format_rfc3339nano t = year_text y @ CHR ''-'' # fixed_digits 2 m @ CHR ''-'' # fixed_digits 2 (nat dd) @ CHR ''T'' #
      fixed_digits 2 (nat (s div 3600)) @ CHR '':'' # fixed_digits 2 (nat (s div 60 mod 60)) @ CHR '':'' # fixed_digits 2 (nat (s mod 60)) @
      fraction_text (n mod nanos_per_second) @ ''Z''"
    using civ unfolding format_rfc3339nano_def Let_def d_def s_def n_def by simp
  then have "parse_rfc3339_utc (format_rfc3339nano t) = Some \<lparr>t_nanos = day_of_civil (civil_of_day d) * nanos_per_day +
      ((s div 3600 * 60 + s div 60 mod 60) * 60 + s mod 60) * nanos_per_second + n mod nanos_per_second, t_loc = UTC\<rparr>"
    using read_fields [OF y r(2-4) civil_day_in_month [OF civ] md h ms ns] civ by simp
  also have "(s div 3600 * 60 + s div 60 mod 60) * 60 + s mod 60 = s"
  proof -
    have "(a * 60 + b) * 60 + c = a * 3600 + b * 60 + c" for a b c :: int by simp
    then show ?thesis using clock_split [of s] by metis
  qed
  also have "day_of_civil (civil_of_day d) * nanos_per_day + s * nanos_per_second + n mod nanos_per_second =
      (d * 86400 + s) * nanos_per_second + n mod nanos_per_second"
    by (simp add: nanos_per_day_def nanos_per_second_def)
  also have "\<dots> = n" using day_second_split(2) [of n] by (simp add: d_def s_def)
  finally show ?thesis by (simp add: n_def)
qed

lemma parse_utc_format:
  assumes "0 \<le> time_Year (time_UTC t)" and "time_Year (time_UTC t) \<le> 9999"
  shows "parse_utc (format_rfc3339nano t) = Some (time_UTC t)"
proof -
  have "\<lparr>t_nanos = t_nanos t, t_loc = UTC\<rparr> = time_UTC t" by (cases t) (simp add: time_UTC_def)
  moreover have "format_rfc3339nano (time_UTC t) = format_rfc3339nano t" by (simp add: format_rfc3339nano_def time_UTC_def)
  ultimately show ?thesis using parse_rfc3339_format [OF assms] by (simp add: parse_utc_def)
qed

end
