(* ===== verification/JsonWire.thy ===== *)
theory JsonWire
  imports JsonRoundtrip Base64 "HOL-Library.Finite_Map"
begin

section \<open>Raw messages, maps and byte slices\<close>

text \<open>
  The parts of \<open>encoding/json\<close> the audit export adds to those of \<open>JsonParse\<close>: strict decoding of a whole input, maps, byte
  slices, and how \<open>json.Marshal\<close> writes a \<open>json.RawMessage\<close>: without the white space between tokens and with the characters
  escaped that it escapes in strings. A marshalled value without special characters is unchanged by that, and a
  struct is decoded from its own encoding field by field.
\<close>

subsection \<open>Decoding\<close>

text \<open>\<open>Decode\<close> with \<open>DisallowUnknownFields\<close>, and a second \<open>Decode\<close> that must find the end of the input.\<close>

definition decodeStrictJSON :: "'a decoder \<Rightarrow> 'a \<Rightarrow> bytes \<Rightarrow> 'a option" where
  "decodeStrictJSON dec zero encoded =
     (case read_value encoded of
        None \<Rightarrow> None
      | Some (v, rest) \<Rightarrow>
          case dec (consumed (skip_space encoded) rest, v) zero of
            None \<Rightarrow> None
          | Some x \<Rightarrow> if skip_space rest = [] then Some x else None)"

text \<open>A map: null gives nil, an object adds its members to what is there.\<close>

fun decode_entries :: "'b decoder \<Rightarrow> 'b \<Rightarrow> (bytes \<times> bytes \<times> jvalue) list \<Rightarrow> (bytes, 'b) fmap \<Rightarrow> (bytes, 'b) fmap option" where
  "decode_entries dec zero [] m = Some m"
| "decode_entries dec zero ((k, v) # ms) m =
     (case dec v zero of None \<Rightarrow> None | Some y \<Rightarrow> decode_entries dec zero ms (fmupd k y m))"

definition decode_map :: "'b decoder \<Rightarrow> 'b \<Rightarrow> (bytes, 'b) fmap option decoder" where
  "decode_map dec zero = (\<lambda>(_, v) x.
     case v of
       VNull \<Rightarrow> Some None
     | VObject ms \<Rightarrow> map_option Some (decode_entries dec zero ms (case x of None \<Rightarrow> fmempty | Some m \<Rightarrow> m))
     | _ \<Rightarrow> None)"

definition decode_bytes :: "char slice decoder" where
  "decode_bytes = (\<lambda>(_, v) x.
     case v of VString s \<Rightarrow> map_option Some (b64std_decode s) | VNull \<Rightarrow> Some None | _ \<Rightarrow> None)"

subsection \<open>Encoding\<close>

definition object_text :: "(string \<times> bytes) list \<Rightarrow> bytes" where
  "object_text fs = CHR ''{'' # commas (map (\<lambda>f. json_string (fst f) @ CHR '':'' # snd f) fs) @ ''}''"

definition array_text :: "bytes list \<Rightarrow> bytes" where
  "array_text xs = CHR ''['' # commas xs @ '']''"

lemma marshal_texts:
  "marshal (JObject fs) = object_text (map (\<lambda>f. (fst f, marshal (snd f))) fs)" "marshal (JArray xs) = array_text (map marshal xs)"
  by (simp_all add: object_text_def array_text_def comp_def)

text \<open>The first argument says whether the position is inside a string.\<close>

function compact :: "bool \<Rightarrow> bytes \<Rightarrow> bytes" where
  "compact q [] = []"
| "compact False (c # s) = (if is_json_space c then compact False s else c # compact (c = CHR 0x22) s)"
| "compact True (c # s) =
     (if c = CHR 0x22 then c # compact False s
      else if c = CHR 0x5C then (case s of [] \<Rightarrow> [c] | d # r \<Rightarrow> c # d # compact True r)
      else if c = CHR ''<'' \<or> c = CHR ''>'' \<or> c = CHR ''&'' then json_ascii c @ compact True s
      else if take 3 (c # s) = [CHR 0xE2, CHR 0x80, CHR 0xA8] then CHR 0x5C # ''u2028'' @ compact True (drop 2 s)
      else if take 3 (c # s) = [CHR 0xE2, CHR 0x80, CHR 0xA9] then CHR 0x5C # ''u2029'' @ compact True (drop 2 s)
      else c # compact True s)"
  by pat_completeness auto
termination
  by (relation "measure (\<lambda>(q, s). length s)") (auto split: list.splits)

definition raw_text :: "bytes option \<Rightarrow> bytes" where
  "raw_text raw = (case raw of None \<Rightarrow> ''null'' | Some b \<Rightarrow> compact False b)"

subsection \<open>Compacting an encoding\<close>

lemma compact_string: "json_plain s \<Longrightarrow> compact True (s @ CHR 0x22 # r) = s @ CHR 0x22 # compact False r"
proof (induction s)
  case (Cons c s)
  then have p: "json_plain_char c" by simp
  then have "c \<noteq> CHR 0x22" "c \<noteq> CHR 0x5C" "c \<noteq> CHR ''<''" "c \<noteq> CHR ''>''" "c \<noteq> CHR ''&''" unfolding json_plain_char_def by blast+
  moreover have "c \<noteq> CHR 0xE2" using p by auto
  ultimately show ?case using Cons by simp
qed simp

lemma compact_json_string: "json_plain s \<Longrightarrow> compact False (json_string s @ r) = json_string s @ compact False r"
  by (simp add: json_string_plain compact_string is_json_space_def)

lemma compact_token:
  "list_all (\<lambda>c. \<not> is_json_space c \<and> c \<noteq> CHR 0x22) t \<Longrightarrow> compact False (t @ r) = t @ compact False r"
  by (induction t) simp_all

lemma digits_token: "list_all is_digit s \<Longrightarrow> list_all (\<lambda>c. \<not> is_json_space c \<and> c \<noteq> CHR 0x22) s"
  by (induction s) (auto simp: is_json_space_def char_class_defs)

lemma int_token: "list_all (\<lambda>c. \<not> is_json_space c \<and> c \<noteq> CHR 0x22) (int_digits i)"
  using digits_token [OF nat_digits_digits] by (simp add: int_digits_def is_json_space_def)

lemma compact_commas:
  assumes "\<And>x r. x \<in> set xs \<Longrightarrow> compact False (x @ r) = x @ compact False r"
  shows "compact False (commas xs @ r) = commas xs @ compact False r"
  using assms by (induction xs rule: commas.induct) (simp_all add: is_json_space_def)

lemma compact_marshal: "all_plain j \<Longrightarrow> compact False (marshal j @ r) = marshal j @ compact False r"
proof (induction j arbitrary: r rule: marshal.induct)
  case (5 xs)
  have "compact False (commas (map marshal xs) @ q) = commas (map marshal xs) @ compact False q" for q
    by (rule compact_commas) (use 5 in \<open>auto simp: list_all_iff\<close>)
  then show ?case by (simp add: is_json_space_def)
next
  case (6 fs)
  have "compact False (json_string (fst f) @ CHR '':'' # marshal (snd f) @ q) = json_string (fst f) @ CHR '':'' # marshal (snd f) @ compact False q"
    if "f \<in> set fs" for f q
    using that 6 by (auto simp: list_all_iff compact_json_string is_json_space_def)
  then have "compact False (commas (map (\<lambda>f. json_string (fst f) @ CHR '':'' # marshal (snd f)) fs) @ q) =
      commas (map (\<lambda>f. json_string (fst f) @ CHR '':'' # marshal (snd f)) fs) @ compact False q" for q
    by (intro compact_commas) auto
  then show ?case by (simp add: is_json_space_def)
next
  case (3 i)
  show ?case using compact_token [OF int_token] by simp
qed (simp_all add: compact_json_string is_json_space_def)

lemma raw_text_marshal: "all_plain j \<Longrightarrow> raw_text (Some (marshal j)) = marshal j"
  using compact_marshal [of j "[]"] by (simp add: raw_text_def)

subsection \<open>Decoding an encoding\<close>

lemma decodeStrictJSON_marshal:
  assumes "all_plain j" and "json_depth j \<le> maxNestingDepth"
  shows "decodeStrictJSON dec zero (marshal j) = dec (marshal j, value_of j) zero"
proof -
  have "skip_space (marshal j @ []) = marshal j @ []"
    by (rule reads_skip [of 0]) (rule reads_marshal, use assms all_plain_utf8 in simp_all)
  then have m: "skip_space (marshal j) = marshal j" by simp
  have "read_value (marshal j) = Some (value_of j, [])" using read_marshal [OF all_plain_utf8 [OF assms(1)] assms(2)] by simp
  moreover have "consumed (skip_space (marshal j)) [] = marshal j" using m by (simp add: consumed_def)
  ultimately show ?thesis by (simp add: decodeStrictJSON_def skip_space_def split: option.splits)
qed

text \<open>Members that stand in the order of the fields are decoded one after the other.\<close>

fun decode_each :: "'a decoder list \<Rightarrow> (bytes \<times> jvalue) list \<Rightarrow> 'a \<Rightarrow> 'a option" where
  "decode_each (f # fs) (v # vs) x = (case f v x of None \<Rightarrow> None | Some y \<Rightarrow> decode_each fs vs y)"
| "decode_each _ _ x = Some x"

lemma decode_members_suffix:
  assumes "distinct (map fst (gs @ fs))" and "map fst ms = map fst fs"
  shows "decode_members strict (gs @ fs) ms x = decode_each (map snd fs) (map snd ms) x"
  using assms
proof (induction fs arbitrary: gs ms x)
  case (Cons f fs)
  obtain m ms' where ms: "ms = m # ms'" using Cons.prems(2) by (cases ms) auto
  obtain k v where m: "m = (k, v)" by (cases m)
  have k: "fst f = k" using Cons.prems(2) ms m by simp
  have "k \<notin> set (map fst gs)" using Cons.prems(1) k by auto
  then have "map_of gs k = None" by (simp add: map_of_eq_None_iff)
  then have "map_of (gs @ f # fs) k = Some (snd f)" using k by (cases f) (simp add: map_add_def map_of_append)
  then have "find_field k (gs @ f # fs) = Some (snd f)" by (simp add: find_field_def)
  moreover have "decode_members strict (gs @ f # fs) ms' y = decode_each (map snd fs) (map snd ms') y" for y
    using Cons.IH [of "gs @ [f]" ms' y] Cons.prems ms by simp
  ultimately show ?case by (simp add: ms m split: option.splits)
qed simp

lemma decode_struct_in_order:
  assumes "distinct (map fst fields)" and "map fst js = map fst fields"
  shows "decode_struct strict fields (t, value_of (JObject js)) x =
    decode_each (map snd fields) (map (\<lambda>f. (marshal (snd f), value_of (snd f))) js) x"
proof -
  have "map fst (map (\<lambda>f. (fst f, marshal (snd f), value_of (snd f))) js) = map fst fields" using assms(2) by (simp add: comp_def)
  from decode_members_suffix [of "[]", OF _ this, of strict x] assms(1) show ?thesis by (simp add: decode_struct_def comp_def)
qed

lemma decode_string_list [simp]:
  "decode_slice decode_string [] (t, value_of (JArray (map JString xs))) ([], n) = Some (xs, length xs)"
proof -
  have cells: "decode_cells decode_string [] (map (\<lambda>x. (json_string x, VString x)) xs) [] = Some xs"
    by (induction xs) (simp_all add: decode_string_def)
  show ?thesis
  proof (cases xs)
    case (Cons a as)
    then show ?thesis using cells unfolding decode_slice_def by (simp add: comp_def del: decode_cells.simps)
  qed (simp add: decode_slice_def)
qed

lemma decode_scalars [simp]:
  "decode_string (t, value_of (JString s)) x = Some s"
  "decode_int64 (t, value_of (JInt (sint n))) y = Some n"
  by (simp_all add: decode_string_def decode_int64_def parse_int64_digits)

lemma decode_byte_string [simp]: "decode_bytes (t, value_of (JString (b64std_encode b))) x = Some (Some b)"
  by (simp add: decode_bytes_def b64std_decode_encode)

lemma decode_int_map:
  assumes "distinct (map fst kvs)"
  shows "decode_map decode_int64 0 (t, value_of (JObject (map (\<lambda>kv. (fst kv, JInt (sint (snd kv)))) kvs))) None = Some (Some (fmap_of_list kvs))"
proof -
  have "decode_entries decode_int64 0 (map (\<lambda>kv. (fst kv, int_digits (sint (snd kv)), VNum (int_digits (sint (snd kv))))) kvs) m = Some (m ++\<^sub>f fmap_of_list kvs)"
    for m using assms
  proof (induction kvs arbitrary: m)
    case (Cons kv kvs)
    have "map_of kvs (fst kv) = None" using Cons.prems by (simp add: map_of_eq_None_iff)
    then have "fmupd (fst kv) (snd kv) m ++\<^sub>f fmap_of_list kvs = m ++\<^sub>f fmap_of_list (kv # kvs)"
      by (cases kv) (intro fmap_ext, auto simp: fmlookup_of_list fmlookup_dom_iff fset_of_list.rep_eq map_of_eq_None_iff)
    then show ?case using Cons by (simp add: decode_int64_def parse_int64_digits)
  qed simp
  from this [of fmempty] show ?thesis by (simp add: decode_map_def comp_def)
qed

end
