(* ===== verification/AuditExport.thy ===== *)
theory AuditExport
  imports AuditSigner TimeText JsonWire
begin

section \<open>Audit export\<close>

text \<open>
  \<open>internal/audit/export.go\<close>: the wire structures, \<open>MarshalExport\<close>, \<open>VerifyExport\<close> and the readers of events and checkpoints.
  Events travel as raw messages inside the envelope, and the verifier decodes the envelope, encodes it again and compares, decodes
  every event, encodes it again and compares, checks the chain, the signature of the checkpoint and that both end at the same
  record.
\<close>

datatype export_error = ErrInvalidExport | Export_checkpoint checkpoint_error | VerificationError int64

subsection \<open>Wire structures\<close>

record canonicalEvent =
  ce_SchemaVersion :: int64
  ce_EventID :: string
  ce_RunID :: string
  ce_EventType :: string
  ce_OccurredAt :: string
  ce_PrincipalID :: string
  ce_AuthMethod :: string
  ce_OIDCIssuerHash :: "string option"
  ce_PolicyVersionHash :: string
  ce_Decision :: string
  ce_DecisionReasonCodes :: "string cells"
  ce_RequestedModel :: string
  ce_ResolvedBackend :: string
  ce_ContentHMACKeyID :: string
  ce_RequestHMAC :: string
  ce_ResponseHMAC :: "string option"
  ce_RequestBytes :: int64
  ce_ResponseBytes :: "int64 option"
  ce_PIICategories :: "string cells"
  ce_PIIMatchCounts :: "(string, int64) fmap option"
  ce_HealthIndicatorCategories :: "string cells"
  ce_SecretCategories :: "string cells"
  ce_DetectorBundleHash :: string
  ce_InputTokens :: "int64 option"
  ce_OutputTokens :: "int64 option"
  ce_ReservedCostMicros :: "int64 option"
  ce_ActualCostMicros :: "int64 option"
  ce_Status :: string
  ce_ErrorCode :: "string option"
  ce_PreviousEventHash :: string
  ce_SoftwareVersion :: string
  ce_ConfigHash :: string

record exportRecord =
  xr_Sequence :: int64
  xr_Event :: "bytes option"
  xr_EventHash :: string

record checkpointRecord =
  wc_SchemaVersion :: int64
  wc_Sequence :: int64
  wc_ChainHeadHash :: string
  wc_SigningKeyID :: string
  wc_CreatedAt :: string
  wc_Signature :: "char slice"

record exportEnvelope =
  xe_SchemaVersion :: int64
  xe_Records :: "exportRecord cells"
  xe_Checkpoint :: checkpointRecord

definition zero_event :: canonicalEvent where
  "zero_event = \<lparr>ce_SchemaVersion = 0, ce_EventID = [], ce_RunID = [], ce_EventType = [], ce_OccurredAt = [], ce_PrincipalID = [],
     ce_AuthMethod = [], ce_OIDCIssuerHash = None, ce_PolicyVersionHash = [], ce_Decision = [], ce_DecisionReasonCodes = ([], 0),
     ce_RequestedModel = [], ce_ResolvedBackend = [], ce_ContentHMACKeyID = [], ce_RequestHMAC = [], ce_ResponseHMAC = None,
     ce_RequestBytes = 0, ce_ResponseBytes = None, ce_PIICategories = ([], 0), ce_PIIMatchCounts = None,
     ce_HealthIndicatorCategories = ([], 0), ce_SecretCategories = ([], 0), ce_DetectorBundleHash = [], ce_InputTokens = None,
     ce_OutputTokens = None, ce_ReservedCostMicros = None, ce_ActualCostMicros = None, ce_Status = [], ce_ErrorCode = None,
     ce_PreviousEventHash = [], ce_SoftwareVersion = [], ce_ConfigHash = []\<rparr>"

definition event_fields :: "(string \<times> canonicalEvent decoder) list" where
  "event_fields =
     [(''schema_version'', field decode_int64 ce_SchemaVersion (\<lambda>f. ce_SchemaVersion_update f)),
      (''event_id'', field decode_string ce_EventID (\<lambda>f. ce_EventID_update f)),
      (''run_id'', field decode_string ce_RunID (\<lambda>f. ce_RunID_update f)),
      (''event_type'', field decode_string ce_EventType (\<lambda>f. ce_EventType_update f)),
      (''occurred_at'', field decode_string ce_OccurredAt (\<lambda>f. ce_OccurredAt_update f)),
      (''principal_id'', field decode_string ce_PrincipalID (\<lambda>f. ce_PrincipalID_update f)),
      (''auth_method'', field decode_string ce_AuthMethod (\<lambda>f. ce_AuthMethod_update f)),
      (''oidc_issuer_hash'', field (decode_pointer decode_string []) ce_OIDCIssuerHash (\<lambda>f. ce_OIDCIssuerHash_update f)),
      (''policy_version_hash'', field decode_string ce_PolicyVersionHash (\<lambda>f. ce_PolicyVersionHash_update f)),
      (''decision'', field decode_string ce_Decision (\<lambda>f. ce_Decision_update f)),
      (''decision_reason_codes'', field (decode_slice decode_string []) ce_DecisionReasonCodes (\<lambda>f. ce_DecisionReasonCodes_update f)),
      (''requested_model'', field decode_string ce_RequestedModel (\<lambda>f. ce_RequestedModel_update f)),
      (''resolved_backend'', field decode_string ce_ResolvedBackend (\<lambda>f. ce_ResolvedBackend_update f)),
      (''content_hmac_key_id'', field decode_string ce_ContentHMACKeyID (\<lambda>f. ce_ContentHMACKeyID_update f)),
      (''request_hmac'', field decode_string ce_RequestHMAC (\<lambda>f. ce_RequestHMAC_update f)),
      (''response_hmac'', field (decode_pointer decode_string []) ce_ResponseHMAC (\<lambda>f. ce_ResponseHMAC_update f)),
      (''request_bytes'', field decode_int64 ce_RequestBytes (\<lambda>f. ce_RequestBytes_update f)),
      (''response_bytes'', field (decode_pointer decode_int64 0) ce_ResponseBytes (\<lambda>f. ce_ResponseBytes_update f)),
      (''pii_categories'', field (decode_slice decode_string []) ce_PIICategories (\<lambda>f. ce_PIICategories_update f)),
      (''pii_match_counts'', field (decode_map decode_int64 0) ce_PIIMatchCounts (\<lambda>f. ce_PIIMatchCounts_update f)),
      (''health_indicator_categories'', field (decode_slice decode_string []) ce_HealthIndicatorCategories (\<lambda>f. ce_HealthIndicatorCategories_update f)),
      (''secret_categories'', field (decode_slice decode_string []) ce_SecretCategories (\<lambda>f. ce_SecretCategories_update f)),
      (''detector_bundle_hash'', field decode_string ce_DetectorBundleHash (\<lambda>f. ce_DetectorBundleHash_update f)),
      (''input_tokens'', field (decode_pointer decode_int64 0) ce_InputTokens (\<lambda>f. ce_InputTokens_update f)),
      (''output_tokens'', field (decode_pointer decode_int64 0) ce_OutputTokens (\<lambda>f. ce_OutputTokens_update f)),
      (''reserved_cost_micros'', field (decode_pointer decode_int64 0) ce_ReservedCostMicros (\<lambda>f. ce_ReservedCostMicros_update f)),
      (''actual_cost_micros'', field (decode_pointer decode_int64 0) ce_ActualCostMicros (\<lambda>f. ce_ActualCostMicros_update f)),
      (''status'', field decode_string ce_Status (\<lambda>f. ce_Status_update f)),
      (''error_code'', field (decode_pointer decode_string []) ce_ErrorCode (\<lambda>f. ce_ErrorCode_update f)),
      (''previous_event_hash'', field decode_string ce_PreviousEventHash (\<lambda>f. ce_PreviousEventHash_update f)),
      (''software_version'', field decode_string ce_SoftwareVersion (\<lambda>f. ce_SoftwareVersion_update f)),
      (''config_hash'', field decode_string ce_ConfigHash (\<lambda>f. ce_ConfigHash_update f))]"

definition zero_record :: exportRecord where
  "zero_record = \<lparr>xr_Sequence = 0, xr_Event = None, xr_EventHash = []\<rparr>"

definition record_fields :: "(string \<times> exportRecord decoder) list" where
  "record_fields =
     [(''sequence'', field decode_int64 xr_Sequence (\<lambda>f. xr_Sequence_update f)),
      (''event'', field decode_raw xr_Event (\<lambda>f. xr_Event_update f)),
      (''event_hash'', field decode_string xr_EventHash (\<lambda>f. xr_EventHash_update f))]"

definition zero_checkpoint :: checkpointRecord where
  "zero_checkpoint = \<lparr>wc_SchemaVersion = 0, wc_Sequence = 0, wc_ChainHeadHash = [], wc_SigningKeyID = [], wc_CreatedAt = [], wc_Signature = None\<rparr>"

definition checkpoint_fields :: "(string \<times> checkpointRecord decoder) list" where
  "checkpoint_fields =
     [(''schema_version'', field decode_int64 wc_SchemaVersion (\<lambda>f. wc_SchemaVersion_update f)),
      (''sequence'', field decode_int64 wc_Sequence (\<lambda>f. wc_Sequence_update f)),
      (''chain_head_hash'', field decode_string wc_ChainHeadHash (\<lambda>f. wc_ChainHeadHash_update f)),
      (''signing_key_id'', field decode_string wc_SigningKeyID (\<lambda>f. wc_SigningKeyID_update f)),
      (''created_at'', field decode_string wc_CreatedAt (\<lambda>f. wc_CreatedAt_update f)),
      (''signature'', field decode_bytes wc_Signature (\<lambda>f. wc_Signature_update f))]"

definition zero_envelope :: exportEnvelope where
  "zero_envelope = \<lparr>xe_SchemaVersion = 0, xe_Records = ([], 0), xe_Checkpoint = zero_checkpoint\<rparr>"

definition envelope_fields :: "(string \<times> exportEnvelope decoder) list" where
  "envelope_fields =
     [(''schema_version'', field decode_int64 xe_SchemaVersion (\<lambda>f. xe_SchemaVersion_update f)),
      (''records'', field (decode_slice (decode_struct True record_fields) zero_record) xe_Records (\<lambda>f. xe_Records_update f)),
      (''checkpoint'', field (decode_struct True checkpoint_fields) xe_Checkpoint (\<lambda>f. xe_Checkpoint_update f))]"

text \<open>How \<open>json.Marshal\<close> writes the envelope.\<close>

definition record_text :: "exportRecord \<Rightarrow> bytes" where
  "record_text r = object_text
     [(''sequence'', int_digits (sint (xr_Sequence r))), (''event'', raw_text (xr_Event r)), (''event_hash'', json_string (xr_EventHash r))]"

definition checkpoint_text :: "checkpointRecord \<Rightarrow> bytes" where
  "checkpoint_text c = object_text
     [(''schema_version'', int_digits (sint (wc_SchemaVersion c))), (''sequence'', int_digits (sint (wc_Sequence c))),
      (''chain_head_hash'', json_string (wc_ChainHeadHash c)), (''signing_key_id'', json_string (wc_SigningKeyID c)),
      (''created_at'', json_string (wc_CreatedAt c)),
      (''signature'', case wc_Signature c of None \<Rightarrow> ''null'' | Some b \<Rightarrow> json_string (b64std_encode b))]"

definition envelope_text :: "exportEnvelope \<Rightarrow> bytes" where
  "envelope_text e = object_text
     [(''schema_version'', int_digits (sint (xe_SchemaVersion e))),
      (''records'', array_text (map record_text (shown (xe_Records e)))),
      (''checkpoint'', checkpoint_text (xe_Checkpoint e))]"

subsection \<open>Writing\<close>

text \<open>\<open>append([]byte(nil), b...)\<close>: nil when there is nothing to append.\<close>

definition append_nil :: "'a list \<Rightarrow> 'a slice" where
  "append_nil b = (if b = [] then None else Some b)"

definition checkpointToWire :: "Checkpoint \<Rightarrow> checkpointRecord" where
  "checkpointToWire c = \<lparr>wc_SchemaVersion = cp_SchemaVersion c, wc_Sequence = cp_Sequence c,
     wc_ChainHeadHash = digest_String (cp_ChainHeadHash c), wc_SigningKeyID = cp_SigningKeyID c,
     wc_CreatedAt = format_rfc3339nano (cp_CreatedAt c), wc_Signature = append_nil (cp_Signature c)\<rparr>"

text \<open>The loop over the records: the first event that has no canonical form ends it.\<close>

fun wire_records :: "Record list \<Rightarrow> exportRecord list option" where
  "wire_records [] = Some []"
| "wire_records (r # rs) =
     (case Canonical (rec_Event r) of
        Inl _ \<Rightarrow> None
      | Inr canonical \<Rightarrow>
          map_option (\<lambda>ws. \<lparr>xr_Sequence = rec_Sequence r, xr_Event = Some canonical, xr_EventHash = digest_String (rec_EventHash r)\<rparr> # ws)
            (wire_records rs))"

definition MarshalExport :: "(bytes \<Rightarrow> digest) \<Rightarrow> Record list \<Rightarrow> Checkpoint \<Rightarrow> export_error + bytes" where
  "MarshalExport sha256 records checkpoint =
     (if length records = 0 \<or> VerifyChain sha256 records \<noteq> None then Inl ErrInvalidExport
      else let lst = last records in
        if cp_Sequence checkpoint \<noteq> rec_Sequence lst \<or> cp_ChainHeadHash checkpoint \<noteq> rec_EventHash lst \<or> length (cp_Signature checkpoint) \<noteq> 64
        then Inl ErrInvalidExport
        else case canonicalCheckpointPayload checkpoint of
            Inl _ \<Rightarrow> Inl ErrInvalidExport
          | Inr _ \<Rightarrow>
              case wire_records records of
                None \<Rightarrow> Inl ErrInvalidExport
              | Some ws \<Rightarrow> Inr (envelope_text \<lparr>xe_SchemaVersion = 1, xe_Records = (ws, length ws), xe_Checkpoint = checkpointToWire checkpoint\<rparr>))"

subsection \<open>Reading\<close>

definition checkpointFromWire :: "checkpointRecord \<Rightarrow> Checkpoint option" where
  "checkpointFromWire wire =
     (case digestFromHex (wc_ChainHeadHash wire) of
        None \<Rightarrow> None
      | Some h \<Rightarrow>
          case parse_utc (wc_CreatedAt wire) of
            None \<Rightarrow> None
          | Some createdAt \<Rightarrow>
              let checkpoint = \<lparr>cp_SchemaVersion = wc_SchemaVersion wire, cp_Sequence = wc_Sequence wire, cp_ChainHeadHash = h,
                    cp_SigningKeyID = wc_SigningKeyID wire, cp_CreatedAt = createdAt, cp_Signature = slice_list (wc_Signature wire)\<rparr> in
              case canonicalCheckpointPayload checkpoint of Inl _ \<Rightarrow> None | Inr _ \<Rightarrow> Some checkpoint)"

text \<open>A pointer to a digest text: nil stays nil, anything else must be a digest.\<close>

definition decodeOptionalDigest :: "string option \<Rightarrow> digest option option" where
  "decodeOptionalDigest v = (case v of None \<Rightarrow> Some None | Some s \<Rightarrow> map_option Some (digestFromHex s))"

definition event_of_wire :: "canonicalEvent \<Rightarrow> Event option" where
  "event_of_wire wire =
     (case (parse_utc (ce_OccurredAt wire), digestFromHex (ce_PolicyVersionHash wire), digestFromHex (ce_RequestHMAC wire),
        digestFromHex (ce_DetectorBundleHash wire), digestFromHex (ce_PreviousEventHash wire), digestFromHex (ce_ConfigHash wire),
        decodeOptionalDigest (ce_OIDCIssuerHash wire), decodeOptionalDigest (ce_ResponseHMAC wire)) of
        (Some occurredAt, Some policyHash, Some requestHMAC, Some detectorHash, Some previousHash, Some configHash, Some issuerHash,
         Some responseHMAC) \<Rightarrow>
          Some \<lparr>SchemaVersion = ce_SchemaVersion wire, EventID = ce_EventID wire, RunID = ce_RunID wire, EventType = ce_EventType wire,
     OccurredAt = occurredAt, PrincipalID = ce_PrincipalID wire, AuthMethod = ce_AuthMethod wire, OIDCIssuerHash = issuerHash,
     PolicyVersionHash = policyHash, Decision = ce_Decision wire, DecisionReasonCodes = Some (shown (ce_DecisionReasonCodes wire)),
     RequestedModel = ce_RequestedModel wire, ResolvedBackend = ce_ResolvedBackend wire,
     ContentHMACKeyID = ce_ContentHMACKeyID wire, RequestHMAC = requestHMAC, ResponseHMAC = responseHMAC,
     RequestBytes = ce_RequestBytes wire, ResponseBytes = ce_ResponseBytes wire, PIICategories = Some (shown (ce_PIICategories wire)),
     PIIMatchCounts = Some (map_entries (ce_PIIMatchCounts wire)),
     HealthIndicatorCategories = Some (shown (ce_HealthIndicatorCategories wire)), SecretCategories = Some (shown (ce_SecretCategories wire)),
     DetectorBundleHash = detectorHash, InputTokens = ce_InputTokens wire, OutputTokens = ce_OutputTokens wire,
     ReservedCostMicros = ce_ReservedCostMicros wire, event_ActualCostMicros = ce_ActualCostMicros wire,
     event_Status = ce_Status wire, ErrorCode = ce_ErrorCode wire, PreviousEventHash = previousHash,
     SoftwareVersion = ce_SoftwareVersion wire, ConfigHash = configHash\<rparr>
      | _ \<Rightarrow> None)"

definition eventFromCanonicalJSON :: "bytes \<Rightarrow> Event option" where
  "eventFromCanonicalJSON encoded =
     (case decodeStrictJSON (decode_struct True event_fields) zero_event encoded of
        None \<Rightarrow> None
      | Some wire \<Rightarrow>
          case event_of_wire wire of
            None \<Rightarrow> None
          | Some event \<Rightarrow>
              if \<not> event_Validate event then None
              else case Canonical event of
                  Inl _ \<Rightarrow> None
                | Inr canonical \<Rightarrow> if canonical \<noteq> encoded then None else Some event)"

text \<open>The loop of \<open>VerifyExport\<close> with the expected sequence number.\<close>

fun read_records :: "int64 \<Rightarrow> exportRecord list \<Rightarrow> export_error + Record list" where
  "read_records expectedSequence [] = Inr []"
| "read_records expectedSequence (w # ws) =
     (if xr_Sequence w \<noteq> expectedSequence then
        Inl (VerificationError (if 0 <s xr_Sequence w \<and> xr_Sequence w <s expectedSequence then xr_Sequence w else expectedSequence))
      else case eventFromCanonicalJSON (case xr_Event w of None \<Rightarrow> [] | Some b \<Rightarrow> b) of
          None \<Rightarrow> Inl (VerificationError (xr_Sequence w))
        | Some event \<Rightarrow>
            case digestFromHex (xr_EventHash w) of
              None \<Rightarrow> Inl (VerificationError (xr_Sequence w))
            | Some eventHash \<Rightarrow>
                case read_records (expectedSequence + 1) ws of
                  Inl err \<Rightarrow> Inl err
                | Inr records \<Rightarrow> Inr (\<lparr>rec_Sequence = xr_Sequence w, rec_Event = event, rec_EventHash = eventHash\<rparr> # records))"

definition VerifyExport :: "(bytes \<Rightarrow> digest) \<Rightarrow> (bytes \<Rightarrow> bytes \<Rightarrow> bytes \<Rightarrow> bool) \<Rightarrow> bytes \<Rightarrow> CheckpointVerificationKey \<Rightarrow> export_error option" where
  "VerifyExport sha256 ed_verify encoded verificationKey =
     (case decodeStrictJSON (decode_struct True envelope_fields) zero_envelope encoded of
        None \<Rightarrow> Some ErrInvalidExport
      | Some wire \<Rightarrow>
          if xe_SchemaVersion wire \<noteq> 1 \<or> length (shown (xe_Records wire)) = 0 then Some ErrInvalidExport
          else if envelope_text wire \<noteq> encoded then Some ErrInvalidExport
          else case checkpointFromWire (xe_Checkpoint wire) of
              None \<Rightarrow> Some ErrInvalidExport
            | Some checkpoint \<Rightarrow>
                if VerifyCheckpoint ed_verify checkpoint verificationKey \<noteq> None then Some (Export_checkpoint ErrCheckpointVerification)
                else case read_records 1 (shown (xe_Records wire)) of
                    Inl err \<Rightarrow> Some err
                  | Inr records \<Rightarrow>
                      case VerifyChain sha256 records of
                        Some s \<Rightarrow> Some (VerificationError s)
                      | None \<Rightarrow>
                          let lst = last records in
                          if cp_Sequence checkpoint \<noteq> rec_Sequence lst then
                            Some (VerificationError (if cp_Sequence checkpoint <s rec_Sequence lst then cp_Sequence checkpoint + 1 else cp_Sequence checkpoint))
                          else if cp_ChainHeadHash checkpoint \<noteq> rec_EventHash lst then Some (VerificationError (cp_Sequence checkpoint))
                          else None)"

subsection \<open>Events\<close>

definition wire_of_event :: "Event \<Rightarrow> canonicalEvent" where
  "wire_of_event e = \<lparr>ce_SchemaVersion = SchemaVersion e, ce_EventID = EventID e, ce_RunID = RunID e, ce_EventType = EventType e,
     ce_OccurredAt = format_rfc3339nano (time_UTC (OccurredAt e)), ce_PrincipalID = PrincipalID e, ce_AuthMethod = AuthMethod e,
     ce_OIDCIssuerHash = digestStringPointer (OIDCIssuerHash e), ce_PolicyVersionHash = digest_String (PolicyVersionHash e),
     ce_Decision = Decision e, ce_DecisionReasonCodes = (sort (slice_list (DecisionReasonCodes e)), length (slice_list (DecisionReasonCodes e))),
     ce_RequestedModel = RequestedModel e, ce_ResolvedBackend = ResolvedBackend e, ce_ContentHMACKeyID = ContentHMACKeyID e,
     ce_RequestHMAC = digest_String (RequestHMAC e), ce_ResponseHMAC = digestStringPointer (ResponseHMAC e),
     ce_RequestBytes = RequestBytes e, ce_ResponseBytes = ResponseBytes e, ce_PIICategories = (sort (slice_list (PIICategories e)),
     length (slice_list (PIICategories e))), ce_PIIMatchCounts = Some (map_entries (PIIMatchCounts e)),
     ce_HealthIndicatorCategories = (sort (slice_list (HealthIndicatorCategories e)), length (slice_list (HealthIndicatorCategories e))),
     ce_SecretCategories = (sort (slice_list (SecretCategories e)), length (slice_list (SecretCategories e))),
     ce_DetectorBundleHash = digest_String (DetectorBundleHash e), ce_InputTokens = InputTokens e,
     ce_OutputTokens = OutputTokens e, ce_ReservedCostMicros = ReservedCostMicros e,
     ce_ActualCostMicros = event_ActualCostMicros e, ce_Status = event_Status e, ce_ErrorCode = ErrorCode e,
     ce_PreviousEventHash = digest_String (PreviousEventHash e), ce_SoftwareVersion = SoftwareVersion e,
     ce_ConfigHash = digest_String (ConfigHash e)\<rparr>"

lemma distinct_event_fields: "distinct (map fst event_fields)"
  by (simp add: event_fields_def)

lemma fmap_of_sorted_list [simp]: "fmap_of_list (sorted_list_of_fmap m) = m"
  by (rule fmap_ext) (simp add: fmlookup_of_list map_of_sorted_list)

lemma distinct_sorted_keys: "distinct (map fst (sorted_list_of_fmap m))"
  by (simp add: sorted_list_of_fmap_def comp_def sorted_list_of_fset.rep_eq)

lemma decode_counts [simp]: "decode_map decode_int64 0 (t, value_of (json_counts (mapCopy m))) None = Some (Some m)"
  using decode_int_map [OF distinct_sorted_keys, of t m] by (simp add: json_counts_def mapCopy_def json_int64_def)

lemma decode_codes [simp]: "decode_slice decode_string [] (t, value_of (json_codes xs)) ([], 0) = Some (xs, length xs)"
  unfolding json_codes_def by (rule decode_string_list)

lemma decode_pointers [simp]:
  "decode_pointer decode_string [] (t, value_of (json_option JString v)) None = Some v"
  "decode_pointer decode_int64 0 (t, value_of (json_option json_int64 n)) None = Some n"
  by (simp_all add: decode_pointer_def json_option_def json_int64_def decode_string_def decode_int64_def parse_int64_digits split: option.splits)

lemma decode_event_int [simp]: "decode_int64 (t, value_of (json_int64 n)) x = Some n"
  by (simp add: json_int64_def decode_int64_def parse_int64_digits)

lemma decode_event_fields:
  "decode_struct True event_fields (t, value_of (event_json e)) zero_event = Some (wire_of_event e)"
  unfolding event_json_def
  by (subst decode_struct_in_order [OF distinct_event_fields])
    (simp_all add: event_fields_def field_def zero_event_def wire_of_event_def sortedCopy_def del: value_of.simps marshal.simps)

lemma event_of_wire_of_event:
  assumes "0 \<le> time_Year (time_UTC (OccurredAt e))" and "time_Year (time_UTC (OccurredAt e)) \<le> 9999"
  shows "event_of_wire (wire_of_event e) = Some (canonical_form e)"
proof -
  have t: "parse_utc (format_rfc3339nano (time_UTC (OccurredAt e))) = Some (time_UTC (OccurredAt e))"
    using parse_utc_format [of "time_UTC (OccurredAt e)"] assms by (simp add: time_UTC_def)
  have opt: "decodeOptionalDigest (digestStringPointer d) = Some d" for d
    by (cases d) (simp_all add: decodeOptionalDigest_def digestStringPointer_def)
  have codes: "shown (sort xs, length xs) = sort xs" for xs :: "string list" by (simp add: shown_def)
  show ?thesis
    unfolding event_of_wire_def wire_of_event_def canonicalEvent.simps t opt codes digestFromHex_String prod.case option.case
    by (simp, rule Event.equality) (simp_all add: canonical_form_def)
qed

lemma event_depth: "json_depth (event_json e) \<le> 2"
proof -
  have "json_depth (json_codes xs) \<le> 1" "json_depth (json_option JString v) = 0" "json_depth (json_option json_int64 n) = 0"
    "json_depth (json_int64 i) = 0" for xs v n i
    by (simp_all add: json_codes_def json_option_def json_int64_def image_image image_constant_conv split: option.splits)
  moreover have "json_depth (json_counts kvs) \<le> 1" for kvs
    by (simp add: json_counts_def json_int64_def image_image image_constant_conv)
  ultimately show ?thesis by (simp add: event_json_def)
qed

lemma canonical_form_json [simp]: "event_json (canonical_form e) = event_json e"
  by (simp add: event_json_eq_iff)

lemma read_event:
  assumes "event_Validate e" and "event_Validate (canonical_form e)"
  shows "eventFromCanonicalJSON (marshal (event_json e)) = Some (canonical_form e)"
proof -
  have "decodeStrictJSON (decode_struct True event_fields) zero_event (marshal (event_json e)) = Some (wire_of_event e)"
    using event_depth [of e] decodeStrictJSON_marshal [OF event_json_plain [OF assms(1)], of "decode_struct True event_fields" zero_event] decode_event_fields
    by (simp add: maxNestingDepth_def)
  moreover have "0 \<le> time_Year (time_UTC (OccurredAt e))" "time_Year (time_UTC (OccurredAt e)) \<le> 9999"
    using assms(2) by (simp_all add: event_Validate_def canonical_form_def)
  ultimately show ?thesis using assms(2) event_of_wire_of_event [of e] by (simp add: eventFromCanonicalJSON_def Canonical_def)
qed

lemma eventFromCanonicalJSON_Some:
  assumes "eventFromCanonicalJSON b = Some e"
  shows "Canonical e = Inr b" and "time_is_UTC (OccurredAt e)"
proof -
  from assms obtain wire where w: "event_of_wire wire = Some e"
    by (auto simp: eventFromCanonicalJSON_def split: option.splits if_splits sum.splits)
  show "Canonical e = Inr b" using assms by (auto simp: eventFromCanonicalJSON_def split: option.splits if_splits sum.splits)
  show "time_is_UTC (OccurredAt e)"
    using w parse_utc_Some by (auto simp: event_of_wire_def time_is_UTC_def split: option.splits)
qed

lemma canonical_form_valid: "event_Validate e \<Longrightarrow> time_is_UTC (OccurredAt e) \<Longrightarrow> event_Validate (canonical_form e)"
  by (simp add: event_Validate_def canonical_form_def time_UTC_id validCodeSet_sort)

subsection \<open>Records and checkpoints\<close>

definition wire_record :: "Record \<Rightarrow> exportRecord" where
  "wire_record r = \<lparr>xr_Sequence = rec_Sequence r, xr_Event = Some (marshal (event_json (rec_Event r))), xr_EventHash = digest_String (rec_EventHash r)\<rparr>"

lemma wire_records_eq:
  "wire_records rs = (if list_all (\<lambda>r. event_Validate (rec_Event r)) rs then Some (map wire_record rs) else None)"
  by (induction rs) (auto simp: wire_record_def Canonical_def)

lemma no_event_text: "eventFromCanonicalJSON [] = None"
  by (simp add: eventFromCanonicalJSON_def decodeStrictJSON_def read_value_def skip_space_def)

lemma read_records_Inr:
  "read_records s ws = Inr rs \<Longrightarrow> ws = map wire_record rs \<and> list_all (\<lambda>r. event_Validate (canonical_form (rec_Event r))) rs"
proof (induction s ws arbitrary: rs rule: read_records.induct)
  case (2 s w ws)
  from "2.prems" obtain e h rest where e: "eventFromCanonicalJSON (case xr_Event w of None \<Rightarrow> [] | Some b \<Rightarrow> b) = Some e"
    and h: "digestFromHex (xr_EventHash w) = Some h" and rest: "read_records (s + 1) ws = Inr rest"
    and rs: "rs = \<lparr>rec_Sequence = xr_Sequence w, rec_Event = e, rec_EventHash = h\<rparr> # rest" and seq: "xr_Sequence w = s"
    by (auto split: if_splits option.splits sum.splits)
  obtain b where b: "xr_Event w = Some b" using e no_event_text by (cases "xr_Event w") auto
  have c: "Canonical e = Inr b" "time_is_UTC (OccurredAt e)" using eventFromCanonicalJSON_Some [of b e] e b by simp_all
  have "w = wire_record (hd rs)"
    using b c h by (intro exportRecord.equality) (simp_all add: rs wire_record_def Canonical_Inr_iff digestFromHex_Some_iff)
  moreover have "event_Validate (canonical_form e)" using c canonical_form_valid by (simp add: Canonical_Inr_iff)
  ultimately show ?case using "2.IH" [OF _ e h rest] seq rs by simp
qed simp

lemma link_ok_form:
  assumes "event_Validate (rec_Event r)" and "event_Validate (canonical_form (rec_Event r))"
  shows "link_ok sha256 s p (record_form r) \<longleftrightarrow> link_ok sha256 s p r"
  using assms by (simp add: link_ok_def record_form_def EventHash_Inr_iff chain_payload_def)

lemma verify_loop_forms:
  assumes "list_all (\<lambda>r. event_Validate (canonical_form (rec_Event r))) rs" and "verify_loop sha256 s p rs = None"
  shows "verify_loop sha256 s p (map record_form rs) = None \<and> read_records s (map wire_record rs) = Inr (map record_form rs)"
  using assms
proof (induction rs arbitrary: s p)
  case (Cons r rs)
  have ok: "link_ok sha256 s p r" and rest: "verify_loop sha256 (s + 1) (rec_EventHash r) rs = None"
    using Cons.prems(2) by (auto simp: verify_loop_Cons split: if_splits)
  have v: "event_Validate (rec_Event r)" "rec_Sequence r = s" using ok by (auto simp: link_ok_def EventHash_Inr_iff)
  have f: "event_Validate (canonical_form (rec_Event r))" using Cons.prems(1) by simp
  have IH: "verify_loop sha256 (s + 1) (rec_EventHash r) (map record_form rs) = None"
    "read_records (s + 1) (map wire_record rs) = Inr (map record_form rs)"
    using Cons.IH [OF _ rest] Cons.prems(1) by simp_all
  have hash: "rec_EventHash (record_form r) = rec_EventHash r" by (simp add: record_form_def)
  have "read_records s (wire_record r # map wire_record rs) = Inr (record_form r # map record_form rs)"
    using read_event [OF v(1) f] v(2) IH(2) by (cases r) (simp add: wire_record_def record_form_def)
  then show ?case using link_ok_form [OF v(1) f] ok IH(1) hash by (simp add: verify_loop_Cons)
qed simp

lemma checkpoint_roundtrip:
  assumes "canonicalCheckpointPayload c = Inr payload" and "cp_Signature c \<noteq> []"
  shows "checkpointFromWire (checkpointToWire c) = Some c"
proof -
  have utc: "time_UTC (cp_CreatedAt c) = cp_CreatedAt c"
    using canonicalCheckpointPayload_Inr [OF assms(1)] time_UTC_id by blast
  have "0 \<le> time_Year (cp_CreatedAt c)" "time_Year (cp_CreatedAt c) \<le> 9999"
    using assms(1) by (auto simp: canonicalCheckpointPayload_def split: if_splits)
  then have "parse_utc (format_rfc3339nano (cp_CreatedAt c)) = Some (cp_CreatedAt c)" using parse_utc_format [of "cp_CreatedAt c"] utc by simp
  then show ?thesis using assms by (cases c) (simp add: checkpointFromWire_def checkpointToWire_def append_nil_def)
qed

lemma checkpointFromWire_Some:
  assumes "checkpointFromWire w = Some c" and "cp_Signature c \<noteq> []"
  shows "w = checkpointToWire c" and "\<exists>payload. canonicalCheckpointPayload c = Inr payload"
proof -
  from assms(1) obtain h t where h: "digestFromHex (wc_ChainHeadHash w) = Some h" and t: "parse_utc (wc_CreatedAt w) = Some t"
    and c: "c = \<lparr>cp_SchemaVersion = wc_SchemaVersion w, cp_Sequence = wc_Sequence w, cp_ChainHeadHash = h,
      cp_SigningKeyID = wc_SigningKeyID w, cp_CreatedAt = t, cp_Signature = slice_list (wc_Signature w)\<rparr>"
    and p: "\<exists>payload. canonicalCheckpointPayload c = Inr payload"
    by (auto simp: checkpointFromWire_def Let_def split: option.splits sum.splits)
  show "\<exists>payload. canonicalCheckpointPayload c = Inr payload" by (rule p)
  have "wc_Signature w = append_nil (slice_list (wc_Signature w))"
    using assms(2) c by (cases "wc_Signature w") (simp_all add: append_nil_def)
  moreover have "wc_ChainHeadHash w = digest_String h" "wc_CreatedAt w = format_rfc3339nano t"
    using h parse_utc_Some [OF t] by (simp_all add: digestFromHex_Some_iff)
  ultimately show "w = checkpointToWire c"
    by (intro checkpointRecord.equality) (simp_all add: c checkpointToWire_def)
qed

subsection \<open>The envelope\<close>

definition record_json :: "Record \<Rightarrow> json" where
  "record_json r = JObject [(''sequence'', json_int64 (rec_Sequence r)), (''event'', event_json (rec_Event r)),
     (''event_hash'', JString (digest_String (rec_EventHash r)))]"

definition checkpoint_wire_json :: "Checkpoint \<Rightarrow> json" where
  "checkpoint_wire_json c = JObject [(''schema_version'', json_int64 (cp_SchemaVersion c)), (''sequence'', json_int64 (cp_Sequence c)),
     (''chain_head_hash'', JString (digest_String (cp_ChainHeadHash c))), (''signing_key_id'', JString (cp_SigningKeyID c)),
     (''created_at'', JString (format_rfc3339nano (cp_CreatedAt c))), (''signature'', JString (b64std_encode (cp_Signature c)))]"

definition export_json :: "Record list \<Rightarrow> Checkpoint \<Rightarrow> json" where
  "export_json rs c = JObject [(''schema_version'', json_int64 1), (''records'', JArray (map record_json rs)),
     (''checkpoint'', checkpoint_wire_json c)]"

definition export_wire :: "Record list \<Rightarrow> Checkpoint \<Rightarrow> exportEnvelope" where
  "export_wire rs c = \<lparr>xe_SchemaVersion = 1, xe_Records = (map wire_record rs, length rs), xe_Checkpoint = checkpointToWire c\<rparr>"

abbreviation exportable :: "Record list \<Rightarrow> bool" where
  "exportable rs \<equiv> list_all (\<lambda>r. event_Validate (rec_Event r)) rs"

lemma envelope_text_eq:
  assumes "exportable rs" and "cp_Signature c \<noteq> []"
  shows "envelope_text (export_wire rs c) = marshal (export_json rs c)"
proof -
  have r: "record_text (wire_record r) = marshal (record_json r)" if "event_Validate (rec_Event r)" for r
    using raw_text_marshal [OF event_json_plain [OF that]]
    by (simp add: record_text_def wire_record_def record_json_def json_int64_def object_text_def)
  have "map (\<lambda>r. record_text (wire_record r)) rs = map (\<lambda>r. marshal (record_json r)) rs" using r assms(1) by (auto simp: list_all_iff)
  moreover have "checkpoint_text (checkpointToWire c) = marshal (checkpoint_wire_json c)"
    using assms(2) by (simp add: checkpoint_text_def checkpointToWire_def checkpoint_wire_json_def append_nil_def json_int64_def object_text_def)
  ultimately show ?thesis
    by (simp add: envelope_text_def export_wire_def export_json_def shown_def object_text_def array_text_def json_int64_def comp_def cong: map_cong)
qed

lemma b64std_plain: "json_plain (b64std_encode b)"
proof -
  have "json_plain_char (std_of_url c)" if "c \<in> set (b64_encode b)" for c
  proof -
    have "is_alnum c \<or> c = CHR ''-'' \<or> c = CHR ''_''" using that b64_encode_alphabet [of b] by (auto simp: list_all_iff)
    then show ?thesis by (auto simp: std_of_url_def)
  qed
  then show ?thesis by (auto simp: b64std_encode_def b64_padding_def list_all_iff)
qed

lemma export_json_plain:
  assumes "exportable rs" and "identifierPattern (cp_SigningKeyID c)"
  shows "all_plain (export_json rs c)"
  using assms
  by (simp add: export_json_def record_json_def checkpoint_wire_json_def json_int64_def list_all_iff event_json_plain digest_String_plain
      time_plain identifierPattern_plain [unfolded list_all_iff] b64std_plain [unfolded list_all_iff] digest_String_plain [unfolded list_all_iff]
      time_plain [unfolded list_all_iff])

lemma export_json_depth: "json_depth (export_json rs c) \<le> 5"
proof -
  have "json_depth (record_json r) \<le> 3" for r using event_depth [of "rec_Event r"] by (simp add: record_json_def json_int64_def)
  then have "Max (insert 0 (json_depth ` record_json ` set rs)) \<le> 3" by (subst Max_le_iff) auto
  moreover have "json_depth (checkpoint_wire_json c) \<le> 1" by (simp add: checkpoint_wire_json_def json_int64_def)
  ultimately show ?thesis by (simp add: export_json_def json_int64_def)
qed

lemma decode_record:
  "decode_struct True record_fields (t, value_of (record_json r)) zero_record = Some (wire_record r)"
  unfolding record_json_def
  by (subst decode_struct_in_order)
    (simp_all add: record_fields_def field_def zero_record_def wire_record_def decode_raw_def del: value_of.simps marshal.simps)

lemma decode_record_list:
  "decode_slice (decode_struct True record_fields) zero_record (t, value_of (JArray (map record_json rs))) ([], 0) =
   Some (map wire_record rs, length rs)"
proof -
  have cells: "decode_cells (decode_struct True record_fields) zero_record (map (\<lambda>r. (marshal (record_json r), value_of (record_json r))) rs) [] =
      Some (map wire_record rs)"
    by (induction rs) (simp_all add: decode_record)
  show ?thesis
  proof (cases rs)
    case (Cons a as)
    then show ?thesis using cells unfolding decode_slice_def by (simp add: comp_def del: decode_cells.simps)
  qed (simp add: decode_slice_def)
qed

lemma decode_checkpoint:
  assumes "cp_Signature c \<noteq> []"
  shows "decode_struct True checkpoint_fields (t, value_of (checkpoint_wire_json c)) zero_checkpoint = Some (checkpointToWire c)"
  unfolding checkpoint_wire_json_def using assms
  by (subst decode_struct_in_order)
    (simp_all add: checkpoint_fields_def field_def zero_checkpoint_def checkpointToWire_def append_nil_def del: value_of.simps marshal.simps)

lemma decode_envelope:
  assumes "cp_Signature c \<noteq> []"
  shows "decode_struct True envelope_fields (t, value_of (export_json rs c)) zero_envelope = Some (export_wire rs c)"
  unfolding export_json_def using decode_checkpoint [OF assms] decode_record_list
  by (subst decode_struct_in_order)
    (simp_all add: envelope_fields_def field_def zero_envelope_def export_wire_def del: value_of.simps marshal.simps)

lemma read_export:
  assumes "exportable rs" and "cp_Signature c \<noteq> []" and "identifierPattern (cp_SigningKeyID c)"
  shows "decodeStrictJSON (decode_struct True envelope_fields) zero_envelope (envelope_text (export_wire rs c)) = Some (export_wire rs c)"
  using decodeStrictJSON_marshal [OF export_json_plain [OF assms(1,3)], of "decode_struct True envelope_fields" zero_envelope]
    export_json_depth [of rs c] decode_envelope [OF assms(2)] envelope_text_eq [OF assms(1,2)]
  by (simp add: maxNestingDepth_def)

lemma VerifyChain_exportable: "VerifyChain sha256 rs = None \<Longrightarrow> exportable rs"
  by (auto simp: VerifyChain_None_iff list_all_length link_ok_def EventHash_Inr_iff)

lemma MarshalExport_Inr_iff:
  "MarshalExport sha256 rs c = Inr b \<longleftrightarrow>
   rs \<noteq> [] \<and> VerifyChain sha256 rs = None \<and> cp_Sequence c = rec_Sequence (last rs) \<and> cp_ChainHeadHash c = rec_EventHash (last rs) \<and>
   length (cp_Signature c) = 64 \<and> (\<exists>payload. canonicalCheckpointPayload c = Inr payload) \<and> b = envelope_text (export_wire rs c)"
  using VerifyChain_exportable [of sha256 rs]
  by (auto simp: MarshalExport_def Let_def wire_records_eq export_wire_def split: sum.splits)

lemma VerifyExport_None_iff:
  "VerifyExport sha256 ed_verify b key = None \<longleftrightarrow>
   (\<exists>wire c rs. decodeStrictJSON (decode_struct True envelope_fields) zero_envelope b = Some wire \<and> xe_SchemaVersion wire = 1 \<and>
      shown (xe_Records wire) \<noteq> [] \<and> envelope_text wire = b \<and> checkpointFromWire (xe_Checkpoint wire) = Some c \<and>
      VerifyCheckpoint ed_verify c key = None \<and> read_records 1 (shown (xe_Records wire)) = Inr rs \<and> VerifyChain sha256 rs = None \<and>
      cp_Sequence c = rec_Sequence (last rs) \<and> cp_ChainHeadHash c = rec_EventHash (last rs))"
  by (auto simp: VerifyExport_def Let_def split: option.splits sum.splits if_splits)

lemma VerifyExport_accepts:
  assumes m: "MarshalExport sha256 rs c = Inr b" and v: "VerifyCheckpoint ed_verify c key = None"
    and forms: "list_all (\<lambda>r. event_Validate (canonical_form (rec_Event r))) rs"
  shows "VerifyExport sha256 ed_verify b key = None"
proof -
  from m have rs: "rs \<noteq> []" "VerifyChain sha256 rs = None" "cp_Sequence c = rec_Sequence (last rs)" "cp_ChainHeadHash c = rec_EventHash (last rs)"
    and sig: "cp_Signature c \<noteq> []" and b: "b = envelope_text (export_wire rs c)"
    unfolding MarshalExport_Inr_iff by auto
  from v obtain payload where p: "canonicalCheckpointPayload c = Inr payload" by (auto simp: VerifyCheckpoint_None)
  have ident: "identifierPattern (cp_SigningKeyID c)" using p by (auto simp: canonicalCheckpointPayload_def split: if_splits)
  have loop: "VerifyChain sha256 (map record_form rs) = None" "read_records 1 (map wire_record rs) = Inr (map record_form rs)"
    using verify_loop_forms [OF forms] rs(2) by (simp_all add: VerifyChain_def)
  have last: "rec_Sequence (last (map record_form rs)) = rec_Sequence (last rs)" "rec_EventHash (last (map record_form rs)) = rec_EventHash (last rs)"
    using rs(1) by (simp_all add: last_map record_form_def)
  show ?thesis
    unfolding VerifyExport_None_iff
    using read_export [OF VerifyChain_exportable [OF rs(2)] sig ident] checkpoint_roundtrip [OF p sig] v loop last rs b
    by (intro exI [of _ "export_wire rs c"] exI [of _ c] exI [of _ "map record_form rs"]) (simp add: export_wire_def shown_def)
qed

lemma VerifyExport_sound:
  assumes "VerifyExport sha256 ed_verify b key = None"
  shows "\<exists>rs c. MarshalExport sha256 rs c = Inr b \<and> VerifyCheckpoint ed_verify c key = None \<and>
    list_all (\<lambda>r. event_Validate (canonical_form (rec_Event r))) rs"
proof -
  from assms obtain wire c rs where w: "xe_SchemaVersion wire = 1" "shown (xe_Records wire) \<noteq> []" "envelope_text wire = b"
      and c: "checkpointFromWire (xe_Checkpoint wire) = Some c" "VerifyCheckpoint ed_verify c key = None"
      and r: "read_records 1 (shown (xe_Records wire)) = Inr rs" "VerifyChain sha256 rs = None"
      and l: "cp_Sequence c = rec_Sequence (last rs)" "cp_ChainHeadHash c = rec_EventHash (last rs)"
    unfolding VerifyExport_None_iff by blast
  have sig: "length (cp_Signature c) = 64" "cp_Signature c \<noteq> []" using c(2) by (auto simp: VerifyCheckpoint_None)
  note recs = read_records_Inr [OF r(1)] and cp = checkpointFromWire_Some [OF c(1) sig(2)]
  have "envelope_text wire = envelope_text (export_wire rs c)"
    using w(1) recs cp(1) by (simp add: envelope_text_def export_wire_def shown_def)
  then have "MarshalExport sha256 rs c = Inr b"
    unfolding MarshalExport_Inr_iff using w(2,3) recs r(2) l sig(1) cp(2) by auto
  then show ?thesis using c(2) recs by blast
qed

subsection \<open>Properties\<close>

text \<open>
  C30. The verifier accepts exactly what the exporter writes. A byte string passes \<open>VerifyExport\<close> under a key if and only if it is
  the output of \<open>MarshalExport\<close> for some chain of records, all of whose events are valid also in UTC, and some checkpoint that
  verifies under that key. There is no second encoding of an export: not one more space, another order of fields, a repeated or
  unknown field, or another spelling of a number, string, time or digest.
\<close>

theorem export_accepted_iff_written:
  "VerifyExport sha256 ed_verify b key = None \<longleftrightarrow>
   (\<exists>rs c. MarshalExport sha256 rs c = Inr b \<and> VerifyCheckpoint ed_verify c key = None \<and>
      list_all (\<lambda>r. event_Validate (canonical_form (rec_Event r))) rs)"
  using VerifyExport_accepts VerifyExport_sound by blast

text \<open>
  An event is checked in the time zone it is held in, but written in UTC. One in the last hours of year 9999 west of Greenwich is
  valid, has a canonical form and can be chained and exported, and its text, with a year of five digits, cannot be read again.
\<close>

lemma unreadable_event:
  assumes "event_Validate e" and "\<not> event_Validate (canonical_form e)"
  shows "eventFromCanonicalJSON (marshal (event_json e)) = None"
proof (rule ccontr)
  assume "eventFromCanonicalJSON (marshal (event_json e)) \<noteq> None"
  then obtain e' where e': "eventFromCanonicalJSON (marshal (event_json e)) = Some e'" by blast
  note c = eventFromCanonicalJSON_Some [OF this]
  have "canonical_form e' = canonical_form e" using Canonical_inject [OF c(1), of e] assms(1) by (simp add: Canonical_Inr_iff)
  then show False using canonical_form_valid [of e'] c assms(2) by (simp add: Canonical_Inr_iff)
qed

definition late_event :: Event where
  "late_event = (sample_event [''a''] UTC)\<lparr>OccurredAt := \<lparr>t_nanos = 315537897600000000000, t_loc = Zone (- 3600)\<rparr>\<rparr>"

lemma late_event_unreadable: "event_Validate late_event \<and> eventFromCanonicalJSON (marshal (event_json late_event)) = None"
proof -
  have year: "time_Year \<lparr>t_nanos = 315537897600000000000, t_loc = Zone (- 3600)\<rparr> = 9999"
    "time_Year \<lparr>t_nanos = 315537897600000000000, t_loc = UTC\<rparr> = 10000" by code_simp+
  have "validCodeSet [''a'']" by code_simp
  then have "event_Validate (sample_event [''a''] UTC)" by (rule sample_event_valid) simp
  then have v: "event_Validate late_event"
    by (simp add: event_Validate_def late_event_def year time_IsZero_def time_Nanosecond_def nanos_per_second_def)
  have "time_Year (time_UTC (OccurredAt late_event)) = 10000" using year(2) by (simp add: late_event_def time_UTC_def)
  then have "\<not> event_Validate (canonical_form late_event)" by (simp add: event_Validate_def canonical_form_def)
  with v show ?thesis using unreadable_event by blast
qed

end
