(* ===== verification/ExportSize.thy ===== *)
theory ExportSize
  imports AuditExport
begin

section \<open>The size of an export\<close>

text \<open>
  The verifier of the command line reads at most 512 MiB. This theory bounds the text of a value whose strings are plain, of a valid
  event and of an export: whatever the events hold, 16000 records always fit.
\<close>

fun json_bound :: "json \<Rightarrow> nat" where
  "json_bound JNull = 4"
| "json_bound (JBool b) = 5"
| "json_bound (JInt i) = length (int_digits i)"
| "json_bound (JString s) = length s + 2"
| "json_bound (JArray xs) = 2 + sum_list (map (\<lambda>x. json_bound x + 1) xs)"
| "json_bound (JObject fs) = 2 + sum_list (map (\<lambda>f. length (fst f) + json_bound (snd f) + 4) fs)"

lemma length_commas: "length (commas xs) \<le> sum_list (map (\<lambda>x. length x + 1) xs)"
  by (induction xs rule: commas.induct) auto

lemma length_json_string: "json_plain s \<Longrightarrow> length (json_string s) = length s + 2"
  by (simp add: json_string_plain)

lemma length_marshal: "all_plain v \<Longrightarrow> length (marshal v) \<le> json_bound v"
proof (induction v)
  case (JArray xs)
  have "sum_list (map (\<lambda>x. length (marshal x) + 1) xs) \<le> sum_list (map (\<lambda>x. json_bound x + 1) xs)"
    using JArray by (intro sum_list_mono) (auto simp: list_all_iff)
  then show ?case using length_commas [of "map marshal xs"] by (simp add: comp_def)
next
  case (JObject fs)
  let ?m = "\<lambda>f. json_string (fst f) @ CHR '':'' # marshal (snd f)"
  have "length (?m f) + 1 \<le> length (fst f) + json_bound (snd f) + 4" if "f \<in> set fs" for f
  proof -
    have "json_plain (fst f)" "all_plain (snd f)" using that JObject.prems by (auto simp: list_all_iff)
    moreover from this have "length (marshal (snd f)) \<le> json_bound (snd f)"
      using JObject.IH [of f "snd f"] that by (cases f) auto
    ultimately show ?thesis by (simp add: length_json_string)
  qed
  then have "sum_list (map (\<lambda>f. length (?m f) + 1) fs) \<le> sum_list (map (\<lambda>f. length (fst f) + json_bound (snd f) + 4) fs)"
    by (intro sum_list_mono) blast
  then show ?case using length_commas [of "map ?m fs"] by (simp add: comp_def)
qed (auto simp: length_json_string)

lemma length_nat_digits: "n < 10 ^ Suc k \<Longrightarrow> length (nat_digits n) \<le> Suc k"
proof (induction k arbitrary: n)
  case (Suc k)
  then have "n div 10 < 10 ^ Suc k" by (simp add: less_mult_imp_div_less)
  with Suc.IH [of "n div 10"] show ?case by (subst nat_digits.simps) simp
qed (subst nat_digits.simps, simp)

lemma length_int64: "json_bound (json_int64 n) \<le> 20"
proof -
  have "- (2 ^ 63) \<le> sint n" "sint n < 2 ^ 63" using sint_ge [of n] sint_lt [of n] by simp_all
  then have "length (nat_digits (nat (sint n))) \<le> Suc 18" "length (nat_digits (nat (- sint n))) \<le> Suc 18"
    by (intro length_nat_digits; simp)+
  then show ?thesis by (simp add: json_int64_def int_digits_def)
qed

lemma length_format:
  assumes "0 \<le> time_Year (time_UTC t)" "time_Year (time_UTC t) \<le> 9999"
  shows "length (format_rfc3339nano t) \<le> 30"
proof -
  obtain y m dd where civ: "civil_of_day (t_nanos t div nanos_per_day) = (y, m, dd)" by (cases "civil_of_day (t_nanos t div nanos_per_day)")
  have y: "time_Year (time_UTC t) = y" using civil_of_day_ranges(1) [OF civ] by (simp add: time_Year_def time_UTC_def)
  have "length (trim_zeros s) \<le> length s" for s using trim_zeros_pad [of s] by (metis le_add1 length_append)
  then have "length (trim_zeros (fixed_digits 9 n)) \<le> 9" for n using length_fixed_digits [of 9 n] by metis
  then have "length (fraction_text n) \<le> 10" for n by (simp add: fraction_text_def)
  moreover have "length (year_text y) = 4" using assms y by (simp add: year_text_def Let_def nat_less_iff)
  ultimately show ?thesis by (simp add: format_rfc3339nano_def Let_def civ)
qed

lemma code_length: "codePattern c \<Longrightarrow> length c \<le> 64"
  using bounded_pattern_length by (fastforce simp: codePattern_def)

lemma identifier_length: "identifierPattern c \<Longrightarrow> length c \<le> 128"
  using bounded_pattern_length by (fastforce simp: identifierPattern_def)

lemma sum_list_bounded:
  assumes "\<And>x. x \<in> set xs \<Longrightarrow> f x \<le> (k :: nat)" and "length xs \<le> n"
  shows "sum_list (map f xs) \<le> n * k"
proof -
  have "sum_list (map f xs) \<le> length xs * k" using assms(1) by (induction xs) (simp, fastforce)
  then show ?thesis using mult_le_mono1 [OF assms(2)] by (rule order_trans)
qed

lemma codes_bound:
  assumes "validCodeSet xs"
  shows "json_bound (json_codes (sortedCopy xs)) \<le> 4290"
proof -
  have "sum_list (map (\<lambda>s. json_bound (JString s) + 1) (sort xs)) \<le> 64 * 67"
  proof (rule sum_list_bounded)
    fix s assume "s \<in> set (sort xs)"
    then have "codePattern s" using assms by (simp add: validCodeSet_iff list_all_iff)
    then show "json_bound (JString s) + 1 \<le> 67" using code_length [of s] by simp
  qed (use assms in \<open>simp add: validCodeSet_iff\<close>)
  then show ?thesis unfolding json_codes_def sortedCopy_def json_bound.simps(5) map_map comp_def by simp
qed

lemma counts_bound:
  assumes "validCountMap m"
  shows "json_bound (json_counts (mapCopy m)) \<le> 5634"
proof -
  have "length (sorted_list_of_fmap m) \<le> 64" using assms by (auto simp: validCountMap_def maxEventCodes_def sorted_list_of_fmap_def sorted_list_of_fset.rep_eq length_sorted_list_of_set split: if_splits)
  moreover have "length (fst kv) + json_bound (json_int64 (snd kv)) + 4 \<le> 88" if "kv \<in> set (sorted_list_of_fmap m)" for kv
    using assms that code_length [of "fst kv"] length_int64 [of "snd kv"] by (fastforce simp: validCountMap_def list_all_iff split: if_splits)
  ultimately show ?thesis
    using sum_list_bounded [of "sorted_list_of_fmap m" "\<lambda>kv. length (fst kv) + json_bound (json_int64 (snd kv)) + 4" 88 64]
    by (simp add: json_counts_def mapCopy_def comp_def)
qed

lemma option_bounds:
  "json_bound (json_option json_int64 v) \<le> 20"
  "json_bound (json_option JString (digestStringPointer d)) \<le> 66"
  "validOptionalCode c \<Longrightarrow> json_bound (json_option JString c) \<le> 66"
  using length_int64 code_length
  by (auto simp: json_option_def digestStringPointer_def validOptionalCode_def split: option.splits)

lemma state_bounds:
  "validEventState e d s \<Longrightarrow> length e \<le> 13 \<and> length d \<le> 5 \<and> length s \<le> 9"
  "validAuthEvidence m h \<Longrightarrow> length m \<le> 8"
  by (auto simp: validEventState_def validAuthEvidence_def validAuthMethod_def audit_enum_defs split: if_splits)

lemma event_bound:
  assumes "event_Validate e" and "event_Validate (canonical_form e)"
  shows "json_bound (event_json e) \<le> 30000"
proof -
  note v = assms(1) [unfolded event_Validate_def]
  have year: "0 \<le> time_Year (time_UTC (OccurredAt e))" "time_Year (time_UTC (OccurredAt e)) \<le> 9999"
    using assms(2) by (simp_all add: event_Validate_def canonical_form_def)
  have time: "length (format_rfc3339nano (time_UTC (OccurredAt e))) \<le> 30"
    using year by (intro length_format) (simp_all add: time_UTC_def)
  have ids: "length (EventID e) = 36" "length (RunID e) = 36" "length (PrincipalID e) = 36"
    using v uuidPattern_length by blast+
  have names: "length (RequestedModel e) \<le> 128" "length (ResolvedBackend e) \<le> 128" "length (ContentHMACKeyID e) \<le> 128" "length (SoftwareVersion e) \<le> 128"
    using v identifier_length by blast+
  have codes: "json_bound (json_codes (sortedCopy (slice_list (DecisionReasonCodes e)))) \<le> 4290" "json_bound (json_codes (sortedCopy (slice_list (PIICategories e)))) \<le> 4290"
    "json_bound (json_codes (sortedCopy (slice_list (HealthIndicatorCategories e)))) \<le> 4290" "json_bound (json_codes (sortedCopy (slice_list (SecretCategories e)))) \<le> 4290"
    using v codes_bound by blast+
  have counts: "json_bound (json_counts (mapCopy (map_entries (PIIMatchCounts e)))) \<le> 5634" using v counts_bound by blast
  have error: "json_bound (json_option JString (ErrorCode e)) \<le> 66" using v option_bounds(3) by blast
  have state: "length (EventType e) \<le> 13" "length (Decision e) \<le> 5" "length (event_Status e) \<le> 9" "length (AuthMethod e) \<le> 8"
    using v state_bounds by blast+
  note numbers = length_int64 [of "SchemaVersion e"] length_int64 [of "RequestBytes e"] option_bounds(1) [of "ResponseBytes e"]
    option_bounds(1) [of "InputTokens e"] option_bounds(1) [of "OutputTokens e"] option_bounds(1) [of "ReservedCostMicros e"]
    option_bounds(1) [of "event_ActualCostMicros e"] option_bounds(2) [of "OIDCIssuerHash e"] option_bounds(2) [of "ResponseHMAC e"]
  show ?thesis
    unfolding event_json_def using time ids names codes counts error state numbers by simp
qed

lemma payload_parts:
  assumes "canonicalCheckpointPayload c = Inr payload"
  shows "identifierPattern (cp_SigningKeyID c)" "time_UTC (cp_CreatedAt c) = cp_CreatedAt c"
    "1 \<le> time_Year (cp_CreatedAt c)" "time_Year (cp_CreatedAt c) \<le> 9999"
  using assms time_UTC_id by (auto simp: canonicalCheckpointPayload_def split: if_splits)

lemma checkpoint_bound:
  assumes "canonicalCheckpointPayload c = Inr payload" and "length (cp_Signature c) = 64"
  shows "json_bound (checkpoint_wire_json c) \<le> 600"
proof -
  note p = payload_parts [OF assms(1)]
  have "length (format_rfc3339nano (cp_CreatedAt c)) \<le> 30" using p by (intro length_format) simp_all
  moreover have "length (cp_SigningKeyID c) \<le> 128" using p identifier_length by blast
  moreover have "length (b64std_encode (cp_Signature c)) = 88" using assms(2) by (simp add: b64std_encode_def b64_padding_def length_b64_encode)
  ultimately show ?thesis
    unfolding checkpoint_wire_json_def using length_int64 [of "cp_SchemaVersion c"] length_int64 [of "cp_Sequence c"] by simp
qed

lemma export_fits:
  assumes "MarshalExport sha256 rs c = Inr b" and "list_all (\<lambda>r. event_Validate (canonical_form (rec_Event r))) rs"
    and "length rs \<le> 16000"
  shows "length b \<le> 536870912"
proof -
  from assms(1) have v: "exportable rs" and sig: "length (cp_Signature c) = 64" and b: "b = envelope_text (export_wire rs c)"
    and p: "\<exists>payload. canonicalCheckpointPayload c = Inr payload"
    using VerifyChain_exportable by (auto simp: MarshalExport_Inr_iff)
  from p obtain payload where payload: "canonicalCheckpointPayload c = Inr payload" ..
  have ident: "identifierPattern (cp_SigningKeyID c)" using payload_parts [OF payload] by blast
  have "json_bound (record_json r) + 1 \<le> 31000" if "r \<in> set rs" for r
  proof -
    have "event_Validate (rec_Event r)" "event_Validate (canonical_form (rec_Event r))" using that v assms(2) by (auto simp: list_all_iff)
    from event_bound [OF this] show ?thesis unfolding record_json_def using length_int64 [of "rec_Sequence r"] by simp
  qed
  then have "sum_list (map (\<lambda>r. json_bound (record_json r) + 1) rs) \<le> 16000 * 31000" using assms(3) by (rule sum_list_bounded)
  then have "json_bound (JArray (map record_json rs)) \<le> 496000002" unfolding json_bound.simps(5) map_map comp_def by simp
  then have "json_bound (export_json rs c) \<le> 536870912"
    unfolding export_json_def using checkpoint_bound [OF payload sig] length_int64 [of 1] by simp
  moreover have "b = marshal (export_json rs c)" using envelope_text_eq [OF v] sig b by (cases "cp_Signature c") auto
  ultimately show ?thesis using length_marshal [OF export_json_plain [OF v ident]] by simp
qed


end
