(* ===== verification/Flags.thy ===== *)
theory Flags
  imports Prelude "HOL-Library.AList"
begin

section \<open>Command-line flags\<close>

text \<open>
  The \<open>flag\<close> package of the standard library as the two commands use it: string, 64-bit integer and boolean flags with one or two
  dashes, a value in the same argument after \<open>=\<close> or in the next one, the terminator \<open>--\<close>, and parsing that stops at the first
  argument that is not a flag. A flag set is the list of its flags with their current values. Integers are read as
  \<open>strconv.ParseInt\<close> reads them with base 0: with a sign, a base prefix and underscores between digits.
\<close>

subsection \<open>Integers\<close>

definition digit_of :: "char \<Rightarrow> nat option" where
  "digit_of c =
     (if is_digit c then Some (of_char c - 48)
      else if is_lower c then Some (of_char c - 87)
      else if is_upper c then Some (of_char c - 55)
      else None)"

fun read_digits :: "nat \<Rightarrow> string \<Rightarrow> nat \<Rightarrow> nat option" where
  "read_digits base [] n = Some n"
| "read_digits base (c # s) n =
     (if c = CHR ''_'' then read_digits base s n
      else case digit_of c of
          None \<Rightarrow> None
        | Some d \<Rightarrow> if base \<le> d then None else read_digits base s (n * base + d))"

text \<open>Base and digits of an unsigned number; a prefix needs a character after it.\<close>

definition base_prefix :: "string \<Rightarrow> nat \<times> string" where
  "base_prefix s =
     (case s of
        z # p # c # r \<Rightarrow>
          if z \<noteq> CHR ''0'' then (10, s)
          else if p = CHR ''b'' \<or> p = CHR ''B'' then (2, c # r)
          else if p = CHR ''o'' \<or> p = CHR ''O'' then (8, c # r)
          else if p = CHR ''x'' \<or> p = CHR ''X'' then (16, c # r)
          else (8, p # c # r)
      | z # r \<Rightarrow> if z \<noteq> CHR ''0'' then (10, s) else (8, r)
      | [] \<Rightarrow> (10, s))"

datatype saw = Saw_start | Saw_digit | Saw_underscore | Saw_other

fun underscore_scan :: "bool \<Rightarrow> saw \<Rightarrow> string \<Rightarrow> bool" where
  "underscore_scan hex s [] \<longleftrightarrow> s \<noteq> Saw_underscore"
| "underscore_scan hex s (c # r) \<longleftrightarrow>
     (if is_digit c \<or> hex \<and> (case digit_of c of None \<Rightarrow> False | Some d \<Rightarrow> d < 16) then underscore_scan hex Saw_digit r
      else if c = CHR ''_'' then s = Saw_digit \<and> underscore_scan hex Saw_underscore r
      else s \<noteq> Saw_underscore \<and> underscore_scan hex Saw_other r)"

definition underscoreOK :: "string \<Rightarrow> bool" where
  "underscoreOK s =
     (case s of
        z # p # r \<Rightarrow>
          if z = CHR ''0'' \<and> p \<in> {CHR ''b'', CHR ''B'', CHR ''o'', CHR ''O'', CHR ''x'', CHR ''X''}
          then underscore_scan (p = CHR ''x'' \<or> p = CHR ''X'') Saw_digit r
          else underscore_scan False Saw_start s
      | _ \<Rightarrow> underscore_scan False Saw_start s)"

definition parse_unsigned :: "string \<Rightarrow> nat option" where
  "parse_unsigned s =
     (if s = [] then None
      else case base_prefix s of (base, ds) \<Rightarrow>
        (case read_digits base ds 0 of
           None \<Rightarrow> None
         | Some n \<Rightarrow> if CHR ''_'' \<in> set ds \<and> \<not> underscoreOK s then None else Some n))"

definition parse_flag_int :: "string \<Rightarrow> int64 option" where
  "parse_flag_int s =
     (case s of
        [] \<Rightarrow> None
      | c # r \<Rightarrow>
          let neg = (c = CHR ''-'') in
          case parse_unsigned (if c = CHR ''+'' \<or> neg then r else s) of
            None \<Rightarrow> None
          | Some n \<Rightarrow>
              if \<not> neg \<and> 2 ^ 63 \<le> n \<or> neg \<and> 2 ^ 63 < n then None
              else Some (if neg then - of_nat n else of_nat n))"

subsection \<open>Flag sets\<close>

datatype flag_value = Flag_string string | Flag_int64 int64 | Flag_bool bool

datatype flag_error = Flag_help | Flag_bad

type_synonym flag_set = "(string \<times> flag_value) list"

definition parse_bool :: "string \<Rightarrow> bool option" where
  "parse_bool s =
     (if s \<in> {''1'', ''t'', ''T'', ''true'', ''TRUE'', ''True''} then Some True
      else if s \<in> {''0'', ''f'', ''F'', ''false'', ''FALSE'', ''False''} then Some False
      else None)"

fun flag_Set :: "flag_value \<Rightarrow> string \<Rightarrow> flag_value option" where
  "flag_Set (Flag_string _) s = Some (Flag_string s)"
| "flag_Set (Flag_int64 _) s = map_option Flag_int64 (parse_flag_int s)"
| "flag_Set (Flag_bool _) s = map_option Flag_bool (parse_bool s)"

text \<open>The name of a flag and the value after the first equals sign, if there is one.\<close>

definition split_value :: "string \<Rightarrow> string \<times> string option" where
  "split_value s =
     (let name = takeWhile (\<lambda>c. c \<noteq> CHR ''='') s in
      (name, if length name = length s then None else Some (drop (length name + 1) s)))"

fun flags_Parse :: "flag_set \<Rightarrow> string list \<Rightarrow> flag_error + flag_set \<times> string list" where
  "flags_Parse fs [] = Inr (fs, [])"
| "flags_Parse fs (s # args) =
     (if length s < 2 \<or> hd s \<noteq> CHR ''-'' then Inr (fs, s # args)
      else if s = ''--'' then Inr (fs, args)
      else let rest = (if s ! 1 = CHR ''-'' then drop 2 s else drop 1 s) in
        if rest = [] \<or> hd rest = CHR ''-'' \<or> hd rest = CHR ''='' then Inl Flag_bad
        else case split_value rest of (name, val) \<Rightarrow>
          (case map_of fs name of
             None \<Rightarrow> Inl (if name = ''help'' \<or> name = ''h'' then Flag_help else Flag_bad)
           | Some (Flag_bool b) \<Rightarrow>
               (case flag_Set (Flag_bool b) (case val of None \<Rightarrow> ''true'' | Some v \<Rightarrow> v) of
                  None \<Rightarrow> Inl Flag_bad
                | Some new \<Rightarrow> flags_Parse (AList.update name new fs) args)
           | Some old \<Rightarrow>
               (case (val, args) of
                  (Some v, _) \<Rightarrow>
                    (case flag_Set old v of None \<Rightarrow> Inl Flag_bad | Some new \<Rightarrow> flags_Parse (AList.update name new fs) args)
                | (None, v # args') \<Rightarrow>
                    (case flag_Set old v of None \<Rightarrow> Inl Flag_bad | Some new \<Rightarrow> flags_Parse (AList.update name new fs) args')
                | (None, []) \<Rightarrow> Inl Flag_bad)))"

definition string_flag :: "flag_set \<Rightarrow> string \<Rightarrow> string" where
  "string_flag fs name = (case map_of fs name of Some (Flag_string s) \<Rightarrow> s | _ \<Rightarrow> [])"

definition int_flag :: "flag_set \<Rightarrow> string \<Rightarrow> int64" where
  "int_flag fs name = (case map_of fs name of Some (Flag_int64 n) \<Rightarrow> n | _ \<Rightarrow> 0)"

definition bool_flag :: "flag_set \<Rightarrow> string \<Rightarrow> bool" where
  "bool_flag fs name = (case map_of fs name of Some (Flag_bool b) \<Rightarrow> b | _ \<Rightarrow> False)"

text \<open>The usual way to write a flag, two dashes and the value in the next argument, sets it.\<close>

lemma flags_Parse_value:
  assumes "name \<noteq> []" "hd name \<noteq> CHR ''-''" "CHR ''='' \<notin> set name" "map_of fs name = Some old" "\<And>b. old \<noteq> Flag_bool b"
  shows "flags_Parse fs ((''--'' @ name) # v # args) =
    (case flag_Set old v of None \<Rightarrow> Inl Flag_bad | Some new \<Rightarrow> flags_Parse (AList.update name new fs) args)"
proof -
  have whole: "takeWhile (\<lambda>c. c \<noteq> CHR ''='') name = name" unfolding takeWhile_eq_all_conv using assms(3) by auto
  have split: "split_value name = (name, None)" unfolding split_value_def by (simp only: Let_def whole refl if_True)
  have eq: "hd name \<noteq> CHR ''=''" using assms(1,3) by (cases name) auto
  let ?s = "''--'' @ name"
  have s: "\<not> (length ?s < 2 \<or> hd ?s \<noteq> CHR ''-'')" "?s \<noteq> ''--''" "?s ! 1 = CHR ''-''" "drop 2 ?s = name"
    using assms(1) by simp_all
  have step: "flags_Parse fs (?s # v # args) =
    (case flag_Set old v of None \<Rightarrow> Inl Flag_bad | Some new \<Rightarrow> flags_Parse (AList.update name new fs) args)"
    if "old = Flag_string x \<or> old = Flag_int64 y" for x y
    unfolding flags_Parse.simps(2) [of fs ?s] Let_def using assms(1,2,4) eq that
    by (elim disjE) (simp_all only: s split if_False if_True, simp_all add: split split: option.split)
  show ?thesis using step assms(5) by (cases old) blast+
qed

end
