(* ===== verification/Ctl.thy ===== *)
theory Ctl
  imports AuditKeyFiles ExportSize ApiKeys Flags Writer
begin

section \<open>The command line tool\<close>

text \<open>
  \<open>cmd/agentboxctl/main.go\<close>, \<open>cmd/gateway/main.go\<close> and \<open>internal/version\<close>. A run is a function from the arguments and the state of
  the world, the files, the two output streams and the tables, to the exit code and the new state. \<open>crypto\<close> holds the functions of
  the cryptographic libraries; \<open>environment\<close> what else a run meets: the clock, the random bytes, the time zone in which the driver
  reads times, which queries reach the database, and what fails while a file is written. \<open>pgxpool.New\<close> checks the connection string
  and connects later, so that \<open>env_pool\<close> accepts a string and the other fields of the environment say which queries succeed.
\<close>

record Info =
  inf_Version :: string
  inf_Commit :: string
  inf_BuildTime :: string

record crypto =
  cr_sha256 :: "bytes \<Rightarrow> digest"
  cr_hmac :: "bytes \<Rightarrow> bytes \<Rightarrow> digest"
  cr_keyFromSeed :: "bytes \<Rightarrow> bytes"
  cr_sign :: "bytes \<Rightarrow> bytes \<Rightarrow> bytes"
  cr_verify :: "bytes \<Rightarrow> bytes \<Rightarrow> bytes \<Rightarrow> bool"
  cr_pem_decode :: "bytes \<Rightarrow> (pem_block \<times> bytes) option"
  cr_parse_pkcs8 :: "bytes \<Rightarrow> parsed_key option"
  cr_parse_pkix :: "bytes \<Rightarrow> parsed_key option"

record environment =
  env_context :: go_context
  env_build :: Info
  env_pool :: "bytes \<Rightarrow> bool"
  env_now :: int
  env_database_now :: int
  env_random :: bytes
  env_location :: local_time
  env_plan :: write_plan
  env_head :: bool
  env_load :: bool
  env_records :: bool
  env_store :: delivery
  env_disable :: delivery
  env_key_fault :: key_fault

record world =
  w_files :: file_system
  w_stdout :: sink
  w_stderr :: sink
  w_audit :: audit_store
  w_checkpoints :: "checkpoint_row list"
  w_keys :: key_tables

definition maximumAuditExportBytes :: int64 where "maximumAuditExportBytes = 536870912"

subsection \<open>Output and flags\<close>

definition fail :: "int \<Rightarrow> string \<Rightarrow> world \<Rightarrow> int \<times> world" where
  "fail code message w = (code, w\<lparr>w_stderr := println message (w_stderr w)\<rparr>)"

text \<open>The last step of a command: the report on the standard output.\<close>

definition report :: "json \<Rightarrow> string \<Rightarrow> world \<Rightarrow> int \<times> world" where
  "report v message w =
     (case encode_line v (w_stdout w) of
        (True, out) \<Rightarrow> (0, w\<lparr>w_stdout := out\<rparr>)
      | (False, out) \<Rightarrow> fail 1 message (w\<lparr>w_stdout := out\<rparr>))"

text \<open>\<open>Parse\<close> without an error and without arguments left over.\<close>

definition parse_all :: "flag_set \<Rightarrow> string list \<Rightarrow> flag_set option" where
  "parse_all fs arguments = (case flags_Parse fs arguments of Inr (fs', []) \<Rightarrow> Some fs' | _ \<Rightarrow> None)"

definition Info_json :: "Info \<Rightarrow> json" where
  "Info_json i = JObject [(''version'', JString (inf_Version i)), (''commit'', JString (inf_Commit i)), (''build_time'', JString (inf_BuildTime i))]"

subsection \<open>Database connections\<close>

text \<open>The pool, when the file holds a usable connection string; \<open>NewRepository\<close> and \<open>NewPostgresAPIKeyStore\<close> accept any pool.\<close>

definition openPool :: "environment \<Rightarrow> string \<Rightarrow> world \<Rightarrow> bool" where
  "openPool env dsnPath w = (case readSecretFile dsnPath (w_files w) of None \<Rightarrow> False | Some dsn \<Rightarrow> env_pool env dsn)"

definition openAuditRepository :: "environment \<Rightarrow> string \<Rightarrow> world \<Rightarrow> bool" where
  "openAuditRepository = openPool"

definition openAPIKeyStore :: "environment \<Rightarrow> string \<Rightarrow> world \<Rightarrow> bool" where
  "openAPIKeyStore = openPool"

text \<open>Storing a checkpoint over a connection that may fail before or after the statement.\<close>

definition send_checkpoint :: "delivery \<Rightarrow> Checkpoint \<Rightarrow> audit_store \<Rightarrow> checkpoint_row list \<Rightarrow> bool \<times> checkpoint_row list" where
  "send_checkpoint d checkpoint st cks =
     (case (d, StoreCheckpoint True checkpoint st cks) of
        (Delivered, Inr cks') \<Rightarrow> (True, cks')
      | (Lost_after, Inr cks') \<Rightarrow> (False, cks')
      | _ \<Rightarrow> (False, cks))"

subsection \<open>Checkpoints\<close>

definition runCheckpoint :: "crypto \<Rightarrow> environment \<Rightarrow> string list \<Rightarrow> world \<Rightarrow> int \<times> world" where
  "runCheckpoint cr env arguments w =
     (let message = ''checkpoint command failed'' in
      case parse_all [(''dsn-file'', Flag_string []), (''private-key-file'', Flag_string []), (''key-id'', Flag_string [])] arguments of
        None \<Rightarrow> fail 1 message w
      | Some flags \<Rightarrow>
          let dsnPath = string_flag flags ''dsn-file''; privateKeyPath = string_flag flags ''private-key-file''; keyID = string_flag flags ''key-id'' in
          if dsnPath = [] \<or> privateKeyPath = [] \<or> keyID = [] then fail 1 message w
          else let w = w\<lparr>w_stderr := println ''WARNING: file-based checkpoint signing does not protect against host administrators'' (w_stderr w)\<rparr> in
            case LoadEd25519SignerFile (cr_keyFromSeed cr) (cr_pem_decode cr) (cr_parse_pkcs8 cr) keyID privateKeyPath (w_files w) of
              Inl _ \<Rightarrow> fail 1 message w
            | Inr signer \<Rightarrow>
                if \<not> openAuditRepository env dsnPath w then fail 1 message w
                else case repository_ChainHead (env_head env) (w_audit w) of
                    Inl _ \<Rightarrow> fail 1 message w
                  | Inr h \<Rightarrow>
                      case CreateCheckpoint (cr_sign cr) (env_context env) (ch_Sequence h) (ch_EventHash h)
                          (time_Truncate \<lparr>t_nanos = env_now env, t_loc = UTC\<rparr> 1000) (Some signer) of
                        Inl _ \<Rightarrow> fail 1 message w
                      | Inr checkpoint \<Rightarrow>
                          case send_checkpoint (env_store env) checkpoint (w_audit w) (w_checkpoints w) of
                            (False, cks) \<Rightarrow> fail 1 message (w\<lparr>w_checkpoints := cks\<rparr>)
                          | (True, cks) \<Rightarrow>
                              report (JObject [(''sequence'', json_int64 (cp_Sequence checkpoint)),
                                  (''signing_key_id'', JString (cp_SigningKeyID checkpoint))]) message (w\<lparr>w_checkpoints := cks\<rparr>))"

subsection \<open>Export\<close>

definition runExport :: "crypto \<Rightarrow> environment \<Rightarrow> string list \<Rightarrow> world \<Rightarrow> int \<times> world" where
  "runExport cr env arguments w =
     (let message = ''audit export failed'' in
      case parse_all [(''dsn-file'', Flag_string []), (''sequence'', Flag_int64 0), (''output'', Flag_string [])] arguments of
        None \<Rightarrow> fail 1 message w
      | Some flags \<Rightarrow>
          let dsnPath = string_flag flags ''dsn-file''; sequence = int_flag flags ''sequence''; outputPath = string_flag flags ''output'' in
          if dsnPath = [] \<or> sequence \<le>s 0 \<or> outputPath = [] then fail 1 message w
          else if \<not> openAuditRepository env dsnPath w then fail 1 message w
          else case LoadCheckpoint (env_load env) sequence (w_checkpoints w) of
              Inl _ \<Rightarrow> fail 1 message w
            | Inr checkpoint \<Rightarrow>
                case RecordsThrough (cr_sha256 cr) (env_records env) (env_location env) sequence (w_audit w) of
                  Inl _ \<Rightarrow> fail 1 message w
                | Inr records \<Rightarrow>
                    case MarshalExport (cr_sha256 cr) records checkpoint of
                      Inl _ \<Rightarrow> fail 1 message w
                    | Inr exported \<Rightarrow>
                        case writeExclusiveFile (env_plan env) outputPath exported (w_files w) of
                          (False, files) \<Rightarrow> fail 1 message (w\<lparr>w_files := files\<rparr>)
                        | (True, files) \<Rightarrow>
                            report (JObject [(''sequence'', json_int64 sequence), (''exported'', JBool True)]) message (w\<lparr>w_files := files\<rparr>))"

subsection \<open>Verification\<close>

definition runVerify :: "crypto \<Rightarrow> environment \<Rightarrow> string list \<Rightarrow> world \<Rightarrow> int \<times> world" where
  "runVerify cr env arguments w =
     (let message = ''audit verification failed'' in
      case parse_all [(''input'', Flag_string []), (''public-key-file'', Flag_string []), (''key-id'', Flag_string [])] arguments of
        None \<Rightarrow> fail 1 message w
      | Some flags \<Rightarrow>
          let inputPath = string_flag flags ''input''; publicKeyPath = string_flag flags ''public-key-file''; keyID = string_flag flags ''key-id'' in
          if inputPath = [] \<or> publicKeyPath = [] \<or> keyID = [] then fail 1 message w
          else if env_context env = Done_context then fail 1 message w
          else case LoadCheckpointVerificationKeyFile (cr_pem_decode cr) (cr_parse_pkix cr) keyID publicKeyPath (w_files w) of
              Inl _ \<Rightarrow> fail 1 message w
            | Inr verificationKey \<Rightarrow>
                case readBoundedRegularFile inputPath maximumAuditExportBytes (w_files w) of
                  None \<Rightarrow> fail 1 message w
                | Some exported \<Rightarrow>
                    case VerifyExport (cr_sha256 cr) (cr_verify cr) exported verificationKey of
                      None \<Rightarrow> report (JObject [(''valid'', JBool True)]) message w
                    | Some (VerificationError sequence) \<Rightarrow>
                        if 0 <s sequence then
                          (case encode_line (JObject [(''valid'', JBool False), (''first_affected_sequence'', json_int64 sequence)]) (w_stderr w) of
                             (True, err) \<Rightarrow> (1, w\<lparr>w_stderr := err\<rparr>)
                           | (False, err) \<Rightarrow> fail 1 message (w\<lparr>w_stderr := err\<rparr>))
                        else fail 1 message w
                    | Some _ \<Rightarrow> fail 1 message w)"

subsection \<open>API keys\<close>

definition api_key_json :: "string \<Rightarrow> string \<Rightarrow> go_time \<Rightarrow> json" where
  "api_key_json keyID bearer expiresAt = JObject [(''key_id'', JString keyID), (''bearer'', JString bearer),
     (''expires_at'', JString (format_rfc3339nano expiresAt))]"

definition createAndPublishAPIKey :: "crypto \<Rightarrow> environment \<Rightarrow> string \<Rightarrow> go_time \<Rightarrow> key_tables \<Rightarrow> sink \<Rightarrow> admin_error option \<times> key_tables \<times> sink" where
  "createAndPublishAPIKey cr env principalID expiresAt =
     CreateAndPublishAPIKey (cr_hmac cr) True (env_key_fault env) (env_database_now env) (env_random env) principalID expiresAt
       (\<lambda>keyID bearer. encode_line (api_key_json keyID bearer expiresAt))"

definition runAPIKeyCreate :: "crypto \<Rightarrow> environment \<Rightarrow> string list \<Rightarrow> world \<Rightarrow> int \<times> world" where
  "runAPIKeyCreate cr env arguments w =
     (let message = ''API key creation failed'' in
      case parse_all [(''dsn-file'', Flag_string []), (''principal-id'', Flag_string []), (''expires-at'', Flag_string [])] arguments of
        None \<Rightarrow> fail 1 message w
      | Some flags \<Rightarrow>
          let dsnPath = string_flag flags ''dsn-file''; principalID = string_flag flags ''principal-id''; expiresAtText = string_flag flags ''expires-at'' in
          if dsnPath = [] \<or> principalID = [] \<or> expiresAtText = [] then fail 1 message w
          else case parse_rfc3339_utc expiresAtText of
              None \<Rightarrow> fail 1 message w
            | Some expiresAt \<Rightarrow>
                if time_Year expiresAt < 1 \<or> time_Year expiresAt > 9999 \<or> time_Nanosecond expiresAt mod 1000 \<noteq> 0 then fail 1 message w
                else if \<not> openAPIKeyStore env dsnPath w then fail 1 message w
                else case createAndPublishAPIKey cr env principalID expiresAt (w_keys w) (w_stdout w) of
                    (Some _, keys, out) \<Rightarrow> fail 1 message (w\<lparr>w_keys := keys, w_stdout := out\<rparr>)
                  | (None, keys, out) \<Rightarrow> (0, w\<lparr>w_keys := keys, w_stdout := out\<rparr>))"

definition writeAPIKeyDisableConfirmation :: "string \<Rightarrow> sink \<Rightarrow> bool \<times> sink" where
  "writeAPIKeyDisableConfirmation keyID = encode_line (JObject [(''key_id'', JString keyID), (''disabled'', JBool True)])"

definition runAPIKeyDisable :: "environment \<Rightarrow> string list \<Rightarrow> world \<Rightarrow> int \<times> world" where
  "runAPIKeyDisable env arguments w =
     (let message = ''API key disable failed'' in
      case parse_all [(''dsn-file'', Flag_string []), (''key-id'', Flag_string [])] arguments of
        None \<Rightarrow> fail 1 message w
      | Some flags \<Rightarrow>
          let dsnPath = string_flag flags ''dsn-file''; keyID = string_flag flags ''key-id'' in
          if dsnPath = [] \<or> keyID = [] then fail 1 message w
          else if \<not> openAPIKeyStore env dsnPath w then fail 1 message w
          else case DisableAPIKey True (env_disable env) (env_database_now env) keyID (w_keys w) of
              (Some _, keys) \<Rightarrow> fail 1 message (w\<lparr>w_keys := keys\<rparr>)
            | (None, keys) \<Rightarrow>
                (case writeAPIKeyDisableConfirmation keyID (w_stdout w) of
                   (True, out) \<Rightarrow> (0, w\<lparr>w_keys := keys, w_stdout := out\<rparr>)
                 | (False, out) \<Rightarrow> fail 1 message (w\<lparr>w_keys := keys, w_stdout := out\<rparr>)))"

definition runAPIKey :: "crypto \<Rightarrow> environment \<Rightarrow> string list \<Rightarrow> world \<Rightarrow> int \<times> world" where
  "runAPIKey cr env arguments w =
     (case arguments of
        [] \<Rightarrow> fail 1 ''API key command failed'' w
      | command # rest \<Rightarrow>
          if command = ''create'' then runAPIKeyCreate cr env rest w
          else if command = ''disable'' then runAPIKeyDisable env rest w
          else fail 1 ''API key command failed'' w)"

subsection \<open>Dispatch\<close>

definition run :: "crypto \<Rightarrow> environment \<Rightarrow> string list \<Rightarrow> world \<Rightarrow> int \<times> world" where
  "run cr env arguments w =
     (if arguments = [''--version''] then report (Info_json (env_build env)) ''failed to encode build metadata'' w
      else case arguments of
          [] \<Rightarrow> fail 2 ''agentboxctl command required'' w
        | command # rest \<Rightarrow>
            if command = ''checkpoint'' then runCheckpoint cr env rest w
            else if command = ''export'' then runExport cr env rest w
            else if command = ''verify'' then runVerify cr env rest w
            else if command = ''api-key'' then runAPIKey cr env rest w
            else fail 2 ''unknown agentboxctl command'' w)"

text \<open>
  The gateway's main function. The flag package reports a bad flag on its own, with a text that is the parameter \<open>complaint\<close>, and
  ends the process with code 0 for \<open>-h\<close> and \<open>--help\<close> and 2 otherwise.
\<close>

definition gateway_main :: "(flag_error \<Rightarrow> string) \<Rightarrow> Info \<Rightarrow> string list \<Rightarrow> sink \<Rightarrow> sink \<Rightarrow> int \<times> sink \<times> sink" where
  "gateway_main complaint build arguments out err =
     (case flags_Parse [(''version'', Flag_bool False), (''config'', Flag_string [])] arguments of
        Inl e \<Rightarrow> (if e = Flag_help then 0 else 2, out, snd (sink_Write (complaint e) err))
      | Inr (flags, _) \<Rightarrow>
          if bool_flag flags ''version'' then
            (case encode_line (Info_json build) out of
               (True, out) \<Rightarrow> (0, out, err)
             | (False, out) \<Rightarrow> (1, out, println ''failed to encode build metadata'' err))
          else if string_flag flags ''config'' \<noteq> [] then
            (2, out, println ''gateway process bootstrap is not fully wired; use internal/api tests for the vertical slice'' err)
          else (2, out, println ''usage: gateway --version | --config PATH'' err))"

end
