(* ===== verification/Canary.thy ===== *)
theory Canary
  imports JsonRoundtrip GoText "HOL-Library.Sublist"
begin

section \<open>Canary sweep\<close>

text \<open>
  \<open>tests/canary/sweep.go\<close>: random markers that are sent through the gateway, and the search for them in texts and in the files of a
  directory. \<open>strings.ToLower\<close>, \<open>filepath.Ext\<close> and \<open>filepath.Join\<close> are parameters. A directory tree gives for every file the size \<open>Lstat\<close> reports and
  what \<open>ReadFile\<close> returns; the map of hits is the list of its
  entries in the order in which they are added (the paths of a walk are different); entries are in the order of their names, as \<open>filepath.Walk\<close> visits them.
\<close>

subsection \<open>Markers\<close>

record Canaries =
  cn_Prompt :: string
  cn_Response :: string
  cn_APIKey :: string
  cn_JWTClaim :: string
  cn_Malformed :: string
  cn_BackendError :: string

text \<open>One marker from the next 24 random bytes.\<close>

definition make_canary :: "string \<Rightarrow> bytes \<Rightarrow> (string \<times> bytes) option" where
  "make_canary label random =
     (if length random < 24 then None else Some (''CANARY-'' @ label @ ''-'' @ hex_encode (take 24 random), drop 24 random))"

definition NewCanaries :: "bytes \<Rightarrow> Canaries option" where
  "NewCanaries r0 =
     (case make_canary ''PROMPT'' r0 of None \<Rightarrow> None | Some (prompt, r1) \<Rightarrow>
      case make_canary ''RESPONSE'' r1 of None \<Rightarrow> None | Some (response, r2) \<Rightarrow>
      case make_canary ''APIKEY'' r2 of None \<Rightarrow> None | Some (apiKey, r3) \<Rightarrow>
      case make_canary ''JWTCLAIM'' r3 of None \<Rightarrow> None | Some (jwtClaim, r4) \<Rightarrow>
      case make_canary ''MALFORMED'' r4 of None \<Rightarrow> None | Some (malformed, r5) \<Rightarrow>
      case make_canary ''BACKENDERR'' r5 of None \<Rightarrow> None | Some (backendError, _) \<Rightarrow>
        Some \<lparr>cn_Prompt = prompt, cn_Response = response, cn_APIKey = apiKey, cn_JWTClaim = jwtClaim, cn_Malformed = malformed,
          cn_BackendError = backendError\<rparr>)"

definition canaries_All :: "Canaries \<Rightarrow> string list" where
  "canaries_All c = [cn_Prompt c, cn_Response c, cn_APIKey c, cn_JWTClaim c, cn_Malformed c, cn_BackendError c]"

subsection \<open>Reports\<close>

record Report =
  rp_PathsExercised :: "string list"
  rp_Locations :: "string list"
  rp_Encodings :: "string list"
  rp_Canaries :: "string list"
  rp_Findings :: "string list"

definition ValidWording :: string where
  "ValidWording = ''No tested canary was detected in the enumerated persistence locations.''"

definition NoteFinding :: "Report \<Rightarrow> string \<Rightarrow> string \<Rightarrow> Report" where
  "NoteFinding r location canary = r\<lparr>rp_Findings := rp_Findings r @ [location @ '' contains canary '' @ canary]\<rparr>"

definition AddLocation :: "Report \<Rightarrow> string \<Rightarrow> Report" where
  "AddLocation r name = r\<lparr>rp_Locations := rp_Locations r @ [name]\<rparr>"

definition DefaultEncodings :: "string list" where
  "DefaultEncodings = [''utf-8 exact substring'', ''utf-8 case-folded substring'']"

subsection \<open>Searching\<close>

definition SearchText :: "(string \<Rightarrow> string) \<Rightarrow> string \<Rightarrow> string list \<Rightarrow> string list" where
  "SearchText to_lower text canaries =
     filter (\<lambda>canary. canary \<noteq> [] \<and> (sublist canary text \<or> sublist (to_lower canary) (to_lower text))) canaries"

definition SearchBytes :: "(string \<Rightarrow> string) \<Rightarrow> bytes \<Rightarrow> string list \<Rightarrow> string list" where
  "SearchBytes to_lower data canaries = (if data = [] then [] else SearchText to_lower data canaries)"

definition looksBinary :: "bytes \<Rightarrow> bool" where
  "looksBinary raw \<longleftrightarrow> CHR 0x00 \<in> set (take 512 raw)"

datatype tree = File int64 "bytes option" | Directory "(string \<times> tree) list" | Unreadable_directory | Gone

datatype signal = Go_on | Skip_all | Walk_failed

definition skipped_extensions :: "string list" where
  "skipped_extensions = [''.png'', ''.jpg'', ''.jpeg'', ''.gif'', ''.woff'', ''.woff2'', ''.exe'', ''.so'', ''.dylib'']"

type_synonym sweep = "(string \<times> string list) list \<times> int64"

definition visit_file ::
  "(string \<Rightarrow> string) \<Rightarrow> (string \<Rightarrow> string) \<Rightarrow> string list \<Rightarrow> int64 \<Rightarrow> string \<Rightarrow> int64 \<Rightarrow> bytes option \<Rightarrow> sweep \<Rightarrow> signal \<times> sweep" where
  "visit_file to_lower ext canaries maxFiles path bytes_size content st =
     (case st of (hits, filesScanned) \<Rightarrow>
        if 0 <s maxFiles \<and> maxFiles \<le>s filesScanned then (Skip_all, st)
        else if to_lower (ext path) \<in> set skipped_extensions then (Go_on, st)
        else if 8388608 <s bytes_size then (Go_on, st)
        else case content of
            None \<Rightarrow> (Go_on, st)
          | Some raw \<Rightarrow>
              if \<not> utf8_valid raw \<and> looksBinary raw then (Go_on, st)
              else (case SearchBytes to_lower raw canaries of
                  [] \<Rightarrow> (Go_on, hits, filesScanned + 1)
                | found \<Rightarrow> (Go_on, hits @ [(path, found)], filesScanned + 1)))"

text \<open>\<open>filepath.Walk\<close> with the function of \<open>SearchDir\<close>: an entry that cannot be inspected ends the walk with its error.\<close>

fun walk :: "(string \<Rightarrow> string \<Rightarrow> string) \<Rightarrow> (string \<Rightarrow> int64 \<Rightarrow> bytes option \<Rightarrow> sweep \<Rightarrow> signal \<times> sweep) \<Rightarrow> string \<Rightarrow> tree \<Rightarrow> sweep \<Rightarrow> signal \<times> sweep"
and walk_entries :: "(string \<Rightarrow> string \<Rightarrow> string) \<Rightarrow> (string \<Rightarrow> int64 \<Rightarrow> bytes option \<Rightarrow> sweep \<Rightarrow> signal \<times> sweep) \<Rightarrow> string \<Rightarrow> (string \<times> tree) list \<Rightarrow> sweep \<Rightarrow> signal \<times> sweep"
where
  "walk join visit path (File bytes_size content) st = visit path bytes_size content st"
| "walk join visit path (Directory entries) st = walk_entries join visit path entries st"
| "walk join visit path Unreadable_directory st = (Walk_failed, st)"
| "walk join visit path Gone st = (Walk_failed, st)"
| "walk_entries join visit path [] st = (Go_on, st)"
| "walk_entries join visit path ((name, node) # entries) st =
     (case walk join visit (join path name) node st of
        (Go_on, st') \<Rightarrow> walk_entries join visit path entries st'
      | stopped \<Rightarrow> stopped)"

definition SearchDir ::
  "(string \<Rightarrow> string) \<Rightarrow> (string \<Rightarrow> string) \<Rightarrow> (string \<Rightarrow> string \<Rightarrow> string) \<Rightarrow> string \<Rightarrow> tree \<Rightarrow> string list \<Rightarrow> int64 \<Rightarrow> bool \<times> sweep" where
  "SearchDir to_lower ext join root node canaries maxFiles =
     (if root = [] then (True, [], 0)
      else case walk join (visit_file to_lower ext canaries maxFiles) root node ([], 0) of (result, st) \<Rightarrow> (result \<noteq> Walk_failed, st))"

subsection \<open>What a sweep finds\<close>

text \<open>The files of a tree with their paths.\<close>

fun files_of :: "(string \<Rightarrow> string \<Rightarrow> string) \<Rightarrow> string \<Rightarrow> tree \<Rightarrow> (string \<times> int64 \<times> bytes option) list"
and files_of_entries :: "(string \<Rightarrow> string \<Rightarrow> string) \<Rightarrow> string \<Rightarrow> (string \<times> tree) list \<Rightarrow> (string \<times> int64 \<times> bytes option) list"
where
  "files_of join path (File bytes_size content) = [(path, bytes_size, content)]"
| "files_of join path (Directory entries) = files_of_entries join path entries"
| "files_of join path Unreadable_directory = []"
| "files_of join path Gone = []"
| "files_of_entries join path [] = []"
| "files_of_entries join path ((name, node) # entries) = files_of join (join path name) node @ files_of_entries join path entries"

text \<open>What one file contributes to the hits when it is within the limits.\<close>

definition file_hits :: "(string \<Rightarrow> string) \<Rightarrow> (string \<Rightarrow> string) \<Rightarrow> string list \<Rightarrow> string \<times> int64 \<times> bytes option \<Rightarrow> (string \<times> string list) list" where
  "file_hits to_lower ext canaries f =
     (case f of (path, bytes_size, content) \<Rightarrow>
        if to_lower (ext path) \<in> set skipped_extensions \<or> 8388608 <s bytes_size then []
        else case content of None \<Rightarrow> []
          | Some raw \<Rightarrow> if \<not> utf8_valid raw \<and> looksBinary raw \<or> SearchBytes to_lower raw canaries = [] then []
              else [(path, SearchBytes to_lower raw canaries)])"

lemma visit_file_hits:
  "visit_file to_lower ext canaries maxFiles path bytes_size content st = (Go_on, st') \<Longrightarrow>
     fst st' = fst st @ file_hits to_lower ext canaries (path, bytes_size, content)"
  by (auto simp: visit_file_def file_hits_def split: prod.splits if_splits option.splits list.splits)

definition collects :: "(string \<Rightarrow> int64 \<Rightarrow> bytes option \<Rightarrow> sweep \<Rightarrow> signal \<times> sweep) \<Rightarrow>
    (string \<times> int64 \<times> bytes option \<Rightarrow> (string \<times> string list) list) \<Rightarrow> bool" where
  "collects visit h \<longleftrightarrow> (\<forall>path bytes_size content st st'. visit path bytes_size content st = (Go_on, st') \<longrightarrow>
     fst st' = fst st @ h (path, bytes_size, content))"

lemma collects_visit_file: "collects (visit_file to_lower ext canaries maxFiles) (file_hits to_lower ext canaries)"
  using visit_file_hits unfolding collects_def by blast

lemma walk_entries_Go_on:
  "walk_entries join visit path ((name, node) # entries) st = (Go_on, st') \<longleftrightarrow>
     (\<exists>st1. walk join visit (join path name) node st = (Go_on, st1) \<and> walk_entries join visit path entries st1 = (Go_on, st'))"
  by (cases "walk join visit (join path name) node st") (auto split: signal.splits)

lemma walk_hits:
  "collects visit h \<Longrightarrow> walk join visit path node st = (Go_on, st') \<Longrightarrow> fst st' = fst st @ concat (map h (files_of join path node))"
  "collects visit h \<Longrightarrow> walk_entries join visit path entries st = (Go_on, st') \<Longrightarrow>
     fst st' = fst st @ concat (map h (files_of_entries join path entries))"
proof (induction join visit path node st and join visit path entries st arbitrary: st' and st' rule: walk_walk_entries.induct)
  case (1 join visit path bytes_size content st)
  then show ?case unfolding collects_def by (metis (no_types) concat.simps files_of.simps(1) append_Nil2 list.map walk.simps(1))
next
  case (6 join visit path name node entries st)
  from "6.prems"(2) obtain st1 where first: "walk join visit (join path name) node st = (Go_on, st1)"
    and rest: "walk_entries join visit path entries st1 = (Go_on, st')" unfolding walk_entries_Go_on by blast
  show ?case using "6.IH"(1) [OF "6.prems"(1) first] "6.IH"(2) [OF first [symmetric] refl "6.prems"(1) rest] by simp
qed simp_all

text \<open>Without a limit on the number of files the walk is not cut short: it reads every file or reports the entry it could not inspect.\<close>

definition never_skips :: "(string \<Rightarrow> int64 \<Rightarrow> bytes option \<Rightarrow> sweep \<Rightarrow> signal \<times> sweep) \<Rightarrow> bool" where
  "never_skips visit \<longleftrightarrow> (\<forall>path bytes_size content st. fst (visit path bytes_size content st) = Go_on)"

lemma visit_file_unlimited:
  assumes "maxFiles \<le>s 0"
  shows "never_skips (visit_file to_lower ext canaries maxFiles)"
proof -
  have "\<not> 0 <s maxFiles" using assms by (simp add: word_sless_alt word_sle_eq)
  then show ?thesis by (simp add: never_skips_def visit_file_def split: prod.split option.split list.split)
qed

lemma walk_never_skips:
  "never_skips visit \<Longrightarrow> fst (walk join visit path node st) \<noteq> Skip_all"
  "never_skips visit \<Longrightarrow> fst (walk_entries join visit path entries st) \<noteq> Skip_all"
proof (induction join visit path node st and join visit path entries st rule: walk_walk_entries.induct)
  case (6 join visit path name node entries st)
  show ?case using "6.IH"(1) [OF "6.prems"] "6.IH"(2) [OF _ _ "6.prems"]
    by (cases "walk join visit (join path name) node st"; cases "fst (walk join visit (join path name) node st)") simp_all
next
  case (1 join visit path bytes_size content st)
  then show ?case unfolding never_skips_def by (metis signal.distinct(1) walk.simps(1))
qed simp_all

lemma SearchText_set:
  "canary \<in> set (SearchText to_lower t canaries) \<longleftrightarrow>
     canary \<in> set canaries \<and> canary \<noteq> [] \<and> (sublist canary t \<or> sublist (to_lower canary) (to_lower t))"
  by (auto simp: SearchText_def)

text \<open>A sweep without a limit that ends without an error reports for every file exactly the markers found in it.\<close>

theorem sweep_complete:
  assumes "SearchDir to_lower ext join root node canaries maxFiles = (True, hits, n)" and "root \<noteq> []" and "maxFiles \<le>s 0"
  shows "hits = concat (map (file_hits to_lower ext canaries) (files_of join root node))"
proof -
  obtain r st where w: "walk join (visit_file to_lower ext canaries maxFiles) root node ([], 0) = (r, st)"
    by (meson surj_pair)
  have "r \<noteq> Skip_all" using walk_never_skips(1) [OF visit_file_unlimited [OF assms(3)], where node = node and path = root and join = join and st = "([], 0)"] w by (metis fst_conv)
  moreover have "r \<noteq> Walk_failed" and st: "st = (hits, n)" using assms(1,2) w by (auto simp: SearchDir_def)
  ultimately have "r = Go_on" by (cases r) auto
  with w have "walk join (visit_file to_lower ext canaries maxFiles) root node ([], 0) = (Go_on, st)" by simp
  from walk_hits(1) [OF collects_visit_file this] st show ?thesis by simp
qed

text \<open>A planted marker is reported: a readable text file within the size limit that contains it is in the hits.\<close>

corollary planted_marker_reported:
  assumes "SearchDir to_lower ext join root node canaries maxFiles = (True, hits, n)" and "root \<noteq> []" and "maxFiles \<le>s 0"
    and "(path, bytes_size, Some raw) \<in> set (files_of join root node)" and "to_lower (ext path) \<notin> set skipped_extensions"
    and "bytes_size \<le>s 8388608" and "utf8_valid raw" and "canary \<in> set canaries" and "canary \<noteq> []" and "sublist canary raw"
  shows "\<exists>found. (path, found) \<in> set hits \<and> canary \<in> set found"
proof -
  have size_ok: "\<not> 8388608 <s bytes_size" using assms(6) by (simp add: word_sless_alt word_sle_eq)
  have "canary \<in> set (SearchBytes to_lower raw canaries)"
    using assms(8-10) by (auto simp: SearchBytes_def SearchText_set)
  then have "file_hits to_lower ext canaries (path, bytes_size, Some raw) = [(path, SearchBytes to_lower raw canaries)]"
    using assms(5,7) size_ok by (auto simp: file_hits_def)
  with assms(4) sweep_complete [OF assms(1-3)] \<open>canary \<in> set (SearchBytes to_lower raw canaries)\<close> show ?thesis by force
qed

text \<open>The six markers of a run are pairwise different, whatever the random bytes.\<close>

lemma make_canary_Some: "make_canary label random = Some (m, rest) \<Longrightarrow> \<exists>x. m = ''CANARY-'' @ label @ ''-'' @ x"
  by (auto simp: make_canary_def split: if_splits)

lemma NewCanaries_distinct:
  assumes "NewCanaries random = Some c"
  shows "distinct (canaries_All c) \<and> [] \<notin> set (canaries_All c)"
proof -
  obtain x1 x2 x3 x4 x5 x6 where "c = \<lparr>cn_Prompt = ''CANARY-'' @ ''PROMPT'' @ ''-'' @ x1, cn_Response = ''CANARY-'' @ ''RESPONSE'' @ ''-'' @ x2,
      cn_APIKey = ''CANARY-'' @ ''APIKEY'' @ ''-'' @ x3, cn_JWTClaim = ''CANARY-'' @ ''JWTCLAIM'' @ ''-'' @ x4,
      cn_Malformed = ''CANARY-'' @ ''MALFORMED'' @ ''-'' @ x5, cn_BackendError = ''CANARY-'' @ ''BACKENDERR'' @ ''-'' @ x6\<rparr>"
    using assms unfolding NewCanaries_def
    by (auto split: option.splits prod.splits dest!: make_canary_Some)
  then show ?thesis by (simp add: canaries_All_def)
qed

end
