(* ===== verification/Pool.thy ===== *)
theory Pool
  imports Prelude
begin

section \<open>Database pool\<close>

text \<open>
  \<open>internal/store/postgres.go\<close>: opening the connection pool of the gateway. The driver is a parameter: parsing a connection string,
  setting a runtime parameter of a configuration, and creating, pinging and closing a pool, which change its world \<open>'w\<close>.
\<close>

record ('cfg, 'pool, 'w) pool_driver =
  drv_ParseConfig :: "string \<Rightarrow> 'cfg option"
  drv_set_RuntimeParam :: "string \<Rightarrow> string \<Rightarrow> 'cfg \<Rightarrow> 'cfg"
  drv_NewWithConfig :: "'cfg \<Rightarrow> 'w \<Rightarrow> 'pool option \<times> 'w"
  drv_Ping :: "'pool \<Rightarrow> 'w \<Rightarrow> bool \<times> 'w"
  drv_Close :: "'pool \<Rightarrow> 'w \<Rightarrow> 'w"

datatype connect_error = ErrConnect

fun connect_error_text :: "connect_error \<Rightarrow> string" where
  "connect_error_text ErrConnect = ''postgres connection failed''"

definition Open :: "('cfg, 'pool, 'w) pool_driver \<Rightarrow> string \<Rightarrow> 'w \<Rightarrow> (connect_error + 'pool) \<times> 'w" where
  "Open drv dsn w =
     (case drv_ParseConfig drv dsn of
        None \<Rightarrow> (Inl ErrConnect, w)
      | Some config0 \<Rightarrow>
          let config = drv_set_RuntimeParam drv ''application_name'' ''compliantai-gateway'' config0 in
          (case drv_NewWithConfig drv config w of
             (None, w1) \<Rightarrow> (Inl ErrConnect, w1)
           | (Some pool, w1) \<Rightarrow>
               (case drv_Ping drv pool w1 of
                  (False, w2) \<Rightarrow> (Inl ErrConnect, drv_Close drv pool w2)
                | (True, w2) \<Rightarrow> (Inr pool, w2))))"

text \<open>What the driver documents about the pools that are open in a world.\<close>

definition driver_contract :: "('cfg, 'pool, 'w) pool_driver \<Rightarrow> ('w \<Rightarrow> 'pool set) \<Rightarrow> bool" where
  "driver_contract drv live \<longleftrightarrow>
     (\<forall>config w w'. drv_NewWithConfig drv config w = (None, w') \<longrightarrow> live w' = live w) \<and>
     (\<forall>config w pool w'. drv_NewWithConfig drv config w = (Some pool, w') \<longrightarrow> pool \<notin> live w \<and> live w' = insert pool (live w)) \<and>
     (\<forall>pool w. live (snd (drv_Ping drv pool w)) = live w) \<and>
     (\<forall>pool w. live (drv_Close drv pool w) = live w - {pool})"

text \<open>A failed opening leaves no pool behind, a successful one leaves the new pool, which answered a ping.\<close>

lemma Open_leaves_no_pool:
  assumes "driver_contract drv live" and "Open drv dsn w = (result, w')"
  shows "case result of Inl _ \<Rightarrow> live w' = live w | Inr pool \<Rightarrow> pool \<notin> live w \<and> live w' = insert pool (live w)"
proof (cases "drv_ParseConfig drv dsn")
  case None
  then show ?thesis using assms(2) by (auto simp: Open_def)
next
  case (Some config0)
  define config where "config = drv_set_RuntimeParam drv ''application_name'' ''compliantai-gateway'' config0"
  obtain created w1 where new: "drv_NewWithConfig drv config w = (created, w1)" by fastforce
  show ?thesis
  proof (cases created)
    case None
    then show ?thesis using assms Some new by (auto simp: Open_def config_def [symmetric] driver_contract_def)
  next
    case (Some pool)
    obtain ok w2 where ping: "drv_Ping drv pool w1 = (ok, w2)" by fastforce
    have "live w2 = live w1" using assms(1) ping unfolding driver_contract_def by (metis snd_conv)
    moreover have "pool \<notin> live w" "live w1 = insert pool (live w)" "live (drv_Close drv pool w2) = live w2 - {pool}"
      using assms(1) new Some unfolding driver_contract_def by blast+
    ultimately show ?thesis using assms(2) \<open>drv_ParseConfig drv dsn = Some config0\<close> new Some ping
      by (cases ok) (auto simp: Open_def config_def [symmetric])
  qed
qed

end
