(* ===== verification/Spec2Isabelle.thy ===== *)
theory Spec2Isabelle
  imports Spending Config JwksCache Oidc SafeLog CtlRuns Canary Pool
begin

text \<open>
  The CompliantAI gateway (package \<open>github.com/raphbaph/CompliantAI\<close>): an on-premises gateway in front of an OpenAI-compatible
  inference server. It authenticates a caller, applies a default-deny policy, classifies the content, reserves budget, records an
  audit event, calls the backend, settles the budget and records the outcome. Events form a hash chain whose head an operator
  signs; \<open>agentboxctl\<close> exports and verifies the chain. The theories model the Go code under \<open>internal\<close>, \<open>cmd\<close> and \<open>tests/canary\<close>,
  and the tables and stored procedures of \<open>migrations\<close> it calls.

  How the program is put together. \<open>api.Server\<close> (Server) gets its collaborators injected: an authenticator (ApiKeys, Oidc), the
  policy engine (Policy), the detector (Detect), the budget service (BudgetService) with the prices (Price), the audit repository
  (AuditRepository), the content digester (AuditChain) and the backend client (Backend). In \<open>Dependencies\<close> each is a function that
  takes and returns a state \<open>'w\<close>, so that theorems about a handler hold for every behaviour of the collaborators, failing ones
  included; Gateway and Spending then put
  the modelled audit repository and the modelled budget service behind the handler. Go values map as follows: \<open>int64\<close> and
  \<open>uint64\<close> are 64-bit words, \<open>string\<close> and \<open>[]byte\<close> are lists of bytes, a slice that may be nil is an option, structs are records,
  an error is the left side of a sum, a map is a finite map or the list of its entries where an order is observable, and
  \<open>time.Time\<close> is a count of nanoseconds with a zone offset (GoTime).

  Theories, from the bottom:
  \<^item> Prelude: results, nil-able slices, identifier patterns as predicates, duplicate checks, sorting, signed 64-bit arithmetic.
  \<^item> Encoding, Base64, Digest: \<open>encoding/hex\<close>, \<open>encoding/base64\<close> and fixed-size digests. The locale \<open>text_codec\<close> states what an encoder
    and a lenient decoder promise and is interpreted on all three codecs.
  \<^item> Json, JsonParse, JsonRoundtrip, JsonWire: \<open>json.Marshal\<close> and \<open>json.Decoder\<close> as the source uses them, and that decoding inverts
    encoding. GoTime, TimeText: instants, RFC 3339 text and its parser. GoText, Regex, Flags, Files, Writer: what the source uses of
    \<open>strings\<close>, \<open>strconv\<close>, \<open>regexp\<close>, \<open>flag\<close>, \<open>os\<close> and \<open>io\<close>.
  \<^item> Policy (\<open>internal/policy\<close>): \<open>NewEngine\<close>, \<open>Evaluate\<close> and the digest. Lemmas: which documents are accepted, the decision in terms
    of the document, and that the digest commits to the policy.
  \<^item> Price (\<open>internal/budget/price.go\<close>): checked arithmetic and the two cost functions, exact with respect to unbounded integers.
  \<^item> Calendar, BudgetStore, BudgetLedger, BudgetService (\<open>internal/budget\<close>, migrations 000003 and 000012): the account and
    reservation tables, the procedures \<open>reserve_budget\<close>, \<open>settle_budget\<close>, \<open>expire_budget_reservations\<close> and
    \<open>budget_roll_periods\<close>, and the Go service that calls them through a driver that may lose replies. The locales \<open>period\<close> and
    \<open>period_grid\<close> hold the window arithmetic once for days and months. BudgetContract: the locale \<open>budget_contract\<close>, what the handler
    relies on, provided by the service under any schedule of other clients, waiting times and lost messages.
  \<^item> AuditEvent, AuditChain, AuditStore, AuditRepository, AuditLiveness, AuditSchedule (\<open>internal/audit\<close>, migrations 000004 to 000009):
    events and their canonical bytes, the hash chain and its verifier, the tables with their triggers, \<open>Append\<close>, \<open>Records\<close>, \<open>Verify\<close>.
    Code sets and count map of an event may be nil; \<open>Validate\<close> and the encoding read nil as empty, the columns hold it as NULL and the
    procedure refuses NULL. Rows are read back in the local time of the reader, whose offset may depend on the instant. The locale
    \<open>audit_log\<close> is the contract of \<open>Append\<close>, and \<open>shared_audit_log\<close> that of a log to which others write as well, provided by the
    repository under any schedule of other clients' operations and transaction failures.
  \<^item> AuditSigner, AuditKeyFiles, AuditExport, ExportSize: checkpoints and their keys, export envelopes, their strict decoder.
  \<^item> Auth, ApiKeys, Oidc (\<open>internal/auth\<close>, migrations 000002, 000010 and 000011): principals, generated keys, bearers, the API-key
    tables and authenticator, OIDC tokens. Locales \<open>key_store\<close> and \<open>oidc_store\<close> are the contracts of the two stores.
  \<^item> Jwks, JwksCache: key-set parsing and fetching, and the cache under concurrent callers: the sections between lock and unlock
    of \<open>PublicKey\<close> are functions, the callers threads of an inductive step relation.
  \<^item> Backend (\<open>internal/backend\<close>): request parsing and encoding, the response, the client with its size limits and error mapping.
  \<^item> Detect (\<open>internal/detect\<close>): the classifiers for personal data, health terms and secrets.
  \<^item> Server, ServerTrace, ServerEvents, ServerSimulation, Gateway, Spending (\<open>internal/api/server.go\<close>): both handlers; the protocol of calls a
    request makes; that every event is valid; that the handler sees its collaborators only through their answers (locale
    \<open>server_simulation\<close>); the handler over the audit repository (Gateway, locale \<open>audited_server\<close>) and over the budget service (Spending, locale
    \<open>budgeted_server\<close>).
  \<^item> Config (\<open>internal/config\<close>), SafeLog (\<open>internal/safelog\<close>), Pool (\<open>internal/store\<close>), Ctl and CtlRuns (\<open>cmd\<close>, \<open>internal/version\<close>),
    Canary (\<open>tests/canary/sweep.go\<close>).
  \<^item> This theory: what needs several of them, an accepted export against the operator's chain and an accepted configuration
    against the constructors it feeds.

  Bounds and fuel. The JSON parser recurses on fuel; \<open>parse_fuel\<close> shows that twice the length of the input plus one is always
  enough, so that the fuel of \<open>read_value\<close> never changes a result, and the decoder's nesting limit of 10000 is modelled on its own.
  A repetition in a regular expression is unfolded at most once for every rune that is left, since a step that consumes nothing is not
  repeated; the IBAN scan ends by the measure \<open>length\<close>, and the word search, a partial function, is shown to return on every input.
  The size limits of the source (1 MiB requests, 512 MiB exports, 8 MiB files of a sweep, 256 groups and so on) are the limits of
  the definitions. Nothing else is bounded: lists of callers, operations and records are arbitrary.

  Parameters and what is assumed of them. SHA-256, HMAC-SHA-256 and Ed25519 are functions; collision freedom is a hypothesis
  restricted to the texts concerned, and unforgeability is stated of the messages the operator signed. \<open>url.Parse\<close>, float
  formatting and parsing, PEM and ASN.1 decoding, the YAML decoder, the HTTP transport, the JWT library (with \<open>jwt_contract\<close>, its
  documented promises), the PostgreSQL clock, identifiers drawn by the database, random bytes, the file system and the database driver
  (with lost replies and failed transactions) are parameters.

  Not modelled: HTTP response headers; the \<open>Logger\<close> field of the server's dependencies, which no handler uses;
  \<open>os.Exit\<close> and the process environment; contexts, except where a cancelled wait changes the result (JwksCache); the text of
  errors that no caller can see; concurrency inside PostgreSQL, where every procedure is one atomic step as its row locks
  make it; the zeroing of secrets in memory. In particular the calls of the budget procedures take effect in the order of their
  statement times (\<open>budget_reach\<close>): that a statement reads its time and then waits for a row lock while a later one goes
  first, which can matter around the end of a budget period, is not modelled.
\<close>

section \<open>Checkpoints and the chain\<close>

text \<open>The checkpoints an operator issues: each names a prefix of the operator's own chain.\<close>

definition issued_from :: "Record list \<Rightarrow> Checkpoint set \<Rightarrow> bool" where
  "issued_from history issued \<longleftrightarrow> (\<forall>c \<in> issued. \<exists>n \<le> length history. cp_ChainHeadHash c = head_hash (take n history))"

text \<open>Unforgeability: the verifier accepts only messages that are payloads of issued checkpoints.\<close>

definition unforgeable :: "(bytes \<Rightarrow> bytes \<Rightarrow> bytes \<Rightarrow> bool) \<Rightarrow> CheckpointVerificationKey \<Rightarrow> Checkpoint set \<Rightarrow> bool" where
  "unforgeable ed_verify key issued \<longleftrightarrow>
     (\<forall>m s. ed_verify (vk_publicKey key) m s \<longrightarrow>
        (\<exists>c \<in> issued. \<exists>payload. canonicalCheckpointPayload c = Inr payload \<and> m = checkpointSigningDomain @ payload))"

text \<open>
  A checkpoint pins the history before it: a chain that verifies and ends at the hash of an issued checkpoint is, record by
  record and up to the freedom of the encoding, the beginning of the operator's chain, unless SHA-256 collides.
\<close>

definition collision_free :: "(bytes \<Rightarrow> digest) \<Rightarrow> Record list \<Rightarrow> Record list \<Rightarrow> bool" where
  "collision_free sha256 rs qs \<longleftrightarrow> inj_on sha256 (chain_payloads rs \<union> chain_payloads qs) \<and>
     zero_digest \<notin> sha256 ` (chain_payloads rs \<union> chain_payloads qs)"

lemma checkpoint_pins_history:
  assumes "VerifyCheckpoint ed_verify c key = None" and "unforgeable ed_verify key issued" and "issued_from history issued"
    and "VerifyChain sha256 history = None" and "VerifyChain sha256 rs = None" and "head_hash rs = cp_ChainHeadHash c"
    and free: "collision_free sha256 rs history"
  shows "length rs \<le> length history \<and> map record_form rs = map record_form (take (length rs) history)"
proof -
  note cf = free [unfolded collision_free_def]
  from assms(1) obtain payload where p: "canonicalCheckpointPayload c = Inr payload"
    and v: "ed_verify (vk_publicKey key) (checkpointSigningDomain @ payload) (cp_Signature c)" by (auto simp: VerifyCheckpoint_None)
  from v assms(2) obtain d where d: "d \<in> issued" "canonicalCheckpointPayload d = Inr payload" by (auto simp: unforgeable_def)
  have "cp_ChainHeadHash d = cp_ChainHeadHash c" using canonicalCheckpointPayload_inject [OF p d(2)] by (cases c; cases d) simp
  with d(1) assms(3) obtain n where n: "n \<le> length history" "cp_ChainHeadHash c = head_hash (take n history)"
    unfolding issued_from_def by metis
  have prefix: "VerifyChain sha256 (take n history) = None"
    using VerifyChain_append_None [of sha256 "take n history" "drop n history"] assms(4) by simp
  have "chain_payloads (take n history) \<subseteq> chain_payloads history"
    using chain_payloads_simps(2) [of "take n history" "drop n history"] by auto
  then have sub: "chain_payloads rs \<union> chain_payloads (take n history) \<subseteq> chain_payloads rs \<union> chain_payloads history" by blast
  have "map record_form rs = map record_form (take n history)"
    using assms(6) n(2) cf sub by (intro chain_head_determines [OF assms(5) prefix _ inj_on_subset [OF conjunct1 [OF cf] sub]]) auto
  moreover from this have "length rs = n" using n(1) by (metis length_map length_take min.absorb2)
  ultimately show ?thesis using n(1) by simp
qed

definition sample_forgery_check :: "bytes \<Rightarrow> bytes \<Rightarrow> bytes \<Rightarrow> bool" where
  "sample_forgery_check k m s \<longleftrightarrow> toy_verify k m s \<and> (\<exists>payload. canonicalCheckpointPayload sample_checkpoint = Inr payload \<and>
     m = checkpointSigningDomain @ payload)"

lemma sample_checkpoint_accepted: "VerifyCheckpoint sample_forgery_check sample_checkpoint sample_vkey = None"
proof -
  define c0 where "c0 = \<lparr>cp_SchemaVersion = 1, cp_Sequence = 1, cp_ChainHeadHash = sample_digest,
     cp_SigningKeyID = ''k1'', cp_CreatedAt = sample_instant, cp_Signature = []\<rparr>"
  have c: "sample_checkpoint = c0\<lparr>cp_Signature := toy_sign [] (checkpointSigningDomain @ marshal (checkpoint_json c0))\<rparr>"
    by (simp add: sample_checkpoint_def c0_def)
  have "canonicalCheckpointPayload sample_checkpoint = Inr (marshal (checkpoint_json c0))"
    using sample_checkpoint_payload by (simp add: c c0_def)
  then show ?thesis
    by (simp add: VerifyCheckpoint_None sample_forgery_check_def toy_verify_def)
      (simp add: c c0_def sample_vkey_def toy_sign_def)
qed

text \<open>
  C29. What an auditor accepts is the operator's history. If signatures cannot be forged and the operator signs only heads of its
  own verifying chain, then a file that passes \<open>VerifyExport\<close> is the export of some chain, and unless SHA-256 collides on the
  encodings of the two chains, that chain is, record by record and up to the freedom of the encoding, the beginning of the
  operator's: nothing in an accepted export has been changed, dropped or inserted.
\<close>

theorem accepted_export_is_history:
  assumes "VerifyExport sha256 ed_verify b key = None" and "unforgeable ed_verify key issued" and "issued_from history issued"
    and "VerifyChain sha256 history = None"
  shows "\<exists>rs c. MarshalExport sha256 rs c = Inr b \<and>
    (collision_free sha256 rs history \<longrightarrow>
       length rs \<le> length history \<and> map record_form rs = map record_form (take (length rs) history))"
proof -
  from VerifyExport_sound [OF assms(1)] obtain rs c
    where m: "MarshalExport sha256 rs c = Inr b" and v: "VerifyCheckpoint ed_verify c key = None" by blast
  from m have "VerifyChain sha256 rs = None" "head_hash rs = cp_ChainHeadHash c" by (simp_all add: MarshalExport_Inr_iff head_hash_def)
  then show ?thesis using m checkpoint_pins_history [OF v assms(2-4)] by blast
qed

lemma sample_export:
  assumes "validCodeSet codes"
  shows "\<exists>b. MarshalExport (\<lambda>_. sample_digest) [sample_record codes] sample_checkpoint = Inr b \<and>
    VerifyExport (\<lambda>_. sample_digest) sample_forgery_check b sample_vkey = None"
proof -
  have cp: "cp_Sequence sample_checkpoint = 1" "cp_ChainHeadHash sample_checkpoint = sample_digest" "length (cp_Signature sample_checkpoint) = 64"
    by (simp_all add: sample_checkpoint_def Let_def toy_sign_def)
  obtain payload where "canonicalCheckpointPayload sample_checkpoint = Inr payload"
    using sample_checkpoint_accepted by (auto simp: VerifyCheckpoint_None)
  then have m: "MarshalExport (\<lambda>_. sample_digest) [sample_record codes] sample_checkpoint =
      Inr (envelope_text (export_wire [sample_record codes] sample_checkpoint))"
    using sample_chain [OF assms] cp by (simp add: MarshalExport_Inr_iff sample_record_def)
  have "event_Validate (canonical_form (sample_event codes UTC))"
    using sample_event_valid [OF assms, of UTC] canonical_form_valid [of "sample_event codes UTC"] by (simp add: sample_event_def time_is_UTC_def)
  then show ?thesis using VerifyExport_accepts [OF m sample_checkpoint_accepted] m by (auto simp: sample_record_def)
qed

theorem accepted_export_is_history_witness:
  "\<exists>b. VerifyExport (\<lambda>_. sample_digest) sample_forgery_check b sample_vkey = None \<and>
     (\<exists>rs c. MarshalExport (\<lambda>_. sample_digest) rs c = Inr b \<and>
        (collision_free (\<lambda>_. sample_digest) rs [sample_record [''a'', ''b'']] \<longrightarrow>
         length rs \<le> 1 \<and> map record_form rs = map record_form (take (length rs) [sample_record [''a'', ''b'']])))"
proof -
  let ?qs = "[sample_record [''a'', ''b'']]"
  obtain b where b: "VerifyExport (\<lambda>_. sample_digest) sample_forgery_check b sample_vkey = None"
    using sample_export [OF sample_codes(1)] by blast
  have head: "cp_ChainHeadHash sample_checkpoint = head_hash (take 1 ?qs)"
    by (simp add: sample_checkpoint_def Let_def head_hash_def sample_record_def)
  have un: "unforgeable sample_forgery_check sample_vkey {sample_checkpoint}" by (simp add: unforgeable_def sample_forgery_check_def)
  have iss: "issued_from ?qs {sample_checkpoint}" using head by (auto simp: issued_from_def intro!: exI [of _ 1])
  show ?thesis using accepted_export_is_history [OF b un iss sample_chain [OF sample_codes(2)]] b by (intro exI [of _ b]) simp
qed

section \<open>Configuration\<close>

text \<open>
  C36. A configuration that loads is one the components can be built from: the backend client, the key-set cache and the token
  authenticator check their settings with validators of their own, and all of them accept what \<open>Load\<close> has accepted, for any
  positive timeout and lifetime and any leeway up to two minutes. The only assumption is that a parsed address with a host name
  has a host.
\<close>

theorem loaded_configuration_constructs:
  assumes load: "Load url_parse yaml_decode yaml_eof reader = Inr cfg"
    and times: "0 <s timeout" "0 <s ttl" "0 \<le>s leeway" "leeway \<le>s 120000000000"
    and hosts: "\<And>raw u. url_parse raw = Some u \<Longrightarrow> url_Host u = [] \<Longrightarrow> url_Hostname u = []"
  shows "(\<exists>client. NewClient url_parse \<lparr>bc_BaseURL = cfg_BaseURL (cfg_Backend cfg), bc_Credential = credential, bc_Timeout = timeout,
      bc_MaxResponseBytes = cfg_MaxResponseBytes (cfg_Server cfg), bc_AllowInsecure = cfg_AllowInsecure (cfg_Backend cfg)\<rparr> = Inr client) \<and>
    (\<exists>cache. NewJWKSCache url_parse (cfg_JWKSURL (cfg_OIDC cfg)) ttl True = Inr cache) \<and>
    (\<exists>authenticator. NewOIDCAuthenticator sha256 True (cfg_Issuer (cfg_OIDC cfg)) (cfg_Audience (cfg_OIDC cfg))
       (cfg_GroupClaim (cfg_OIDC cfg)) leeway = Inr authenticator)"
proof -
  have valid: "config_Validate url_parse cfg = None" using load by (simp add: Load_Inr)
  then have ok: "settings_ok url_parse cfg" by (simp add: config_Validate_None)
  have "validateJWKSURL url_parse (cfg_JWKSURL (cfg_OIDC cfg))"
    using ok by (auto simp: settings_ok_def validateJWKSURL_def plain_url_def split: option.splits)
  moreover have "cfg_Issuer (cfg_OIDC cfg) \<noteq> []" "cfg_Audience (cfg_OIDC cfg) \<noteq> []" "cfg_GroupClaim (cfg_OIDC cfg) \<noteq> []"
      "oidcGroupClaimPattern (cfg_GroupClaim (cfg_OIDC cfg))"
    using ok by (auto simp: settings_ok_def oidcGroupClaimPattern_def oidcGroupClaimNamePattern_def)
  ultimately show ?thesis
    using accepted_backend_constructs [OF valid times(1) hosts] times(2-4)
    by (simp add: NewJWKSCache_def NewOIDCAuthenticator_def int64_order not_le not_less)
qed

theorem loaded_configuration_constructs_witness:
  "\<exists>cache. NewJWKSCache sample_url_parse ''https://h'' 300000000000 True = Inr cache"
proof -
  have "\<not> blank ''m''" by simp
  then have load: "Load sample_url_parse (\<lambda>_. Some (sample_config ''m'', ())) (\<lambda>_. True) () = Inr (sample_config ''m'')"
    by (simp add: Load_Inr sample_config_accepted)
  have times: "0 <s (1 :: int64)" "0 <s (300000000000 :: int64)" "0 \<le>s (0 :: int64)" "(0 :: int64) \<le>s 120000000000" by (simp_all add: int64_order)
  have "cfg_JWKSURL (cfg_OIDC (sample_config ''m'')) = ''https://h''" by (simp add: sample_config_def Let_def)
  then show ?thesis
    using loaded_configuration_constructs [OF load times, of "[]" "\<lambda>_. sample_digest"] by (simp add: sample_url_parse_def)
qed

text \<open>
  A model name may pass the configuration and be unusable: \<open>Validate\<close> only asks that it is not blank, while audit events and
  budget reservations take identifiers.
\<close>

lemma accepted_model_name_unusable:
  "config_Validate sample_url_parse (sample_config ''my model'') = None \<and> \<not> identifierPattern ''my model'' \<and> \<not> budget_modelPattern ''my model''"
proof -
  have "\<not> blank ''my model''" by simp
  then show ?thesis by (simp add: sample_config_accepted pattern_defs char_class_defs)
qed

end
